(* ===== verification/Tersa_Prelude.thy ===== *)
theory Tersa_Prelude
  imports Main "HOL-Library.Word" "HOL-Library.Char_ord" "HOL-Library.List_Lexorder"
    "HOL-Library.Sublist" "HOL-Library.Code_Target_Nat"
begin

text \<open>
  Shared vocabulary of the development: results as sums, Rust strings as UTF-8 byte
  lists, the byte and code-point classes that the validators use, a stable sort by a
  caller-supplied order (SQL's ORDER BY), and small list facts. A Rust \<open>String\<close> and a
  \<open>Vec<u8>\<close> are both a \<open>char list\<close> here, one \<open>char\<close> for each byte, so \<open>length\<close> is the
  byte length that \<open>len()\<close> returns; the code points of a string are \<open>utf8_decode\<close> of it.
\<close>

named_theorems result_simps \<open>unfolding of the result combinators\<close>
named_theorems wf_intros \<open>introduction of well-formedness facts\<close>

section \<open>Results\<close>

text \<open>\<open>Result<T, E>\<close> is \<open>'e + 'a\<close>: \<open>Inl\<close> is \<open>Err\<close> and \<open>Inr\<close> is \<open>Ok\<close>.\<close>

fun rbind :: "'e + 'a \<Rightarrow> ('a \<Rightarrow> 'e + 'b) \<Rightarrow> 'e + 'b" where
  "rbind (Inl e) f = Inl e"
| "rbind (Inr a) f = f a"

fun map_err :: "('e \<Rightarrow> 'f) \<Rightarrow> 'e + 'a \<Rightarrow> 'f + 'a" where
  "map_err g (Inl e) = Inl (g e)"
| "map_err g (Inr a) = Inr a"

fun map_ok :: "('a \<Rightarrow> 'b) \<Rightarrow> 'e + 'a \<Rightarrow> 'e + 'b" where
  "map_ok g (Inl e) = Inl e"
| "map_ok g (Inr a) = Inr (g a)"

fun is_ok :: "'e + 'a \<Rightarrow> bool" where
  "is_ok (Inl e) = False"
| "is_ok (Inr a) = True"

fun ok_or :: "'e \<Rightarrow> 'a option \<Rightarrow> 'e + 'a" where
  "ok_or e None = Inl e"
| "ok_or e (Some a) = Inr a"

lemma rbind_Inr [result_simps]: "rbind r f = Inr b \<longleftrightarrow> (\<exists>a. r = Inr a \<and> f a = Inr b)"
  by (cases r) auto

lemma rbind_Inl [result_simps]:
  "rbind r f = Inl e \<longleftrightarrow> r = Inl e \<or> (\<exists>a. r = Inr a \<and> f a = Inl e)"
  by (cases r) auto

lemma map_err_Inr [simp]: "map_err g r = Inr a \<longleftrightarrow> r = Inr a"
  by (cases r) auto

lemma map_err_Inl [result_simps]: "map_err g r = Inl e \<longleftrightarrow> (\<exists>d. r = Inl d \<and> e = g d)"
  by (cases r) auto

lemma map_ok_Inl [simp]: "map_ok g r = Inl e \<longleftrightarrow> r = Inl e"
  by (cases r) auto

lemma map_ok_Inr [result_simps]: "map_ok g r = Inr b \<longleftrightarrow> (\<exists>a. r = Inr a \<and> b = g a)"
  by (cases r) auto

lemma is_ok_iff: "is_ok r \<longleftrightarrow> (\<exists>a. r = Inr a)"
  by (cases r) auto

section \<open>Bytes and code points\<close>

abbreviation byte :: "char \<Rightarrow> nat" where
  "byte c \<equiv> of_char c"

lemma byte_less_256 [simp]: "byte c < 256"
  using of_char_mod_256 [of c] by (metis mod_less_divisor zero_less_numeral)

definition is_ascii_graphic :: "char \<Rightarrow> bool" where
  "is_ascii_graphic c \<longleftrightarrow> 33 \<le> byte c \<and> byte c \<le> 126"

definition is_ascii_digit :: "char \<Rightarrow> bool" where
  "is_ascii_digit c \<longleftrightarrow> 48 \<le> byte c \<and> byte c \<le> 57"

definition is_ascii_alphanumeric :: "char \<Rightarrow> bool" where
  "is_ascii_alphanumeric c \<longleftrightarrow>
     is_ascii_digit c \<or> 65 \<le> byte c \<and> byte c \<le> 90 \<or> 97 \<le> byte c \<and> byte c \<le> 122"

definition is_ascii_hexdigit :: "char \<Rightarrow> bool" where
  "is_ascii_hexdigit c \<longleftrightarrow>
     is_ascii_digit c \<or> 65 \<le> byte c \<and> byte c \<le> 70 \<or> 97 \<le> byte c \<and> byte c \<le> 102"

text \<open>\<open>u8::is_ascii_whitespace\<close>: space, tab, line feed, form feed, carriage return.\<close>

definition is_ascii_whitespace :: "char \<Rightarrow> bool" where
  "is_ascii_whitespace c \<longleftrightarrow> byte c \<in> {32, 9, 10, 12, 13}"

definition to_ascii_lower :: "char \<Rightarrow> char" where
  "to_ascii_lower c = (if 65 \<le> byte c \<and> byte c \<le> 90 then char_of (byte c + 32) else c)"

definition eq_ignore_ascii_case :: "string \<Rightarrow> string \<Rightarrow> bool" where
  "eq_ignore_ascii_case s t \<longleftrightarrow> map to_ascii_lower s = map to_ascii_lower t"

text \<open>\<open>char::is_control\<close>: the Unicode general category Cc, which is C0, DEL and C1.\<close>

definition is_control :: "nat \<Rightarrow> bool" where
  "is_control n \<longleftrightarrow> n < 32 \<or> 127 \<le> n \<and> n \<le> 159"

text \<open>\<open>char::is_whitespace\<close>: the code points with the Unicode property White\_Space.\<close>

definition is_whitespace :: "nat \<Rightarrow> bool" where
  "is_whitespace n \<longleftrightarrow> 9 \<le> n \<and> n \<le> 13
     \<or> n \<in> {32, 133, 160, 5760, 8232, 8233, 8239, 8287, 12288} \<or> 8192 \<le> n \<and> n \<le> 8202"

text \<open>A Unicode scalar value: what a Rust \<open>char\<close> can hold.\<close>

definition is_scalar :: "nat \<Rightarrow> bool" where
  "is_scalar n \<longleftrightarrow> n < 55296 \<or> 57344 \<le> n \<and> n < 1114112"

definition utf8_encode1 :: "nat \<Rightarrow> string" where
  "utf8_encode1 n =
     (if n < 128 then [char_of n]
      else if n < 2048 then [char_of (192 + n div 64), char_of (128 + n mod 64)]
      else if n < 65536 then
        [char_of (224 + n div 4096), char_of (128 + n div 64 mod 64), char_of (128 + n mod 64)]
      else [char_of (240 + n div 262144), char_of (128 + n div 4096 mod 64),
        char_of (128 + n div 64 mod 64), char_of (128 + n mod 64)])"

definition utf8_encode :: "nat list \<Rightarrow> string" where
  "utf8_encode cps = concat (map utf8_encode1 cps)"

fun utf8_decode :: "string \<Rightarrow> nat list" where
  "utf8_decode [] = []"
| "utf8_decode (a # s) =
     (if byte a < 128 then byte a # utf8_decode s
      else if byte a < 224 then
        (case s of
           b # s' \<Rightarrow> (byte a mod 32 * 64 + byte b mod 64) # utf8_decode s'
         | _ \<Rightarrow> [])
      else if byte a < 240 then
        (case s of
           b # c # s' \<Rightarrow>
             (byte a mod 16 * 4096 + byte b mod 64 * 64 + byte c mod 64) # utf8_decode s'
         | _ \<Rightarrow> [])
      else
        (case s of
           b # c # d # s' \<Rightarrow>
             (byte a mod 8 * 262144 + byte b mod 64 * 4096 + byte c mod 64 * 64 + byte d mod 64)
               # utf8_decode s'
         | _ \<Rightarrow> []))"

text \<open>
  A byte list is valid UTF-8 (what \<open>str::from_utf8\<close> accepts) when it is the encoding of
  scalar values: this rules out overlong forms, surrogates and truncated sequences.
\<close>

definition utf8_valid :: "string \<Rightarrow> bool" where
  "utf8_valid s \<longleftrightarrow> list_all is_scalar (utf8_decode s) \<and> utf8_encode (utf8_decode s) = s"

lemma utf8_encode_Nil [simp]: "utf8_encode [] = []"
  by (simp add: utf8_encode_def)

lemma utf8_encode_Cons [simp]: "utf8_encode (n # ns) = utf8_encode1 n @ utf8_encode ns"
  by (simp add: utf8_encode_def)

lemma base64_digits2: "(n::nat) div 64 * 64 + n mod 64 = n"
  by simp

lemma base64_digits3: "(n::nat) div 4096 * 4096 + n div 64 mod 64 * 64 + n mod 64 = n"
proof -
  have "n div 4096 * 4096 + n div 64 mod 64 * 64 + n mod 64
      = (n div 64 div 64 * 64 + n div 64 mod 64) * 64 + n mod 64"
    by (simp add: div_mult2_eq [symmetric] algebra_simps)
  then show ?thesis by (simp only: base64_digits2)
qed

lemma base64_digits4:
  "(n::nat) div 262144 * 262144 + n div 4096 mod 64 * 4096 + n div 64 mod 64 * 64 + n mod 64 = n"
proof -
  have "n div 262144 * 262144 + n div 4096 mod 64 * 4096
      = (n div 4096 div 64 * 64 + n div 4096 mod 64) * 4096"
    by (simp add: div_mult2_eq [symmetric] algebra_simps)
  then show ?thesis by (simp only: base64_digits2 base64_digits3)
qed

lemma lead_byte_mods:
  fixes x :: nat
  shows "(192 + x) mod 32 = x mod 32" "(224 + x) mod 16 = x mod 16" "(240 + x) mod 8 = x mod 8"
    "(128 + x) mod 64 = x mod 64"
  using mod_mult_self3 [of 6 32 x] mod_mult_self3 [of 14 16 x] mod_mult_self3 [of 30 8 x]
    mod_mult_self3 [of 2 64 x] by simp_all

lemma utf8_decode_encode1:
  assumes "n < 1114112"
  shows "utf8_decode (utf8_encode1 n @ s) = n # utf8_decode s"
proof -
  consider "n < 128" | "128 \<le> n" "n < 2048" | "2048 \<le> n" "n < 65536" | "65536 \<le> n"
    by linarith
  then show ?thesis
  proof cases
    case 1
    then show ?thesis by (simp add: utf8_encode1_def)
  next
    case 2
    then have "n div 64 < 32" by linarith
    with 2 show ?thesis
      using base64_digits2 [of n] by (auto simp: utf8_encode1_def lead_byte_mods)
  next
    case 3
    then have "n div 4096 < 16" by linarith
    with 3 show ?thesis
      using base64_digits3 [of n] by (auto simp: utf8_encode1_def lead_byte_mods)
  next
    case 4
    then have "n div 262144 < 8" using assms by linarith
    with 4 show ?thesis
      using base64_digits4 [of n] by (auto simp: utf8_encode1_def lead_byte_mods)
  qed
qed

lemma utf8_decode_encode [simp]:
  "list_all is_scalar ns \<Longrightarrow> utf8_decode (utf8_encode ns) = ns"
  by (induction ns) (auto simp: utf8_decode_encode1 is_scalar_def)

lemma utf8_valid_encode [wf_intros]: "list_all is_scalar ns \<Longrightarrow> utf8_valid (utf8_encode ns)"
  by (simp add: utf8_valid_def)

lemma utf8_decode_ascii: "list_all (\<lambda>c. byte c < 128) s \<Longrightarrow> utf8_decode s = map byte s"
  by (induction s) auto

lemma utf8_encode_ascii: "list_all (\<lambda>c. byte c < 128) s \<Longrightarrow> utf8_encode (map byte s) = s"
  by (induction s) (auto simp: utf8_encode1_def)

lemma utf8_valid_ascii [wf_intros]: "list_all (\<lambda>c. byte c < 128) s \<Longrightarrow> utf8_valid s"
  by (auto simp: utf8_valid_def utf8_decode_ascii utf8_encode_ascii list_all_iff is_scalar_def)

lemma ascii_graphic_less_128: "list_all is_ascii_graphic s \<Longrightarrow> list_all (\<lambda>c. byte c < 128) s"
  by (auto simp: list_all_iff is_ascii_graphic_def)

section \<open>String operations of the Rust standard library\<close>

text \<open>\<open>str::trim\<close>: leading and trailing code points with White\_Space are dropped.\<close>

definition str_trim :: "string \<Rightarrow> string" where
  "str_trim s =
     utf8_encode (rev (dropWhile is_whitespace (rev (dropWhile is_whitespace (utf8_decode s)))))"

text \<open>\<open>str.chars().any(char::is_control)\<close>.\<close>

definition any_control :: "string \<Rightarrow> bool" where
  "any_control s \<longleftrightarrow> list_ex is_control (utf8_decode s)"

text \<open>
  \<open>str::split\<close> on one ASCII character keeps empty pieces and always yields at least one
  piece; \<open>split_ascii_whitespace\<close> drops the empty ones.
\<close>

fun split_on :: "('a \<Rightarrow> bool) \<Rightarrow> 'a list \<Rightarrow> 'a list list" where
  "split_on p [] = [[]]"
| "split_on p (c # s) =
     (if p c then [] # split_on p s
      else (case split_on p s of [] \<Rightarrow> [[c]] | w # ws \<Rightarrow> (c # w) # ws))"

definition split_char :: "char \<Rightarrow> string \<Rightarrow> string list" where
  "split_char d = split_on (\<lambda>c. c = d)"

definition split_ascii_whitespace :: "string \<Rightarrow> string list" where
  "split_ascii_whitespace s = filter (\<lambda>w. w \<noteq> []) (split_on is_ascii_whitespace s)"

text \<open>\<open>str::split_whitespace\<close>: the non-empty pieces between White\_Space code points; \<open>join\<close>.\<close>

definition split_whitespace :: "string \<Rightarrow> string list" where
  "split_whitespace s =
     map utf8_encode (filter (\<lambda>w. w \<noteq> []) (split_on is_whitespace (utf8_decode s)))"

fun join_str :: "string \<Rightarrow> string list \<Rightarrow> string" where
  "join_str sep [] = []"
| "join_str sep [w] = w"
| "join_str sep (w # ws) = w @ sep @ join_str sep ws"

text \<open>\<open>to_string\<close> of an unsigned integer.\<close>

fun show_nat :: "nat \<Rightarrow> string" where
  "show_nat n =
     (if n < 10 then [char_of (48 + n)] else show_nat (n div 10) @ [char_of (48 + n mod 10)])"

declare show_nat.simps [simp del]

text \<open>\<open>str::find\<close> for a substring: the byte index of its first occurrence.\<close>

fun find_str :: "string \<Rightarrow> string \<Rightarrow> nat option" where
  "find_str pat [] = (if pat = [] then Some 0 else None)"
| "find_str pat (c # s) =
     (if prefix pat (c # s) then Some 0 else map_option Suc (find_str pat s))"

definition contains_str :: "string \<Rightarrow> string \<Rightarrow> bool" where
  "contains_str pat s \<longleftrightarrow> find_str pat s \<noteq> None"

lemma find_str_Some: "find_str pat s = Some i \<Longrightarrow> i \<le> length s \<and> prefix pat (drop i s)"
  by (induction s arbitrary: i) (auto split: if_splits)

lemma find_str_None: "find_str pat s = None \<longleftrightarrow> \<not> sublist pat s"
  by (induction s) (auto simp: sublist_Cons_right)

lemma contains_str_iff: "contains_str pat s \<longleftrightarrow> sublist pat s"
  by (simp add: contains_str_def find_str_None)

lemma split_on_not_Nil [simp]: "split_on p s \<noteq> []"
  by (cases s) (auto split: list.splits)

lemma split_on_pieces: "w \<in> set (split_on p s) \<Longrightarrow> \<forall>c\<in>set w. \<not> p c"
  by (induction s arbitrary: w) (fastforce split: if_splits list.splits)+

lemma split_ascii_whitespace_pieces:
  "w \<in> set (split_ascii_whitespace s) \<Longrightarrow> w \<noteq> [] \<and> (\<forall>c\<in>set w. \<not> is_ascii_whitespace c)"
  by (auto simp: split_ascii_whitespace_def dest: split_on_pieces)

lemma str_trim_idem:
  assumes "utf8_valid s"
  shows "str_trim (str_trim s) = str_trim s"
proof -
  define t where "t = rev (dropWhile is_whitespace (rev (dropWhile is_whitespace (utf8_decode s))))"
  have sub: "set t \<subseteq> set (utf8_decode s)"
    by (auto simp: t_def dest!: set_dropWhileD)
  then have "list_all is_scalar t"
    using assms by (auto simp: utf8_valid_def list_all_iff)
  then have dec: "utf8_decode (utf8_encode t) = t" by simp
  have last: "t = [] \<or> \<not> is_whitespace (last t)"
    using hd_dropWhile [of is_whitespace "rev (dropWhile is_whitespace (utf8_decode s))"]
    by (auto simp: t_def last_rev)
  have "t = [] \<or> \<not> is_whitespace (hd t)"
  proof (cases "t = []")
    case False
    define u where "u = dropWhile is_whitespace (utf8_decode s)"
    obtain v where v: "u = t @ v"
      unfolding t_def u_def by (metis rev_rev_ident rev_append takeWhile_dropWhile_id)
    with False have "u \<noteq> []" "hd t = hd u" by auto
    then show ?thesis unfolding u_def by (metis hd_dropWhile)
  qed simp
  then have "dropWhile is_whitespace t = t"
    by (cases t) auto
  moreover have "dropWhile is_whitespace (rev t) = rev t"
    using last by (cases t rule: rev_cases) auto
  ultimately show ?thesis
    unfolding str_trim_def t_def [symmetric] dec by simp
qed

section \<open>Ordering rows\<close>

text \<open>
  A stable insertion sort by a caller-supplied order, for SQL's ORDER BY. What an order
  must promise, and what the sorted list then satisfies, is the interface of the locale.
\<close>

fun insort_by :: "('a \<Rightarrow> 'a \<Rightarrow> bool) \<Rightarrow> 'a \<Rightarrow> 'a list \<Rightarrow> 'a list" where
  "insort_by le x [] = [x]"
| "insort_by le x (y # ys) = (if le x y then x # y # ys else y # insort_by le x ys)"

definition sort_by :: "('a \<Rightarrow> 'a \<Rightarrow> bool) \<Rightarrow> 'a list \<Rightarrow> 'a list" where
  "sort_by le xs = foldr (insort_by le) xs []"

lemma sort_by_simps [simp]:
  "sort_by le [] = []" "sort_by le (x # xs) = insort_by le x (sort_by le xs)"
  by (simp_all add: sort_by_def)

lemma set_insort_by [simp]: "set (insort_by le x xs) = insert x (set xs)"
  by (induction xs) auto

lemma length_insort_by [simp]: "length (insort_by le x xs) = Suc (length xs)"
  by (induction xs) auto

lemma distinct_insort_by [simp]: "distinct (insort_by le x xs) \<longleftrightarrow> x \<notin> set xs \<and> distinct xs"
  by (induction xs) auto

lemma set_sort_by [simp]: "set (sort_by le xs) = set xs"
  by (induction xs) auto

lemma length_sort_by [simp]: "length (sort_by le xs) = length xs"
  by (induction xs) auto

lemma distinct_map_insort_by:
  "distinct (map f (insort_by le x xs)) \<longleftrightarrow> f x \<notin> f ` set xs \<and> distinct (map f xs)"
  by (induction xs) auto

lemma distinct_map_sort_by [simp]: "distinct (map f (sort_by le xs)) \<longleftrightarrow> distinct (map f xs)"
  by (induction xs) (auto simp: distinct_map_insort_by)

lemma sort_by_sorted: "sorted_wrt le xs \<Longrightarrow> sort_by le xs = xs"
proof (induction xs)
  case (Cons x xs)
  then show ?case by (cases xs) auto
qed simp

locale row_order =
  fixes le :: "'a \<Rightarrow> 'a \<Rightarrow> bool"
  assumes order_total: "le x y \<or> le y x"
    and order_trans: "le x y \<Longrightarrow> le y z \<Longrightarrow> le x z"
begin

lemma sorted_insort_by: "sorted_wrt le xs \<Longrightarrow> sorted_wrt le (insort_by le x xs)"
proof (induction xs)
  case (Cons y ys)
  then show ?case using order_total [of x y] by (auto intro: order_trans)
qed simp

lemma sorted_sort_by: "sorted_wrt le (sort_by le xs)"
  by (induction xs) (auto simp: sorted_insort_by)

text \<open>Every row kept by a LIMIT precedes every row it cut off.\<close>

lemma limit_keeps_first:
  assumes "x \<in> set (take n (sort_by le xs))" and "y \<in> set (drop n (sort_by le xs))"
  shows "le x y"
  using sorted_sort_by [of xs] assms
  by (metis append_take_drop_id sorted_wrt_append)

end

section \<open>List facts\<close>

lemma distinct_map_take [simp]: "distinct (map f xs) \<Longrightarrow> distinct (map f (take n xs))"
  by (metis distinct_take take_map)

lemma distinct_mapD1: "distinct (map f xs) \<Longrightarrow> distinct xs"
  by (simp add: distinct_map)

lemma list_all_takeD: "list_all P xs \<Longrightarrow> list_all P (take n xs)"
  by (auto simp: list_all_iff dest: in_set_takeD)

text \<open>The first occurrence of each element, in encounter order.\<close>

definition first_occurrences :: "'a list \<Rightarrow> 'a list" where
  "first_occurrences xs = rev (remdups (rev xs))"

lemma first_occurrences_snoc:
  "first_occurrences (xs @ [x]) =
    (if x \<in> set xs then first_occurrences xs else first_occurrences xs @ [x])"
  by (simp add: first_occurrences_def)

lemma set_first_occurrences [simp]: "set (first_occurrences xs) = set xs"
  by (simp add: first_occurrences_def)

lemma distinct_first_occurrences [simp]: "distinct (first_occurrences xs)"
  by (simp add: first_occurrences_def)

lemma first_occurrences_distinct [simp]: "distinct xs \<Longrightarrow> first_occurrences xs = xs"
  by (simp add: first_occurrences_def distinct_remdups_id)

lemma first_occurrences_append:
  "first_occurrences (first_occurrences xs @ ys) = first_occurrences (xs @ ys)"
proof (induction ys rule: rev_induct)
  case Nil
  then show ?case by simp
next
  case (snoc y ys)
  then show ?case
    by (simp only: append_assoc [symmetric] first_occurrences_snoc) simp
qed

lemma first_occurrences_Nil [simp]: "first_occurrences [] = []"
  by (simp add: first_occurrences_def)

lemma first_occurrences_Cons:
  "first_occurrences (x # xs) = x # filter (\<lambda>y. y \<noteq> x) (first_occurrences xs)"
proof (induction xs rule: rev_induct)
  case Nil
  then show ?case by (simp add: first_occurrences_def)
next
  case (snoc y ys)
  then show ?case
    using first_occurrences_snoc [of "x # ys" y] first_occurrences_snoc [of ys y] by auto
qed

lemma subseq_first_occurrences: "subseq (first_occurrences xs) xs"
  by (induction xs) (auto simp: first_occurrences_Cons intro: subseq_order.trans subseq_filter_left)

end
