(* ===== verification/Domain_Mailbox.thy ===== *)
theory Domain_Mailbox
  imports Tersa_Prelude
begin

text \<open>
  The portable mailbox values of \<^verbatim>\<open>crates/domain/src/mailbox.rs\<close>: identifiers, timestamps,
  header text, envelopes and message content, each with the validating constructor of the
  code. A Rust newtype is a one-constructor datatype; the predicates \<open>*_ok\<close> say what a
  value built by the validating constructor satisfies.
\<close>

section \<open>Errors\<close>

datatype mailbox_invariant_error =
    MI_Empty
  | MI_TooLong nat nat
  | MI_InvalidCharacter
  | MI_EmailShapedAccountId
  | MI_NegativeTimestamp

datatype message_content_error = TooLarge nat

definition MAX_IDENTIFIER_LEN :: nat where "MAX_IDENTIFIER_LEN = 256"
definition MAX_HEADER_LEN :: nat where "MAX_HEADER_LEN = 1024"
definition MAX_CONTENT_LEN :: nat where "MAX_CONTENT_LEN = 64 * 1024 * 1024"

section \<open>Identifiers\<close>

definition validate_identifier :: "string \<Rightarrow> mailbox_invariant_error + unit" where
  "validate_identifier value =
     (if value = [] then Inl MI_Empty
      else if length value > MAX_IDENTIFIER_LEN then
        Inl (MI_TooLong (length value) MAX_IDENTIFIER_LEN)
      else if \<not> list_all is_ascii_graphic value then Inl MI_InvalidCharacter
      else Inr ())"

definition validate_account_identifier :: "string \<Rightarrow> mailbox_invariant_error + unit" where
  "validate_account_identifier value =
     rbind (validate_identifier value)
       (\<lambda>_. if CHR ''@'' \<in> set value then Inl MI_EmailShapedAccountId else Inr ())"

datatype account_id = AccountId (account_id_str: string)
datatype message_id = MessageId (message_id_str: string)
datatype thread_id = ThreadId (thread_id_str: string)

definition account_id_new :: "string \<Rightarrow> mailbox_invariant_error + account_id" where
  "account_id_new value = rbind (validate_account_identifier value) (\<lambda>_. Inr (AccountId value))"

definition message_id_new :: "string \<Rightarrow> mailbox_invariant_error + message_id" where
  "message_id_new value = rbind (validate_identifier value) (\<lambda>_. Inr (MessageId value))"

definition thread_id_new :: "string \<Rightarrow> mailbox_invariant_error + thread_id" where
  "thread_id_new value = rbind (validate_identifier value) (\<lambda>_. Inr (ThreadId value))"

definition identifier_text :: "string \<Rightarrow> bool" where
  "identifier_text s \<longleftrightarrow> s \<noteq> [] \<and> length s \<le> MAX_IDENTIFIER_LEN \<and> list_all is_ascii_graphic s"

definition account_id_ok :: "account_id \<Rightarrow> bool" where
  "account_id_ok a \<longleftrightarrow> identifier_text (account_id_str a) \<and> CHR ''@'' \<notin> set (account_id_str a)"

definition message_id_ok :: "message_id \<Rightarrow> bool" where
  "message_id_ok m \<longleftrightarrow> identifier_text (message_id_str m)"

definition thread_id_ok :: "thread_id \<Rightarrow> bool" where
  "thread_id_ok t \<longleftrightarrow> identifier_text (thread_id_str t)"

lemma validate_identifier_Inr [simp]: "validate_identifier s = Inr u \<longleftrightarrow> identifier_text s"
  by (cases u) (auto simp: validate_identifier_def identifier_text_def)

lemma account_id_new_Inr [simp]:
  "account_id_new s = Inr a \<longleftrightarrow> a = AccountId s \<and> account_id_ok (AccountId s)"
  by (auto simp: account_id_new_def validate_account_identifier_def account_id_ok_def
      result_simps split: if_splits)

lemma message_id_new_Inr [simp]:
  "message_id_new s = Inr m \<longleftrightarrow> m = MessageId s \<and> message_id_ok (MessageId s)"
  by (auto simp: message_id_new_def message_id_ok_def result_simps)

lemma thread_id_new_Inr [simp]:
  "thread_id_new s = Inr t \<longleftrightarrow> t = ThreadId s \<and> thread_id_ok (ThreadId s)"
  by (auto simp: thread_id_new_def thread_id_ok_def result_simps)

lemma identifier_text_valid [wf_intros]: "identifier_text s \<Longrightarrow> utf8_valid s"
  by (auto simp: identifier_text_def intro: utf8_valid_ascii ascii_graphic_less_128)

text \<open>Identifiers are ordered by their bytes, as SQLite's BINARY collation orders them.\<close>

instantiation message_id :: linorder
begin

definition less_eq_message_id :: "message_id \<Rightarrow> message_id \<Rightarrow> bool" where
  "less_eq_message_id a b \<longleftrightarrow> message_id_str a \<le> message_id_str b"

definition less_message_id :: "message_id \<Rightarrow> message_id \<Rightarrow> bool" where
  "less_message_id a b \<longleftrightarrow> message_id_str a < message_id_str b"

instance
  by standard
    (auto simp: less_eq_message_id_def less_message_id_def intro: message_id.expand)

end

section \<open>Timestamps, headers, content\<close>

datatype unix_timestamp_millis = UnixTimestampMillis (as_millis: int)

definition unix_timestamp_new :: "int \<Rightarrow> mailbox_invariant_error + unix_timestamp_millis" where
  "unix_timestamp_new value =
     (if value < 0 then Inl MI_NegativeTimestamp else Inr (UnixTimestampMillis value))"

text \<open>The \<open>i64\<close> of the code: a timestamp is a nonnegative 64-bit integer.\<close>

definition is_i64 :: "int \<Rightarrow> bool" where
  "is_i64 i \<longleftrightarrow> - (2 ^ 63) \<le> i \<and> i < 2 ^ 63"

definition timestamp_ok :: "unix_timestamp_millis \<Rightarrow> bool" where
  "timestamp_ok t \<longleftrightarrow> 0 \<le> as_millis t \<and> is_i64 (as_millis t)"

datatype header_text = HeaderText (header_str: string)

definition header_text_new :: "string \<Rightarrow> mailbox_invariant_error + header_text" where
  "header_text_new value =
     (if length value > MAX_HEADER_LEN then Inl (MI_TooLong (length value) MAX_HEADER_LEN)
      else if any_control value then Inl MI_InvalidCharacter
      else Inr (HeaderText value))"

definition header_ok :: "header_text \<Rightarrow> bool" where
  "header_ok h \<longleftrightarrow> length (header_str h) \<le> MAX_HEADER_LEN \<and> utf8_valid (header_str h)
     \<and> \<not> any_control (header_str h)"

datatype message_content = MessageContent (content_bytes: string)

definition message_content_new :: "string \<Rightarrow> message_content_error + message_content" where
  "message_content_new value =
     (if length value > MAX_CONTENT_LEN then Inl (TooLarge (length value))
      else Inr (MessageContent value))"

definition content_ok :: "message_content \<Rightarrow> bool" where
  "content_ok c \<longleftrightarrow> length (content_bytes c) \<le> MAX_CONTENT_LEN"

lemma unix_timestamp_new_Inr [simp]:
  "unix_timestamp_new v = Inr t \<longleftrightarrow> t = UnixTimestampMillis v \<and> 0 \<le> v"
  by (auto simp: unix_timestamp_new_def)

lemma header_text_new_Inr [simp]:
  "header_text_new s = Inr h \<longleftrightarrow>
     h = HeaderText s \<and> length s \<le> MAX_HEADER_LEN \<and> \<not> any_control s"
  by (auto simp: header_text_new_def)

lemma message_content_new_Inr [simp]:
  "message_content_new s = Inr c \<longleftrightarrow> c = MessageContent s \<and> content_ok c"
  by (auto simp: message_content_new_def content_ok_def)

section \<open>Envelopes and messages\<close>

record message_envelope =
  env_message_id :: message_id
  env_thread_id :: thread_id
  env_from :: header_text
  env_subject :: header_text
  env_preview :: header_text
  env_received_at :: unix_timestamp_millis
  env_unread :: bool

record message =
  msg_envelope :: message_envelope
  msg_content :: message_content

definition envelope_ok :: "message_envelope \<Rightarrow> bool" where
  "envelope_ok e \<longleftrightarrow> message_id_ok (env_message_id e) \<and> thread_id_ok (env_thread_id e)
     \<and> header_ok (env_from e) \<and> header_ok (env_subject e) \<and> header_ok (env_preview e)
     \<and> timestamp_ok (env_received_at e)"

definition message_ok :: "message \<Rightarrow> bool" where
  "message_ok m \<longleftrightarrow> envelope_ok (msg_envelope m) \<and> content_ok (msg_content m)"

end
