(* ===== verification/App_Mailbox.thy ===== *)
theory App_Mailbox
  imports Domain_Mailbox
begin

text \<open>
  The inward mailbox contract of \<^verbatim>\<open>crates/application/src/mailbox.rs\<close>, the identity decision
  of \<^verbatim>\<open>identity.rs\<close> and the lifecycle metadata of \<^verbatim>\<open>lifecycle.rs\<close>: bounded page tokens,
  page sizes and store limits, pages, and the error enums of the remote and store ports.
  The ports themselves are functions on an explicit world (theory \<open>Sync_Core\<close>); their
  contracts are the locales there and in \<open>Sync_Gate\<close>.
\<close>

section \<open>Page tokens and limits\<close>

datatype mailbox_contract_error =
    EmptyPageToken
  | PageTokenTooLong nat
  | InvalidPageToken
  | InvalidPageSize nat
  | InvalidStoreLimit nat

definition MAX_PAGE_TOKEN_LEN :: nat where "MAX_PAGE_TOKEN_LEN = 4096"

datatype page_token = PageToken (page_token_str: string)
datatype page_size = PageSize (page_size_get: nat)
datatype store_limit = StoreLimit (store_limit_get: nat)

definition STORE_LIMIT_MAX :: nat where "STORE_LIMIT_MAX = 10000"

definition page_token_new :: "string \<Rightarrow> mailbox_contract_error + page_token" where
  "page_token_new value =
     (if value = [] then Inl EmptyPageToken
      else if length value > MAX_PAGE_TOKEN_LEN then Inl (PageTokenTooLong (length value))
      else if any_control value then Inl InvalidPageToken
      else Inr (PageToken value))"

definition page_size_new :: "nat \<Rightarrow> mailbox_contract_error + page_size" where
  "page_size_new value =
     (if \<not> (1 \<le> value \<and> value \<le> 500) then Inl (InvalidPageSize value)
      else Inr (PageSize value))"

definition store_limit_new :: "nat \<Rightarrow> mailbox_contract_error + store_limit" where
  "store_limit_new value =
     (if \<not> (1 \<le> value \<and> value \<le> STORE_LIMIT_MAX) then Inl (InvalidStoreLimit value)
      else Inr (StoreLimit value))"

definition page_size_ok :: "page_size \<Rightarrow> bool" where
  "page_size_ok p \<longleftrightarrow> 1 \<le> page_size_get p \<and> page_size_get p \<le> 500"

definition store_limit_ok :: "store_limit \<Rightarrow> bool" where
  "store_limit_ok l \<longleftrightarrow> 1 \<le> store_limit_get l \<and> store_limit_get l \<le> STORE_LIMIT_MAX"

lemma page_size_new_Inr [simp]:
  "page_size_new v = Inr p \<longleftrightarrow> p = PageSize v \<and> page_size_ok (PageSize v)"
  by (auto simp: page_size_new_def page_size_ok_def)

lemma store_limit_new_Inr [simp]:
  "store_limit_new v = Inr l \<longleftrightarrow> l = StoreLimit v \<and> store_limit_ok (StoreLimit v)"
  by (auto simp: store_limit_new_def store_limit_ok_def)

section \<open>Pages and port errors\<close>

datatype 'a page = Page (page_items: "'a list") (page_next_token: "page_token option")

datatype remote_mailbox_error =
    AuthorizationRequired | RateLimited | NotFound | Transport | InvalidResponse

datatype mailbox_store_error = Storage | Corrupted | IdentityChanged | IdentityRaced

section \<open>Identity decision\<close>

datatype identity_hash = IdentityHash (hash_bytes: string)

datatype hasher_error = Unavailable

datatype gate_error = GateHasher hasher_error | GateStore mailbox_store_error

datatype identity_reconcile = RecordOnly | ClearMailboxAndRecord

datatype identity_decision = FirstRecord | Match | ClearAndRecord

text \<open>The constant-time comparison of the code decides equality of the 32 bytes.\<close>

definition decide :: "identity_hash option \<Rightarrow> identity_hash \<Rightarrow> identity_decision" where
  "decide stored fresh =
     (case stored of
        None \<Rightarrow> FirstRecord
      | Some s \<Rightarrow> if s = fresh then Match else ClearAndRecord)"

definition normalize_subject :: "string \<Rightarrow> string" where
  "normalize_subject subject = str_trim subject"

lemma decide_simps [simp]:
  "decide None fresh = FirstRecord"
  "decide (Some s) fresh = (if s = fresh then Match else ClearAndRecord)"
  by (simp_all add: decide_def)

lemma decide_iff:
  "decide stored fresh = FirstRecord \<longleftrightarrow> stored = None"
  "decide stored fresh = Match \<longleftrightarrow> stored = Some fresh"
  "decide stored fresh = ClearAndRecord \<longleftrightarrow> (\<exists>s. stored = Some s \<and> s \<noteq> fresh)"
  by (auto simp: decide_def split: option.splits)

section \<open>Lifecycle metadata\<close>

datatype disconnect_recovery_state = IncompleteTeardown | RevokeUnconfirmed

record account_lifecycle_metadata =
  alm_recovery :: "disconnect_recovery_state option"
  alm_last_sync :: "int option"

definition account_lifecycle_metadata_new ::
    "disconnect_recovery_state option \<Rightarrow> int option \<Rightarrow> account_lifecycle_metadata option" where
  "account_lifecycle_metadata_new recovery last_sync =
     (if (case last_sync of Some v \<Rightarrow> v < 0 | None \<Rightarrow> False) then None
      else Some \<lparr>alm_recovery = recovery, alm_last_sync = last_sync\<rparr>)"

definition account_lifecycle_metadata_default :: account_lifecycle_metadata where
  "account_lifecycle_metadata_default = \<lparr>alm_recovery = None, alm_last_sync = None\<rparr>"

end
