(* ===== verification/Sql_Backend.thy ===== *)
theory Sql_Backend
  imports App_Mailbox
begin

text \<open>
  What the encrypted stores use of SQLite through rusqlite: storage classes and their
  order, typed column reads, backend errors and their classification, and transactions.
  The engine is not code of the repository: which of its calls fail is the parameter
  \<open>fault\<close>, a function from the number of the call to the error it returns, and what a
  successful statement does to the tables is written out from the SQL text of the source.
  The absence of a row is no failure of the engine: the reading function reports it.
  A dropped transaction rolls back, as rusqlite documents.
\<close>

section \<open>Values\<close>

datatype sqlv = SNull | SInt int | SText string | SBlob string

text \<open>ORDER BY compares storage classes first: NULL, numbers, text, blobs.\<close>

fun sqlv_le :: "sqlv \<Rightarrow> sqlv \<Rightarrow> bool" where
  "sqlv_le SNull w = True"
| "sqlv_le (SInt i) w = (case w of SNull \<Rightarrow> False | SInt j \<Rightarrow> i \<le> j | _ \<Rightarrow> True)"
| "sqlv_le (SText s) w = (case w of SText t \<Rightarrow> s \<le> t | SBlob t \<Rightarrow> True | _ \<Rightarrow> False)"
| "sqlv_le (SBlob s) w = (case w of SBlob t \<Rightarrow> s \<le> t | _ \<Rightarrow> False)"

lemma sqlv_le_refl: "sqlv_le v v"
  by (cases v) auto

lemma sqlv_le_trans: "sqlv_le u v \<Longrightarrow> sqlv_le v w \<Longrightarrow> sqlv_le u w"
  by (cases u; cases v; cases w) auto

lemma sqlv_le_antisym: "sqlv_le v w \<Longrightarrow> sqlv_le w v \<Longrightarrow> v = w"
  by (cases v; cases w) auto

lemma sqlv_le_linear: "sqlv_le v w \<or> sqlv_le w v"
  by (cases v; cases w) auto

instantiation sqlv :: linorder
begin

definition less_eq_sqlv :: "sqlv \<Rightarrow> sqlv \<Rightarrow> bool" where
  "less_eq_sqlv v w \<longleftrightarrow> sqlv_le v w"

definition less_sqlv :: "sqlv \<Rightarrow> sqlv \<Rightarrow> bool" where
  "less_sqlv v w \<longleftrightarrow> sqlv_le v w \<and> \<not> sqlv_le w v"

instance
  by standard
    (auto simp: less_eq_sqlv_def less_sqlv_def sqlv_le_refl
      intro: sqlv_le_trans sqlv_le_antisym, metis sqlv_le_linear)

end

fun typeof :: "sqlv \<Rightarrow> string" where
  "typeof SNull = ''null''"
| "typeof (SInt i) = ''integer''"
| "typeof (SText s) = ''text''"
| "typeof (SBlob b) = ''blob''"

text \<open>\<open>CASE WHEN typeof(c) = 'text' AND length(CAST(c AS BLOB)) <= n THEN c END\<close>.\<close>

definition text_within :: "nat \<Rightarrow> sqlv \<Rightarrow> sqlv" where
  "text_within n v = (case v of SText s \<Rightarrow> if length s \<le> n then v else SNull | _ \<Rightarrow> SNull)"

definition only_text :: "sqlv \<Rightarrow> sqlv" where
  "only_text v = (case v of SText s \<Rightarrow> v | _ \<Rightarrow> SNull)"

definition only_integer :: "sqlv \<Rightarrow> sqlv" where
  "only_integer v = (case v of SInt i \<Rightarrow> v | _ \<Rightarrow> SNull)"

text \<open>\<open>v NOT IN (vs)\<close> in three-valued logic, read as a WHERE condition.\<close>

definition sql_not_in :: "sqlv \<Rightarrow> sqlv list \<Rightarrow> bool" where
  "sql_not_in v vs \<longleftrightarrow> vs = [] \<or> v \<noteq> SNull \<and> SNull \<notin> set vs \<and> v \<notin> set vs"

section \<open>Backend errors\<close>

datatype error_code = DatabaseCorrupt | NotADatabase | OtherCode

datatype rusqlite_error =
    SqliteFailure error_code
  | FromSqlConversionFailure
  | IntegralValueOutOfRange
  | InvalidColumnType
  | InvalidQuery
  | QueryReturnedNoRows
  | Utf8Error
  | OtherRusqliteError

definition store_error :: "rusqlite_error \<Rightarrow> mailbox_store_error" where
  "store_error err =
     (case err of
        SqliteFailure code \<Rightarrow>
          if code \<in> {DatabaseCorrupt, NotADatabase} then Corrupted else Storage
      | _ \<Rightarrow> Storage)"

definition corrupted :: "rusqlite_error \<Rightarrow> mailbox_store_error" where
  "corrupted err = Corrupted"

section \<open>Typed column reads\<close>

text \<open>\<open>row.get::<_, String>\<close>, \<open>Option<String>\<close>, \<open>i64\<close>, \<open>Option<i64>\<close>, \<open>Vec<u8>\<close>, \<open>Option<Vec<u8>>\<close>.\<close>

definition get_string :: "sqlv \<Rightarrow> rusqlite_error + string" where
  "get_string v =
     (case v of SText s \<Rightarrow> if utf8_valid s then Inr s else Inl Utf8Error
      | _ \<Rightarrow> Inl InvalidColumnType)"

definition get_int :: "sqlv \<Rightarrow> rusqlite_error + int" where
  "get_int v = (case v of SInt i \<Rightarrow> Inr i | _ \<Rightarrow> Inl InvalidColumnType)"

definition get_blob :: "sqlv \<Rightarrow> rusqlite_error + string" where
  "get_blob v = (case v of SBlob b \<Rightarrow> Inr b | _ \<Rightarrow> Inl InvalidColumnType)"

definition get_option :: "(sqlv \<Rightarrow> rusqlite_error + 'a) \<Rightarrow> sqlv \<Rightarrow> rusqlite_error + 'a option" where
  "get_option get v = (if v = SNull then Inr None else map_ok Some (get v))"

section \<open>Connections and operations\<close>

text \<open>
  A connection holds the tables, of an arbitrary type, and the number of backend calls
  made so far. An operation is a state transformer with a store error.
\<close>

record 'd conn =
  cn_db :: 'd
  cn_calls :: nat

type_synonym faults = "nat \<Rightarrow> rusqlite_error option"

type_synonym ('d, 'e, 'a) db_op = "'d conn \<Rightarrow> ('e + 'a) \<times> 'd conn"

definition tick :: "'d conn \<Rightarrow> 'd conn" where
  "tick c = c\<lparr>cn_calls := cn_calls c + 1\<rparr>"

definition db_return :: "'a \<Rightarrow> ('d, 'e, 'a) db_op" where
  "db_return a c = (Inr a, c)"

definition db_result :: "'e + 'a \<Rightarrow> ('d, 'e, 'a) db_op" where
  "db_result r c = (r, c)"

definition db_bind ::
    "('d, 'e, 'a) db_op \<Rightarrow> ('a \<Rightarrow> ('d, 'e, 'b) db_op) \<Rightarrow> ('d, 'e, 'b) db_op" where
  "db_bind m f c = (case m c of (Inl err, c1) \<Rightarrow> (Inl err, c1) | (Inr a, c1) \<Rightarrow> f a c1)"

text \<open>One backend call, with its failure mapped by \<open>map_err(classify)\<close>.\<close>

definition backend_call ::
    "(rusqlite_error \<Rightarrow> 'e) \<Rightarrow> faults \<Rightarrow> ('d, 'e, unit) db_op" where
  "backend_call classify fault c =
     (case fault (cn_calls c) of
        Some err \<Rightarrow> (Inl (classify err), tick c)
      | None \<Rightarrow> (Inr (), tick c))"

text \<open>A statement returns the tables it leaves and the number of rows it changed.\<close>

definition execute ::
    "(rusqlite_error \<Rightarrow> 'e) \<Rightarrow> faults \<Rightarrow> ('d \<Rightarrow> 'd \<times> nat) \<Rightarrow> ('d, 'e, nat) db_op" where
  "execute classify fault stmt =
     db_bind (backend_call classify fault) (\<lambda>_ c.
       (case stmt (cn_db c) of (db', changed) \<Rightarrow> (Inr changed, c\<lparr>cn_db := db'\<rparr>)))"

text \<open>A query returns what its row closure makes of the tables.\<close>

definition query_row ::
    "(rusqlite_error \<Rightarrow> 'e) \<Rightarrow> faults \<Rightarrow> ('d \<Rightarrow> rusqlite_error + 'a) \<Rightarrow> ('d, 'e, 'a) db_op" where
  "query_row classify fault read =
     db_bind (backend_call classify fault) (\<lambda>_ c. (map_err classify (read (cn_db c)), c))"

definition transaction ::
    "(rusqlite_error \<Rightarrow> 'e) \<Rightarrow> faults \<Rightarrow> ('d, 'e, 'a) db_op \<Rightarrow> ('d, 'e, 'a) db_op" where
  "transaction classify fault body c0 =
     (case backend_call classify fault c0 of
        (Inl err, c1) \<Rightarrow> (Inl err, c1)
      | (Inr _, c1) \<Rightarrow>
          (case body c1 of
             (Inl err, c2) \<Rightarrow> (Inl err, c2\<lparr>cn_db := cn_db c0\<rparr>)
           | (Inr a, c2) \<Rightarrow>
               (case backend_call classify fault c2 of
                  (Inl err, c3) \<Rightarrow> (Inl err, c3\<lparr>cn_db := cn_db c0\<rparr>)
                | (Inr _, c3) \<Rightarrow> (Inr a, c3))))"

text \<open>The connection mutex: a poisoned lock is a fault of the call that takes it.\<close>

definition with_connection ::
    "'e \<Rightarrow> faults \<Rightarrow> ('d, 'e, 'a) db_op \<Rightarrow> ('d, 'e, 'a) db_op" where
  "with_connection poisoned fault operation =
     db_bind (backend_call (\<lambda>_. poisoned) fault) (\<lambda>_. operation)"

section \<open>Atomicity\<close>

text \<open>An operation is atomic when an error leaves the tables as they were.\<close>

definition atomic_op :: "('d, 'e, 'a) db_op \<Rightarrow> bool" where
  "atomic_op m \<longleftrightarrow> (\<forall>c err c'. m c = (Inl err, c') \<longrightarrow> cn_db c' = cn_db c)"

definition read_only_op :: "('d, 'e, 'a) db_op \<Rightarrow> bool" where
  "read_only_op m \<longleftrightarrow> (\<forall>c. cn_db (snd (m c)) = cn_db c)"

named_theorems op_rules \<open>which operations are atomic or read-only\<close>

lemma tick_db [simp]: "cn_db (tick c) = cn_db c"
  by (simp add: tick_def)

lemma read_only_return [op_rules]: "read_only_op (db_return a)"
  by (simp add: read_only_op_def db_return_def)

lemma read_only_result [op_rules]: "read_only_op (db_result r)"
  by (simp add: read_only_op_def db_result_def)

lemma read_only_call [op_rules]: "read_only_op (backend_call classify fault)"
  by (simp add: read_only_op_def backend_call_def split: option.split)

lemma read_only_bind [op_rules]:
  assumes "read_only_op m" and "\<And>a. read_only_op (f a)"
  shows "read_only_op (db_bind m f)"
  unfolding read_only_op_def
proof
  fix c
  obtain r c1 where m: "m c = (r, c1)" by fastforce
  then have "cn_db c1 = cn_db c" using assms(1) unfolding read_only_op_def by (metis snd_conv)
  with m assms(2) show "cn_db (snd (db_bind m f c)) = cn_db c"
    by (cases r) (auto simp: db_bind_def read_only_op_def)
qed

lemma read_only_query [op_rules]: "read_only_op (query_row classify fault read)"
  unfolding query_row_def by (intro read_only_bind read_only_call) (simp add: read_only_op_def)

lemma read_only_with [op_rules]:
  "read_only_op m \<Longrightarrow> read_only_op (with_connection poisoned fault m)"
  unfolding with_connection_def by (intro read_only_bind read_only_call)

lemma read_only_atomic: "read_only_op m \<Longrightarrow> atomic_op m"
  unfolding read_only_op_def atomic_op_def by (metis snd_conv)

lemma atomic_bind:
  assumes "read_only_op m" and "\<And>a. atomic_op (f a)"
  shows "atomic_op (db_bind m f)"
  unfolding atomic_op_def
proof (intro allI impI)
  fix c err c'
  assume run: "db_bind m f c = (Inl err, c')"
  obtain r c1 where m: "m c = (r, c1)" by fastforce
  then have "cn_db c1 = cn_db c" using assms(1) unfolding read_only_op_def by (metis snd_conv)
  with run m assms(2) show "cn_db c' = cn_db c"
    by (cases r) (auto simp: db_bind_def atomic_op_def)
qed

lemma atomic_with [op_rules]: "atomic_op m \<Longrightarrow> atomic_op (with_connection poisoned fault m)"
  unfolding with_connection_def by (intro atomic_bind read_only_call)

lemma backend_call_db: "backend_call classify fault c = (r, c1) \<Longrightarrow> cn_db c1 = cn_db c"
  using read_only_call unfolding read_only_op_def by (metis snd_conv)

lemma atomic_transaction [op_rules]: "atomic_op (transaction classify fault body)"
  by (auto simp: atomic_op_def transaction_def dest: backend_call_db
      split: prod.splits sum.splits)

text \<open>A single statement that may then be judged by the number of rows it changed.\<close>

lemma execute_cases:
  assumes "execute classify fault stmt c = (r, c')"
  obtains (failed) err where "r = Inl err" "cn_db c' = cn_db c"
    | (changed) n where "r = Inr n" "stmt (cn_db c) = (cn_db c', n)"
  using assms
  by (cases "fault (cn_calls c)")
    (auto simp: execute_def db_bind_def backend_call_def split: prod.splits)

lemma atomic_execute_judged [op_rules]:
  assumes "\<And>db db' n err. stmt db = (db', n) \<Longrightarrow> judge n = Inl err \<Longrightarrow> db' = db"
  shows "atomic_op (db_bind (execute classify fault stmt) (\<lambda>n. db_result (judge n)))"
  unfolding atomic_op_def
proof (intro allI impI)
  fix c err c'
  assume run: "db_bind (execute classify fault stmt) (\<lambda>n. db_result (judge n)) c = (Inl err, c')"
  obtain r c1 where e: "execute classify fault stmt c = (r, c1)" by fastforce
  from e show "cn_db c' = cn_db c"
  proof (cases rule: execute_cases)
    case failed
    then show ?thesis using run e by (simp add: db_bind_def)
  next
    case (changed n)
    then show ?thesis using run e assms by (simp add: db_bind_def db_result_def)
  qed
qed

text \<open>What a committed transaction went through.\<close>

lemma transaction_Inr:
  assumes "transaction classify fault body c = (Inr a, c')"
  obtains c1 c2 where "cn_db c1 = cn_db c" "body c1 = (Inr a, c2)" "cn_db c' = cn_db c2"
  using assms
  by (auto simp: transaction_def dest: backend_call_db split: prod.splits sum.splits)

lemma db_bind_Inr:
  assumes "db_bind m f c = (Inr b, c')"
  obtains a c1 where "m c = (Inr a, c1)" "f a c1 = (Inr b, c')"
  using assms by (auto simp: db_bind_def split: prod.splits sum.splits)

lemma db_bind_Inr_iff:
  "db_bind m f c = (Inr b, c') \<longleftrightarrow> (\<exists>a c1. m c = (Inr a, c1) \<and> f a c1 = (Inr b, c'))"
  by (auto simp: db_bind_def split: prod.splits sum.splits)

lemma db_return_result: "db_return a = db_result (Inr a)"
  by (simp add: fun_eq_iff db_return_def db_result_def)

lemma db_result_Inr [simp]: "db_result r c = (Inr a, c') \<longleftrightarrow> r = Inr a \<and> c' = c"
  by (auto simp: db_result_def)

lemma db_return_Inr [simp]: "db_return x c = (Inr a, c') \<longleftrightarrow> x = a \<and> c' = c"
  by (auto simp: db_return_def)

lemma with_connection_Inr:
  assumes "with_connection poisoned fault m c = (Inr a, c')"
  obtains c1 where "cn_db c1 = cn_db c" "m c1 = (Inr a, c')"
  using assms unfolding with_connection_def
  by (metis backend_call_db db_bind_Inr)

text \<open>The common shape of a write: a transaction under the connection lock.\<close>

lemma committed_Inr:
  assumes "with_connection poisoned fault (transaction classify fault body) c = (Inr a, c')"
  obtains c1 c2 where "cn_db c1 = cn_db c" "body c1 = (Inr a, c2)" "cn_db c' = cn_db c2"
  using assms by (elim with_connection_Inr transaction_Inr) auto

lemma query_row_Inr:
  assumes "query_row classify fault read c = (Inr a, c')"
  shows "read (cn_db c) = Inr a \<and> cn_db c' = cn_db c"
  using assms unfolding query_row_def
  by (auto elim!: db_bind_Inr dest: backend_call_db)

lemma execute_Inr:
  assumes "execute classify fault stmt c = (Inr n, c')"
  shows "stmt (cn_db c) = (cn_db c', n)"
  using assms by (auto elim: execute_cases)


section \<open>Runs without backend faults\<close>

definition quiet :: faults where
  "quiet = (\<lambda>_. None)"

text \<open>
  Without faults a call always succeeds; only the number of calls made changes. The result
  and the tables of an operation are then \<open>quiet_run\<close>, whatever the call count.
\<close>

lemma quiet_call [simp]: "backend_call classify quiet c = (Inr (), tick c)"
  by (simp add: backend_call_def quiet_def)

lemma quiet_bind_call: "db_bind (backend_call classify quiet) f c = f () (tick c)"
  by (simp add: db_bind_def)

lemma quiet_with [simp]: "with_connection poisoned quiet m c = m (tick c)"
  by (simp add: with_connection_def quiet_bind_call)

lemma quiet_execute:
  "execute classify quiet stmt c =
    (Inr (snd (stmt (cn_db c))), (tick c)\<lparr>cn_db := fst (stmt (cn_db c))\<rparr>)"
  by (simp add: execute_def quiet_bind_call split: prod.split)

lemma quiet_query:
  "query_row classify quiet read c = (map_err classify (read (cn_db c)), tick c)"
  by (simp add: query_row_def quiet_bind_call)

lemma quiet_transaction:
  "transaction classify quiet body c =
    (case body (tick c) of
       (Inl err, c2) \<Rightarrow> (Inl err, c2\<lparr>cn_db := cn_db c\<rparr>)
     | (Inr a, c2) \<Rightarrow> (Inr a, tick c2))"
  by (simp add: transaction_def split: prod.split sum.split)

lemma db_bind_pair: "m c = (r, c1) \<Longrightarrow>
    db_bind m f c = (case r of Inl err \<Rightarrow> (Inl err, c1) | Inr a \<Rightarrow> f a c1)"
  by (simp add: db_bind_def split: sum.split)

lemma tick_calls [simp]: "cn_calls (tick c) = Suc (cn_calls c)"
  by (simp add: tick_def)

lemmas quiet_simps = quiet_execute quiet_query quiet_transaction db_bind_def db_return_def
  db_result_def

end
