(* ===== verification/Store_Sql.thy ===== *)
theory Store_Sql
  imports Sql_Backend
begin

text \<open>
  The per-account mailbox store of \<^verbatim>\<open>adapters/store-sqlcipher/src/lib.rs\<close>: its tables (from
  the migration \<^verbatim>\<open>migrations/0001_account_mailbox.sql\<close>) and every operation on an open
  connection. A store is bound to one account; each port method first checks the account.
  A column holds any storage class, as a tampered file may; what the schema enforces is
  \<open>schema_ok\<close>.
\<close>

section \<open>Tables\<close>

record mail_row =
  mr_message_id :: sqlv
  mr_thread_id :: sqlv
  mr_sender :: sqlv
  mr_subject :: sqlv
  mr_preview :: sqlv
  mr_received_at :: sqlv
  mr_unread :: sqlv
  mr_content :: sqlv

record binding_row =
  bd_account_id :: sqlv
  bd_broker_subject :: sqlv
  bd_refresh_token :: sqlv

record identity_row =
  ir_account_id :: sqlv
  ir_hash :: sqlv
  ir_version :: sqlv

record lifecycle_row =
  lr_recovery :: sqlv
  lr_last_sync :: sqlv

text \<open>
  The tables with \<open>singleton INTEGER PRIMARY KEY CHECK (singleton = 1)\<close> hold at most one row.
\<close>

record db =
  db_messages :: "mail_row list"
  db_binding :: "binding_row option"
  db_identity :: "identity_row list"
  db_lifecycle :: "lifecycle_row option"

type_synonym 'a store_op = "(db, mailbox_store_error, 'a) db_op"

definition IDENTITY_ALGO_VERSION :: int where "IDENTITY_ALGO_VERSION = 2"

definition text_len_between :: "sqlv \<Rightarrow> nat \<Rightarrow> nat \<Rightarrow> bool" where
  "text_len_between v lo hi \<longleftrightarrow>
     (case v of SText s \<Rightarrow> lo \<le> length s \<and> length s \<le> hi
      | SBlob s \<Rightarrow> lo \<le> length s \<and> length s \<le> hi | _ \<Rightarrow> False)"

definition mail_row_ok :: "mail_row \<Rightarrow> bool" where
  "mail_row_ok r \<longleftrightarrow> mr_thread_id r \<noteq> SNull \<and> mr_sender r \<noteq> SNull \<and> mr_subject r \<noteq> SNull
     \<and> mr_preview r \<noteq> SNull \<and> mr_received_at r \<noteq> SNull
     \<and> (mr_unread r = SInt 0 \<or> mr_unread r = SInt 1)"

definition unique_key :: "sqlv list \<Rightarrow> bool" where
  "unique_key vs \<longleftrightarrow> distinct (filter (\<lambda>v. v \<noteq> SNull) vs)"

definition messages_ok :: "mail_row list \<Rightarrow> bool" where
  "messages_ok rows \<longleftrightarrow> unique_key (map mr_message_id rows) \<and> list_all mail_row_ok rows"

definition binding_ok :: "binding_row \<Rightarrow> bool" where
  "binding_ok b \<longleftrightarrow> bd_account_id b \<noteq> SNull
     \<and> (bd_broker_subject b = SNull \<or> text_len_between (bd_broker_subject b) 1 255)
     \<and> (bd_refresh_token b = SNull \<or> text_len_between (bd_refresh_token b) 1 4096)"

definition identities_ok :: "identity_row list \<Rightarrow> bool" where
  "identities_ok rows \<longleftrightarrow> unique_key (map ir_account_id rows)
     \<and> list_all (\<lambda>r. ir_hash r \<noteq> SNull \<and> ir_version r \<noteq> SNull) rows"

definition lifecycle_ok :: "lifecycle_row \<Rightarrow> bool" where
  "lifecycle_ok l \<longleftrightarrow> lr_recovery l \<in> {SNull, SInt 1, SInt 2}
     \<and> (case lr_last_sync l of SInt i \<Rightarrow> 0 \<le> i | _ \<Rightarrow> True)"

definition schema_ok :: "db \<Rightarrow> bool" where
  "schema_ok d \<longleftrightarrow> messages_ok (db_messages d) \<and> pred_option binding_ok (db_binding d)
     \<and> identities_ok (db_identity d) \<and> pred_option lifecycle_ok (db_lifecycle d)"

section \<open>Shared readers and writers\<close>

definition checked_account :: "account_id \<Rightarrow> account_id \<Rightarrow> mailbox_store_error + unit" where
  "checked_account own account = (if own = account then Inr () else Inl Storage)"

definition is_valid_broker_subject :: "string \<Rightarrow> bool" where
  "is_valid_broker_subject subject \<longleftrightarrow>
     1 \<le> length subject \<and> length subject \<le> 255
     \<and> list_all (\<lambda>b. 33 \<le> byte b \<and> byte b \<le> 126) subject"

definition is_valid_refresh_token :: "string \<Rightarrow> bool" where
  "is_valid_refresh_token token \<longleftrightarrow>
     1 \<le> length token \<and> length token \<le> 4096
     \<and> list_all (\<lambda>b. 33 \<le> byte b \<and> byte b \<le> 126) token"

definition unread_int :: "bool \<Rightarrow> sqlv" where
  "unread_int b = SInt (if b then 1 else 0)"

text \<open>\<open>CASE WHEN unread = 0 THEN 0 ELSE v END\<close>: a NULL is not equal to 0.\<close>

definition sticky_unread :: "sqlv \<Rightarrow> sqlv \<Rightarrow> sqlv" where
  "sticky_unread old v = (if old = SInt 0 then SInt 0 else v)"

definition set_envelope :: "message_envelope \<Rightarrow> mail_row \<Rightarrow> mail_row" where
  "set_envelope envelope r =
     r\<lparr>mr_thread_id := SText (thread_id_str (env_thread_id envelope)),
       mr_sender := SText (header_str (env_from envelope)),
       mr_subject := SText (header_str (env_subject envelope)),
       mr_preview := SText (header_str (env_preview envelope)),
       mr_received_at := SInt (as_millis (env_received_at envelope)),
       mr_unread := sticky_unread (mr_unread r) (unread_int (env_unread envelope))\<rparr>"

definition new_row :: "message_envelope \<Rightarrow> sqlv \<Rightarrow> mail_row" where
  "new_row envelope content =
     \<lparr>mr_message_id = SText (message_id_str (env_message_id envelope)),
      mr_thread_id = SText (thread_id_str (env_thread_id envelope)),
      mr_sender = SText (header_str (env_from envelope)),
      mr_subject = SText (header_str (env_subject envelope)),
      mr_preview = SText (header_str (env_preview envelope)),
      mr_received_at = SInt (as_millis (env_received_at envelope)),
      mr_unread = unread_int (env_unread envelope),
      mr_content = content\<rparr>"

definition has_id :: "message_id \<Rightarrow> mail_row \<Rightarrow> bool" where
  "has_id i r \<longleftrightarrow> mr_message_id r = SText (message_id_str i)"

text \<open>\<open>INSERT INTO messages ... ON CONFLICT(message_id) DO UPDATE\<close>, with and without a body.\<close>

definition upsert_message :: "message_envelope \<Rightarrow> string option \<Rightarrow> mail_row list \<Rightarrow> mail_row list" where
  "upsert_message envelope content rows =
     (if list_ex (has_id (env_message_id envelope)) rows
      then map (\<lambda>r. if has_id (env_message_id envelope) r
                    then (case content of
                        Some bytes \<Rightarrow> (set_envelope envelope r)\<lparr>mr_content := SBlob bytes\<rparr>
                      | None \<Rightarrow> set_envelope envelope r)
                    else r) rows
      else rows @ [new_row envelope (case content of Some bytes \<Rightarrow> SBlob bytes | None \<Rightarrow> SNull)])"

definition write_envelope :: "faults \<Rightarrow> message_envelope \<Rightarrow> string option \<Rightarrow> unit store_op" where
  "write_envelope fault envelope content =
     db_bind
       (execute store_error fault
         (\<lambda>d. (d\<lparr>db_messages := upsert_message envelope content (db_messages d)\<rparr>, 1)))
       (\<lambda>_. db_return ())"

fun write_envelopes :: "faults \<Rightarrow> message_envelope list \<Rightarrow> unit store_op" where
  "write_envelopes fault [] = db_return ()"
| "write_envelopes fault (envelope # envelopes) =
     db_bind (write_envelope fault envelope None) (\<lambda>_. write_envelopes fault envelopes)"

text \<open>The single fail-closed reader of the recorded identity.\<close>

definition identity_of_row :: "identity_row \<Rightarrow> mailbox_store_error + string" where
  "identity_of_row r =
     (case (case ir_hash r of SBlob h \<Rightarrow> if length h = 32 then Some h else None | _ \<Rightarrow> None,
            only_integer (ir_version r)) of
        (Some h, SInt v) \<Rightarrow> if v = IDENTITY_ALGO_VERSION then Inr h else Inl Corrupted
      | _ \<Rightarrow> Inl Corrupted)"

definition identity_rows :: "account_id \<Rightarrow> db \<Rightarrow> identity_row list" where
  "identity_rows account d =
     filter (\<lambda>r. ir_account_id r = SText (account_id_str account)) (db_identity d)"

definition read_recorded_identity :: "faults \<Rightarrow> account_id \<Rightarrow> string option store_op" where
  "read_recorded_identity fault account =
     db_bind (query_row store_error fault (\<lambda>d. Inr (identity_rows account d)))
       (\<lambda>rows. db_result (case rows of [] \<Rightarrow> Inr None | r # _ \<Rightarrow> map_ok Some (identity_of_row r)))"

definition assert_identity_unchanged :: "faults \<Rightarrow> account_id \<Rightarrow> identity_hash \<Rightarrow> unit store_op" where
  "assert_identity_unchanged fault account fence =
     db_bind (read_recorded_identity fault account) (\<lambda>current. db_result
       (case current of
          Some h \<Rightarrow> if IdentityHash h = fence then Inr () else Inl IdentityChanged
        | None \<Rightarrow> Inl IdentityChanged))"

definition assert_identity_matches_expected ::
    "faults \<Rightarrow> account_id \<Rightarrow> string option \<Rightarrow> unit store_op" where
  "assert_identity_matches_expected fault account expected =
     db_bind (read_recorded_identity fault account) (\<lambda>current. db_result
       (if current = expected then Inr () else Inl IdentityRaced))"

definition envelope_from_row :: "mail_row \<Rightarrow> mailbox_store_error + message_envelope" where
  "envelope_from_row r =
     rbind (map_err corrupted (get_string (text_within 256 (mr_message_id r)))) (\<lambda>message_id.
     rbind (map_err corrupted (get_string (text_within 256 (mr_thread_id r)))) (\<lambda>thread_id.
     rbind (map_err corrupted (get_string (text_within 1024 (mr_sender r)))) (\<lambda>sender.
     rbind (map_err corrupted (get_string (text_within 1024 (mr_subject r)))) (\<lambda>subject.
     rbind (map_err corrupted (get_string (text_within 1024 (mr_preview r)))) (\<lambda>preview.
     rbind (map_err corrupted (get_int (only_integer (mr_received_at r)))) (\<lambda>received_at.
     rbind (map_err corrupted (get_int (only_integer (mr_unread r)))) (\<lambda>unread.
     rbind (if unread = 0 then Inr False else if unread = 1 then Inr True else Inl Corrupted) (\<lambda>unread.
     rbind (map_err (\<lambda>_. Corrupted) (message_id_new message_id)) (\<lambda>mid.
     rbind (map_err (\<lambda>_. Corrupted) (thread_id_new thread_id)) (\<lambda>tid.
     rbind (map_err (\<lambda>_. Corrupted) (header_text_new sender)) (\<lambda>from_text.
     rbind (map_err (\<lambda>_. Corrupted) (header_text_new subject)) (\<lambda>subject_text.
     rbind (map_err (\<lambda>_. Corrupted) (header_text_new preview)) (\<lambda>preview_text.
     rbind (map_err (\<lambda>_. Corrupted) (unix_timestamp_new received_at)) (\<lambda>received.
       Inr \<lparr>env_message_id = mid, env_thread_id = tid, env_from = from_text,
            env_subject = subject_text, env_preview = preview_text,
            env_received_at = received, env_unread = unread\<rparr>))))))))))))))"

section \<open>Broker subject and refresh token\<close>

definition bound_to :: "account_id \<Rightarrow> db \<Rightarrow> bool" where
  "bound_to account d \<longleftrightarrow>
     (case db_binding d of Some b \<Rightarrow> bd_account_id b = SText (account_id_str account) | None \<Rightarrow> False)"

text \<open>\<open>UPDATE account_binding SET ... WHERE singleton = 1 AND account_id = ?\<close>.\<close>

definition update_binding :: "account_id \<Rightarrow> (binding_row \<Rightarrow> binding_row) \<Rightarrow> db \<Rightarrow> db \<times> nat" where
  "update_binding account f d =
     (if bound_to account d then (d\<lparr>db_binding := map_option f (db_binding d)\<rparr>, 1) else (d, 0))"

definition changed_one :: "nat \<Rightarrow> mailbox_store_error + unit" where
  "changed_one changed = (if changed = 1 then Inr () else Inl Corrupted)"

definition store_broker_subject ::
    "faults \<Rightarrow> account_id \<Rightarrow> account_id \<Rightarrow> string \<Rightarrow> unit store_op" where
  "store_broker_subject fault own account subject =
     db_bind (db_result (checked_account own account)) (\<lambda>_.
       if \<not> is_valid_broker_subject subject then db_result (Inl Storage)
       else with_connection Storage fault
         (db_bind
           (execute store_error fault
             (update_binding account (\<lambda>b. b\<lparr>bd_broker_subject := SText subject\<rparr>)))
           (\<lambda>changed. db_result (changed_one changed))))"

text \<open>
  The row closure of a binding query reads the type name, the guarded text and the guarded
  owner; the caller then checks owner, type and shape.
\<close>

definition read_binding_column ::
    "(binding_row \<Rightarrow> sqlv) \<Rightarrow> db \<Rightarrow> rusqlite_error + (string \<times> string option \<times> string option)" where
  "read_binding_column column d =
     (case db_binding d of
        None \<Rightarrow> Inl QueryReturnedNoRows
      | Some b \<Rightarrow>
          rbind (get_option get_string (only_text (column b))) (\<lambda>value.
          rbind (get_option get_string (only_text (bd_account_id b))) (\<lambda>owner.
            Inr (typeof (column b), value, owner))))"

definition binding_error :: "rusqlite_error \<Rightarrow> mailbox_store_error" where
  "binding_error err = (if err = QueryReturnedNoRows then Corrupted else store_error err)"

definition judge_binding_column ::
    "(string \<Rightarrow> bool) \<Rightarrow> account_id \<Rightarrow> string \<times> string option \<times> string option
      \<Rightarrow> mailbox_store_error + string option" where
  "judge_binding_column valid account row =
     (case row of (kind, value, owner) \<Rightarrow>
        if owner \<noteq> Some (account_id_str account) then Inl Corrupted
        else if kind = ''null'' then Inr None
        else if kind = ''text'' then
          (case value of
             None \<Rightarrow> Inl Corrupted
           | Some text \<Rightarrow> if \<not> valid text then Inl Corrupted else Inr (Some text))
        else Inl Corrupted)"

definition load_broker_subject :: "faults \<Rightarrow> account_id \<Rightarrow> account_id \<Rightarrow> string option store_op" where
  "load_broker_subject fault own account =
     db_bind (db_result (checked_account own account)) (\<lambda>_.
       with_connection Storage fault
         (db_bind (query_row binding_error fault (read_binding_column bd_broker_subject))
           (\<lambda>row. db_result (judge_binding_column is_valid_broker_subject account row))))"

definition update_refresh_token :: "faults \<Rightarrow> account_id \<Rightarrow> string option \<Rightarrow> unit store_op" where
  "update_refresh_token fault account token =
     with_connection Storage fault
       (db_bind
         (execute store_error fault
           (update_binding account
             (\<lambda>b. b\<lparr>bd_refresh_token := (case token of Some t \<Rightarrow> SText t | None \<Rightarrow> SNull)\<rparr>)))
         (\<lambda>changed. db_result (changed_one changed)))"

definition store_refresh_token ::
    "faults \<Rightarrow> account_id \<Rightarrow> account_id \<Rightarrow> string \<Rightarrow> unit store_op" where
  "store_refresh_token fault own account token =
     db_bind (db_result (checked_account own account)) (\<lambda>_.
       if \<not> is_valid_refresh_token token then db_result (Inl Storage)
       else update_refresh_token fault account (Some token))"

definition clear_refresh_token :: "faults \<Rightarrow> account_id \<Rightarrow> account_id \<Rightarrow> unit store_op" where
  "clear_refresh_token fault own account =
     db_bind (db_result (checked_account own account)) (\<lambda>_. update_refresh_token fault account None)"

definition load_refresh_token :: "faults \<Rightarrow> account_id \<Rightarrow> account_id \<Rightarrow> string option store_op" where
  "load_refresh_token fault own account =
     db_bind (db_result (checked_account own account)) (\<lambda>_.
       with_connection Storage fault
         (db_bind (query_row binding_error fault (read_binding_column bd_refresh_token))
           (\<lambda>row. db_result (judge_binding_column is_valid_refresh_token account row))))"

end
