(* ===== verification/Store_Mailbox.thy ===== *)
theory Store_Mailbox
  imports Store_Sql
begin

text \<open>
  The mailbox, identity, purge and lifecycle operations of
  \<^verbatim>\<open>adapters/store-sqlcipher/src/lib.rs\<close> on an open connection: the \<open>MailboxStore\<close>,
  \<open>MailboxReader\<close>, \<open>AccountIdentityStore\<close>, \<open>AccountPurgeStore\<close> and \<open>AccountLifecycleStore\<close>
  implementations. The failpoints compiled only for tests are left out.
\<close>

section \<open>Writing messages\<close>

definition upsert :: "faults \<Rightarrow> message_envelope list \<Rightarrow> unit store_op" where
  "upsert fault envelopes =
     with_connection Storage fault (transaction store_error fault (write_envelopes fault envelopes))"

definition put :: "faults \<Rightarrow> message \<Rightarrow> unit store_op" where
  "put fault msg =
     with_connection Storage fault
       (transaction store_error fault
         (write_envelope fault (msg_envelope msg) (Some (content_bytes (msg_content msg)))))"

text \<open>\<open>ORDER BY received_at DESC, message_id ASC\<close> and \<open>ORDER BY received_at ASC, message_id ASC\<close>.\<close>

definition recent_before :: "mail_row \<Rightarrow> mail_row \<Rightarrow> bool" where
  "recent_before r s \<longleftrightarrow> mr_received_at s < mr_received_at r
     \<or> mr_received_at r = mr_received_at s \<and> mr_message_id r \<le> mr_message_id s"

definition thread_before :: "mail_row \<Rightarrow> mail_row \<Rightarrow> bool" where
  "thread_before r s \<longleftrightarrow> mr_received_at r < mr_received_at s
     \<or> mr_received_at r = mr_received_at s \<and> mr_message_id r \<le> mr_message_id s"

text \<open>\<open>DELETE FROM messages WHERE message_id NOT IN (SELECT ... LIMIT n)\<close>.\<close>

definition newest :: "nat \<Rightarrow> mail_row list \<Rightarrow> mail_row list" where
  "newest n rows = take n (sort_by recent_before rows)"

definition prune :: "nat \<Rightarrow> mail_row list \<Rightarrow> mail_row list" where
  "prune n rows = filter (\<lambda>r. \<not> sql_not_in (mr_message_id r) (map mr_message_id (newest n rows))) rows"

fun survivors_of :: "faults \<Rightarrow> message_id set \<Rightarrow> message_envelope list \<Rightarrow> message_id list store_op" where
  "survivors_of fault seen [] = db_return []"
| "survivors_of fault seen (envelope # envelopes) =
     (if env_message_id envelope \<in> seen then survivors_of fault seen envelopes
      else db_bind
        (query_row store_error fault
          (\<lambda>d. Inr (list_ex (has_id (env_message_id envelope)) (db_messages d))))
        (\<lambda>exists. db_bind
          (survivors_of fault (insert (env_message_id envelope) seen) envelopes)
          (\<lambda>rest. db_return (if exists then env_message_id envelope # rest else rest))))"

definition reconcile_body ::
    "faults \<Rightarrow> account_id \<Rightarrow> message_envelope list \<Rightarrow> store_limit \<Rightarrow> identity_hash
      \<Rightarrow> message_id list store_op" where
  "reconcile_body fault account envelopes keep_limit fence =
     db_bind
       (query_row store_error fault
         (\<lambda>d. Inr (list_ex (\<lambda>r. mr_message_id r = SNull) (db_messages d))))
       (\<lambda>has_null_identifier.
     if has_null_identifier then db_result (Inl Corrupted)
     else db_bind (write_envelopes fault envelopes) (\<lambda>_.
       db_bind
         (execute store_error fault
           (\<lambda>d. (d\<lparr>db_messages := prune (store_limit_get keep_limit) (db_messages d)\<rparr>, 0)))
         (\<lambda>_.
       db_bind (backend_call store_error fault) (\<lambda>_.
       db_bind (survivors_of fault {} envelopes) (\<lambda>survivors.
       db_bind (assert_identity_unchanged fault account fence) (\<lambda>_.
         db_return survivors))))))"

definition reconcile ::
    "faults \<Rightarrow> account_id \<Rightarrow> message_envelope list \<Rightarrow> store_limit \<Rightarrow> identity_hash
      \<Rightarrow> message_id list store_op" where
  "reconcile fault account envelopes keep_limit fence =
     (if length envelopes > STORE_LIMIT_MAX then db_result (Inl Storage)
      else with_connection Storage fault
        (transaction store_error fault
          (reconcile_body fault account envelopes keep_limit fence)))"

definition set_message :: "message \<Rightarrow> mail_row \<Rightarrow> mail_row" where
  "set_message msg r =
     (set_envelope (msg_envelope msg) r)\<lparr>mr_content := SBlob (content_bytes (msg_content msg))\<rparr>"

definition cache_message :: "message \<Rightarrow> mail_row list \<Rightarrow> mail_row list" where
  "cache_message msg rows =
     map (\<lambda>r. if has_id (env_message_id (msg_envelope msg)) r then set_message msg r else r) rows"

definition cache_body :: "faults \<Rightarrow> account_id \<Rightarrow> message \<Rightarrow> identity_hash \<Rightarrow> bool store_op" where
  "cache_body fault account msg fence =
     db_bind
       (execute store_error fault
         (\<lambda>d. (d\<lparr>db_messages := cache_message msg (db_messages d)\<rparr>,
              length (filter (has_id (env_message_id (msg_envelope msg))) (db_messages d)))))
       (\<lambda>changed.
     db_bind (assert_identity_unchanged fault account fence) (\<lambda>_.
       db_return (changed = 1)))"

definition cache_if_present ::
    "faults \<Rightarrow> account_id \<Rightarrow> message \<Rightarrow> identity_hash \<Rightarrow> bool store_op" where
  "cache_if_present fault account msg fence =
     with_connection Storage fault
       (transaction store_error fault (cache_body fault account msg fence))"

text \<open>\<open>UPDATE messages SET unread = 0 WHERE ... AND unread = 1\<close>.\<close>

definition mark_rows :: "(mail_row \<Rightarrow> bool) \<Rightarrow> mail_row list \<Rightarrow> mail_row list" where
  "mark_rows Q rows =
     map (\<lambda>r. if Q r \<and> mr_unread r = SInt 1 then r\<lparr>mr_unread := SInt 0\<rparr> else r) rows"

definition mark_one_message_read :: "faults \<Rightarrow> message_id \<Rightarrow> unit store_op" where
  "mark_one_message_read fault i =
     with_connection Storage fault
       (db_bind
         (execute store_error fault
           (\<lambda>d. (d\<lparr>db_messages := mark_rows (has_id i) (db_messages d)\<rparr>, 0)))
         (\<lambda>_. db_return ()))"

definition in_thread :: "thread_id \<Rightarrow> mail_row \<Rightarrow> bool" where
  "in_thread t r \<longleftrightarrow> mr_thread_id r = SText (thread_id_str t)"

definition mark_one_thread_read :: "faults \<Rightarrow> thread_id \<Rightarrow> unit store_op" where
  "mark_one_thread_read fault t =
     with_connection Storage fault
       (db_bind
         (execute store_error fault
           (\<lambda>d. (d\<lparr>db_messages := mark_rows (in_thread t) (db_messages d)\<rparr>, 0)))
         (\<lambda>_. db_return ()))"

section \<open>Reading messages\<close>

fun read_rows :: "faults \<Rightarrow> mail_row list \<Rightarrow> message_envelope list store_op" where
  "read_rows fault [] = db_bind (backend_call store_error fault) (\<lambda>_. db_return [])"
| "read_rows fault (r # rows) =
     db_bind (backend_call store_error fault) (\<lambda>_.
     db_bind (db_result (envelope_from_row r)) (\<lambda>envelope.
     db_bind (read_rows fault rows) (\<lambda>rest. db_return (envelope # rest))))"

definition selected_rows :: "thread_id option \<Rightarrow> store_limit \<Rightarrow> mail_row list \<Rightarrow> mail_row list" where
  "selected_rows thread limit rows =
     take (store_limit_get limit)
       (case thread of
          Some t \<Rightarrow> sort_by thread_before (filter (in_thread t) rows)
        | None \<Rightarrow> sort_by recent_before rows)"

definition list_envelopes ::
    "faults \<Rightarrow> thread_id option \<Rightarrow> store_limit \<Rightarrow> message_envelope list store_op" where
  "list_envelopes fault thread limit =
     with_connection Storage fault
       (db_bind (backend_call store_error fault) (\<lambda>_.
        db_bind (query_row store_error fault (\<lambda>d. Inr (selected_rows thread limit (db_messages d))))
          (read_rows fault)))"

definition content_state :: "sqlv \<Rightarrow> int" where
  "content_state v =
     (case v of
        SNull \<Rightarrow> 0
      | SBlob b \<Rightarrow> if length b \<le> MAX_CONTENT_LEN then 1 else -1
      | _ \<Rightarrow> -1)"

definition message_of_row :: "mail_row \<Rightarrow> mailbox_store_error + message option" where
  "message_of_row r =
     rbind (envelope_from_row r) (\<lambda>envelope.
       if content_state (mr_content r) = 0 then Inr None
       else if content_state (mr_content r) = 1 then
         rbind (map_err corrupted (get_blob (mr_content r))) (\<lambda>content.
         rbind (map_err (\<lambda>_. Corrupted) (message_content_new content)) (\<lambda>content.
           Inr (Some \<lparr>msg_envelope = envelope, msg_content = content\<rparr>)))
       else Inl Corrupted)"

definition get_complete_message :: "faults \<Rightarrow> message_id \<Rightarrow> message option store_op" where
  "get_complete_message fault i =
     with_connection Storage fault
       (db_bind (backend_call store_error fault) (\<lambda>_.
        db_bind (backend_call store_error fault) (\<lambda>_.
        db_bind (query_row store_error fault (\<lambda>d. Inr (filter (has_id i) (db_messages d))))
          (\<lambda>rows. db_result (case rows of [] \<Rightarrow> Inr None | r # _ \<Rightarrow> message_of_row r)))))"

section \<open>Identity\<close>

definition read_identity_hash :: "faults \<Rightarrow> account_id \<Rightarrow> string option store_op" where
  "read_identity_hash fault account =
     with_connection Storage fault
       (db_bind (query_row store_error fault (\<lambda>d. Inr (identity_rows account d)))
         (\<lambda>rows. db_result
           (case rows of [] \<Rightarrow> Inr None | r # _ \<Rightarrow> map_ok Some (identity_of_row r))))"

definition forget_last_sync :: "db \<Rightarrow> db" where
  "forget_last_sync d =
     d\<lparr>db_lifecycle := map_option (\<lambda>l. l\<lparr>lr_last_sync := SNull\<rparr>) (db_lifecycle d)\<rparr>"

definition record_identity :: "account_id \<Rightarrow> string \<Rightarrow> identity_row list \<Rightarrow> identity_row list" where
  "record_identity account fresh rows =
     (if list_ex (\<lambda>r. ir_account_id r = SText (account_id_str account)) rows
      then map (\<lambda>r. if ir_account_id r = SText (account_id_str account)
                    then r\<lparr>ir_hash := SBlob fresh, ir_version := SInt IDENTITY_ALGO_VERSION\<rparr>
                    else r) rows
      else rows @ [\<lparr>ir_account_id = SText (account_id_str account), ir_hash = SBlob fresh,
                    ir_version = SInt IDENTITY_ALGO_VERSION\<rparr>])"

definition write_identity_hash ::
    "faults \<Rightarrow> account_id \<Rightarrow> string \<Rightarrow> bool \<Rightarrow> string option \<Rightarrow> unit store_op" where
  "write_identity_hash fault account fresh clear_mailbox expected =
     with_connection Storage fault
       (transaction store_error fault
         (db_bind (assert_identity_matches_expected fault account expected) (\<lambda>_.
          db_bind
            (if clear_mailbox
             then db_bind (execute store_error fault (\<lambda>d. (d\<lparr>db_messages := []\<rparr>, 0)))
               (\<lambda>_. execute store_error fault (\<lambda>d. (forget_last_sync d, 0)))
             else db_return 0)
            (\<lambda>_.
          db_bind
            (execute store_error fault
              (\<lambda>d. (d\<lparr>db_identity := record_identity account fresh (db_identity d)\<rparr>, 1)))
            (\<lambda>_. db_return ())))))"

section \<open>Purge and lifecycle\<close>

definition purge_body :: "faults \<Rightarrow> account_id \<Rightarrow> unit store_op" where
  "purge_body fault account =
     db_bind (execute store_error fault (\<lambda>d. (d\<lparr>db_messages := []\<rparr>, 0))) (\<lambda>_.
     db_bind
       (execute store_error fault
         (\<lambda>d. (d\<lparr>db_identity := filter
            (\<lambda>r. ir_account_id r \<noteq> SText (account_id_str account)) (db_identity d)\<rparr>, 0)))
       (\<lambda>_.
     db_bind
       (execute store_error fault
         (update_binding account
           (\<lambda>b. b\<lparr>bd_broker_subject := SNull, bd_refresh_token := SNull\<rparr>)))
       (\<lambda>cleared.
     if cleared \<noteq> 1 then db_result (Inl Corrupted)
     else db_bind (execute store_error fault (\<lambda>d. (forget_last_sync d, 0)))
       (\<lambda>_. db_return ()))))"

definition purge :: "faults \<Rightarrow> account_id \<Rightarrow> unit store_op" where
  "purge fault account =
     with_connection Storage fault (transaction store_error fault (purge_body fault account))"

definition lifecycle_of_row :: "lifecycle_row \<Rightarrow> mailbox_store_error + account_lifecycle_metadata" where
  "lifecycle_of_row l =
     rbind
       (case lr_recovery l of
          SNull \<Rightarrow> Inr None
        | SInt i \<Rightarrow>
            if i = 1 then Inr (Some IncompleteTeardown)
            else if i = 2 then Inr (Some RevokeUnconfirmed) else Inl Corrupted
        | _ \<Rightarrow> Inl Corrupted) (\<lambda>recovery.
     rbind
       (case lr_last_sync l of
          SNull \<Rightarrow> Inr None
        | SInt i \<Rightarrow> if i \<ge> 0 then Inr (Some i) else Inl Corrupted
        | _ \<Rightarrow> Inl Corrupted) (\<lambda>freshness.
       ok_or Corrupted (account_lifecycle_metadata_new recovery freshness)))"

definition read_lifecycle_metadata :: "faults \<Rightarrow> account_lifecycle_metadata store_op" where
  "read_lifecycle_metadata fault =
     with_connection Storage fault
       (db_bind (query_row store_error fault (\<lambda>d. Inr (db_lifecycle d)))
         (\<lambda>row. db_result
           (case row of
              None \<Rightarrow> Inr account_lifecycle_metadata_default
            | Some l \<Rightarrow> lifecycle_of_row l)))"

definition recovery_value :: "disconnect_recovery_state option \<Rightarrow> int" where
  "recovery_value recovery =
     (case recovery of
        None \<Rightarrow> 0 | Some IncompleteTeardown \<Rightarrow> 1 | Some RevokeUnconfirmed \<Rightarrow> 2)"

definition sql_nullif :: "int \<Rightarrow> int \<Rightarrow> sqlv" where
  "sql_nullif v w = (if v = w then SNull else SInt v)"

definition update_recovery :: "faults \<Rightarrow> disconnect_recovery_state option \<Rightarrow> unit store_op" where
  "update_recovery fault recovery =
     with_connection Storage fault
       (db_bind
         (execute store_error fault
           (\<lambda>d. (d\<lparr>db_lifecycle := Some
              (case db_lifecycle d of
                 None \<Rightarrow> \<lparr>lr_recovery = sql_nullif (recovery_value recovery) 0, lr_last_sync = SNull\<rparr>
               | Some l \<Rightarrow> l\<lparr>lr_recovery := sql_nullif (recovery_value recovery) 0\<rparr>)\<rparr>, 1)))
         (\<lambda>_. db_return ()))"

definition record_successful_sync_at :: "faults \<Rightarrow> int \<Rightarrow> unit store_op" where
  "record_successful_sync_at fault unix_millis =
     (if unix_millis < 0 then db_result (Inl Corrupted)
      else with_connection Storage fault
        (db_bind
          (execute store_error fault
            (\<lambda>d. (d\<lparr>db_lifecycle := Some
               (case db_lifecycle d of
                  None \<Rightarrow> \<lparr>lr_recovery = SNull, lr_last_sync = SInt unix_millis\<rparr>
                | Some l \<Rightarrow> l\<lparr>lr_last_sync := SInt unix_millis\<rparr>)\<rparr>, 1)))
          (\<lambda>_. db_return ())))"

section \<open>The port methods\<close>

text \<open>Every port method checks the account it is called for before it touches the tables.\<close>

definition for_account :: "account_id \<Rightarrow> account_id \<Rightarrow> 'a store_op \<Rightarrow> 'a store_op" where
  "for_account own account operation =
     db_bind (db_result (checked_account own account)) (\<lambda>_. operation)"

definition store_mark_message_read ::
    "faults \<Rightarrow> account_id \<Rightarrow> account_id \<Rightarrow> message_id \<Rightarrow> unit store_op" where
  "store_mark_message_read fault own account i =
     for_account own account (mark_one_message_read fault i)"

definition store_mark_thread_read ::
    "faults \<Rightarrow> account_id \<Rightarrow> account_id \<Rightarrow> thread_id \<Rightarrow> unit store_op" where
  "store_mark_thread_read fault own account t =
     for_account own account (mark_one_thread_read fault t)"

definition store_upsert_envelopes ::
    "faults \<Rightarrow> account_id \<Rightarrow> account_id \<Rightarrow> message_envelope list \<Rightarrow> unit store_op" where
  "store_upsert_envelopes fault own account envelopes =
     for_account own account (upsert fault envelopes)"

definition store_put_message :: "faults \<Rightarrow> account_id \<Rightarrow> account_id \<Rightarrow> message \<Rightarrow> unit store_op" where
  "store_put_message fault own account msg = for_account own account (put fault msg)"

definition store_reconcile_recent ::
    "faults \<Rightarrow> account_id \<Rightarrow> account_id \<Rightarrow> message_envelope list \<Rightarrow> store_limit \<Rightarrow> identity_hash
      \<Rightarrow> message_id list store_op" where
  "store_reconcile_recent fault own account envelopes keep_limit fence =
     for_account own account (reconcile fault account envelopes keep_limit fence)"

definition store_cache_message ::
    "faults \<Rightarrow> account_id \<Rightarrow> account_id \<Rightarrow> message \<Rightarrow> identity_hash \<Rightarrow> bool store_op" where
  "store_cache_message fault own account msg fence =
     for_account own account (cache_if_present fault account msg fence)"

definition store_message :: "faults \<Rightarrow> account_id \<Rightarrow> account_id \<Rightarrow> message_id \<Rightarrow> message option store_op"
  where
  "store_message fault own account i = for_account own account (get_complete_message fault i)"

definition store_list_envelopes ::
    "faults \<Rightarrow> account_id \<Rightarrow> account_id \<Rightarrow> store_limit \<Rightarrow> message_envelope list store_op" where
  "store_list_envelopes fault own account limit =
     for_account own account (list_envelopes fault None limit)"

definition store_thread_envelopes ::
    "faults \<Rightarrow> account_id \<Rightarrow> account_id \<Rightarrow> thread_id \<Rightarrow> store_limit \<Rightarrow> message_envelope list store_op"
  where
  "store_thread_envelopes fault own account t limit =
     for_account own account (list_envelopes fault (Some t) limit)"

definition store_load_identity :: "faults \<Rightarrow> account_id \<Rightarrow> account_id \<Rightarrow> identity_hash option store_op"
  where
  "store_load_identity fault own account =
     for_account own account
       (db_bind (read_identity_hash fault account) (\<lambda>h. db_return (map_option IdentityHash h)))"

definition store_reconcile_identity ::
    "faults \<Rightarrow> account_id \<Rightarrow> account_id \<Rightarrow> identity_hash \<Rightarrow> identity_reconcile
      \<Rightarrow> identity_hash option \<Rightarrow> unit store_op" where
  "store_reconcile_identity fault own account fresh action expected =
     for_account own account
       (write_identity_hash fault account (hash_bytes fresh) (action = ClearMailboxAndRecord)
         (map_option hash_bytes expected))"

definition store_purge_account :: "faults \<Rightarrow> account_id \<Rightarrow> account_id \<Rightarrow> unit store_op" where
  "store_purge_account fault own account = for_account own account (purge fault account)"

definition store_lifecycle_metadata ::
    "faults \<Rightarrow> account_id \<Rightarrow> account_id \<Rightarrow> account_lifecycle_metadata store_op" where
  "store_lifecycle_metadata fault own account =
     for_account own account (read_lifecycle_metadata fault)"

definition store_mark_disconnect_started :: "faults \<Rightarrow> account_id \<Rightarrow> account_id \<Rightarrow> unit store_op" where
  "store_mark_disconnect_started fault own account =
     for_account own account (update_recovery fault (Some IncompleteTeardown))"

definition store_mark_revoke_unconfirmed :: "faults \<Rightarrow> account_id \<Rightarrow> account_id \<Rightarrow> unit store_op" where
  "store_mark_revoke_unconfirmed fault own account =
     for_account own account (update_recovery fault (Some RevokeUnconfirmed))"

definition store_clear_disconnect_recovery :: "faults \<Rightarrow> account_id \<Rightarrow> account_id \<Rightarrow> unit store_op"
  where
  "store_clear_disconnect_recovery fault own account =
     for_account own account (update_recovery fault None)"

definition store_record_successful_sync ::
    "faults \<Rightarrow> account_id \<Rightarrow> account_id \<Rightarrow> int \<Rightarrow> unit store_op" where
  "store_record_successful_sync fault own account unix_millis =
     for_account own account (record_successful_sync_at fault unix_millis)"

end
