(* ===== verification/Sync_Core.thy ===== *)
theory Sync_Core
  imports App_Mailbox
begin

text \<open>
  The bounded recent-snapshot synchronisation of \<^verbatim>\<open>crates/application/src/sync.rs\<close>.
  The remote and the store are functions on a world of an arbitrary type: a remote call
  returns the world other cycles may have left behind while it was awaited, a store call
  the world it wrote. The two loops of the code are the structural recursions
  \<open>collect_pages\<close> (on the pages left) and \<open>fetch_bodies\<close> (on the survivors left).
\<close>

section \<open>Policy\<close>

definition MAX_SNAPSHOT_PAGES :: nat where "MAX_SNAPSHOT_PAGES = 1000"

datatype sync_policy_error = ZeroPageLimit | PageLimitTooLarge | BodyLimitExceedsKeepLimit

record sync_policy =
  sp_page_size :: page_size
  sp_max_pages :: nat
  sp_keep_limit :: store_limit
  sp_full_body_limit :: store_limit

definition sync_policy_new ::
    "page_size \<Rightarrow> nat \<Rightarrow> store_limit \<Rightarrow> store_limit \<Rightarrow> sync_policy_error + sync_policy" where
  "sync_policy_new page_size max_pages keep_limit full_body_limit =
     (if max_pages = 0 then Inl ZeroPageLimit
      else if max_pages > MAX_SNAPSHOT_PAGES then Inl PageLimitTooLarge
      else if store_limit_get full_body_limit > store_limit_get keep_limit
        then Inl BodyLimitExceedsKeepLimit
      else Inr \<lparr>sp_page_size = page_size, sp_max_pages = max_pages,
                sp_keep_limit = keep_limit, sp_full_body_limit = full_body_limit\<rparr>)"

definition sync_policy_ok :: "sync_policy \<Rightarrow> bool" where
  "sync_policy_ok p \<longleftrightarrow> page_size_ok (sp_page_size p) \<and> store_limit_ok (sp_keep_limit p)
     \<and> store_limit_ok (sp_full_body_limit p) \<and> 1 \<le> sp_max_pages p
     \<and> sp_max_pages p \<le> MAX_SNAPSHOT_PAGES
     \<and> store_limit_get (sp_full_body_limit p) \<le> store_limit_get (sp_keep_limit p)"

lemma sync_policy_new_ok [wf_intros]:
  "sync_policy_new ps mp kl bl = Inr p \<Longrightarrow> page_size_ok ps \<Longrightarrow> store_limit_ok kl \<Longrightarrow>
    store_limit_ok bl \<Longrightarrow> sync_policy_ok p"
  by (auto simp: sync_policy_new_def sync_policy_ok_def split: if_splits)

section \<open>Failures and progress\<close>

datatype sync_protocol_error =
  OversizedPage | RepeatedContinuation | ConflictingDuplicate | MismatchedFetchedMessage

datatype sync_failure_source =
    SF_Remote remote_mailbox_error
  | SF_Store mailbox_store_error
  | SF_Protocol sync_protocol_error
  | SF_SingleFlight
  | SF_IdentityFenced

record sync_progress =
  pr_pages :: nat
  pr_envelopes :: nat
  pr_body_requests :: nat
  pr_bodies_cached :: nat
  pr_bodies_skipped :: nat
  pr_snapshot_truncated :: bool

definition progress_default :: sync_progress where
  "progress_default = \<lparr>pr_pages = 0, pr_envelopes = 0, pr_body_requests = 0,
     pr_bodies_cached = 0, pr_bodies_skipped = 0, pr_snapshot_truncated = False\<rparr>"

datatype sync_failure = SyncFailure (failure_source: sync_failure_source)
                                    (failure_progress: sync_progress)

datatype sync_report = SyncReport (report_progress: sync_progress)

definition failure :: "sync_failure_source \<Rightarrow> sync_progress \<Rightarrow> sync_failure" where
  "failure source progress = SyncFailure source progress"

definition store_failure_source :: "mailbox_store_error \<Rightarrow> sync_failure_source" where
  "store_failure_source error =
     (case error of IdentityChanged \<Rightarrow> SF_IdentityFenced | _ \<Rightarrow> SF_Store error)"

section \<open>Collecting the snapshot\<close>

record snapshot =
  sn_progress :: sync_progress
  sn_envelopes :: "message_envelope list"
  sn_positions :: "message_id \<rightharpoonup> nat"
  sn_tokens :: "page_token list"

definition snapshot_empty :: snapshot where
  "snapshot_empty = \<lparr>sn_progress = progress_default, sn_envelopes = [],
     sn_positions = Map.empty, sn_tokens = []\<rparr>"

fun collect_items ::
    "nat \<Rightarrow> message_envelope list \<Rightarrow> snapshot \<Rightarrow> sync_failure + snapshot" where
  "collect_items capacity [] sn = Inr sn"
| "collect_items capacity (envelope # items) sn =
     (case sn_positions sn (env_message_id envelope) of
        Some position \<Rightarrow>
          if sn_envelopes sn ! position \<noteq> envelope
          then Inl (failure (SF_Protocol ConflictingDuplicate) (sn_progress sn))
          else collect_items capacity items sn
      | None \<Rightarrow>
          (let positions = (sn_positions sn)(env_message_id envelope \<mapsto> length (sn_envelopes sn));
               envelopes = sn_envelopes sn @ [envelope];
               progress = (if length envelopes \<le> capacity
                 then (sn_progress sn)\<lparr>pr_envelopes := pr_envelopes (sn_progress sn) + 1\<rparr>
                 else sn_progress sn)
           in collect_items capacity items
                (sn\<lparr>sn_positions := positions, sn_envelopes := envelopes,
                    sn_progress := progress\<rparr>)))"

text \<open>What a listed page does to the loop: stop, or go on with a continuation token.\<close>

datatype flow = Break | Continue page_token

definition count_page :: "snapshot \<Rightarrow> snapshot" where
  "count_page sn =
     sn\<lparr>sn_progress := (sn_progress sn)\<lparr>pr_pages := pr_pages (sn_progress sn) + 1\<rparr>\<rparr>"

definition set_truncated :: "snapshot \<Rightarrow> snapshot" where
  "set_truncated sn = sn\<lparr>sn_progress := (sn_progress sn)\<lparr>pr_snapshot_truncated := True\<rparr>\<rparr>"

definition end_of_page ::
    "sync_policy \<Rightarrow> page_token option \<Rightarrow> snapshot \<Rightarrow> sync_failure + (snapshot \<times> flow)" where
  "end_of_page policy continuation sn1 =
     (let capacity = store_limit_get (sp_keep_limit policy);
          reached_keep_limit = length (sn_envelopes sn1) \<ge> capacity;
          sn = (if length (sn_envelopes sn1) > capacity
                then sn1\<lparr>sn_envelopes := take capacity (sn_envelopes sn1)\<rparr> else sn1)
      in if (case continuation of Some token \<Rightarrow> token \<in> set (sn_tokens sn) | None \<Rightarrow> False)
         then Inl (failure (SF_Protocol RepeatedContinuation) (sn_progress sn))
         else if reached_keep_limit then Inr (set_truncated sn, Break)
         else (case continuation of
             None \<Rightarrow> Inr (sn, Break)
           | Some token \<Rightarrow>
               let pushed = sn\<lparr>sn_tokens := sn_tokens sn @ [token]\<rparr>
               in if pr_pages (sn_progress pushed) = sp_max_pages policy
                  then Inr (set_truncated pushed, Break)
                  else Inr (pushed, Continue token)))"

definition absorb_page ::
    "sync_policy \<Rightarrow> message_envelope page \<Rightarrow> snapshot \<Rightarrow> sync_failure + (snapshot \<times> flow)" where
  "absorb_page policy page sn0 =
     (let sn = count_page sn0
      in if length (page_items page) > page_size_get (sp_page_size policy)
         then Inl (failure (SF_Protocol OversizedPage) (sn_progress sn))
         else rbind (collect_items (store_limit_get (sp_keep_limit policy)) (page_items page) sn)
                (end_of_page policy (page_next_token page)))"

type_synonym 'w list_port =
  "'w \<Rightarrow> account_id \<Rightarrow> page_size \<Rightarrow> page_token option
    \<Rightarrow> (remote_mailbox_error + message_envelope page) \<times> 'w"

type_synonym 'w fetch_port =
  "'w \<Rightarrow> account_id \<Rightarrow> message_id \<Rightarrow> (remote_mailbox_error + message) \<times> 'w"

type_synonym 'w reconcile_port =
  "'w \<Rightarrow> account_id \<Rightarrow> message_envelope list \<Rightarrow> store_limit \<Rightarrow> identity_hash
    \<Rightarrow> (mailbox_store_error + message_id list) \<times> 'w"

type_synonym 'w cache_port =
  "'w \<Rightarrow> account_id \<Rightarrow> message \<Rightarrow> identity_hash \<Rightarrow> (mailbox_store_error + bool) \<times> 'w"

fun collect_pages ::
    "'w list_port \<Rightarrow> account_id \<Rightarrow> sync_policy \<Rightarrow> nat \<Rightarrow> page_token option \<Rightarrow> snapshot \<Rightarrow> 'w
      \<Rightarrow> (sync_failure + snapshot) \<times> 'w" where
  "collect_pages list_recent account policy 0 next_token sn w = (Inr sn, w)"
| "collect_pages list_recent account policy (Suc pages_left) next_token sn w =
     (case list_recent w account (sp_page_size policy) next_token of
        (Inl error, w1) \<Rightarrow> (Inl (failure (SF_Remote error) (sn_progress sn)), w1)
      | (Inr page, w1) \<Rightarrow>
          (case absorb_page policy page sn of
             Inl f \<Rightarrow> (Inl f, w1)
           | Inr (sn1, Break) \<Rightarrow> (Inr sn1, w1)
           | Inr (sn1, Continue token) \<Rightarrow>
               collect_pages list_recent account policy pages_left (Some token) sn1 w1))"

section \<open>Fetching the survivors' bodies\<close>

fun fetch_bodies ::
    "'w fetch_port \<Rightarrow> 'w cache_port \<Rightarrow> account_id \<Rightarrow> identity_hash \<Rightarrow> message_id list
      \<Rightarrow> sync_progress \<Rightarrow> 'w \<Rightarrow> (sync_failure + sync_progress) \<times> 'w" where
  "fetch_bodies fetch cache account fence [] progress w = (Inr progress, w)"
| "fetch_bodies fetch cache account fence (i # ids) progress0 w =
     (let progress = progress0\<lparr>pr_body_requests := pr_body_requests progress0 + 1\<rparr>;
          skipped = progress\<lparr>pr_bodies_skipped := pr_bodies_skipped progress + 1\<rparr>
      in case fetch w account i of
           (Inr message, w1) \<Rightarrow>
             if env_message_id (msg_envelope message) \<noteq> i
             then (Inl (failure (SF_Protocol MismatchedFetchedMessage) progress), w1)
             else (case cache w1 account message fence of
                 (Inl error, w2) \<Rightarrow> (Inl (failure (store_failure_source error) progress), w2)
               | (Inr present, w2) \<Rightarrow>
                   fetch_bodies fetch cache account fence ids
                     (if present
                      then progress\<lparr>pr_bodies_cached := pr_bodies_cached progress + 1\<rparr>
                      else skipped) w2)
         | (Inl error, w1) \<Rightarrow>
             if error = NotFound then fetch_bodies fetch cache account fence ids skipped w1
             else (Inl (failure (SF_Remote error) progress), w1))"

definition sync_with_flight ::
    "'w list_port \<Rightarrow> 'w fetch_port \<Rightarrow> 'w reconcile_port \<Rightarrow> 'w cache_port \<Rightarrow> account_id
      \<Rightarrow> sync_policy \<Rightarrow> identity_hash \<Rightarrow> 'w \<Rightarrow> (sync_failure + sync_report) \<times> 'w" where
  "sync_with_flight list_recent fetch reconcile cache account policy fence w =
     (case collect_pages list_recent account policy (sp_max_pages policy) None snapshot_empty w of
        (Inl f, w1) \<Rightarrow> (Inl f, w1)
      | (Inr sn, w1) \<Rightarrow>
          (case reconcile w1 account (sn_envelopes sn) (sp_keep_limit policy) fence of
             (Inl error, w2) \<Rightarrow> (Inl (failure (store_failure_source error) (sn_progress sn)), w2)
           | (Inr survivors, w2) \<Rightarrow>
               (case fetch_bodies fetch cache account fence
                       (take (store_limit_get (sp_full_body_limit policy)) survivors)
                       (sn_progress sn) w2 of
                  (Inl f, w3) \<Rightarrow> (Inl f, w3)
                | (Inr progress, w3) \<Rightarrow> (Inr (SyncReport progress), w3))))"

section \<open>Single flight\<close>

text \<open>
  The set of accounts with a cycle in progress, behind a mutex: \<open>None\<close> is the poisoned
  mutex, which \<open>acquire\<close> reports as a busy account and \<open>Drop\<close> ignores. It is part of the
  world that the tasks of a coordinator share, so a port that is awaited may come back with a
  set that other cycles have entered or left. What the claim gives is a guard,
  which its cycle drops when it ends.
\<close>

type_synonym active_accounts = "account_id set option"

record 'w coordinator =
  co_active :: active_accounts
  co_world :: 'w

datatype sync_flight = SyncFlight (flight_account: account_id)

definition coordinator_new :: "'w \<Rightarrow> 'w coordinator" where
  "coordinator_new w = \<lparr>co_active = Some {}, co_world = w\<rparr>"

definition acquire :: "account_id \<Rightarrow> 'w coordinator \<Rightarrow> (sync_failure + sync_flight) \<times> 'w coordinator"
  where
  "acquire account c =
     (case co_active c of
        None \<Rightarrow> (Inl (failure SF_SingleFlight progress_default), c)
      | Some accounts \<Rightarrow>
          if account \<in> accounts
          then (Inl (failure SF_SingleFlight progress_default), c)
          else (Inr (SyncFlight account), c\<lparr>co_active := Some (insert account accounts)\<rparr>))"

definition drop_flight :: "sync_flight \<Rightarrow> 'w coordinator \<Rightarrow> 'w coordinator" where
  "drop_flight flight c =
     c\<lparr>co_active := map_option (\<lambda>accounts. accounts - {flight_account flight}) (co_active c)\<rparr>"

definition sync_recent ::
    "'w coordinator list_port \<Rightarrow> 'w coordinator fetch_port \<Rightarrow> 'w coordinator reconcile_port
      \<Rightarrow> 'w coordinator cache_port \<Rightarrow> account_id \<Rightarrow> sync_policy \<Rightarrow> identity_hash \<Rightarrow> 'w coordinator
      \<Rightarrow> (sync_failure + sync_report) \<times> 'w coordinator" where
  "sync_recent list_recent fetch reconcile cache account policy fence c =
     (case acquire account c of
        (Inl f, c1) \<Rightarrow> (Inl f, c1)
      | (Inr flight, c1) \<Rightarrow>
          (case sync_with_flight list_recent fetch reconcile cache account policy fence c1 of
             (result, c2) \<Rightarrow> (result, drop_flight flight c2)))"

text \<open>A port of a coordinator that nobody else uses: the set is left alone.\<close>

definition alone :: "('w \<Rightarrow> 'a \<times> 'w) \<Rightarrow> 'w coordinator \<Rightarrow> 'a \<times> 'w coordinator" where
  "alone m c = (case m (co_world c) of (r, w) \<Rightarrow> (r, c\<lparr>co_world := w\<rparr>))"

lemma collect_pages_alone:
  "collect_pages (\<lambda>c a s t. alone (\<lambda>w. list_recent w a s t) c) account policy left token sn c
    = alone (collect_pages list_recent account policy left token sn) c"
proof (induction left arbitrary: token sn c)
  case (Suc left)
  show ?case
    by (auto simp: alone_def Suc.IH [unfolded alone_def] split: prod.split sum.split flow.split)
qed (simp add: alone_def)

lemma fetch_bodies_alone:
  "fetch_bodies (\<lambda>c a i. alone (\<lambda>w. fetch w a i) c) (\<lambda>c a m f. alone (\<lambda>w. cache w a m f) c)
      account fence ids progress c
    = alone (fetch_bodies fetch cache account fence ids progress) c"
proof (induction ids arbitrary: progress c)
  case (Cons i ids)
  show ?case
    by (auto simp: alone_def Cons.IH [unfolded alone_def] Let_def split: prod.split sum.split)
qed (simp add: alone_def)

text \<open>A cycle of a new coordinator is the cycle itself.\<close>

lemma sync_recent_alone:
  "sync_recent (\<lambda>c a s t. alone (\<lambda>w. list_recent w a s t) c) (\<lambda>c a i. alone (\<lambda>w. fetch w a i) c)
      (\<lambda>c a es k f. alone (\<lambda>w. reconcile w a es k f) c) (\<lambda>c a m f. alone (\<lambda>w. cache w a m f) c)
      account policy fence (coordinator_new w)
    = apsnd coordinator_new (sync_with_flight list_recent fetch reconcile cache account policy fence w)"
proof -
  have "sync_with_flight (\<lambda>c a s t. alone (\<lambda>w. list_recent w a s t) c) (\<lambda>c a i. alone (\<lambda>w. fetch w a i) c)
      (\<lambda>c a es k f. alone (\<lambda>w. reconcile w a es k f) c) (\<lambda>c a m f. alone (\<lambda>w. cache w a m f) c)
      account policy fence c
    = alone (sync_with_flight list_recent fetch reconcile cache account policy fence) c" for c
    unfolding sync_with_flight_def collect_pages_alone fetch_bodies_alone
    by (auto simp: alone_def split: prod.split sum.split)
  then show ?thesis
    by (simp add: sync_recent_def acquire_def coordinator_new_def alone_def drop_flight_def
        split: prod.split)
qed

section \<open>The snapshot invariant\<close>

definition positions_wf :: "snapshot \<Rightarrow> bool" where
  "positions_wf sn \<longleftrightarrow> distinct (map env_message_id (sn_envelopes sn))
     \<and> (\<forall>i p. sn_positions sn i = Some p \<longrightarrow>
          p < length (sn_envelopes sn) \<and> env_message_id (sn_envelopes sn ! p) = i)
     \<and> (\<forall>e\<in>set (sn_envelopes sn). sn_positions sn (env_message_id e) \<noteq> None)"

definition consistent :: "message_envelope list \<Rightarrow> bool" where
  "consistent es \<longleftrightarrow> (\<forall>x\<in>set es. \<forall>y\<in>set es. env_message_id x = env_message_id y \<longrightarrow> x = y)"

lemma snapshot_empty_wf [simp, wf_intros]: "positions_wf snapshot_empty"
  by (simp add: positions_wf_def snapshot_empty_def)

lemma positions_wf_push:
  assumes "positions_wf sn" and "sn_positions sn (env_message_id e) = None"
  shows "positions_wf (sn\<lparr>sn_positions := (sn_positions sn)(env_message_id e \<mapsto> length (sn_envelopes sn)),
    sn_envelopes := sn_envelopes sn @ [e], sn_progress := p\<rparr>)"
  using assms by (fastforce simp: positions_wf_def nth_append)

lemma positions_wf_found:
  assumes "positions_wf sn" and "sn_positions sn (env_message_id e) = Some p"
  shows "sn_envelopes sn ! p = e \<longleftrightarrow> e \<in> set (sn_envelopes sn)"
    and "sn_envelopes sn ! p \<in> set (sn_envelopes sn)"
    and "env_message_id (sn_envelopes sn ! p) = env_message_id e"
proof -
  have p: "p < length (sn_envelopes sn)" "env_message_id (sn_envelopes sn ! p) = env_message_id e"
    using assms by (auto simp: positions_wf_def)
  then show "sn_envelopes sn ! p \<in> set (sn_envelopes sn)"
    and "env_message_id (sn_envelopes sn ! p) = env_message_id e" by auto
  have "inj_on env_message_id (set (sn_envelopes sn))"
    using assms by (simp add: positions_wf_def distinct_map)
  then show "sn_envelopes sn ! p = e \<longleftrightarrow> e \<in> set (sn_envelopes sn)"
    using p by (metis inj_on_eq_iff nth_mem)
qed

lemma positions_wf_consistent: "positions_wf sn \<Longrightarrow> consistent (sn_envelopes sn)"
  by (auto simp: positions_wf_def consistent_def distinct_map inj_on_def)

text \<open>What the inner loop keeps of the counters.\<close>

definition counted :: "nat \<Rightarrow> snapshot \<Rightarrow> bool" where
  "counted capacity sn \<longleftrightarrow>
     pr_envelopes (sn_progress sn) = min capacity (length (sn_envelopes sn))"

lemma collect_items_run:
  assumes "positions_wf sn" and "counted capacity sn"
  shows "(\<exists>sn'. collect_items capacity items sn = Inr sn' \<and> positions_wf sn' \<and> counted capacity sn'
            \<and> consistent (sn_envelopes sn @ items)
            \<and> sn_envelopes sn' = first_occurrences (sn_envelopes sn @ items)
            \<and> sn_tokens sn' = sn_tokens sn
            \<and> sn_progress sn' = (sn_progress sn)\<lparr>pr_envelopes := pr_envelopes (sn_progress sn')\<rparr>)
       \<or> (\<exists>p. collect_items capacity items sn
                = Inl (SyncFailure (SF_Protocol ConflictingDuplicate) p)
            \<and> \<not> consistent (sn_envelopes sn @ items)
            \<and> pr_envelopes p \<le> capacity
            \<and> p = (sn_progress sn)\<lparr>pr_envelopes := pr_envelopes p\<rparr>)"
  using assms
proof (induction items arbitrary: sn)
  case Nil
  then show ?case
    by (auto simp: positions_wf_consistent) (auto simp: positions_wf_def distinct_map)
next
  case (Cons e es)
  note wf = Cons.prems(1)
  show ?case
  proof (cases "sn_positions sn (env_message_id e)")
    case None
    define sn1 where "sn1 = sn\<lparr>sn_positions := (sn_positions sn)(env_message_id e \<mapsto> length (sn_envelopes sn)),
      sn_envelopes := sn_envelopes sn @ [e],
      sn_progress := (if length (sn_envelopes sn @ [e]) \<le> capacity
                 then (sn_progress sn)\<lparr>pr_envelopes := pr_envelopes (sn_progress sn) + 1\<rparr>
                 else sn_progress sn)\<rparr>"
    have step: "collect_items capacity (e # es) sn = collect_items capacity es sn1"
      using None by (simp add: sn1_def Let_def)
    have "positions_wf sn1" unfolding sn1_def by (rule positions_wf_push [OF wf None])
    moreover have "counted capacity sn1"
      using Cons.prems(2) by (auto simp: sn1_def counted_def)
    moreover have "sn_envelopes sn1 @ es = sn_envelopes sn @ e # es" "sn_tokens sn1 = sn_tokens sn"
      by (simp_all add: sn1_def)
    moreover have "\<And>x. (sn_progress sn1)\<lparr>pr_envelopes := x\<rparr> = (sn_progress sn)\<lparr>pr_envelopes := x\<rparr>"
      by (simp add: sn1_def)
    ultimately show ?thesis
      unfolding step using Cons.IH [of sn1] by simp
  next
    case (Some p)
    note found = positions_wf_found [OF wf Some]
    show ?thesis
    proof (cases "e \<in> set (sn_envelopes sn)")
      case True
      then have eq: "sn_envelopes sn ! p = e" using found(1) by simp
      have step: "collect_items capacity (e # es) sn = collect_items capacity es sn"
        using Some eq by simp
      have con: "consistent (sn_envelopes sn @ e # es) = consistent (sn_envelopes sn @ es)"
        using True by (auto simp: consistent_def)
      have dis: "distinct (sn_envelopes sn)"
        using wf by (simp add: positions_wf_def distinct_map)
      have "first_occurrences (sn_envelopes sn @ e # es)
          = first_occurrences (first_occurrences (sn_envelopes sn @ [e]) @ es)"
        unfolding first_occurrences_append by simp
      also have "\<dots> = first_occurrences (sn_envelopes sn @ es)"
        using True dis by (simp add: first_occurrences_snoc)
      finally show ?thesis
        unfolding step con using Cons.IH [OF Cons.prems] by simp
    next
      case False
      then have ne: "sn_envelopes sn ! p \<noteq> e" using found(1) by simp
      have "\<not> consistent (sn_envelopes sn @ e # es)"
        using ne found(2,3) by (auto simp: consistent_def)
      moreover have "pr_envelopes (sn_progress sn) \<le> capacity"
        using Cons.prems(2) by (simp add: counted_def)
      ultimately show ?thesis
        using Some ne by (simp add: failure_def)
    qed
  qed
qed

section \<open>The page loop\<close>

text \<open>The state at the head of the page loop, with \<open>left\<close> of the page budget unspent.\<close>

definition loop_head :: "sync_policy \<Rightarrow> nat \<Rightarrow> snapshot \<Rightarrow> bool" where
  "loop_head policy left sn \<longleftrightarrow> positions_wf sn
     \<and> pr_envelopes (sn_progress sn) = length (sn_envelopes sn)
     \<and> length (sn_envelopes sn) < store_limit_get (sp_keep_limit policy)
     \<and> pr_pages (sn_progress sn) + left = sp_max_pages policy
     \<and> pr_body_requests (sn_progress sn) = 0 \<and> pr_bodies_cached (sn_progress sn) = 0
     \<and> pr_bodies_skipped (sn_progress sn) = 0 \<and> \<not> pr_snapshot_truncated (sn_progress sn)"

text \<open>What the loop hands to the reconciliation.\<close>

definition snapshot_done :: "sync_policy \<Rightarrow> snapshot \<Rightarrow> bool" where
  "snapshot_done policy sn \<longleftrightarrow> distinct (map env_message_id (sn_envelopes sn))
     \<and> length (sn_envelopes sn) \<le> store_limit_get (sp_keep_limit policy)
     \<and> pr_envelopes (sn_progress sn) = length (sn_envelopes sn)
     \<and> pr_pages (sn_progress sn) \<le> sp_max_pages policy
     \<and> pr_body_requests (sn_progress sn) = 0 \<and> pr_bodies_cached (sn_progress sn) = 0
     \<and> pr_bodies_skipped (sn_progress sn) = 0"

definition progress_within :: "sync_policy \<Rightarrow> sync_progress \<Rightarrow> bool" where
  "progress_within policy p \<longleftrightarrow> pr_pages p \<le> sp_max_pages policy
     \<and> pr_envelopes p \<le> store_limit_get (sp_keep_limit policy)
     \<and> pr_body_requests p \<le> store_limit_get (sp_full_body_limit policy)
     \<and> pr_bodies_cached p + pr_bodies_skipped p \<le> pr_body_requests p"

lemma snapshot_done_within: "snapshot_done policy sn \<Longrightarrow> progress_within policy (sn_progress sn)"
  by (simp add: snapshot_done_def progress_within_def)

lemma loop_head_within: "loop_head policy left sn \<Longrightarrow> progress_within policy (sn_progress sn)"
  by (simp add: loop_head_def progress_within_def)

lemma loop_head_start [wf_intros]:
  "sync_policy_ok policy \<Longrightarrow> loop_head policy (sp_max_pages policy) snapshot_empty"
  by (simp add: loop_head_def sync_policy_ok_def store_limit_ok_def)
     (simp add: snapshot_empty_def progress_default_def)

lemma count_page_simps [simp]:
  "sn_envelopes (count_page sn) = sn_envelopes sn" "sn_tokens (count_page sn) = sn_tokens sn"
  "sn_positions (count_page sn) = sn_positions sn"
  "pr_pages (sn_progress (count_page sn)) = Suc (pr_pages (sn_progress sn))"
  "pr_envelopes (sn_progress (count_page sn)) = pr_envelopes (sn_progress sn)"
  "pr_body_requests (sn_progress (count_page sn)) = pr_body_requests (sn_progress sn)"
  "pr_bodies_cached (sn_progress (count_page sn)) = pr_bodies_cached (sn_progress sn)"
  "pr_bodies_skipped (sn_progress (count_page sn)) = pr_bodies_skipped (sn_progress sn)"
  "pr_snapshot_truncated (sn_progress (count_page sn)) = pr_snapshot_truncated (sn_progress sn)"
  by (simp_all add: count_page_def)

lemma progress_envelopes_only:
  assumes "p = q\<lparr>pr_envelopes := n\<rparr>"
  shows "pr_pages p = pr_pages q" "pr_body_requests p = pr_body_requests q"
    "pr_bodies_cached p = pr_bodies_cached q" "pr_bodies_skipped p = pr_bodies_skipped q"
    "pr_snapshot_truncated p = pr_snapshot_truncated q"
  by (simp_all add: assms)

lemma counted_items:
  assumes head: "loop_head policy (Suc left) sn"
  defines "capacity \<equiv> store_limit_get (sp_keep_limit policy)"
  shows "(\<exists>sn'. collect_items capacity items (count_page sn) = Inr sn' \<and> positions_wf sn'
            \<and> counted capacity sn' \<and> sn_tokens sn' = sn_tokens sn
            \<and> pr_pages (sn_progress sn') = Suc (pr_pages (sn_progress sn))
            \<and> pr_body_requests (sn_progress sn') = 0 \<and> pr_bodies_cached (sn_progress sn') = 0
            \<and> pr_bodies_skipped (sn_progress sn') = 0 \<and> \<not> pr_snapshot_truncated (sn_progress sn'))
       \<or> (\<exists>p. collect_items capacity items (count_page sn)
              = Inl (SyncFailure (SF_Protocol ConflictingDuplicate) p)
            \<and> progress_within policy p)"
proof -
  have "positions_wf (count_page sn)" "counted capacity (count_page sn)"
    using head by (auto simp: loop_head_def positions_wf_def counted_def capacity_def)
  from collect_items_run [OF this, of items] show ?thesis
  proof (elim disjE exE conjE)
    fix p
    assume *: "collect_items capacity items (count_page sn)
        = Inl (SyncFailure (SF_Protocol ConflictingDuplicate) p)"
      "pr_envelopes p \<le> capacity" "p = (sn_progress (count_page sn))\<lparr>pr_envelopes := pr_envelopes p\<rparr>"
    show ?thesis
      using * progress_envelopes_only [OF *(3)] head
      by (simp add: progress_within_def loop_head_def capacity_def)
  next
    fix sn'
    assume *: "collect_items capacity items (count_page sn) = Inr sn'" "positions_wf sn'"
      "counted capacity sn'" "sn_tokens sn' = sn_tokens (count_page sn)"
      "sn_progress sn' = (sn_progress (count_page sn))\<lparr>pr_envelopes := pr_envelopes (sn_progress sn')\<rparr>"
    show ?thesis
      using *(1-4) progress_envelopes_only [OF *(5)] head by (simp add: loop_head_def)
  qed
qed

lemma end_of_page_head:
  assumes "positions_wf sn" "counted (store_limit_get (sp_keep_limit policy)) sn"
    "pr_pages (sn_progress sn) + left = sp_max_pages policy"
    "pr_body_requests (sn_progress sn) = 0" "pr_bodies_cached (sn_progress sn) = 0"
    "pr_bodies_skipped (sn_progress sn) = 0" "\<not> pr_snapshot_truncated (sn_progress sn)"
  shows "case end_of_page policy continuation sn of
      Inl f \<Rightarrow> progress_within policy (failure_progress f)
    | Inr (sn', Break) \<Rightarrow> snapshot_done policy sn'
    | Inr (sn', Continue token) \<Rightarrow> loop_head policy left sn' \<and> 0 < left
        \<and> token \<notin> set (sn_tokens sn) \<and> sn_tokens sn' = sn_tokens sn @ [token]"
proof -
  have "distinct (map env_message_id (sn_envelopes sn))"
    using assms(1) by (simp add: positions_wf_def)
  moreover have "positions_wf (sn\<lparr>sn_tokens := ts\<rparr>)" for ts
    using assms(1) by (simp add: positions_wf_def)
  moreover have "pr_envelopes (sn_progress sn)
      = min (store_limit_get (sp_keep_limit policy)) (length (sn_envelopes sn))"
    using assms(2) by (simp add: counted_def)
  ultimately show ?thesis
    using assms(3-7)
    by (auto simp: end_of_page_def Let_def set_truncated_def failure_def progress_within_def
        snapshot_done_def loop_head_def split: option.splits)
qed

lemma absorb_page_head:
  assumes head: "loop_head policy (Suc left) sn"
  shows "case absorb_page policy page sn of
      Inl f \<Rightarrow> progress_within policy (failure_progress f)
    | Inr (sn', Break) \<Rightarrow> snapshot_done policy sn'
    | Inr (sn', Continue token) \<Rightarrow> loop_head policy left sn' \<and> 0 < left
        \<and> token \<notin> set (sn_tokens sn) \<and> sn_tokens sn' = sn_tokens sn @ [token]"
proof (cases "length (page_items page) > page_size_get (sp_page_size policy)")
  case True
  have "progress_within policy (sn_progress (count_page sn))"
    using head by (simp add: progress_within_def loop_head_def)
  with True show ?thesis by (simp add: absorb_page_def Let_def failure_def)
next
  case False
  from counted_items [OF head, of "page_items page"] show ?thesis
  proof (elim disjE exE conjE)
    fix sn'
    assume *: "collect_items (store_limit_get (sp_keep_limit policy)) (page_items page) (count_page sn)
        = Inr sn'"
      "positions_wf sn'" "counted (store_limit_get (sp_keep_limit policy)) sn'"
      "sn_tokens sn' = sn_tokens sn" "pr_pages (sn_progress sn') = Suc (pr_pages (sn_progress sn))"
      "pr_body_requests (sn_progress sn') = 0" "pr_bodies_cached (sn_progress sn') = 0"
      "pr_bodies_skipped (sn_progress sn') = 0" "\<not> pr_snapshot_truncated (sn_progress sn')"
    have "pr_pages (sn_progress sn') + left = sp_max_pages policy"
      using head *(5) by (simp add: loop_head_def)
    from end_of_page_head [OF *(2,3) this *(6-9), of "page_next_token page"] show ?thesis
      unfolding *(4) using False *(1) by (simp add: absorb_page_def Let_def)
  next
    fix p
    assume "collect_items (store_limit_get (sp_keep_limit policy)) (page_items page) (count_page sn)
        = Inl (SyncFailure (SF_Protocol ConflictingDuplicate) p)" "progress_within policy p"
    then show ?thesis using False by (simp add: absorb_page_def Let_def)
  qed
qed

lemma collect_pages_result:
  assumes "loop_head policy left sn" and "left = 0 \<Longrightarrow> sp_max_pages policy = 0"
  shows "case fst (collect_pages list_recent account policy left next_token sn w) of
      Inl f \<Rightarrow> progress_within policy (failure_progress f)
    | Inr sn' \<Rightarrow> snapshot_done policy sn'"
  using assms
proof (induction list_recent account policy left next_token sn w rule: collect_pages.induct)
  case (1 list_recent account policy next_token sn w)
  then show ?case by (auto simp: loop_head_def snapshot_done_def positions_wf_def)
next
  case (2 list_recent account policy left next_token sn w)
  obtain r w1 where call: "list_recent w account (sp_page_size policy) next_token = (r, w1)"
    by fastforce
  show ?case
  proof (cases r)
    case (Inl e)
    then show ?thesis
      using call loop_head_within [OF 2(2)] by (simp add: failure_def)
  next
    case (Inr page)
    note step = absorb_page_head [OF 2(2), of page]
    show ?thesis
    proof (cases "absorb_page policy page sn")
      case (Inl f)
      then show ?thesis using call Inr step by simp
    next
      case (Inr c)
      then obtain sn1 fl where c: "absorb_page policy page sn = Inr (sn1, fl)"
        by (cases c) auto
      show ?thesis
      proof (cases fl)
        case Break
        then show ?thesis using call \<open>r = Inr page\<close> step c by simp
      next
        case (Continue token)
        then have "loop_head policy left sn1" "0 < left" using step c by simp_all
        with 2(1) [OF call [symmetric] \<open>r = Inr page\<close> c refl Continue] show ?thesis
          using call \<open>r = Inr page\<close> c Continue by simp
      qed
    qed
  qed
qed

section \<open>The body loop\<close>

lemma fetch_bodies_Cons_cases:
  defines "q \<equiv> \<lambda>p. p\<lparr>pr_body_requests := pr_body_requests p + 1\<rparr>"
  obtains (failed) f w' where "fetch_bodies fetch cache account fence (i # ids) p w = (Inl f, w')"
      "failure_progress f = q p"
    | (cached) w' where "fetch_bodies fetch cache account fence (i # ids) p w
        = fetch_bodies fetch cache account fence ids
            ((q p)\<lparr>pr_bodies_cached := pr_bodies_cached (q p) + 1\<rparr>) w'"
    | (skipped) w' where "fetch_bodies fetch cache account fence (i # ids) p w
        = fetch_bodies fetch cache account fence ids
            ((q p)\<lparr>pr_bodies_skipped := pr_bodies_skipped (q p) + 1\<rparr>) w'"
proof (cases "fetch w account i")
  case (Pair r w1)
  show thesis
  proof (cases r)
    case (Inl e)
    then show thesis
      using Pair failed skipped by (cases "e = NotFound") (simp_all add: q_def failure_def)
  next
    case (Inr m)
    show thesis
    proof (cases "env_message_id (msg_envelope m) = i")
      case True
      obtain r2 w2 where c: "cache w1 account m fence = (r2, w2)" by fastforce
      show thesis
      proof (cases r2)
        case (Inl e)
        then show thesis using Pair \<open>r = Inr m\<close> True c failed by (simp add: q_def failure_def)
      next
        case (Inr present)
        then show thesis
          using Pair \<open>r = Inr m\<close> True c cached skipped by (cases present) (simp_all add: q_def)
      qed
    next
      case False
      then show thesis using Pair Inr failed by (simp add: q_def failure_def)
    qed
  qed
qed

lemma fetch_bodies_result:
  assumes "progress_within policy p"
    and "pr_body_requests p + length ids \<le> store_limit_get (sp_full_body_limit policy)"
  shows "case fst (fetch_bodies fetch cache account fence ids p w) of
      Inl f \<Rightarrow> progress_within policy (failure_progress f)
    | Inr p' \<Rightarrow> progress_within policy p' \<and> pr_body_requests p' = pr_body_requests p + length ids
        \<and> pr_bodies_cached p' + pr_bodies_skipped p' + pr_body_requests p
            = pr_body_requests p' + pr_bodies_cached p + pr_bodies_skipped p"
  using assms
proof (induction ids arbitrary: p w)
  case (Cons i ids)
  show ?case
  proof (cases rule: fetch_bodies_Cons_cases [of fetch cache account fence i ids p w])
    case (failed f w')
    then show ?thesis using Cons.prems by (simp add: progress_within_def)
  next
    case (cached w')
    show ?thesis
      unfolding cached
      using Cons.IH [of "p\<lparr>pr_body_requests := pr_body_requests p + 1,
          pr_bodies_cached := pr_bodies_cached p + 1\<rparr>" w'] Cons.prems
      by (auto simp: progress_within_def split: sum.splits)
  next
    case (skipped w')
    show ?thesis
      unfolding skipped
      using Cons.IH [of "p\<lparr>pr_body_requests := pr_body_requests p + 1,
          pr_bodies_skipped := pr_bodies_skipped p + 1\<rparr>" w'] Cons.prems
      by (auto simp: progress_within_def split: sum.splits)
  qed
qed simp

text \<open>The counters of every outcome of a cycle.\<close>

lemma sync_with_flight_progress:
  assumes ok: "sync_policy_ok policy"
  shows "case fst (sync_with_flight list_recent fetch reconcile cache account policy fence w) of
      Inl f \<Rightarrow> progress_within policy (failure_progress f)
    | Inr r \<Rightarrow> progress_within policy (report_progress r)
        \<and> pr_bodies_cached (report_progress r) + pr_bodies_skipped (report_progress r)
            = pr_body_requests (report_progress r)"
proof -
  have "sp_max_pages policy = 0 \<Longrightarrow> sp_max_pages policy = 0" by simp
  from collect_pages_result [OF loop_head_start [OF ok] this, of list_recent account None w]
  have *: "case fst (collect_pages list_recent account policy (sp_max_pages policy) None snapshot_empty w) of
      Inl f \<Rightarrow> progress_within policy (failure_progress f)
    | Inr sn' \<Rightarrow> snapshot_done policy sn'" by simp
  obtain r w1 where c: "collect_pages list_recent account policy (sp_max_pages policy) None snapshot_empty w
      = (r, w1)" by fastforce
  show ?thesis
  proof (cases r)
    case (Inl f)
    then show ?thesis using c * by (simp add: sync_with_flight_def)
  next
    case (Inr sn)
    then have dn: "snapshot_done policy sn" using c * by simp
    obtain r2 w2 where s: "reconcile w1 account (sn_envelopes sn) (sp_keep_limit policy) fence = (r2, w2)"
      by fastforce
    show ?thesis
    proof (cases r2)
      case (Inl e)
      then show ?thesis
        using c Inr s snapshot_done_within [OF dn] by (simp add: sync_with_flight_def failure_def)
    next
      case (Inr ids)
      have le: "pr_body_requests (sn_progress sn)
          + length (take (store_limit_get (sp_full_body_limit policy)) ids)
          \<le> store_limit_get (sp_full_body_limit policy)"
        using dn by (simp add: snapshot_done_def)
      from fetch_bodies_result [OF snapshot_done_within [OF dn] le, of fetch cache account fence w2]
      show ?thesis
        using c \<open>r = Inr sn\<close> s Inr dn
        by (auto simp: sync_with_flight_def snapshot_done_def split: sum.splits prod.splits)
    qed
  qed
qed

section \<open>What the world goes through\<close>

lemma collect_pages_world:
  assumes "\<And>w a ps t. I w \<Longrightarrow> I (snd (list_recent w a ps t))" and "I w"
  shows "I (snd (collect_pages list_recent account policy left next_token sn w))"
  using assms
proof (induction list_recent account policy left next_token sn w rule: collect_pages.induct)
  case (2 list_recent account policy left next_token sn w)
  obtain r w1 where call: "list_recent w account (sp_page_size policy) next_token = (r, w1)"
    by fastforce
  have "I w1" using 2(2) [of w account "sp_page_size policy" next_token] 2(3) call by simp
  then show ?case
    using call 2(1) [OF call [symmetric] _ _ _ _ 2(2)]
    by (auto split: sum.split prod.split flow.split)
qed simp

lemma fetch_bodies_world:
  assumes "\<And>w a i. I w \<Longrightarrow> I (snd (fetch w a i))"
    and "\<And>w a m f. I w \<Longrightarrow> I (snd (cache w a m f))" and "I w"
  shows "I (snd (fetch_bodies fetch cache account fence ids p w))"
  using assms(3)
proof (induction ids arbitrary: p w)
  case (Cons i ids)
  obtain r w1 where f: "fetch w account i = (r, w1)" by fastforce
  have w1: "I w1" using assms(1) [OF Cons.prems, of account i] f by simp
  have w2: "I (snd (cache w1 account m fence))" for m by (rule assms(2) [OF w1])
  show ?case
    using f w1 w2 Cons.IH by (auto simp: Let_def split: sum.split prod.split) (metis snd_conv)+
qed simp

lemma collect_items_subset:
  "collect_items capacity items sn = Inr sn' \<Longrightarrow>
    set (sn_envelopes sn') \<subseteq> set (sn_envelopes sn) \<union> set items"
proof (induction capacity items sn rule: collect_items.induct)
  case (2 capacity e items sn)
  then show ?case by (auto simp: Let_def split: option.splits if_splits)
qed simp

lemma absorb_page_subset:
  assumes "absorb_page policy page sn = Inr (sn', fl)"
  shows "set (sn_envelopes sn') \<subseteq> set (sn_envelopes sn) \<union> set (page_items page)"
proof -
  from assms obtain sn1 where c: "collect_items (store_limit_get (sp_keep_limit policy))
      (page_items page) (count_page sn) = Inr sn1"
    and e: "end_of_page policy (page_next_token page) sn1 = Inr (sn', fl)"
    by (auto simp: absorb_page_def Let_def result_simps split: if_splits)
  from e have "set (sn_envelopes sn') \<subseteq> set (sn_envelopes sn1)"
    by (auto simp: end_of_page_def Let_def set_truncated_def split: if_splits option.splits
        dest: in_set_takeD)
  then show ?thesis using collect_items_subset [OF c] by auto
qed

lemma collect_pages_subset:
  assumes "\<And>w a ps t page. fst (list_recent w a ps t) = Inr page \<Longrightarrow> set (page_items page) \<subseteq> E"
    and "set (sn_envelopes sn) \<subseteq> E"
    and "collect_pages list_recent account policy left next_token sn w = (Inr sn', w')"
  shows "set (sn_envelopes sn') \<subseteq> E"
  using assms
proof (induction list_recent account policy left next_token sn w rule: collect_pages.induct)
  case (2 list_recent account policy left next_token sn w)
  obtain page w1 where call: "list_recent w account (sp_page_size policy) next_token = (Inr page, w1)"
    using 2(4) by (auto split: prod.splits sum.splits)
  obtain sn1 fl where a: "absorb_page policy page sn = Inr (sn1, fl)"
    using 2(4) call by (auto split: sum.splits)
  have "set (page_items page) \<subseteq> E" using 2(2) [of w account "sp_page_size policy" next_token] call by simp
  then have sub: "set (sn_envelopes sn1) \<subseteq> E" using absorb_page_subset [OF a] 2(3) by auto
  show ?case
  proof (cases fl)
    case Break
    then show ?thesis using 2(4) call a sub by simp
  next
    case (Continue token)
    with 2(1) [OF call [symmetric] refl a refl Continue 2(2) sub] show ?thesis
      using 2(4) call a by simp
  qed
qed auto

text \<open>
  The store contract of \<^verbatim>\<open>MailboxStore\<close> that the cycle relies on: the two fenced writes change
  durable state only when the recorded identity is the fence, a failing write changes
  nothing, the survivors are a subsequence of the snapshot that is really in the mailbox,
  and the mailbox is never larger than the keep limit after a reconciliation.
\<close>

locale fenced_store =
  fixes reconcile :: "'w reconcile_port"
    and cache :: "'w cache_port"
    and recorded :: "'w \<Rightarrow> account_id \<Rightarrow> identity_hash option"
    and mail_ids :: "'w \<Rightarrow> account_id \<Rightarrow> message_id list"
    and valid :: "'w \<Rightarrow> bool"
    and durable :: "'w \<Rightarrow> 'd"
  assumes durable_view: "durable w = durable w' \<Longrightarrow>
      recorded w a = recorded w' a \<and> mail_ids w a = mail_ids w' a \<and> valid w = valid w'"
    and reconcile_error: "reconcile w a es k f = (Inl e, w') \<Longrightarrow> durable w' = durable w"
    and reconcile_fenced: "reconcile w a es k f = (Inr ids, w') \<Longrightarrow>
      recorded w a = Some f \<and> recorded w' a = Some f"
    and reconcile_survivors: "reconcile w a es k f = (Inr ids, w') \<Longrightarrow> valid w \<Longrightarrow>
      distinct (map env_message_id es) \<Longrightarrow>
      valid w' \<and> subseq ids (map env_message_id es) \<and> set ids \<subseteq> set (mail_ids w' a)
        \<and> length (mail_ids w' a) \<le> store_limit_get k"
    and reconcile_ids: "reconcile w a es k f = (Inr ids, w') \<Longrightarrow>
      set (mail_ids w' a) \<subseteq> set (mail_ids w a) \<union> set (map env_message_id es)"
    and cache_error: "cache w a m f = (Inl e, w') \<Longrightarrow> durable w' = durable w"
    and cache_absent: "cache w a m f = (Inr False, w') \<Longrightarrow> valid w \<Longrightarrow> durable w' = durable w"
    and cache_fenced: "cache w a m f = (Inr b, w') \<Longrightarrow> recorded w a = Some f"
    and cache_keeps: "cache w a m f = (Inr b, w') \<Longrightarrow>
      recorded w' a = recorded w a \<and> mail_ids w' a = mail_ids w a"
    and cache_present: "cache w a m f = (Inr b, w') \<Longrightarrow> valid w \<Longrightarrow>
      valid w' \<and> (b \<longleftrightarrow> env_message_id (msg_envelope m) \<in> set (mail_ids w a))"
begin

text \<open>A write that finds another identity recorded changes nothing and does not succeed.\<close>

lemma reconcile_stale:
  "recorded w a \<noteq> Some f \<Longrightarrow> reconcile w a es k f = (r, w') \<Longrightarrow>
    durable w' = durable w \<and> \<not> is_ok r"
  using reconcile_error reconcile_fenced by (cases r) fastforce+

lemma cache_stale:
  "recorded w a \<noteq> Some f \<Longrightarrow> cache w a m f = (r, w') \<Longrightarrow>
    durable w' = durable w \<and> \<not> is_ok r"
  using cache_error cache_fenced by (cases r) fastforce+

lemma bodies_world:
  assumes ftc: "\<And>w a i. I w \<Longrightarrow> I (snd (fetch w a i))"
    and dur: "\<And>w w'. I w \<Longrightarrow> durable w' = durable w \<Longrightarrow> I w'"
    and cch: "\<And>w m b w'. I w \<Longrightarrow> recorded w account = Some fence \<Longrightarrow>
        cache w account m fence = (Inr b, w') \<Longrightarrow> I w'"
    and start: "I w"
  shows "I (snd (fetch_bodies fetch cache account fence ids p w))"
proof -
  have cache_inv: "I w2" if "I w1" "cache w1 account m fence = (r, w2)" for w1 w2 m r
    using that dur cache_error cch cache_fenced by (cases r) (blast, metis)
  show ?thesis
    using start
  proof (induction ids arbitrary: p w)
    case (Cons i ids)
    obtain r w3 where f: "fetch w account i = (r, w3)" by fastforce
    have "I w3" using ftc [OF Cons.prems, of account i] f by simp
    then show ?case
      using f Cons.IH cache_inv by (auto simp: Let_def split: sum.split prod.split)
  qed simp
qed

text \<open>
  The rule for a cycle among other cycles: what the others keep while the remote is
  awaited, and what the cycle's own writes keep where the fence is recorded, holds after it.
\<close>

lemma sync_world:
  assumes lst: "\<And>w a ps t. I w \<Longrightarrow> I (snd (list_recent w a ps t))"
    and ftc: "\<And>w a i. I w \<Longrightarrow> I (snd (fetch w a i))"
    and dur: "\<And>w w'. I w \<Longrightarrow> durable w' = durable w \<Longrightarrow> I w'"
    and rec: "\<And>w es k ids w'. I w \<Longrightarrow> recorded w account = Some fence \<Longrightarrow>
        reconcile w account es k fence = (Inr ids, w') \<Longrightarrow> I w'"
    and cch: "\<And>w m b w'. I w \<Longrightarrow> recorded w account = Some fence \<Longrightarrow>
        cache w account m fence = (Inr b, w') \<Longrightarrow> I w'"
    and start: "I w"
  shows "I (snd (sync_with_flight list_recent fetch reconcile cache account policy fence w))"
proof -
  have bodies: "I w2 \<Longrightarrow> I (snd (fetch_bodies fetch cache account fence ids p w2))" for ids p w2
    by (rule bodies_world [where I = I, OF ftc dur cch])
  obtain r1 w1 where c: "collect_pages list_recent account policy (sp_max_pages policy) None
      snapshot_empty w = (r1, w1)" by fastforce
  have "I (snd (collect_pages list_recent account policy (sp_max_pages policy) None
      snapshot_empty w))" by (rule collect_pages_world [OF lst start])
  then have w1: "I w1" using c by simp
  have "I w2" if "reconcile w1 account es k fence = (r, w2)" for es k r w2
    using w1 that dur reconcile_error rec reconcile_fenced by (cases r) (blast, metis)
  then show ?thesis
    using c w1 bodies
    by (auto simp: sync_with_flight_def split: sum.splits prod.splits) (metis snd_conv)+
qed

text \<open>A cycle that reaches its first write under another identity fails and writes nothing.\<close>

lemma sync_stale:
  assumes "\<And>w a ps t. recorded w account \<noteq> Some fence \<and> I w \<Longrightarrow>
      recorded (snd (list_recent w a ps t)) account \<noteq> Some fence \<and> I (snd (list_recent w a ps t))"
    and dur: "\<And>w w'. I w \<Longrightarrow> durable w' = durable w \<Longrightarrow> I w'"
    and "recorded w account \<noteq> Some fence" and "I w"
    and run: "sync_with_flight list_recent fetch reconcile cache account policy fence w = (r, w')"
  shows "\<not> is_ok r \<and> I w'"
proof -
  obtain r1 w1 where c: "collect_pages list_recent account policy (sp_max_pages policy) None
      snapshot_empty w = (r1, w1)" by fastforce
  have w1: "recorded w1 account \<noteq> Some fence \<and> I w1"
    using collect_pages_world [where I = "\<lambda>w. recorded w account \<noteq> Some fence \<and> I w" and w = w
        and list_recent = list_recent and policy = policy and left = "sp_max_pages policy"
        and account = account and next_token = None and sn = snapshot_empty] c assms(1,3,4)
    by simp
  show ?thesis
  proof (cases r1)
    case (Inr sn)
    obtain r2 w2 where s: "reconcile w1 account (sn_envelopes sn) (sp_keep_limit policy) fence = (r2, w2)"
      by fastforce
    have "durable w2 = durable w1" "\<not> is_ok r2" using reconcile_stale [OF _ s] w1 by auto
    then show ?thesis
      using run c Inr s w1 dur by (cases r2) (auto simp: sync_with_flight_def)
  qed (use run c w1 in \<open>auto simp: sync_with_flight_def\<close>)
qed

text \<open>
  When nobody else touches the store, a successful cycle leaves the fence recorded and at
  most the keep limit of messages.
\<close>

lemma sync_quiet:
  assumes lst: "\<And>w a ps t. durable (snd (list_recent w a ps t)) = durable w"
    and ftc: "\<And>w a i. durable (snd (fetch w a i)) = durable w"
    and ok: "sync_policy_ok policy" and val: "valid w"
    and run: "sync_with_flight list_recent fetch reconcile cache account policy fence w = (Inr rep, w')"
  shows "recorded w account = Some fence \<and> valid w' \<and> recorded w' account = Some fence
    \<and> length (mail_ids w' account) \<le> store_limit_get (sp_keep_limit policy)"
proof -
  have "sp_max_pages policy = 0 \<Longrightarrow> sp_max_pages policy = 0" by simp
  note col = collect_pages_result [OF loop_head_start [OF ok] this, of list_recent account None w]
  obtain sn w1 where c: "collect_pages list_recent account policy (sp_max_pages policy) None
      snapshot_empty w = (Inr sn, w1)"
    using run by (auto simp: sync_with_flight_def split: prod.splits sum.splits)
  obtain ids w2 where s: "reconcile w1 account (sn_envelopes sn) (sp_keep_limit policy) fence
      = (Inr ids, w2)"
    using run c by (auto simp: sync_with_flight_def split: prod.splits sum.splits)
  have "durable (snd (collect_pages list_recent account policy (sp_max_pages policy) None
      snapshot_empty w)) = durable w"
    by (rule collect_pages_world [where I = "\<lambda>x. durable x = durable w"]) (auto simp: lst)
  then have d1: "durable w1 = durable w" using c by simp
  have dist: "distinct (map env_message_id (sn_envelopes sn))"
    using col c by (simp add: snapshot_done_def)
  have after: "recorded w2 account = Some fence"
      "valid w2 \<and> length (mail_ids w2 account) \<le> store_limit_get (sp_keep_limit policy)"
    using reconcile_fenced [OF s] reconcile_survivors [OF s _ dist] durable_view [OF d1] val
    by auto
  let ?I = "\<lambda>x. recorded x account = Some fence
    \<and> valid x \<and> length (mail_ids x account) \<le> store_limit_get (sp_keep_limit policy)"
  have keep: "?I y" if "?I x" "durable y = durable x" for x y
    using that durable_view [of y x account] by simp
  have "?I (snd (fetch_bodies fetch cache account fence
      (take (store_limit_get (sp_full_body_limit policy)) ids) (sn_progress sn) w2))"
  proof (rule bodies_world [where I = ?I])
    show "?I (snd (fetch x a i))" if "?I x" for x a i by (rule keep [OF that ftc])
    show "?I y" if "?I x" "cache x account m fence = (Inr b, y)" for x m b y
      using that cache_keeps cache_present by simp
    show "?I y" if "?I x" "durable y = durable x" for x y by (rule keep [OF that])
    show "?I w2" by (rule conjI [OF after])
  qed
  moreover have "recorded w account = Some fence"
    using reconcile_fenced [OF s] durable_view [OF d1] by simp
  ultimately show ?thesis
    using run c s by (auto simp: sync_with_flight_def split: prod.splits sum.splits)
qed

text \<open>Only what the remote listed enters the mailbox, whatever the outcome of the cycle.\<close>

lemma sync_listed_only:
  assumes lst: "\<And>w a ps t. durable (snd (list_recent w a ps t)) = durable w"
    and ftc: "\<And>w a i. durable (snd (fetch w a i)) = durable w"
    and listed: "\<And>w a ps t page. fst (list_recent w a ps t) = Inr page \<Longrightarrow> set (page_items page) \<subseteq> E"
    and start: "set (mail_ids w account) \<subseteq> env_message_id ` E"
    and run: "sync_with_flight list_recent fetch reconcile cache account policy fence w = (r, w')"
  shows "set (mail_ids w' account) \<subseteq> env_message_id ` E"
proof -
  let ?I = "\<lambda>x. set (mail_ids x account) \<subseteq> env_message_id ` E"
  have keep: "?I y" if "?I x" "durable y = durable x" for x y
    using that durable_view [of y x account] by simp
  obtain r1 w1 where c: "collect_pages list_recent account policy (sp_max_pages policy) None
      snapshot_empty w = (r1, w1)" by fastforce
  have "durable (snd (collect_pages list_recent account policy (sp_max_pages policy) None
      snapshot_empty w)) = durable w"
    by (rule collect_pages_world [where I = "\<lambda>x. durable x = durable w"]) (auto simp: lst)
  then have w1: "?I w1" using keep [OF start] c by simp
  show ?thesis
  proof (cases r1)
    case (Inr sn)
    have sub: "set (sn_envelopes sn) \<subseteq> E"
      using collect_pages_subset [OF listed _ c [unfolded Inr]] by (simp add: snapshot_empty_def)
    obtain r2 w2 where s: "reconcile w1 account (sn_envelopes sn) (sp_keep_limit policy) fence = (r2, w2)"
      by fastforce
    have w2: "?I w2"
    proof (cases r2)
      case (Inl e)
      then show ?thesis using keep [OF w1] reconcile_error s by blast
    next
      case (Inr ids)
      have "set (mail_ids w2 account) \<subseteq> set (mail_ids w1 account)
          \<union> env_message_id ` set (sn_envelopes sn)"
        using reconcile_ids [OF s [unfolded Inr]] by simp
      then show ?thesis using w1 sub by blast
    qed
    have bodies: "?I (snd (fetch_bodies fetch cache account fence xs p w2))" for xs p
    proof (rule bodies_world [where I = ?I])
      show "?I (snd (fetch x a i))" if "?I x" for x a i by (rule keep [OF that ftc])
      show "?I y" if "?I x" "cache x account m fence = (Inr b, y)" for x m b y
        using that cache_keeps by simp
      show "?I y" if "?I x" "durable y = durable x" for x y by (rule keep [OF that])
      show "?I w2" by (rule w2)
    qed
    show ?thesis
      using run c Inr s w2 bodies
      by (auto simp: sync_with_flight_def split: sum.splits prod.splits) (metis snd_conv subsetD)+
  qed (use run c w1 in \<open>auto simp: sync_with_flight_def\<close>)
qed

end

end
