(* ===== verification/Samples.thy ===== *)
theory Samples
  imports Store_Mailbox Sync_Core
begin

text \<open>
  The tables of a fresh store, and the concrete accounts, messages, policies and ports at
  which the witnesses of the development evaluate its definitions.
\<close>

text \<open>The tables that a fresh store starts from: the migration and its binding row.\<close>

definition migrated_tables :: "account_id \<Rightarrow> db" where
  "migrated_tables account =
     \<lparr>db_messages = [],
      db_binding = Some \<lparr>bd_account_id = SText (account_id_str account),
                         bd_broker_subject = SNull, bd_refresh_token = SNull\<rparr>,
      db_identity = [], db_lifecycle = None\<rparr>"

definition sample_account :: account_id where
  "sample_account = AccountId ''acc-1''"

definition sample_hash :: identity_hash where
  "sample_hash = IdentityHash (replicate 32 CHR ''h'')"

definition other_hash :: identity_hash where
  "other_hash = IdentityHash (replicate 32 CHR ''k'')"

definition sample_envelope :: message_envelope where
  "sample_envelope = \<lparr>env_message_id = MessageId ''m1'', env_thread_id = ThreadId ''t1'',
     env_from = HeaderText ''a'', env_subject = HeaderText ''b'', env_preview = HeaderText ''c'',
     env_received_at = UnixTimestampMillis 5, env_unread = True\<rparr>"

definition sample_message :: message where
  "sample_message = \<lparr>msg_envelope = sample_envelope, msg_content = MessageContent ''body''\<rparr>"

definition sample_policy :: sync_policy where
  "sample_policy = \<lparr>sp_page_size = PageSize 2, sp_max_pages = 2, sp_keep_limit = StoreLimit 2,
     sp_full_body_limit = StoreLimit 1\<rparr>"

text \<open>A store with one old message, and with the given identity on record.\<close>

definition sample_store :: "identity_hash \<Rightarrow> db conn" where
  "sample_store h =
     \<lparr>cn_db = (migrated_tables sample_account)\<lparr>
        db_messages := [new_row (sample_envelope\<lparr>env_message_id := MessageId ''m0'',
          env_received_at := UnixTimestampMillis 1, env_unread := False\<rparr>) (SBlob ''old'')],
        db_identity := [\<lparr>ir_account_id = SText (account_id_str sample_account),
          ir_hash = SBlob (hash_bytes h), ir_version = SInt 2\<rparr>]\<rparr>,
      cn_calls = 0\<rparr>"

definition sample_list :: "'w list_port" where
  "sample_list w account page_size token = (Inr (Page [sample_envelope] None), w)"

definition sample_fetch :: "'w fetch_port" where
  "sample_fetch w account i = (Inr sample_message, w)"

lemma sample_schema_ok: "schema_ok (cn_db (sample_store h))"
  by (auto simp: sample_store_def migrated_tables_def schema_ok_def messages_ok_def unique_key_def
      mail_row_ok_def new_row_def sample_envelope_def unread_int_def binding_ok_def identities_ok_def)

lemmas sample_defs = sample_account_def sample_hash_def other_hash_def sample_envelope_def
  sample_message_def sample_policy_def sample_store_def sample_list_def sample_fetch_def
  migrated_tables_def

end
