(* ===== verification/Sync_Props.thy ===== *)
theory Sync_Props
  imports Samples
begin

text \<open>
  The properties of the bounded synchronisation that hold for every remote and every store:
  bounded counters and requests, the snapshot as a list of first occurrences, single flight.
\<close>

section \<open>Properties of the cycle\<close>

text \<open>
  Every counter a cycle reports, in success or in failure, stays within its policy and
  so fits the 16-bit counters of the code: no addition in the loops overflows. A success has
  handled every body it requested.
\<close>

theorem sync_counters_bounded:
  assumes "sync_policy_ok policy"
    and "fst (sync_with_flight list_recent fetch recon cache account policy fence w) = r"
  defines "p \<equiv> (case r of Inl f \<Rightarrow> failure_progress f | Inr rep \<Rightarrow> report_progress rep)"
  shows "pr_pages p \<le> sp_max_pages policy
    \<and> pr_envelopes p \<le> store_limit_get (sp_keep_limit policy)
    \<and> pr_body_requests p \<le> store_limit_get (sp_full_body_limit policy)
    \<and> pr_bodies_cached p + pr_bodies_skipped p \<le> pr_body_requests p
    \<and> pr_pages p < 2 ^ 16 \<and> pr_envelopes p < 2 ^ 16 \<and> pr_body_requests p < 2 ^ 16
    \<and> (is_ok r \<longrightarrow> pr_bodies_cached p + pr_bodies_skipped p = pr_body_requests p)"
proof -
  have lim: "sp_max_pages policy \<le> 1000" "store_limit_get (sp_keep_limit policy) \<le> 10000"
    "store_limit_get (sp_full_body_limit policy) \<le> 10000"
    using assms(1)
    by (auto simp: sync_policy_ok_def store_limit_ok_def STORE_LIMIT_MAX_def MAX_SNAPSHOT_PAGES_def)
  have "progress_within policy p
      \<and> (is_ok r \<longrightarrow> pr_bodies_cached p + pr_bodies_skipped p = pr_body_requests p)"
    using sync_with_flight_progress [OF assms(1), of list_recent fetch recon cache account fence w]
      assms(2) by (cases r) (auto simp: p_def)
  then show ?thesis using lim by (auto simp: progress_within_def)
qed

theorem sync_counters_bounded_witness:
  "\<exists>rep. fst (sync_with_flight sample_list sample_fetch (\<lambda>w a es k f. (Inr [MessageId ''m1''], w))
        (\<lambda>w a m f. (Inr True, w)) sample_account sample_policy sample_hash ()) = Inr rep
    \<and> pr_body_requests (report_progress rep) = 1 \<and> pr_pages (report_progress rep) \<le> 2
    \<and> pr_body_requests (report_progress rep) \<le> 1"
proof -
  have run: "fst (sync_with_flight sample_list sample_fetch (\<lambda>w a es k f. (Inr [MessageId ''m1''], w))
        (\<lambda>w a m f. (Inr True, w)) sample_account sample_policy sample_hash ()) =
      Inr (SyncReport \<lparr>pr_pages = 1, pr_envelopes = 1, pr_body_requests = 1, pr_bodies_cached = 1,
        pr_bodies_skipped = 0, pr_snapshot_truncated = False\<rparr>)"
    by code_simp
  have "sync_policy_ok sample_policy" by code_simp
  from sync_counters_bounded [OF this run] run show ?thesis by (simp add: sample_policy_def)
qed

text \<open>The log of the continuation tokens that a cycle's list requests carried.\<close>

definition logged_list :: "'w list_port \<Rightarrow> ('w \<times> page_token option list) list_port" where
  "logged_list list_recent wl account psize token =
     (case list_recent (fst wl) account psize token of
        (r, w1) \<Rightarrow> (r, w1, snd wl @ [token]))"

lemma collect_pages_log:
  assumes "loop_head policy left sn"
    and "log @ [next_token] = None # map Some (sn_tokens sn)" and "distinct (sn_tokens sn)"
    and "length log = pr_pages (sn_progress sn)"
  shows "case collect_pages (logged_list list_recent) account policy left next_token sn (w, log) of
      (r, w', log') \<Rightarrow> distinct log' \<and> length log' \<le> sp_max_pages policy"
  using assms
proof (induction left arbitrary: next_token sn w log)
  case 0
  have "distinct (log @ [next_token])"
    unfolding 0(2) using 0(3) by (simp add: distinct_map)
  then have "distinct log" by simp
  then show ?case using 0(1,4) by (simp add: loop_head_def)
next
  case (Suc left)
  have d: "distinct (log @ [next_token])"
    unfolding Suc.prems(2) using Suc.prems(3) by (simp add: distinct_map)
  have len: "length (log @ [next_token]) \<le> sp_max_pages policy"
    using Suc.prems(1,4) by (simp add: loop_head_def)
  obtain r w1 where call: "list_recent w account (sp_page_size policy) next_token = (r, w1)"
    by fastforce
  show ?case
  proof (cases r)
    case (Inl e)
    then show ?thesis using call d len by (simp add: logged_list_def)
  next
    case (Inr page)
    note step = absorb_page_head [OF Suc.prems(1), of page]
    show ?thesis
    proof (cases "absorb_page policy page sn")
      case (Inl f)
      then show ?thesis using call Inr d len by (simp add: logged_list_def)
    next
      case (Inr c)
      then obtain sn1 fl where c: "absorb_page policy page sn = Inr (sn1, fl)"
        by (cases c) auto
      show ?thesis
      proof (cases fl)
        case Break
        then show ?thesis using call \<open>r = Inr page\<close> c d len by (simp add: logged_list_def)
      next
        case (Continue token)
        then have s: "loop_head policy left sn1" "token \<notin> set (sn_tokens sn)"
          "sn_tokens sn1 = sn_tokens sn @ [token]" using step c by simp_all
        have "pr_pages (sn_progress sn1) = Suc (pr_pages (sn_progress sn))"
          using s(1) Suc.prems(1) by (simp add: loop_head_def)
        then have l: "length (log @ [next_token]) = pr_pages (sn_progress sn1)"
          using Suc.prems(4) by simp
        have t: "(log @ [next_token]) @ [Some token] = None # map Some (sn_tokens sn1)"
          unfolding Suc.prems(2) s(3) by simp
        have "distinct (sn_tokens sn1)" using s(2,3) Suc.prems(3) by simp
        from Suc.IH [OF s(1) t this l, of w1]
        have "case collect_pages (logged_list list_recent) account policy left (Some token) sn1
            (w1, log @ [next_token]) of
          (r, w', log') \<Rightarrow> distinct log' \<and> length log' \<le> sp_max_pages policy" .
        moreover have "logged_list list_recent (w, log) account (sp_page_size policy) next_token
            = (Inr page, w1, log @ [next_token])"
          using call \<open>r = Inr page\<close> by (simp add: logged_list_def)
        ultimately show ?thesis using c Continue by simp
      qed
    qed
  qed
qed

text \<open>
  C15. Whatever the provider answers, a cycle lists at most the policy's page cap and never
  requests the same continuation twice: a provider that loops its tokens is cut off.
\<close>

theorem list_requests_bounded:
  assumes "sync_policy_ok policy"
    and "collect_pages (logged_list list_recent) account policy (sp_max_pages policy) None
           snapshot_empty (w, []) = (r, w', log)"
  shows "distinct log \<and> length log \<le> sp_max_pages policy"
proof -
  have "loop_head policy (sp_max_pages policy) snapshot_empty"
    by (rule loop_head_start [OF assms(1)])
  then show ?thesis
    using collect_pages_log [of policy "sp_max_pages policy" snapshot_empty "[]" None
        list_recent account w] assms(2)
    by (simp add: snapshot_empty_def progress_default_def)
qed

theorem list_requests_bounded_witness:
  "\<exists>log. snd (snd (collect_pages (logged_list (\<lambda>w a ps t. (Inr (Page [] (Some (PageToken ''p''))), w)))
      sample_account sample_policy 2 None snapshot_empty ((), []))) = log
    \<and> log = [None, Some (PageToken ''p'')] \<and> distinct log \<and> length log \<le> sp_max_pages sample_policy"
proof -
  let ?list = "\<lambda>w a ps t. (Inr (Page [] (Some (PageToken ''p''))), w)"
  let ?run = "collect_pages (logged_list ?list) sample_account sample_policy (sp_max_pages sample_policy)
      None snapshot_empty ((), [])"
  have log: "snd (snd ?run) = [None, Some (PageToken ''p'')]" by code_simp
  then obtain r w' where run: "?run = (r, w', [None, Some (PageToken ''p'')])"
    by (metis prod.collapse)
  have "sync_policy_ok sample_policy" by code_simp
  from list_requests_bounded [OF this run] run show ?thesis by (simp add: sample_policy_def)
qed

text \<open>
  The snapshot built from the listed envelopes is the list of first occurrences, in
  encounter order, and the cycle rejects it exactly when two envelopes with one message
  identifier differ.
\<close>

theorem snapshot_is_first_occurrences:
  "(case collect_items capacity items snapshot_empty of
      Inr sn \<Rightarrow> consistent items \<and> sn_envelopes sn = first_occurrences items
        \<and> distinct (map env_message_id (sn_envelopes sn))
        \<and> pr_envelopes (sn_progress sn) = min capacity (card (set items))
    | Inl f \<Rightarrow> \<not> consistent items \<and> failure_source f = SF_Protocol ConflictingDuplicate)"
proof -
  have c: "counted capacity snapshot_empty"
    by (simp add: counted_def snapshot_empty_def progress_default_def)
  have e: "sn_envelopes snapshot_empty = []" by (simp add: snapshot_empty_def)
  have len: "length (first_occurrences items) = card (set items)"
    by (metis distinct_card distinct_first_occurrences set_first_occurrences)
  from collect_items_run [OF snapshot_empty_wf c, of items] show ?thesis
    by (auto simp: e len counted_def positions_wf_def)
qed

section \<open>Single flight\<close>

text \<open>
  What the other tasks of a coordinator may do, in any order and number, while a cycle awaits:
  start cycles, of any account, be refused one, end the cycles whose guards they hold, and
  anything at all to the rest of the world.
\<close>

inductive others :: "'w coordinator \<Rightarrow> sync_flight list \<Rightarrow> 'w coordinator \<Rightarrow> sync_flight list \<Rightarrow> bool"
    for c gs where
  others_idle: "others c gs c gs"
| others_start: "others c gs c1 gs1 \<Longrightarrow> acquire b c1 = (Inr g, c2) \<Longrightarrow> others c gs c2 (g # gs1)"
| others_refused: "others c gs c1 gs1 \<Longrightarrow> acquire b c1 = (Inl f, c2) \<Longrightarrow> others c gs c2 gs1"
| others_end: "others c gs c1 gs1 \<Longrightarrow> g \<in> set gs1 \<Longrightarrow> others c gs (drop_flight g c1) (remove1 g gs1)"
| others_work: "others c gs c1 gs1 \<Longrightarrow> others c gs (c1\<lparr>co_world := w\<rparr>) gs1"

text \<open>No two guards are for one account, and the set has exactly the accounts of the guards.\<close>

definition guarded :: "'w coordinator \<Rightarrow> sync_flight list \<Rightarrow> bool" where
  "guarded c gs \<longleftrightarrow> distinct gs \<and> co_active c = Some (flight_account ` set gs)"

definition interleaved :: "sync_flight \<Rightarrow> ('w coordinator \<Rightarrow> 'a \<times> 'w coordinator) \<Rightarrow> bool" where
  "interleaved g m \<longleftrightarrow> (\<forall>c gs. guarded c (g # gs) \<longrightarrow> (\<exists>gs'. others c gs (snd (m c)) gs'))"

definition shared_ports ::
    "sync_flight \<Rightarrow> 'w coordinator list_port \<Rightarrow> 'w coordinator fetch_port \<Rightarrow> 'w coordinator reconcile_port
      \<Rightarrow> 'w coordinator cache_port \<Rightarrow> bool" where
  "shared_ports g list_recent fetch recon cache \<longleftrightarrow>
     (\<forall>a s t. interleaved g (\<lambda>c. list_recent c a s t)) \<and> (\<forall>a i. interleaved g (\<lambda>c. fetch c a i))
     \<and> (\<forall>a es k f. interleaved g (\<lambda>c. recon c a es k f)) \<and> (\<forall>a m f. interleaved g (\<lambda>c. cache c a m f))"

text \<open>A cycle of the account, with whatever ports, is refused here and changes nothing.\<close>

definition refuses :: "account_id \<Rightarrow> 'w coordinator \<Rightarrow> bool" where
  "refuses account c \<longleftrightarrow> (\<forall>list_recent fetch recon cache policy fence.
     sync_recent list_recent fetch recon cache account policy fence c
       = (Inl (SyncFailure SF_SingleFlight progress_default), c))"

lemma acquire_eq:
  "acquire account c = (r, c') \<longleftrightarrow>
     (if co_active c = None \<or> account \<in> the (co_active c)
      then r = Inl (SyncFailure SF_SingleFlight progress_default) \<and> c' = c
      else r = Inr (SyncFlight account)
        \<and> c' = c\<lparr>co_active := Some (insert account (the (co_active c)))\<rparr>)"
  by (auto simp: acquire_def failure_def split: option.split)

lemma flight_in_accounts: "flight_account g \<in> flight_account ` set gs \<longleftrightarrow> g \<in> set gs"
  by (auto dest: sync_flight.expand [THEN sym])

lemma guarded_refuses: "guarded c gs \<Longrightarrow> SyncFlight account \<in> set gs \<Longrightarrow> refuses account c"
  using flight_in_accounts [of "SyncFlight account" gs]
  by (simp add: refuses_def sync_recent_def guarded_def acquire_def failure_def)

lemma others_guarded: "others c gs c' gs' \<Longrightarrow> guarded c (mine @ gs) \<Longrightarrow> guarded c' (mine @ gs')"
proof (induction rule: others.induct)
  case (others_start c1 gs1 b g c2)
  then have g: "g = SyncFlight b" "b \<notin> flight_account ` set (mine @ gs1)"
      "c2 = c1\<lparr>co_active := Some (insert b (flight_account ` set (mine @ gs1)))\<rparr>"
    by (auto simp: acquire_eq guarded_def split: if_splits)
  then have "g \<notin> set (mine @ gs1)" by force
  with g others_start show ?case by (auto simp: guarded_def)
next
  case (others_end c1 gs1 g)
  then have d: "distinct (mine @ gs1)" "co_active c1 = Some (flight_account ` set (mine @ gs1))"
    by (simp_all add: guarded_def)
  have "set (mine @ remove1 g gs1) = set (mine @ gs1) - {g}" using d(1) others_end(2) by auto
  moreover have "flight_account ` (set (mine @ gs1) - {g}) = flight_account ` set (mine @ gs1) - {flight_account g}"
    by (auto dest: sync_flight.expand)
  moreover have "distinct (mine @ remove1 g gs1)" using d(1) by auto
  ultimately show ?case using d(2) by (simp add: guarded_def drop_flight_def)
qed (auto simp: guarded_def acquire_eq split: if_splits)

lemma others_trans: "others c1 gs1 c2 gs2 \<Longrightarrow> others c gs c1 gs1 \<Longrightarrow> others c gs c2 gs2"
  by (induction rule: others.induct) (auto intro: others.intros)

text \<open>A cycle keeps what its ports keep, and its ports matter only where that holds.\<close>

lemma collect_pages_cong:
  assumes "\<And>c a s t. I c \<Longrightarrow> I (snd (list_recent c a s t))" and "\<And>c. I c \<Longrightarrow> list' c = list_recent c"
    and "I c"
  shows "collect_pages list' account policy left token sn c
    = collect_pages list_recent account policy left token sn c"
  using assms(3)
proof (induction left arbitrary: token sn c)
  case (Suc left)
  obtain r c1 where l: "list_recent c account (sp_page_size policy) token = (r, c1)" by fastforce
  have "I c1" using assms(1) [OF Suc.prems] l by (metis snd_conv)
  with l Suc show ?case by (simp add: assms(2) split: sum.split prod.split flow.split)
qed simp

lemma fetch_bodies_cong:
  assumes "\<And>c a i. I c \<Longrightarrow> I (snd (fetch c a i))" and "\<And>c a m f. I c \<Longrightarrow> I (snd (cache c a m f))"
    and "\<And>c. I c \<Longrightarrow> fetch' c = fetch c" and "\<And>c. I c \<Longrightarrow> cache' c = cache c" and "I c"
  shows "fetch_bodies fetch' cache' account fence ids progress c
    = fetch_bodies fetch cache account fence ids progress c"
  using assms(5)
proof (induction ids arbitrary: progress c)
  case (Cons i ids)
  obtain r c1 where f: "fetch c account i = (r, c1)" by fastforce
  have c1: "I c1" using assms(1) [OF Cons.prems] f by (metis snd_conv)
  have c2: "I c2" if "cache c1 account m fence = (q, c2)" for m q c2
    using assms(2) [OF c1] that by (metis snd_conv)
  from f c1 c2 Cons show ?case
    by (auto simp: assms(3,4) Let_def split: sum.split prod.split)
qed simp

lemma cycle_keeps_and_cong:
  assumes "\<And>c a s t. I c \<Longrightarrow> I (snd (list_recent c a s t))" and "\<And>c a i. I c \<Longrightarrow> I (snd (fetch c a i))"
    and "\<And>c a es k f. I c \<Longrightarrow> I (snd (recon c a es k f))" and "\<And>c a m f. I c \<Longrightarrow> I (snd (cache c a m f))"
    and "\<And>c. I c \<Longrightarrow> list' c = list_recent c \<and> fetch' c = fetch c \<and> recon' c = recon c \<and> cache' c = cache c"
    and "I c"
  shows "I (snd (sync_with_flight list_recent fetch recon cache account policy fence c))
    \<and> sync_with_flight list' fetch' recon' cache' account policy fence c
      = sync_with_flight list_recent fetch recon cache account policy fence c"
proof -
  obtain q c1 where pages: "collect_pages list_recent account policy (sp_max_pages policy) None
      snapshot_empty c = (q, c1)" by fastforce
  have c1: "I c1" using collect_pages_world [where I = I and list_recent = list_recent and account = account
      and policy = policy and left = "sp_max_pages policy" and next_token = None and sn = snapshot_empty
      and w = c, OF assms(1,6)] pages by simp
  have "collect_pages list' account policy (sp_max_pages policy) None snapshot_empty c
      = collect_pages list_recent account policy (sp_max_pages policy) None snapshot_empty c"
  proof (rule collect_pages_cong [where I = I, OF assms(1) _ assms(6)])
    show "list' d = list_recent d" if "I d" for d using assms(5) [OF that] by blast
  qed
  then have same: "collect_pages list' account policy (sp_max_pages policy) None snapshot_empty c = (q, c1)"
    using pages by simp
  have c2: "I c2" if "recon c1 account es k f = (x, c2)" for es k f x c2
    using assms(3) [OF c1] that by (metis snd_conv)
  have bodies: "fetch_bodies fetch' cache' account fence ids pr c2
      = fetch_bodies fetch cache account fence ids pr c2" if "I c2" for ids pr c2
  proof (rule fetch_bodies_cong [where I = I, OF assms(2,4) _ _ that])
    show "fetch' d = fetch d" "cache' d = cache d" if "I d" for d using assms(5) [OF that] by blast+
  qed
  have c3: "I c3" if "I c2" "fetch_bodies fetch cache account fence ids pr c2 = (x, c3)" for ids pr c2 x c3
    using fetch_bodies_world [where I = I and fetch = fetch and cache = cache and w = c2, OF assms(2,4) that(1),
      of account fence ids pr] that(2) by simp
  show ?thesis
    using pages same c1 assms(5) [OF c1]
    by (auto simp: sync_with_flight_def bodies dest: c2 intro: c3 split: sum.split prod.split)
qed

text \<open>
  C16. Single flight, with the set of active accounts shared by every task. However cycles
  start, are refused and end, no two are ever active for one account, and the set names exactly
  the accounts of the active ones. A cycle of an account that is active, or of a coordinator
  whose mutex is poisoned, is refused without touching anything. A cycle that is admitted makes
  every one of its calls, to the remote and to the store, in a state that refuses a second cycle
  of its account, whatever other tasks do while each call is awaited; when it ends, in success
  or in failure, its claim is given back and the claims of the others are as they left them.
\<close>

theorem single_flight:
  fixes c :: "'w coordinator"
  assumes "guarded c gs" and "shared_ports (SyncFlight account) list_recent fetch recon cache"
  shows "(\<forall>c' gs'. others c gs c' gs' \<longrightarrow> guarded c' gs')
    \<and> (\<forall>d :: 'w coordinator. co_active d = None \<longrightarrow> refuses account d)
    \<and> (if SyncFlight account \<in> set gs then refuses account c
       else (\<exists>d gs'. snd (sync_recent list_recent fetch recon cache account policy fence c)
              = drop_flight (SyncFlight account) d
            \<and> others (snd (acquire account c)) gs d gs' \<and> SyncFlight account \<notin> set gs'
            \<and> guarded (drop_flight (SyncFlight account) d) gs')
         \<and> (\<forall>list' fetch' recon' cache'. (\<forall>d. refuses account d \<longrightarrow>
                list' d = list_recent d \<and> fetch' d = fetch d \<and> recon' d = recon d \<and> cache' d = cache d) \<longrightarrow>
              sync_recent list' fetch' recon' cache' account policy fence c
                = sync_recent list_recent fetch recon cache account policy fence c))"
proof (intro conjI allI impI)
  show "guarded c' gs'" if "others c gs c' gs'" for c' gs'
    using others_guarded [OF that, of "[]"] assms(1) by simp
  show "refuses account d" if "co_active d = None" for d :: "'w coordinator"
    using that by (simp add: refuses_def sync_recent_def acquire_def failure_def)
  let ?g = "SyncFlight account"
  show "if ?g \<in> set gs then refuses account c
    else (\<exists>d gs'. snd (sync_recent list_recent fetch recon cache account policy fence c) = drop_flight ?g d
            \<and> others (snd (acquire account c)) gs d gs' \<and> ?g \<notin> set gs' \<and> guarded (drop_flight ?g d) gs')
      \<and> (\<forall>list' fetch' recon' cache'. (\<forall>d. refuses account d \<longrightarrow>
            list' d = list_recent d \<and> fetch' d = fetch d \<and> recon' d = recon d \<and> cache' d = cache d) \<longrightarrow>
          sync_recent list' fetch' recon' cache' account policy fence c
            = sync_recent list_recent fetch recon cache account policy fence c)"
  proof (cases "?g \<in> set gs")
    case True
    then show ?thesis using guarded_refuses [OF assms(1)] by simp
  next
    case False
    then have free: "account \<notin> flight_account ` set gs" using flight_in_accounts [of ?g gs] by simp
    define c1 where "c1 = c\<lparr>co_active := Some (insert account (flight_account ` set gs))\<rparr>"
    have acq: "acquire account c = (Inr ?g, c1)"
      using assms(1) free by (simp add: acquire_eq guarded_def c1_def)
    let ?I = "\<lambda>d. \<exists>gs'. others c1 gs d gs' \<and> guarded d (?g # gs')"
    have start: "?I c1" using assms(1) False by (auto intro: others_idle simp: guarded_def c1_def)
    have port: "?I (snd (m d))" if "interleaved ?g m" "?I d"
      for m :: "'w coordinator \<Rightarrow> 'x \<times> 'w coordinator" and d
    proof -
      from that(2) obtain gs1 where d: "others c1 gs d gs1" "guarded d (?g # gs1)" by blast
      with that(1) obtain gs2 where m: "others d gs1 (snd (m d)) gs2" unfolding interleaved_def by blast
      from others_trans [OF m d(1)] others_guarded [OF m, of "[?g]"] d(2) show ?thesis by auto
    qed
    have claimed: "refuses account d" if "?I d" for d using that guarded_refuses by fastforce
    note shared = assms(2) [unfolded shared_ports_def]
    have l: "?I (snd (list_recent d a s t))" if "?I d" for d a s t
      by (rule port [of "\<lambda>c. list_recent c a s t"]) (use shared that in simp_all)
    have f: "?I (snd (fetch d a i))" if "?I d" for d a i
      by (rule port [of "\<lambda>c. fetch c a i"]) (use shared that in simp_all)
    have r: "?I (snd (recon d a es k fn))" if "?I d" for d a es k fn
      by (rule port [of "\<lambda>c. recon c a es k fn"]) (use shared that in simp_all)
    have b: "?I (snd (cache d a m fn))" if "?I d" for d a m fn
      by (rule port [of "\<lambda>c. cache c a m fn"]) (use shared that in simp_all)
    note cycle = cycle_keeps_and_cong [where I = ?I and list_recent = list_recent and fetch = fetch
        and recon = recon and cache = cache and account = account and policy = policy and fence = fence,
        OF l f r b _ start]
    obtain r d where run: "sync_with_flight list_recent fetch recon cache account policy fence c1 = (r, d)"
      by fastforce
    obtain gs' where d: "others c1 gs d gs'" "guarded d (?g # gs')"
      using cycle [where list' = list_recent and fetch' = fetch and recon' = recon and cache' = cache] run
      by auto
    have "guarded (drop_flight ?g d) gs'"
      using d(2) flight_in_accounts [of ?g gs'] by (auto simp: guarded_def drop_flight_def)
    moreover have "?g \<notin> set gs'" using d(2) by (simp add: guarded_def)
    moreover have "sync_recent list_recent fetch recon cache account policy fence c = (r, drop_flight ?g d)"
      by (simp add: sync_recent_def acq run)
    moreover have "sync_recent list' fetch' recon' cache' account policy fence c = (r, drop_flight ?g d)"
      if "\<forall>d. refuses account d \<longrightarrow>
        list' d = list_recent d \<and> fetch' d = fetch d \<and> recon' d = recon d \<and> cache' d = cache d"
      for list' fetch' recon' cache'
      using cycle [where list' = list' and fetch' = fetch' and recon' = recon' and cache' = cache']
        that claimed run
      by (simp add: sync_recent_def acq)
    ultimately show ?thesis using False d(1) acq by auto
  qed
qed

text \<open>A cycle of one account while the listing of which another one starts.\<close>

definition crowded_list :: "unit coordinator list_port" where
  "crowded_list c a s t = (fst (sample_list () a s t), snd (acquire (AccountId ''acc-2'') c))"

theorem single_flight_witness:
  "co_active (snd (sync_recent crowded_list (\<lambda>c a i. (Inl NotFound, c)) (\<lambda>c a es k f. (Inr [], c))
      (\<lambda>c a m f. (Inr True, c)) sample_account sample_policy sample_hash (coordinator_new ())))
    = Some {AccountId ''acc-2''}
    \<and> (\<exists>gs. guarded (snd (sync_recent crowded_list (\<lambda>c a i. (Inl NotFound, c)) (\<lambda>c a es k f. (Inr [], c))
        (\<lambda>c a m f. (Inr True, c)) sample_account sample_policy sample_hash (coordinator_new ()))) gs
      \<and> SyncFlight sample_account \<notin> set gs)"
proof
  show "co_active (snd (sync_recent crowded_list (\<lambda>c a i. (Inl NotFound, c)) (\<lambda>c a es k f. (Inr [], c))
      (\<lambda>c a m f. (Inr True, c)) sample_account sample_policy sample_hash (coordinator_new ())))
    = Some {AccountId ''acc-2''}" by code_simp
  have start: "guarded (coordinator_new ()) []" by (simp add: guarded_def coordinator_new_def)
  have crowd: "\<exists>gs'. others c gs (snd (acquire b c)) gs'" for b gs and c :: "unit coordinator"
  proof (cases "acquire b c")
    case (Pair r c')
    then show ?thesis
      by (cases r) (auto intro: others_start [OF others_idle] others_refused [OF others_idle])
  qed
  have "shared_ports (SyncFlight sample_account) crowded_list (\<lambda>c a i. (Inl NotFound, c))
      (\<lambda>c a es k f. (Inr [], c)) (\<lambda>c a m f. (Inr True, c))"
    by (auto simp: shared_ports_def interleaved_def crowded_list_def intro: crowd others_idle)
  note cycle = single_flight [OF start this, of sample_policy sample_hash]
  have "SyncFlight sample_account \<notin> set []" by simp
  with cycle show "\<exists>gs. guarded (snd (sync_recent crowded_list (\<lambda>c a i. (Inl NotFound, c)) (\<lambda>c a es k f. (Inr [], c))
        (\<lambda>c a m f. (Inr True, c)) sample_account sample_policy sample_hash (coordinator_new ()))) gs
      \<and> SyncFlight sample_account \<notin> set gs"
    by (simp only: if_False) metis
qed

end
