(* ===== verification/Store_Laws.thy ===== *)
theory Store_Laws
  imports Samples
begin

text \<open>
  What the store operations promise: every error leaves the tables unchanged, the schema is
  preserved, a reconciliation keeps exactly the newest rows, local reads are sticky, cached
  bodies survive envelope writes, unreadable rows fail closed, and the fenced writes satisfy
  the contract \<open>fenced_store\<close> of the synchronisation cycle.
\<close>

section \<open>Atomicity of every operation\<close>

lemma atomic_for_account [op_rules]: "atomic_op m \<Longrightarrow> atomic_op (for_account own account m)"
  unfolding for_account_def by (intro atomic_bind read_only_result)

lemma atomic_execute: "atomic_op (execute classify fault stmt)"
  by (auto simp: atomic_op_def elim: execute_cases)

lemma atomic_execute_return [op_rules]:
  "atomic_op (db_bind (execute classify fault stmt) (\<lambda>_. db_return a))"
  unfolding db_return_result by (rule atomic_execute_judged) simp

lemma update_binding_judged: "update_binding account f d = (d', n) \<Longrightarrow>
    changed_one n = Inl err \<Longrightarrow> d' = d"
  by (auto simp: update_binding_def changed_one_def split: if_splits)

lemma read_only_recorded [op_rules]: "read_only_op (read_recorded_identity fault account)"
  unfolding read_recorded_identity_def by (intro op_rules)

lemma read_only_unchanged [op_rules]: "read_only_op (assert_identity_unchanged fault account fence)"
  unfolding assert_identity_unchanged_def by (intro op_rules)

lemma read_only_expected [op_rules]:
  "read_only_op (assert_identity_matches_expected fault account expected)"
  unfolding assert_identity_matches_expected_def by (intro op_rules)

lemma read_only_rows [op_rules]: "read_only_op (read_rows fault rows)"
  by (induction rows) (auto intro!: op_rules)

lemma read_only_survivors [op_rules]: "read_only_op (survivors_of fault seen es)"
  by (induction fault seen es rule: survivors_of.induct) (auto intro!: op_rules)

lemma atomic_result: "atomic_op (db_result r)"
  by (intro read_only_atomic op_rules)

lemma atomic_reconcile: "atomic_op (reconcile fault account es k f)"
  by (simp add: reconcile_def atomic_result op_rules)

lemma atomic_record_sync: "atomic_op (record_successful_sync_at fault t)"
  by (simp add: record_successful_sync_at_def atomic_result op_rules)

lemma atomic_store_token: "atomic_op (update_refresh_token fault account token)"
  unfolding update_refresh_token_def
  by (intro atomic_with atomic_execute_judged) (rule update_binding_judged)

lemma writes_atomic:
  "atomic_op (store_upsert_envelopes fault own account es)
    \<and> atomic_op (store_put_message fault own account msg)
    \<and> atomic_op (store_reconcile_recent fault own account es k fence)
    \<and> atomic_op (store_cache_message fault own account msg fence)
    \<and> atomic_op (store_mark_message_read fault own account i)
    \<and> atomic_op (store_mark_thread_read fault own account t)
    \<and> atomic_op (store_reconcile_identity fault own account fence action expected)
    \<and> atomic_op (store_purge_account fault own account)
    \<and> atomic_op (store_mark_disconnect_started fault own account)
    \<and> atomic_op (store_mark_revoke_unconfirmed fault own account)
    \<and> atomic_op (store_clear_disconnect_recovery fault own account)
    \<and> atomic_op (store_record_successful_sync fault own account millis)
    \<and> atomic_op (store_broker_subject fault own account text)
    \<and> atomic_op (store_refresh_token fault own account text)
    \<and> atomic_op (clear_refresh_token fault own account)"
proof -
  have subject: "atomic_op (store_broker_subject fault own account text)"
    unfolding store_broker_subject_def
  proof (intro atomic_bind read_only_result)
    show "atomic_op (if \<not> is_valid_broker_subject text then db_result (Inl Storage)
       else with_connection Storage fault
         (db_bind (execute store_error fault
             (update_binding account (\<lambda>b. b\<lparr>bd_broker_subject := SText text\<rparr>)))
           (\<lambda>changed. db_result (changed_one changed))))"
      by (auto intro!: atomic_result atomic_with atomic_execute_judged dest: update_binding_judged)
  qed
  have token: "atomic_op (store_refresh_token fault own account text)"
    "atomic_op (clear_refresh_token fault own account)"
    unfolding store_refresh_token_def clear_refresh_token_def
    by (auto intro!: atomic_bind read_only_result atomic_result atomic_store_token)
  show ?thesis
    unfolding store_upsert_envelopes_def store_put_message_def store_reconcile_recent_def
      store_cache_message_def store_mark_message_read_def store_mark_thread_read_def
      store_reconcile_identity_def store_purge_account_def store_mark_disconnect_started_def
      store_mark_revoke_unconfirmed_def store_clear_disconnect_recovery_def
      store_record_successful_sync_def upsert_def put_def cache_if_present_def
      mark_one_message_read_def mark_one_thread_read_def write_identity_hash_def purge_def
      update_recovery_def
    by (intro conjI atomic_for_account atomic_reconcile atomic_record_sync subject token op_rules)
qed

text \<open>
  C17. Every write of the store is all-or-nothing: whatever backend call fails, and whatever
  check of the code refuses the operation, an error leaves the tables as they were.
\<close>

theorem store_writes_atomic:
  "atomic_op (store_upsert_envelopes fault own account es)
    \<and> atomic_op (store_put_message fault own account msg)
    \<and> atomic_op (store_reconcile_recent fault own account es k fence)
    \<and> atomic_op (store_cache_message fault own account msg fence)
    \<and> atomic_op (store_mark_message_read fault own account i)
    \<and> atomic_op (store_mark_thread_read fault own account t)
    \<and> atomic_op (store_reconcile_identity fault own account fence action expected)
    \<and> atomic_op (store_purge_account fault own account)
    \<and> atomic_op (store_mark_disconnect_started fault own account)
    \<and> atomic_op (store_mark_revoke_unconfirmed fault own account)
    \<and> atomic_op (store_clear_disconnect_recovery fault own account)
    \<and> atomic_op (store_record_successful_sync fault own account millis)
    \<and> atomic_op (store_broker_subject fault own account text)
    \<and> atomic_op (store_refresh_token fault own account text)
    \<and> atomic_op (clear_refresh_token fault own account)"
  by (rule writes_atomic)

section \<open>What committed operations do\<close>

lemma for_account_Inr:
  "for_account own account m c = (Inr a, c') \<longleftrightarrow> own = account \<and> m c = (Inr a, c')"
  by (auto simp: for_account_def db_bind_def db_result_def checked_account_def)

lemma write_envelope_Inr:
  assumes "write_envelope fault e content c = (Inr u, c')"
  shows "cn_db c' = (cn_db c)\<lparr>db_messages := upsert_message e content (db_messages (cn_db c))\<rparr>"
  using assms unfolding write_envelope_def
  by (auto elim!: db_bind_Inr simp: db_return_def dest: execute_Inr)

lemma write_envelopes_Inr:
  assumes "write_envelopes fault es c = (Inr u, c')"
  shows "cn_db c' = (cn_db c)\<lparr>db_messages :=
    fold (\<lambda>e. upsert_message e None) es (db_messages (cn_db c))\<rparr>"
  using assms
proof (induction es arbitrary: c)
  case Nil
  then show ?case by (simp add: db_return_def)
next
  case (Cons e es)
  from Cons.prems obtain x c1 where "write_envelope fault e None c = (Inr x, c1)"
    "write_envelopes fault es c1 = (Inr u, c')" by (auto elim: db_bind_Inr)
  then show ?case using Cons.IH [of c1] write_envelope_Inr [of fault e None c x c1] by simp
qed

lemma survivors_of_Inr:
  assumes "survivors_of fault seen es c = (Inr ids, c')"
  shows "cn_db c' = cn_db c \<and> ids = filter (\<lambda>i. i \<notin> seen \<and> list_ex (has_id i) (db_messages (cn_db c)))
    (first_occurrences (map env_message_id es))"
  using assms
proof (induction fault seen es arbitrary: c ids rule: survivors_of.induct)
  case (1 fault seen)
  then show ?case by (simp add: db_return_def)
next
  case (2 fault seen e es)
  let ?i = "env_message_id e"
  let ?p = "\<lambda>i. list_ex (has_id i) (db_messages (cn_db c))"
  let ?fs = "first_occurrences (map env_message_id es)"
  show ?case
  proof (cases "?i \<in> seen")
    case True
    then have "cn_db c' = cn_db c" "ids = filter (\<lambda>i. i \<notin> seen \<and> ?p i) ?fs"
      using 2(1) [OF True, of c ids] 2(3) by auto
    then show ?thesis using True by (auto simp: first_occurrences_Cons intro: filter_cong)
  next
    case False
    from 2(3) False obtain b c1 rest c2 where
      q: "query_row store_error fault (\<lambda>d. Inr (list_ex (has_id ?i) (db_messages d))) c = (Inr b, c1)"
      and r: "survivors_of fault (insert ?i seen) es c1 = (Inr rest, c2)"
      and ids: "ids = (if b then ?i # rest else rest)" "c' = c2"
      by (simp add: db_bind_Inr_iff) blast
    have b: "b = ?p ?i" "cn_db c1 = cn_db c" using query_row_Inr [OF q] by auto
    have r': "survivors_of fault (insert ?i seen) es c1 = (Inr rest, c')" using r ids(2) by simp
    have "cn_db c' = cn_db c" "rest = filter (\<lambda>i. i \<notin> insert ?i seen \<and> ?p i) ?fs"
      using 2(2) [OF False r'] unfolding b(2) by blast+
    then show ?thesis
      using False b(1) ids(1) by (auto simp: first_occurrences_Cons intro!: filter_cong)
  qed
qed

lemma read_recorded_Inr:
  assumes "read_recorded_identity fault account c = (Inr h, c')"
  shows "cn_db c' = cn_db c \<and> (case identity_rows account (cn_db c) of
      [] \<Rightarrow> h = None | r # _ \<Rightarrow> (\<exists>b. identity_of_row r = Inr b \<and> h = Some b))"
  using assms unfolding read_recorded_identity_def
  by (auto elim!: db_bind_Inr simp: db_result_def result_simps dest!: query_row_Inr split: list.splits)

text \<open>The identity that the store has on record for an account, when it is readable.\<close>

definition recorded_identity :: "db \<Rightarrow> account_id \<Rightarrow> identity_hash option" where
  "recorded_identity d account =
     (case identity_rows account d of
        [] \<Rightarrow> None
      | r # _ \<Rightarrow> (case identity_of_row r of Inr h \<Rightarrow> Some (IdentityHash h) | Inl _ \<Rightarrow> None))"

lemma assert_identity_unchanged_Inr:
  assumes "assert_identity_unchanged fault account fence c = (Inr u, c')"
  shows "cn_db c' = cn_db c \<and> recorded_identity (cn_db c) account = Some fence"
  using assms unfolding assert_identity_unchanged_def recorded_identity_def
  by (auto elim!: db_bind_Inr simp: db_result_def dest!: read_recorded_Inr
      split: list.splits option.splits if_splits)

lemma recorded_identity_messages [simp]:
  "recorded_identity (d\<lparr>db_messages := ms\<rparr>) = recorded_identity d"
  by (auto simp: recorded_identity_def identity_rows_def fun_eq_iff)

lemma reconcile_Inr:
  assumes "reconcile fault account es k fence c = (Inr ids, c')"
  shows "cn_db c' = (cn_db c)\<lparr>db_messages := prune (store_limit_get k)
      (fold (\<lambda>e. upsert_message e None) es (db_messages (cn_db c)))\<rparr>
    \<and> list_all (\<lambda>r. mr_message_id r \<noteq> SNull) (db_messages (cn_db c))
    \<and> ids = filter (\<lambda>i. list_ex (has_id i) (db_messages (cn_db c')))
        (first_occurrences (map env_message_id es))
    \<and> recorded_identity (cn_db c) account = Some fence"
proof -
  from assms obtain c1 c2 where c: "cn_db c1 = cn_db c"
    and body: "reconcile_body fault account es k fence c1 = (Inr ids, c2)" "cn_db c' = cn_db c2"
    unfolding reconcile_def by (auto split: if_splits elim: committed_Inr)
  from body(1) obtain b c3 where
    q: "query_row store_error fault (\<lambda>d. Inr (list_ex (\<lambda>r. mr_message_id r = SNull) (db_messages d))) c1
      = (Inr b, c3)"
    and rest: "(if b then db_result (Inl Corrupted)
     else db_bind (write_envelopes fault es) (\<lambda>_.
       db_bind (execute store_error fault
           (\<lambda>d. (d\<lparr>db_messages := prune (store_limit_get k) (db_messages d)\<rparr>, 0))) (\<lambda>_.
       db_bind (backend_call store_error fault) (\<lambda>_.
       db_bind (survivors_of fault {} es) (\<lambda>survivors.
       db_bind (assert_identity_unchanged fault account fence) (\<lambda>_. db_return survivors)))))) c3
      = (Inr ids, c2)"
    unfolding reconcile_body_def by (auto elim: db_bind_Inr)
  have b: "\<not> list_ex (\<lambda>r. mr_message_id r = SNull) (db_messages (cn_db c))" "cn_db c3 = cn_db c"
    using query_row_Inr [OF q] c rest by (auto simp: db_result_def split: if_splits)
  then have "\<not> b" using query_row_Inr [OF q] c by auto
  with rest obtain u c4 n c5 z c6 c7 v where
    w: "write_envelopes fault es c3 = (Inr u, c4)"
    and x: "execute store_error fault
      (\<lambda>d. (d\<lparr>db_messages := prune (store_limit_get k) (db_messages d)\<rparr>, 0)) c4 = (Inr n, c5)"
    and z: "backend_call store_error fault c5 = (Inr z, c6)"
    and s: "survivors_of fault {} es c6 = (Inr ids, c7)"
    and a: "assert_identity_unchanged fault account fence c7 = (Inr v, c2)"
    by (auto simp: db_bind_Inr_iff)
  have x': "cn_db c5 = (cn_db c4)\<lparr>db_messages := prune (store_limit_get k) (db_messages (cn_db c4))\<rparr>"
    using execute_Inr [OF x] by auto
  note facts = write_envelopes_Inr [OF w] x' backend_call_db [OF z] survivors_of_Inr [OF s]
    assert_identity_unchanged_Inr [OF a]
  have "cn_db c' = (cn_db c)\<lparr>db_messages := prune (store_limit_get k)
      (fold (\<lambda>e. upsert_message e None) es (db_messages (cn_db c)))\<rparr>"
    using facts body(2) b(2) by simp
  moreover have "list_all (\<lambda>r. mr_message_id r \<noteq> SNull) (db_messages (cn_db c))"
    using b(1) by (auto simp: list_all_iff list_ex_iff)
  ultimately show ?thesis
    using facts body(2) b(2) by simp
qed

section \<open>The message table\<close>

interpretation recent: row_order recent_before
  by unfold_locales (auto simp: recent_before_def)

interpretation in_thread_order: row_order thread_before
  by unfold_locales (auto simp: thread_before_def)

definition no_null_ids :: "mail_row list \<Rightarrow> bool" where
  "no_null_ids rows \<longleftrightarrow> list_all (\<lambda>r. mr_message_id r \<noteq> SNull) rows"

lemma set_envelope_id [simp]: "mr_message_id (set_envelope e r) = mr_message_id r"
  by (simp add: set_envelope_def)

lemma upsert_ids:
  "map mr_message_id (upsert_message e content rows) =
    (if list_ex (has_id (env_message_id e)) rows then map mr_message_id rows
     else map mr_message_id rows @ [SText (message_id_str (env_message_id e))])"
  by (auto simp: upsert_message_def new_row_def split: option.splits)

lemma unique_key_upsert:
  "unique_key (map mr_message_id rows) \<Longrightarrow>
    unique_key (map mr_message_id (upsert_message e content rows))"
  unfolding upsert_ids by (auto simp: unique_key_def has_id_def list_ex_iff)

lemma no_null_upsert: "no_null_ids rows \<Longrightarrow> no_null_ids (upsert_message e content rows)"
  by (auto simp: no_null_ids_def upsert_message_def list_all_iff new_row_def split: option.splits)

lemma mail_row_ok_set: "mail_row_ok r \<Longrightarrow> mail_row_ok (set_envelope e r)"
  by (auto simp: mail_row_ok_def set_envelope_def sticky_unread_def unread_int_def)

lemma mail_row_ok_content [simp]: "mail_row_ok (r\<lparr>mr_content := v\<rparr>) = mail_row_ok r"
  by (simp add: mail_row_ok_def)

lemma mail_row_ok_new: "mail_row_ok (new_row e v)"
  by (auto simp: mail_row_ok_def new_row_def unread_int_def)

lemma messages_ok_upsert [wf_intros]:
  "messages_ok rows \<Longrightarrow> messages_ok (upsert_message e content rows)"
  unfolding messages_ok_def
proof (intro conjI unique_key_upsert)
  assume "unique_key (map mr_message_id rows) \<and> list_all mail_row_ok rows"
  then show "list_all mail_row_ok (upsert_message e content rows)"
    by (auto simp: upsert_message_def list_all_iff mail_row_ok_set mail_row_ok_new split: option.split)
qed simp

lemma fold_upsert_inv:
  assumes "\<And>e rows. P rows \<Longrightarrow> P (upsert_message e None rows)" and "P rows"
  shows "P (fold (\<lambda>e. upsert_message e None) es rows)"
  using assms(2) by (induction es arbitrary: rows) (auto simp: assms(1))

lemma unique_key_filter: "unique_key (map f xs) \<Longrightarrow> unique_key (map f (filter Q xs))"
  by (induction xs) (auto simp: unique_key_def)

lemma no_null_distinct:
  "no_null_ids rows \<Longrightarrow> unique_key (map mr_message_id rows) \<longleftrightarrow> distinct (map mr_message_id rows)"
proof -
  assume "no_null_ids rows"
  then have "filter (\<lambda>v. v \<noteq> SNull) (map mr_message_id rows) = map mr_message_id rows"
    by (auto simp: no_null_ids_def list_all_iff filter_id_conv)
  then show ?thesis by (simp add: unique_key_def)
qed

lemma set_prune:
  assumes "no_null_ids rows" and "distinct (map mr_message_id rows)"
  shows "set (prune n rows) = set (newest n rows)"
proof -
  have sub: "set (newest n rows) \<subseteq> set rows"
    unfolding newest_def using set_take_subset [of n "sort_by recent_before rows"] by simp
  have nn: "SNull \<notin> mr_message_id ` set rows"
    using assms(1) by (auto simp: no_null_ids_def list_all_iff)
  have nn2: "SNull \<notin> mr_message_id ` set (newest n rows)" using nn sub by blast
  have inj: "inj_on mr_message_id (set rows)" using assms(2) by (simp add: distinct_map)
  show ?thesis
  proof (intro equalityI subsetI)
    fix r assume r: "r \<in> set (prune n rows)"
    then have "r \<in> set rows" "\<not> sql_not_in (mr_message_id r) (map mr_message_id (newest n rows))"
      by (simp_all add: prune_def)
    then have "mr_message_id r \<noteq> SNull" using nn by (metis imageI)
    with r have "mr_message_id r \<in> mr_message_id ` set (newest n rows)"
      using nn2 by (auto simp: sql_not_in_def prune_def)
    then show "r \<in> set (newest n rows)"
      using inj sub \<open>r \<in> set rows\<close> by (auto dest: inj_onD)
  next
    fix r assume r: "r \<in> set (newest n rows)"
    then show "r \<in> set (prune n rows)"
      using sub nn by (auto simp: prune_def sql_not_in_def)
  qed
qed

lemma distinct_ids_prune:
  "distinct (map mr_message_id rows) \<Longrightarrow> distinct (map mr_message_id (prune n rows))"
  by (simp add: prune_def distinct_map_filter)

lemma length_prune:
  assumes "no_null_ids rows" and "distinct (map mr_message_id rows)"
  shows "length (prune n rows) = min n (length rows)"
proof -
  have "distinct (map mr_message_id (prune n rows))" by (rule distinct_ids_prune [OF assms(2)])
  then have "distinct (prune n rows)" by (rule distinct_mapD1)
  moreover have "distinct (map mr_message_id (sort_by recent_before rows))" using assms(2) by simp
  then have "distinct (sort_by recent_before rows)" by (rule distinct_mapD1)
  then have "distinct (newest n rows)" by (simp add: newest_def)
  ultimately have "length (prune n rows) = length (newest n rows)"
    using set_prune [OF assms] by (metis distinct_card)
  then show ?thesis by (simp add: newest_def)
qed

text \<open>The rows a prune keeps all come before the rows it drops.\<close>

lemma prune_newest:
  assumes "no_null_ids rows" and "distinct (map mr_message_id rows)"
    and "r \<in> set (prune n rows)" and "s \<in> set rows" and "s \<notin> set (prune n rows)"
  shows "recent_before r s"
proof -
  have "r \<in> set (newest n rows)" "s \<notin> set (newest n rows)"
    using assms set_prune [OF assms(1,2)] by auto
  moreover have "s \<in> set (sort_by recent_before rows)" using assms(4) by simp
  then have "s \<in> set (take n (sort_by recent_before rows)) \<or> s \<in> set (drop n (sort_by recent_before rows))"
    by (metis Un_iff append_take_drop_id set_append)
  ultimately show ?thesis
    unfolding newest_def by (blast intro: recent.limit_keeps_first)
qed

lemma upserted_ids:
  "set (map mr_message_id (fold (\<lambda>e. upsert_message e None) es rows)) =
    set (map mr_message_id rows) \<union> (\<lambda>e. SText (message_id_str (env_message_id e))) ` set es"
proof (induction es arbitrary: rows)
  case (Cons e es)
  have "set (map mr_message_id (upsert_message e None rows))
      = insert (SText (message_id_str (env_message_id e))) (set (map mr_message_id rows))"
    unfolding upsert_ids by (auto simp: list_ex_iff has_id_def intro: rev_image_eqI)
  then show ?case using Cons.IH [of "upsert_message e None rows"] by auto
qed simp

section \<open>The contract of the fenced writes\<close>

definition message_ids :: "db \<Rightarrow> message_id list" where
  "message_ids d = concat (map (\<lambda>r. case mr_message_id r of SText s \<Rightarrow> [MessageId s] | _ \<Rightarrow> [])
     (db_messages d))"

lemma message_ids_iff: "i \<in> set (message_ids d) \<longleftrightarrow> list_ex (has_id i) (db_messages d)"
proof -
  have "i \<in> set (concat (map (\<lambda>r. case mr_message_id r of SText s \<Rightarrow> [MessageId s] | _ \<Rightarrow> []) rows))
      \<longleftrightarrow> list_ex (has_id i) rows" for rows
    by (induction rows) (auto simp: has_id_def split: sqlv.split)
  then show ?thesis by (simp add: message_ids_def)
qed

lemma length_message_ids: "length (message_ids d) \<le> length (db_messages d)"
proof -
  have "length (concat (map (\<lambda>r. case mr_message_id r of SText s \<Rightarrow> [MessageId s] | _ \<Rightarrow> []) rows))
      \<le> length rows" for rows
    by (induction rows) (auto split: sqlv.split)
  then show ?thesis by (simp add: message_ids_def)
qed

lemma message_ids_map:
  "(\<And>r. mr_message_id (f r) = mr_message_id r) \<Longrightarrow>
    message_ids (d\<lparr>db_messages := map f (db_messages d)\<rparr>) = message_ids d"
  by (simp add: message_ids_def o_def)

lemma set_message_id [simp]: "mr_message_id (set_message m r) = mr_message_id r"
  by (simp add: set_message_def)

lemma messages_ok_prune [wf_intros]: "messages_ok rows \<Longrightarrow> messages_ok (prune n rows)"
  by (auto simp: messages_ok_def prune_def list_all_iff unique_key_filter)

lemma messages_ok_map:
  assumes "messages_ok rows" and "\<And>r. mr_message_id (f r) = mr_message_id r"
    and "\<And>r. mail_row_ok r \<Longrightarrow> mail_row_ok (f r)"
  shows "messages_ok (map f rows)"
  using assms by (simp add: messages_ok_def list_all_iff o_def)

lemma mail_row_ok_set_message: "mail_row_ok r \<Longrightarrow> mail_row_ok (set_message m r)"
  by (simp add: set_message_def mail_row_ok_set)

lemma schema_ok_messages:
  "schema_ok d \<Longrightarrow> messages_ok ms \<Longrightarrow> schema_ok (d\<lparr>db_messages := ms\<rparr>)"
  by (simp add: schema_ok_def)

lemma schema_okD: "schema_ok d \<Longrightarrow> messages_ok (db_messages d)"
  by (simp add: schema_ok_def)

text \<open>The table a reconciliation prunes, and what is left of it.\<close>

definition merged :: "message_envelope list \<Rightarrow> mail_row list \<Rightarrow> mail_row list" where
  "merged es rows = fold (\<lambda>e. upsert_message e None) es rows"

lemma merged_ok [wf_intros]: "messages_ok rows \<Longrightarrow> messages_ok (merged es rows)"
  unfolding merged_def by (rule fold_upsert_inv [where P = messages_ok]) (auto intro: wf_intros)

lemma merged_no_null: "no_null_ids rows \<Longrightarrow> no_null_ids (merged es rows)"
  unfolding merged_def by (rule fold_upsert_inv [where P = no_null_ids]) (auto intro: no_null_upsert)

lemma merged_distinct:
  "messages_ok rows \<Longrightarrow> no_null_ids rows \<Longrightarrow> distinct (map mr_message_id (merged es rows))"
  using merged_ok merged_no_null no_null_distinct by (blast dest: messages_ok_def [THEN iffD1])

lemmas reconcile_table = reconcile_Inr [folded merged_def no_null_ids_def]

lemma reconcile_length:
  assumes "reconcile fault account es k fence c = (Inr ids, c')" and "schema_ok (cn_db c)"
  shows "length (db_messages (cn_db c')) \<le> store_limit_get k"
proof -
  note t = reconcile_table [OF assms(1)]
  let ?rows = "merged es (db_messages (cn_db c))"
  have "no_null_ids ?rows" "distinct (map mr_message_id ?rows)"
    using t merged_no_null merged_distinct schema_okD [OF assms(2)] by auto
  from length_prune [OF this, of "store_limit_get k"] show ?thesis using t by simp
qed

lemma reconcile_schema:
  assumes "reconcile fault account es k fence c = (Inr ids, c')" and "schema_ok (cn_db c)"
  shows "schema_ok (cn_db c')"
  using reconcile_table [OF assms(1)] assms(2)
  by (auto intro!: schema_ok_messages wf_intros dest: schema_okD)

lemma reconcile_survivor_ids:
  assumes "reconcile fault account es k fence c = (Inr ids, c')"
  shows "distinct ids \<and> subseq ids (map env_message_id es) \<and> set ids \<subseteq> set (message_ids (cn_db c'))"
  using reconcile_Inr [OF assms]
  by (auto simp: message_ids_iff intro: subseq_order.trans [OF subseq_filter_left subseq_first_occurrences])

lemma reconcile_new_ids:
  assumes "reconcile fault account es k fence c = (Inr ids, c')"
  shows "set (message_ids (cn_db c')) \<subseteq> set (message_ids (cn_db c)) \<union> set (map env_message_id es)"
proof
  fix i assume "i \<in> set (message_ids (cn_db c'))"
  then obtain r where "r \<in> set (merged es (db_messages (cn_db c)))" "has_id i r"
    using reconcile_table [OF assms] by (auto simp: message_ids_iff list_ex_iff prune_def)
  then have "SText (message_id_str i) \<in> set (map mr_message_id (merged es (db_messages (cn_db c))))"
    by (auto simp: has_id_def image_iff) metis
  then have "SText (message_id_str i) \<in> set (map mr_message_id (db_messages (cn_db c)))
      \<or> i \<in> set (map env_message_id es)"
    unfolding merged_def upserted_ids by (auto intro: rev_image_eqI message_id.expand)
  then show "i \<in> set (message_ids (cn_db c)) \<union> set (map env_message_id es)"
    by (auto simp: message_ids_iff list_ex_iff has_id_def)
qed

lemma cache_if_present_Inr:
  assumes "cache_if_present fault account m fence c = (Inr b, c')"
  shows "cn_db c' = (cn_db c)\<lparr>db_messages := cache_message m (db_messages (cn_db c))\<rparr>
    \<and> b = (length (filter (has_id (env_message_id (msg_envelope m))) (db_messages (cn_db c))) = 1)
    \<and> recorded_identity (cn_db c) account = Some fence"
proof -
  let ?stmt = "\<lambda>d. (d\<lparr>db_messages := cache_message m (db_messages d)\<rparr>,
      length (filter (has_id (env_message_id (msg_envelope m))) (db_messages d)))"
  from assms obtain c1 c2 where c1: "cn_db c1 = cn_db c"
    and body: "cache_body fault account m fence c1 = (Inr b, c2)" "cn_db c' = cn_db c2"
    unfolding cache_if_present_def by (rule committed_Inr)
  from body(1) obtain n c3 u where x: "execute store_error fault ?stmt c1 = (Inr n, c3)"
    and a: "assert_identity_unchanged fault account fence c3 = (Inr u, c2)" and b: "b = (n = 1)"
    by (auto simp: cache_body_def db_bind_Inr_iff)
  show ?thesis
    using execute_Inr [OF x] assert_identity_unchanged_Inr [OF a] b body(2) c1
    by (auto simp: eq_commute [of _ "cn_db c3"])
qed

lemma cache_message_ids [simp]: "map mr_message_id (cache_message m rows) = map mr_message_id rows"
  by (simp add: cache_message_def)

lemma message_ids_cache [simp]:
  "message_ids (d\<lparr>db_messages := cache_message m (db_messages d)\<rparr>) = message_ids d"
  unfolding cache_message_def by (rule message_ids_map) simp

lemma messages_ok_cache: "messages_ok rows \<Longrightarrow> messages_ok (cache_message m rows)"
  unfolding cache_message_def by (rule messages_ok_map) (auto intro: mail_row_ok_set_message)

lemma cache_message_absent:
  "\<not> list_ex (has_id (env_message_id (msg_envelope m))) rows \<Longrightarrow> cache_message m rows = rows"
  unfolding cache_message_def by (rule map_idI) (auto simp: list_ex_iff)

lemma unique_match:
  assumes "messages_ok rows" shows "length (filter (has_id i) rows) = 1 \<longleftrightarrow> list_ex (has_id i) rows"
proof -
  have "unique_key (map mr_message_id rows) \<Longrightarrow> length (filter (has_id i) rows) \<le> 1"
  proof (induction rows)
    case (Cons r rows)
    have "filter (has_id i) rows = []" if "has_id i r"
    proof -
      have "SText (message_id_str i) \<notin> set (map mr_message_id rows)"
        using Cons.prems that by (simp add: unique_key_def has_id_def)
      then show ?thesis by (auto simp: has_id_def filter_empty_conv image_iff)
    qed
    then show ?case using Cons by (auto simp: unique_key_def split: if_splits)
  qed simp
  moreover have "unique_key (map mr_message_id rows)"
    using assms by (simp add: messages_ok_def)
  ultimately have "length (filter (has_id i) rows) \<le> 1" by simp
  moreover have "filter (has_id i) rows \<noteq> [] \<longleftrightarrow> list_ex (has_id i) rows"
    by (auto simp: filter_empty_conv list_ex_iff)
  ultimately show ?thesis by (cases "filter (has_id i) rows") auto
qed

text \<open>
  The store as the ports of the cycle, on a world of a connection and whatever else the
  remote keeps.
\<close>

definition sql_reconcile_port :: "faults \<Rightarrow> account_id \<Rightarrow> (db conn \<times> 'r) reconcile_port" where
  "sql_reconcile_port fault own w account es k fence =
     (case store_reconcile_recent fault own account es k fence (fst w) of (r, c) \<Rightarrow> (r, c, snd w))"

definition sql_cache_port :: "faults \<Rightarrow> account_id \<Rightarrow> (db conn \<times> 'r) cache_port" where
  "sql_cache_port fault own w account m fence =
     (case store_cache_message fault own account m fence (fst w) of (r, c) \<Rightarrow> (r, c, snd w))"

interpretation sql: fenced_store "sql_reconcile_port fault own" "sql_cache_port fault own"
  "\<lambda>w. recorded_identity (cn_db (fst w))" "\<lambda>w _. message_ids (cn_db (fst w))"
  "\<lambda>w. schema_ok (cn_db (fst w))" "\<lambda>w. cn_db (fst w)"
  for fault own
proof unfold_locales
  fix w w' :: "db conn \<times> 'r" and a es k f e
  assume "sql_reconcile_port fault own w a es k f = (Inl e, w')"
  moreover have "atomic_op (store_reconcile_recent fault own a es k f)"
    unfolding store_reconcile_recent_def by (intro atomic_for_account atomic_reconcile)
  ultimately show "cn_db (fst w') = cn_db (fst w)"
    by (auto simp: sql_reconcile_port_def atomic_op_def split: prod.splits)
next
  fix w w' :: "db conn \<times> 'r" and a es k f ids
  assume "sql_reconcile_port fault own w a es k f = (Inr ids, w')"
  then have r: "reconcile fault a es k f (fst w) = (Inr ids, fst w')"
    by (auto simp: sql_reconcile_port_def store_reconcile_recent_def for_account_Inr split: prod.splits)
  show "recorded_identity (cn_db (fst w)) a = Some f \<and> recorded_identity (cn_db (fst w')) a = Some f"
    using reconcile_Inr [OF r] by simp
  show "set (message_ids (cn_db (fst w'))) \<subseteq>
      set (message_ids (cn_db (fst w))) \<union> set (map env_message_id es)"
    by (rule reconcile_new_ids [OF r])
  show "schema_ok (cn_db (fst w')) \<and> subseq ids (map env_message_id es)
      \<and> set ids \<subseteq> set (message_ids (cn_db (fst w')))
      \<and> length (message_ids (cn_db (fst w'))) \<le> store_limit_get k"
    if "schema_ok (cn_db (fst w))"
    using reconcile_schema [OF r that] reconcile_survivor_ids [OF r] reconcile_length [OF r that]
      length_message_ids le_trans by blast
next
  fix w w' :: "db conn \<times> 'r" and a m f e
  assume "sql_cache_port fault own w a m f = (Inl e, w')"
  moreover have "atomic_op (store_cache_message fault own a m f)"
    unfolding store_cache_message_def cache_if_present_def by (intro atomic_for_account op_rules)
  ultimately show "cn_db (fst w') = cn_db (fst w)"
    by (auto simp: sql_cache_port_def atomic_op_def split: prod.splits)
next
  fix w w' :: "db conn \<times> 'r" and a m f b
  assume "sql_cache_port fault own w a m f = (Inr b, w')"
  then have "cache_if_present fault a m f (fst w) = (Inr b, fst w')"
    by (auto simp: sql_cache_port_def store_cache_message_def for_account_Inr split: prod.splits)
  note c = cache_if_present_Inr [OF this]
  show "recorded_identity (cn_db (fst w)) a = Some f" using c by simp
  show "recorded_identity (cn_db (fst w')) a = recorded_identity (cn_db (fst w)) a
      \<and> message_ids (cn_db (fst w')) = message_ids (cn_db (fst w))"
    using c by simp
  show "schema_ok (cn_db (fst w')) \<and>
      b = (env_message_id (msg_envelope m) \<in> set (message_ids (cn_db (fst w))))"
    if ok: "schema_ok (cn_db (fst w))"
  proof
    have "messages_ok (cache_message m (db_messages (cn_db (fst w))))"
      by (rule messages_ok_cache [OF schema_okD [OF ok]])
    then show "schema_ok (cn_db (fst w'))" using c ok by (simp add: schema_ok_messages)
    show "b = (env_message_id (msg_envelope m) \<in> set (message_ids (cn_db (fst w))))"
      using c unique_match [OF schema_okD [OF ok]] by (simp add: message_ids_iff)
  qed
next
  fix w w' :: "db conn \<times> 'r" and a m f
  assume run: "sql_cache_port fault own w a m f = (Inr False, w')" and ok: "schema_ok (cn_db (fst w))"
  let ?i = "env_message_id (msg_envelope m)"
  from run have "cache_if_present fault a m f (fst w) = (Inr False, fst w')"
    by (auto simp: sql_cache_port_def store_cache_message_def for_account_Inr split: prod.splits)
  note c = cache_if_present_Inr [OF this]
  then have "\<not> list_ex (has_id ?i) (db_messages (cn_db (fst w)))"
    using unique_match [OF schema_okD [OF ok]] by simp
  from cache_message_absent [OF this]
  show "cn_db (fst w') = cn_db (fst w)" using c by simp
qed simp

end
