(* ===== verification/Store_Props.thy ===== *)
theory Store_Props
  imports Store_Laws
begin

text \<open>
  The properties of the mailbox store, over the commands that the ports offer and the
  databases that sequences of them reach.
\<close>

section \<open>Commands\<close>

datatype store_command =
    CmdUpsert "message_envelope list"
  | CmdPut message
  | CmdReconcile "message_envelope list" store_limit identity_hash
  | CmdCache message identity_hash
  | CmdMarkMessage message_id
  | CmdMarkThread thread_id
  | CmdIdentity identity_hash identity_reconcile "identity_hash option"
  | CmdPurge
  | CmdDisconnectStarted
  | CmdRevokeUnconfirmed
  | CmdClearRecovery
  | CmdSynced int
  | CmdSubject string
  | CmdToken string
  | CmdClearToken

definition discard :: "'a store_op \<Rightarrow> unit store_op" where
  "discard m c = (case m c of (Inl e, c') \<Rightarrow> (Inl e, c') | (Inr _, c') \<Rightarrow> (Inr (), c'))"

fun run_command :: "faults \<Rightarrow> account_id \<Rightarrow> account_id \<Rightarrow> store_command \<Rightarrow> unit store_op" where
  "run_command fault own account (CmdUpsert es) = store_upsert_envelopes fault own account es"
| "run_command fault own account (CmdPut m) = store_put_message fault own account m"
| "run_command fault own account (CmdReconcile es k f) =
     discard (store_reconcile_recent fault own account es k f)"
| "run_command fault own account (CmdCache m f) = discard (store_cache_message fault own account m f)"
| "run_command fault own account (CmdMarkMessage i) = store_mark_message_read fault own account i"
| "run_command fault own account (CmdMarkThread t) = store_mark_thread_read fault own account t"
| "run_command fault own account (CmdIdentity h action expected) =
     store_reconcile_identity fault own account h action expected"
| "run_command fault own account CmdPurge = store_purge_account fault own account"
| "run_command fault own account CmdDisconnectStarted = store_mark_disconnect_started fault own account"
| "run_command fault own account CmdRevokeUnconfirmed = store_mark_revoke_unconfirmed fault own account"
| "run_command fault own account CmdClearRecovery = store_clear_disconnect_recovery fault own account"
| "run_command fault own account (CmdSynced t) = store_record_successful_sync fault own account t"
| "run_command fault own account (CmdSubject s) = store_broker_subject fault own account s"
| "run_command fault own account (CmdToken s) = store_refresh_token fault own account s"
| "run_command fault own account CmdClearToken = clear_refresh_token fault own account"

lemma atomic_discard: "atomic_op m \<Longrightarrow> atomic_op (discard m)"
  by (auto simp: atomic_op_def discard_def split: prod.splits sum.splits)

lemma discard_cases:
  assumes "discard m c = (r, c')" obtains r' where "m c = (r', c')" "is_ok r' = is_ok r"
  using assms by (auto simp: discard_def split: prod.splits sum.splits)

section \<open>Invariants of every operation\<close>

definition keeps :: "('d \<Rightarrow> bool) \<Rightarrow> ('d, 'e, 'a) db_op \<Rightarrow> bool" where
  "keeps P m \<longleftrightarrow> (\<forall>c. P (cn_db c) \<longrightarrow> P (cn_db (snd (m c))))"

named_theorems keep_rules \<open>which operations keep an invariant of the tables\<close>

lemma keeps_read_only: "read_only_op m \<Longrightarrow> keeps P m"
  by (simp add: keeps_def read_only_op_def)

lemmas keeps_readers [keep_rules] =
  keeps_read_only [OF read_only_call] keeps_read_only [OF read_only_query]
  keeps_read_only [OF read_only_unchanged] keeps_read_only [OF read_only_expected]
  keeps_read_only [OF read_only_survivors]

lemma keeps_bind [keep_rules]:
  fixes m :: "('d, 'e, 'a) db_op"
  assumes "keeps P m" and "\<And>a. keeps P (f a)" shows "keeps P (db_bind m f)"
  unfolding keeps_def
proof (intro allI impI)
  fix c :: "'d conn" assume "P (cn_db c)"
  moreover obtain r c1 where m: "m c = (r, c1)" by fastforce
  ultimately have "P (cn_db c1)" using assms(1) unfolding keeps_def by (metis snd_conv)
  then show "P (cn_db (snd (db_bind m f c)))"
    using m assms(2) by (cases r) (auto simp: db_bind_def keeps_def)
qed

lemma keeps_execute:
  fixes stmt :: "'d \<Rightarrow> 'd \<times> nat"
  assumes "\<And>d. P d \<Longrightarrow> P (fst (stmt d))" shows "keeps P (execute classify fault stmt)"
  unfolding keeps_def
proof (intro allI impI)
  fix c :: "'d conn" assume P: "P (cn_db c)"
  obtain r c1 where e: "execute classify fault stmt c = (r, c1)" by fastforce
  then have "P (cn_db c1)"
  proof (cases rule: execute_cases)
    case (changed n)
    then show ?thesis using assms [OF P] by simp
  qed (use P in simp)
  then show "P (cn_db (snd (execute classify fault stmt c)))" using e by simp
qed

lemma keeps_transaction [keep_rules]:
  fixes body :: "('d, 'e, 'a) db_op"
  assumes "keeps P body" shows "keeps P (transaction classify fault body)"
  unfolding keeps_def
proof (intro allI impI)
  fix c :: "'d conn" assume P: "P (cn_db c)"
  obtain r c' where run: "transaction classify fault body c = (r, c')" by fastforce
  have "P (cn_db c')"
  proof (cases r)
    case (Inl e)
    then have "cn_db c' = cn_db c"
      using run atomic_transaction [of classify fault body] by (auto simp: atomic_op_def)
    then show ?thesis using P by simp
  next
    case (Inr a)
    from run [unfolded Inr] obtain c1 c2 where "cn_db c1 = cn_db c" "body c1 = (Inr a, c2)"
      "cn_db c' = cn_db c2" by (rule transaction_Inr)
    then show ?thesis using assms P unfolding keeps_def by (metis snd_conv)
  qed
  then show "P (cn_db (snd (transaction classify fault body c)))" using run by simp
qed

lemma keeps_with [keep_rules]: "keeps P m \<Longrightarrow> keeps P (with_connection poisoned fault m)"
  unfolding with_connection_def by (intro keeps_bind keeps_readers)

lemma keeps_for_account [keep_rules]: "keeps P m \<Longrightarrow> keeps P (for_account own account m)"
  unfolding for_account_def by (intro keeps_bind keeps_read_only [OF read_only_result])

lemma keeps_discard [keep_rules]: "keeps P m \<Longrightarrow> keeps P (discard m)"
  unfolding keeps_def discard_def by (auto split: prod.split sum.split) 

lemma keeps_return [keep_rules]: "keeps P (db_return a)" "keeps P (db_result r)"
  by (auto simp: keeps_def db_return_def db_result_def)

lemma keeps_write_envelopes:
  assumes "\<And>e d. P d \<Longrightarrow> P (d\<lparr>db_messages := upsert_message e None (db_messages d)\<rparr>)"
  shows "keeps P (write_envelopes fault es)"
  by (induction es) (auto simp: write_envelope_def assms intro!: keep_rules keeps_execute)

text \<open>
  The schema with the account that the file is bound to: what no command may change.
\<close>

definition bound_schema :: "sqlv option \<Rightarrow> db \<Rightarrow> bool" where
  "bound_schema own d \<longleftrightarrow> schema_ok d \<and> map_option bd_account_id (db_binding d) = own"

lemma bound_schema_messages:
  "bound_schema own d \<Longrightarrow> messages_ok ms \<Longrightarrow> bound_schema own (d\<lparr>db_messages := ms\<rparr>)"
  by (simp add: bound_schema_def schema_ok_messages)

lemma bound_schemaD: "bound_schema own d \<Longrightarrow> messages_ok (db_messages d)"
  by (simp add: bound_schema_def schema_okD)

lemma bound_schema_identity:
  "bound_schema own d \<Longrightarrow> identities_ok rows \<Longrightarrow> bound_schema own (d\<lparr>db_identity := rows\<rparr>)"
  by (simp add: bound_schema_def schema_ok_def)

lemma bound_schema_lifecycle:
  "bound_schema own d \<Longrightarrow> lifecycle_ok l \<Longrightarrow> bound_schema own (d\<lparr>db_lifecycle := Some l\<rparr>)"
  by (simp add: bound_schema_def schema_ok_def)

lemma bound_schema_forget: "bound_schema own d \<Longrightarrow> bound_schema own (forget_last_sync d)"
  by (auto simp: bound_schema_def schema_ok_def forget_last_sync_def lifecycle_ok_def
      option.pred_map pred_option_def)

lemma bound_schema_binding:
  assumes "bound_schema own d"
    and "\<And>b. binding_ok b \<Longrightarrow> binding_ok (f b) \<and> bd_account_id (f b) = bd_account_id b"
  shows "bound_schema own (fst (update_binding account f d))"
  using assms by (cases "db_binding d") (auto simp: bound_schema_def schema_ok_def update_binding_def)

lemma bound_schema_record:
  "identities_ok rows \<Longrightarrow> identities_ok (record_identity account h rows)"
proof -
  assume ok: "identities_ok rows"
  let ?k = "SText (account_id_str account)"
  have "map ir_account_id (record_identity account h rows) =
    (if list_ex (\<lambda>r. ir_account_id r = ?k) rows then map ir_account_id rows
     else map ir_account_id rows @ [?k])"
    by (auto simp: record_identity_def)
  then have "unique_key (map ir_account_id (record_identity account h rows))"
    using ok by (auto simp: identities_ok_def unique_key_def list_ex_iff)
  then show ?thesis
    using ok by (auto simp: identities_ok_def record_identity_def list_all_iff)
qed

lemma lifecycle_okD: "bound_schema own d \<Longrightarrow> db_lifecycle d = Some l \<Longrightarrow> lifecycle_ok l"
  by (simp add: bound_schema_def schema_ok_def)

lemma messages_ok_mark: "messages_ok rows \<Longrightarrow> messages_ok (mark_rows Q rows)"
  unfolding mark_rows_def by (rule messages_ok_map) (auto simp: mail_row_ok_def)

lemma messages_ok_Nil: "messages_ok []"
  by (simp add: messages_ok_def unique_key_def)

lemma identities_ok_filter: "identities_ok rows \<Longrightarrow> identities_ok (filter Q rows)"
  by (auto simp: identities_ok_def unique_key_filter list_all_iff)

lemma bound_schemaD2: "bound_schema own d \<Longrightarrow> identities_ok (db_identity d)"
  by (simp add: bound_schema_def schema_ok_def)

lemma keeps_if: "keeps P m \<Longrightarrow> keeps P n \<Longrightarrow> keeps P (if b then m else n)"
  by simp

lemma messages_schema:
  "(\<And>ms. messages_ok ms \<Longrightarrow> messages_ok (f ms)) \<Longrightarrow>
    keeps (bound_schema own) (execute classify fault (\<lambda>d. (d\<lparr>db_messages := f (db_messages d)\<rparr>, n d)))"
  by (rule keeps_execute) (simp add: bound_schema_messages bound_schemaD)

lemma write_envelopes_schema: "keeps (bound_schema own) (write_envelopes fault es)"
  by (rule keeps_write_envelopes) (simp add: bound_schema_messages bound_schemaD wf_intros)

lemmas schema_rules = keep_rules keeps_if write_envelopes_schema messages_schema messages_ok_cache
  messages_ok_mark messages_ok_Nil messages_ok_prune messages_ok_upsert

lemma update_binding_schema:
  "(\<And>b. binding_ok b \<Longrightarrow> binding_ok (f b) \<and> bd_account_id (f b) = bd_account_id b) \<Longrightarrow>
    keeps (bound_schema own) (execute classify fault (update_binding account f))"
  by (rule keeps_execute) (rule bound_schema_binding)

lemma forget_schema:
  "keeps (bound_schema own) (execute classify fault (\<lambda>d. (forget_last_sync d, n)))"
  by (rule keeps_execute) (simp add: bound_schema_forget)

lemma update_lifecycle_schema:
  "(\<And>l. pred_option lifecycle_ok l \<Longrightarrow> lifecycle_ok (f l)) \<Longrightarrow>
    keeps (bound_schema own) (execute classify fault
      (\<lambda>d. (d\<lparr>db_lifecycle := Some (f (db_lifecycle d))\<rparr>, n)))"
  by (rule keeps_execute) (simp add: bound_schema_lifecycle bound_schema_def schema_ok_def)

lemma reconcile_keeps_schema: "keeps (bound_schema own) (reconcile fault account es k f)"
  unfolding reconcile_def reconcile_body_def by (intro schema_rules)

lemma cache_keeps_schema: "keeps (bound_schema own) (cache_if_present fault account m f)"
  unfolding cache_if_present_def cache_body_def by (intro schema_rules)

lemma identity_keeps_schema:
  "keeps (bound_schema own) (write_identity_hash fault account h clear expected)"
proof -
  have "keeps (bound_schema own) (execute store_error fault (\<lambda>d. (d\<lparr>db_messages := []\<rparr>, 0)))"
    by (rule keeps_execute) (simp add: bound_schema_messages messages_ok_Nil)
  moreover have "keeps (bound_schema own) (execute store_error fault
      (\<lambda>d. (d\<lparr>db_identity := record_identity account h (db_identity d)\<rparr>, 1)))"
    by (rule keeps_execute) (simp add: bound_schema_identity bound_schema_record bound_schemaD2)
  ultimately show ?thesis
    unfolding write_identity_hash_def by (intro keep_rules keeps_if forget_schema)
qed

lemma purge_keeps_schema: "keeps (bound_schema own) (purge fault account)"
proof -
  have "keeps (bound_schema own) (execute store_error fault (\<lambda>d. (d\<lparr>db_messages := []\<rparr>, 0)))"
    by (rule keeps_execute) (simp add: bound_schema_messages messages_ok_Nil)
  moreover have "keeps (bound_schema own) (execute store_error fault
      (\<lambda>d. (d\<lparr>db_identity := filter (\<lambda>r. ir_account_id r \<noteq> SText (account_id_str account))
        (db_identity d)\<rparr>, 0)))"
    by (rule keeps_execute) (simp add: bound_schema_identity identities_ok_filter bound_schemaD2)
  moreover have "keeps (bound_schema own) (execute store_error fault
      (update_binding account (\<lambda>b. b\<lparr>bd_broker_subject := SNull, bd_refresh_token := SNull\<rparr>)))"
    by (rule update_binding_schema) (simp add: binding_ok_def)
  ultimately show ?thesis
    unfolding purge_def purge_body_def by (intro keep_rules keeps_if forget_schema)
qed

lemma recovery_keeps_schema: "keeps (bound_schema own) (update_recovery fault recovery)"
  unfolding update_recovery_def
  by (intro keep_rules update_lifecycle_schema)
    (auto simp: lifecycle_ok_def sql_nullif_def recovery_value_def split: option.split
      disconnect_recovery_state.split)

lemma synced_keeps_schema: "keeps (bound_schema own) (record_successful_sync_at fault t)"
proof (cases "t < 0")
  case False
  have "keeps (bound_schema own) (execute store_error fault
      (\<lambda>d. (d\<lparr>db_lifecycle := Some
               (case db_lifecycle d of
                  None \<Rightarrow> \<lparr>lr_recovery = SNull, lr_last_sync = SInt t\<rparr>
                | Some l \<Rightarrow> l\<lparr>lr_last_sync := SInt t\<rparr>)\<rparr>, 1)))"
    by (rule update_lifecycle_schema) (use False in \<open>auto simp: lifecycle_ok_def split: option.split\<close>)
  then show ?thesis
    unfolding record_successful_sync_at_def by (intro keeps_if keep_rules)
qed (simp add: record_successful_sync_at_def keep_rules)

lemma subject_keeps_schema: "keeps (bound_schema own') (store_broker_subject fault own account text)"
proof (cases "is_valid_broker_subject text")
  case True
  have "keeps (bound_schema own') (execute store_error fault
      (update_binding account (\<lambda>b. b\<lparr>bd_broker_subject := SText text\<rparr>)))"
    by (rule update_binding_schema)
      (use True in \<open>simp add: binding_ok_def text_len_between_def is_valid_broker_subject_def\<close>)
  then show ?thesis
    unfolding store_broker_subject_def by (intro keep_rules keeps_if keeps_read_only [OF read_only_result])
qed (simp add: store_broker_subject_def keep_rules)

lemma token_keeps_schema:
  "(case token of Some t \<Rightarrow> is_valid_refresh_token t | None \<Rightarrow> True) \<Longrightarrow>
    keeps (bound_schema own') (update_refresh_token fault account token)"
  unfolding update_refresh_token_def
  by (intro keep_rules update_binding_schema)
    (auto simp: binding_ok_def text_len_between_def is_valid_refresh_token_def split: option.splits)

lemma command_keeps_schema: "keeps (bound_schema own') (run_command fault own account cmd)"
proof (cases cmd)
  case (CmdMarkMessage i)
  show ?thesis
    unfolding CmdMarkMessage run_command.simps store_mark_message_read_def mark_one_message_read_def
    by (intro schema_rules)
next
  case (CmdMarkThread t)
  show ?thesis
    unfolding CmdMarkThread run_command.simps store_mark_thread_read_def mark_one_thread_read_def
    by (intro schema_rules)
next
  case (CmdUpsert es)
  show ?thesis
    unfolding CmdUpsert run_command.simps store_upsert_envelopes_def upsert_def by (intro schema_rules)
next
  case (CmdPut m)
  show ?thesis
    unfolding CmdPut run_command.simps store_put_message_def put_def write_envelope_def
    by (intro schema_rules)
next
  case (CmdToken t)
  then show ?thesis
    by (auto simp: store_refresh_token_def intro!: keep_rules token_keeps_schema)
qed (simp_all add: keep_rules store_reconcile_recent_def reconcile_keeps_schema store_cache_message_def
    cache_keeps_schema store_reconcile_identity_def identity_keeps_schema store_purge_account_def
    purge_keeps_schema store_mark_disconnect_started_def store_mark_revoke_unconfirmed_def
    store_clear_disconnect_recovery_def recovery_keeps_schema store_record_successful_sync_def
    synced_keeps_schema subject_keeps_schema clear_refresh_token_def token_keeps_schema)

section \<open>Reachable stores\<close>

lemma migrated_bound: "bound_schema (Some (SText (account_id_str account))) (migrated_tables account)"
  by (simp add: bound_schema_def schema_ok_def migrated_tables_def messages_ok_Nil binding_ok_def
      identities_ok_def unique_key_def)

text \<open>
  A run of the store: commands for any account, in any order, with any backend faults, the
  failing ones included.
\<close>

inductive store_reach :: "faults \<Rightarrow> account_id \<Rightarrow> db conn \<Rightarrow> db conn \<Rightarrow> bool"
  for fault own where
  reach_start: "store_reach fault own c c"
| reach_step: "store_reach fault own c c1 \<Longrightarrow> run_command fault own account cmd c1 = (r, c2) \<Longrightarrow>
    store_reach fault own c c2"

lemma store_reach_bound:
  "store_reach fault own c c' \<Longrightarrow> bound_schema b (cn_db c) \<Longrightarrow> bound_schema b (cn_db c')"
proof (induction rule: store_reach.induct)
  case (reach_step c c1 account cmd r c2)
  then show ?case
    using command_keeps_schema [of b fault own account cmd] unfolding keeps_def by (metis snd_conv)
qed

text \<open>
  C18. From a fresh store, every run of commands keeps every constraint of the schema (no
  statement of the code ever trips a NOT NULL, CHECK or PRIMARY KEY) and never rebinds the
  file to another account.
\<close>

theorem reachable_schema:
  assumes "store_reach fault own c c'" and "cn_db c = migrated_tables own"
  shows "schema_ok (cn_db c')
    \<and> map_option bd_account_id (db_binding (cn_db c')) = Some (SText (account_id_str own))"
  using store_reach_bound [OF assms(1), of "Some (SText (account_id_str own))"] migrated_bound assms(2)
  by (simp add: bound_schema_def)

theorem reachable_schema_witness:
  "\<exists>c'. store_reach quiet sample_account \<lparr>cn_db = migrated_tables sample_account, cn_calls = 0\<rparr> c'
    \<and> length (db_messages (cn_db c')) = 1 \<and> schema_ok (cn_db c')"
proof -
  let ?c = "\<lparr>cn_db = migrated_tables sample_account, cn_calls = 0\<rparr> :: db conn"
  let ?c' = "snd (run_command quiet sample_account sample_account (CmdPut sample_message) ?c)"
  have reach: "store_reach quiet sample_account ?c ?c'"
    by (rule reach_step [OF reach_start]) (rule prod.collapse [symmetric])
  moreover have "length (db_messages (cn_db ?c')) = 1" by code_simp
  ultimately show ?thesis using reachable_schema [OF reach] by (intro exI [of _ ?c']) simp
qed

section \<open>Local reads and cached bodies\<close>

definition locally_read :: "db \<Rightarrow> message_id \<Rightarrow> bool" where
  "locally_read d i \<longleftrightarrow> list_ex (\<lambda>r. has_id i r \<and> mr_unread r = SInt 0) (db_messages d)"

definition holds_body :: "db \<Rightarrow> message_id \<Rightarrow> sqlv \<Rightarrow> bool" where
  "holds_body d i v \<longleftrightarrow> list_ex (\<lambda>r. has_id i r \<and> mr_content r = v) (db_messages d)"

definition mail_present :: "db \<Rightarrow> message_id \<Rightarrow> bool" where
  "mail_present d i \<longleftrightarrow> list_ex (has_id i) (db_messages d)"

text \<open>What a write keeps of the row of one message, as long as the row is there.\<close>

definition row_kept :: "(mail_row \<Rightarrow> bool) \<Rightarrow> message_id \<Rightarrow> mail_row list \<Rightarrow> mail_row list \<Rightarrow> bool" where
  "row_kept Q i rows rows' \<longleftrightarrow>
     (list_ex (\<lambda>r. has_id i r \<and> Q r) rows \<longrightarrow> list_ex (has_id i) rows' \<longrightarrow>
       list_ex (\<lambda>r. has_id i r \<and> Q r) rows')"

lemma row_kept_refl: "row_kept Q i rows rows"
  by (simp add: row_kept_def)

lemma row_kept_Nil: "row_kept Q i rows []"
  by (simp add: row_kept_def)

lemma row_kept_map:
  assumes "\<And>r. has_id i (f r) = has_id i r" and "\<And>r. has_id i r \<Longrightarrow> Q r \<Longrightarrow> Q (f r)"
  shows "row_kept Q i rows (map f rows)"
  using assms by (auto simp: row_kept_def list_ex_iff)

lemma has_id_set [simp]: "has_id i (set_envelope e r) = has_id i r" "has_id i (set_message m r) = has_id i r"
  by (simp_all add: has_id_def)

lemma list_ex_mapI: "list_ex P rows \<Longrightarrow> (\<And>r. P r \<Longrightarrow> P (f r)) \<Longrightarrow> list_ex P (map f rows)"
  by (auto simp: list_ex_iff)

lemma upsert_kept:
  assumes "\<And>r e. Q r \<Longrightarrow> Q (set_envelope e r)" and "list_ex (\<lambda>r. has_id i r \<and> Q r) rows"
  shows "list_ex (\<lambda>r. has_id i r \<and> Q r) (upsert_message e None rows)"
proof (cases "list_ex (has_id (env_message_id e)) rows")
  case True
  show ?thesis
    unfolding upsert_message_def using True assms by (auto intro!: list_ex_mapI)
qed (use assms(2) in \<open>simp add: upsert_message_def\<close>)

lemma merged_kept:
  assumes "\<And>r e. Q r \<Longrightarrow> Q (set_envelope e r)" and "list_ex (\<lambda>r. has_id i r \<and> Q r) rows"
  shows "list_ex (\<lambda>r. has_id i r \<and> Q r) (merged es rows)"
  unfolding merged_def
  by (rule fold_upsert_inv [where P = "list_ex (\<lambda>r. has_id i r \<and> Q r)"])
    (use assms upsert_kept [where Q = Q] in auto)

lemma prune_kept:
  assumes "list_ex (\<lambda>r. has_id i r \<and> Q r) rows" and "list_ex (has_id i) (prune n rows)"
  shows "list_ex (\<lambda>r. has_id i r \<and> Q r) (prune n rows)"
  using assms by (auto simp: prune_def list_ex_iff has_id_def)

lemma sticky_set [simp]: "mr_unread r = SInt 0 \<Longrightarrow> mr_unread (set_envelope e r) = SInt 0"
  "mr_unread r = SInt 0 \<Longrightarrow> mr_unread (set_message m r) = SInt 0"
  by (simp_all add: set_envelope_def set_message_def sticky_unread_def)

lemma content_set [simp]: "mr_content (set_envelope e r) = mr_content r"
  by (simp add: set_envelope_def)

lemma upsert_Inr:
  assumes "upsert fault es c = (Inr u, c')"
  shows "cn_db c' = (cn_db c)\<lparr>db_messages := merged es (db_messages (cn_db c))\<rparr>"
  using assms unfolding upsert_def
  by (elim committed_Inr) (simp add: write_envelopes_Inr merged_def)

lemma put_Inr:
  assumes "put fault m c = (Inr u, c')"
  shows "cn_db c' = (cn_db c)\<lparr>db_messages :=
    upsert_message (msg_envelope m) (Some (content_bytes (msg_content m))) (db_messages (cn_db c))\<rparr>"
  using assms unfolding put_def by (elim committed_Inr) (simp add: write_envelope_Inr)

text \<open>A single update statement, committed on its own.\<close>

lemma single_update_Inr:
  assumes "with_connection poisoned fault
      (db_bind (execute classify fault stmt) (\<lambda>_. db_return ())) c = (Inr u, c')"
  shows "cn_db c' = fst (stmt (cn_db c))"
proof -
  from assms obtain c0 where c0: "cn_db c0 = cn_db c"
    "db_bind (execute classify fault stmt) (\<lambda>_. db_return ()) c0 = (Inr u, c')"
    by (rule with_connection_Inr)
  from c0(2) obtain n where "execute classify fault stmt c0 = (Inr n, c')"
    by (auto simp: db_bind_Inr_iff)
  then show ?thesis using execute_Inr c0(1) by fastforce
qed

text \<open>Commands that never write a message row, except to drop them all.\<close>

definition only_clears :: "mail_row list \<Rightarrow> db \<Rightarrow> bool" where
  "only_clears ms d \<longleftrightarrow> db_messages d = ms \<or> db_messages d = []"

lemma clears_execute:
  "(\<And>d. db_messages (fst (stmt d)) = db_messages d \<or> db_messages (fst (stmt d)) = []) \<Longrightarrow>
    keeps (only_clears ms) (execute classify fault stmt)"
  by (rule keeps_execute) (metis only_clears_def)

lemma update_binding_messages [simp]: "db_messages (fst (update_binding account f d)) = db_messages d"
  by (simp add: update_binding_def)

fun writes_rows :: "store_command \<Rightarrow> bool" where
  "writes_rows (CmdUpsert es) = True"
| "writes_rows (CmdPut m) = True"
| "writes_rows (CmdReconcile es k f) = True"
| "writes_rows (CmdCache m f) = True"
| "writes_rows (CmdMarkMessage i) = True"
| "writes_rows (CmdMarkThread t) = True"
| "writes_rows _ = False"

lemma other_commands_clear:
  "\<not> writes_rows cmd \<Longrightarrow> keeps (only_clears ms) (run_command fault own account cmd)"
  by (cases cmd)
    (auto simp: store_reconcile_identity_def write_identity_hash_def store_purge_account_def purge_def purge_body_def
      store_mark_disconnect_started_def store_mark_revoke_unconfirmed_def
      store_clear_disconnect_recovery_def update_recovery_def store_record_successful_sync_def
      record_successful_sync_at_def store_broker_subject_def store_refresh_token_def
      clear_refresh_token_def update_refresh_token_def forget_last_sync_def
      intro!: keep_rules keeps_read_only [OF read_only_result] clears_execute)

lemma row_kept_mark:
  "(\<And>r. Q r \<Longrightarrow> Q (r\<lparr>mr_unread := SInt 0\<rparr>)) \<Longrightarrow> row_kept Q i rows (mark_rows P rows)"
  unfolding mark_rows_def by (rule row_kept_map) (auto simp: has_id_def split: if_splits)

lemma command_row_kept:
  assumes run: "run_command fault own account cmd c = (r, c')"
    and env: "\<And>e r. Q r \<Longrightarrow> Q (set_envelope e r)"
    and read: "\<And>r. Q r \<Longrightarrow> Q (r\<lparr>mr_unread := SInt 0\<rparr>)"
    and body: "\<And>m r. (\<exists>g. cmd = CmdCache m g) \<or> cmd = CmdPut m \<Longrightarrow> Q r \<Longrightarrow>
        Q ((set_envelope (msg_envelope m) r)\<lparr>mr_content := SBlob (content_bytes (msg_content m))\<rparr>)"
  shows "row_kept Q i (db_messages (cn_db c)) (db_messages (cn_db c'))"
proof (cases r)
  case (Inl err)
  have "atomic_op (run_command fault own account cmd)"
    using writes_atomic by (cases cmd) (auto intro: atomic_discard)
  then have "cn_db c' = cn_db c" using run Inl by (auto simp: atomic_op_def)
  then show ?thesis by (simp add: row_kept_refl)
next
  case (Inr u)
  show ?thesis
  proof (cases "writes_rows cmd")
    case False
    then have "only_clears (db_messages (cn_db c)) (cn_db c')"
      using other_commands_clear [OF False, of "db_messages (cn_db c)" fault own account] run
      unfolding keeps_def only_clears_def by (metis snd_conv)
    then show ?thesis by (auto simp: only_clears_def row_kept_refl row_kept_Nil)
  next
    case True
    note run = run [unfolded Inr]
    show ?thesis
    proof (cases cmd)
      case (CmdUpsert es)
      then have "upsert fault es c = (Inr u, c')"
        using run by (simp add: store_upsert_envelopes_def for_account_Inr)
      then show ?thesis
        using upsert_Inr merged_kept [where Q = Q, OF env] by (fastforce simp: row_kept_def)
    next
      case (CmdPut m)
      then have "put fault m c = (Inr u, c')"
        using run by (simp add: store_put_message_def for_account_Inr)
      note p = put_Inr [OF this]
      let ?rows = "db_messages (cn_db c)" and ?e = "msg_envelope m"
      have "list_ex (\<lambda>r. has_id i r \<and> Q r) (db_messages (cn_db c'))" if
        "list_ex (\<lambda>r. has_id i r \<and> Q r) ?rows"
      proof (cases "list_ex (has_id (env_message_id ?e)) ?rows")
        case True
        have b: "Q r \<Longrightarrow> Q ((set_envelope ?e r)\<lparr>mr_content := SBlob (content_bytes (msg_content m))\<rparr>)" for r
          using body [of m r] CmdPut by simp
        show ?thesis
          using p True by (simp add: upsert_message_def, intro list_ex_mapI [OF that])
            (auto simp: b has_id_def)
      qed (use p that in \<open>simp add: upsert_message_def\<close>)
      then show ?thesis by (simp add: row_kept_def)
    next
      case (CmdReconcile es k g)
      then obtain ids where "reconcile fault account es k g c = (Inr ids, c')"
        using run by (auto simp: store_reconcile_recent_def for_account_Inr discard_def
            split: prod.splits sum.splits)
      note t = reconcile_table [OF this]
      show ?thesis
        using t merged_kept [where Q = Q, OF env] prune_kept [where Q = Q] by (auto simp: row_kept_def)
    next
      case (CmdCache m g)
      then obtain b where "cache_if_present fault account m g c = (Inr b, c')"
        using run by (auto simp: store_cache_message_def for_account_Inr discard_def
            split: prod.splits sum.splits)
      note t = cache_if_present_Inr [OF this]
      have "Q r \<Longrightarrow> Q (set_message m r)" for r
        using body [of m r] CmdCache by (simp add: set_message_def)
      then have "row_kept Q i (db_messages (cn_db c)) (cache_message m (db_messages (cn_db c)))"
        unfolding cache_message_def by (intro row_kept_map) simp_all
      then show ?thesis using t by simp
    next
      case (CmdMarkMessage j)
      then have "mark_one_message_read fault j c = (Inr u, c')"
        using run by (simp add: store_mark_message_read_def for_account_Inr)
      then show ?thesis
        unfolding mark_one_message_read_def
        by (auto dest!: single_update_Inr intro!: row_kept_mark read)
    next
      case (CmdMarkThread t)
      then have "mark_one_thread_read fault t c = (Inr u, c')"
        using run by (simp add: store_mark_thread_read_def for_account_Inr)
      then show ?thesis
        unfolding mark_one_thread_read_def
        by (auto dest!: single_update_Inr intro!: row_kept_mark read)
    qed (use True in simp_all)
  qed
qed

text \<open>
  C19. A local read is sticky: once a message is marked read, no later write reopens it while
  its row stays in the mailbox, whatever unread state the provider reports.
\<close>

theorem local_read_is_sticky:
  assumes "run_command fault own account cmd c = (r, c')"
    and "locally_read (cn_db c) i" and "mail_present (cn_db c') i"
  shows "locally_read (cn_db c') i"
proof -
  have "row_kept (\<lambda>r. mr_unread r = SInt 0) i (db_messages (cn_db c)) (db_messages (cn_db c'))"
    by (rule command_row_kept [OF assms(1)]) auto
  then show ?thesis using assms(2,3) by (simp add: row_kept_def locally_read_def mail_present_def)
qed

theorem local_read_is_sticky_witness:
  "\<exists>c'. run_command quiet sample_account sample_account
        (CmdUpsert [sample_envelope\<lparr>env_message_id := MessageId ''m0''\<rparr>]) (sample_store sample_hash)
      = (Inr (), c') \<and> locally_read (cn_db c') (MessageId ''m0'')"
proof -
  let ?cmd = "CmdUpsert [sample_envelope\<lparr>env_message_id := MessageId ''m0''\<rparr>]"
  let ?run = "run_command quiet sample_account sample_account ?cmd (sample_store sample_hash)"
  have "fst ?run = Inr ()" by code_simp
  then have run: "?run = (Inr (), snd ?run)" by (metis prod.collapse)
  have "locally_read (cn_db (sample_store sample_hash)) (MessageId ''m0'')" by code_simp
  moreover have "mail_present (cn_db (snd ?run)) (MessageId ''m0'')" by code_simp
  ultimately show ?thesis using local_read_is_sticky [OF run] run by blast
qed

text \<open>
  A cached body survives every write that carries no body for its message: refreshing
  envelopes, reconciling a snapshot, marking messages read, and all commands that do not
  store messages.
\<close>

theorem cached_body_survives:
  assumes "run_command fault own account cmd c = (r, c')"
    and "\<And>m g. cmd \<noteq> CmdCache m g" and "\<And>m. cmd \<noteq> CmdPut m"
    and "holds_body (cn_db c) i v" and "mail_present (cn_db c') i"
  shows "holds_body (cn_db c') i v"
proof -
  have "row_kept (\<lambda>r. mr_content r = v) i (db_messages (cn_db c)) (db_messages (cn_db c'))"
    by (rule command_row_kept [OF assms(1)]) (use assms(2,3) in auto)
  then show ?thesis using assms(4,5) by (simp add: row_kept_def holds_body_def mail_present_def)
qed

theorem cached_body_survives_witness:
  "\<exists>c'. run_command quiet sample_account sample_account
        (CmdReconcile [sample_envelope\<lparr>env_message_id := MessageId ''m0''\<rparr>] (StoreLimit 1) sample_hash)
        (sample_store sample_hash)
      = (Inr (), c') \<and> holds_body (cn_db c') (MessageId ''m0'') (SBlob ''old'')"
proof -
  let ?cmd = "CmdReconcile [sample_envelope\<lparr>env_message_id := MessageId ''m0''\<rparr>] (StoreLimit 1) sample_hash"
  let ?run = "run_command quiet sample_account sample_account ?cmd (sample_store sample_hash)"
  have "fst ?run = Inr ()" by code_simp
  then have run: "?run = (Inr (), snd ?run)" by (metis prod.collapse)
  have "holds_body (cn_db (sample_store sample_hash)) (MessageId ''m0'') (SBlob ''old'')" by code_simp
  moreover have "mail_present (cn_db (snd ?run)) (MessageId ''m0'')" by code_simp
  ultimately show ?thesis using cached_body_survives [OF run] run by blast
qed

section \<open>Reconciliation\<close>

text \<open>
  C20. A committed reconciliation leaves exactly the newest rows of the merged mailbox: the
  kept rows number the keep limit or all there are, each comes before each dropped one in
  the list order, and the survivors reported are the snapshot's identifiers still present,
  without repetition and in encounter order.
\<close>

theorem reconcile_keeps_newest:
  assumes "store_reconcile_recent fault own account es k fence c = (Inr ids, c')"
    and "schema_ok (cn_db c)"
  defines "all \<equiv> merged es (db_messages (cn_db c))"
    and "kept \<equiv> db_messages (cn_db c')"
  shows "length kept = min (store_limit_get k) (length all) \<and> set kept \<subseteq> set all
    \<and> (\<forall>r\<in>set kept. \<forall>s\<in>set all - set kept. recent_before r s)
    \<and> ids = filter (mail_present (cn_db c')) (first_occurrences (map env_message_id es))
    \<and> distinct ids \<and> recorded_identity (cn_db c) account = Some fence"
proof -
  have r: "reconcile fault account es k fence c = (Inr ids, c')"
    using assms(1) by (simp add: store_reconcile_recent_def for_account_Inr)
  note t = reconcile_table [OF r]
  have all: "no_null_ids all" "distinct (map mr_message_id all)"
    using t merged_no_null merged_distinct schema_okD [OF assms(2)] by (auto simp: all_def)
  have kept: "kept = prune (store_limit_get k) all" using t by (simp add: kept_def all_def)
  have "ids = filter (mail_present (cn_db c')) (first_occurrences (map env_message_id es))"
    using t by (simp add: mail_present_def [abs_def])
  moreover have "recorded_identity (cn_db c) account = Some fence" using t by simp
  moreover have "set kept \<subseteq> set all" unfolding kept by (auto simp: prune_def)
  moreover have "length kept = min (store_limit_get k) (length all)"
    unfolding kept by (rule length_prune [OF all])
  moreover have "\<forall>r\<in>set kept. \<forall>s\<in>set all - set kept. recent_before r s"
    unfolding kept using prune_newest [OF all] by blast
  ultimately show ?thesis using reconcile_survivor_ids [OF r] by blast
qed

theorem reconcile_keeps_newest_witness:
  "\<exists>c'. store_reconcile_recent quiet sample_account sample_account [sample_envelope] (StoreLimit 1)
        sample_hash (sample_store sample_hash) = (Inr [MessageId ''m1''], c')
      \<and> length (db_messages (cn_db c')) = 1 \<and> recorded_identity (cn_db (sample_store sample_hash))
          sample_account = Some sample_hash"
proof -
  let ?run = "store_reconcile_recent quiet sample_account sample_account [sample_envelope] (StoreLimit 1)
    sample_hash (sample_store sample_hash)"
  have "fst ?run = Inr [MessageId ''m1'']" by code_simp
  then have run: "?run = (Inr [MessageId ''m1''], snd ?run)" by (metis prod.collapse)
  have "length (merged [sample_envelope] (db_messages (cn_db (sample_store sample_hash)))) = 2"
    by code_simp
  with reconcile_keeps_newest [OF run sample_schema_ok] run show ?thesis
    by (intro exI [of _ "snd ?run"]) simp
qed

section \<open>Purge\<close>

lemma purge_body_Inr:
  assumes "purge_body fault account c = (Inr u, c')"
  shows "bound_to account (cn_db c) \<and> cn_db c' = forget_last_sync ((cn_db c)\<lparr>db_messages := [],
    db_identity := filter (\<lambda>r. ir_account_id r \<noteq> SText (account_id_str account)) (db_identity (cn_db c)),
    db_binding := map_option (\<lambda>b. b\<lparr>bd_broker_subject := SNull, bd_refresh_token := SNull\<rparr>)
      (db_binding (cn_db c))\<rparr>)"
proof -
  let ?ids = "\<lambda>d. d\<lparr>db_identity := filter (\<lambda>r. ir_account_id r \<noteq> SText (account_id_str account))
      (db_identity d)\<rparr>"
  let ?clear = "update_binding account (\<lambda>b. b\<lparr>bd_broker_subject := SNull, bd_refresh_token := SNull\<rparr>)"
  from assms obtain n1 c3 n2 c4 c5 n4 where
    "execute store_error fault (\<lambda>d. (d\<lparr>db_messages := []\<rparr>, 0)) c = (Inr n1, c3)"
    "execute store_error fault (\<lambda>d. (?ids d, 0)) c3 = (Inr n2, c4)"
    "execute store_error fault ?clear c4 = (Inr 1, c5)"
    "execute store_error fault (\<lambda>d. (forget_last_sync d, 0)) c5 = (Inr n4, c')"
    by (auto simp: purge_body_def db_bind_Inr_iff split: if_splits)
  note x = this [THEN execute_Inr]
  have "cn_db c4 = ?ids ((cn_db c)\<lparr>db_messages := []\<rparr>)" using x(1,2) by auto
  moreover have "?clear (cn_db c4) = (cn_db c5, 1)" using x(3) .
  then have "bound_to account (cn_db c4)" "cn_db c5 = (cn_db c4)\<lparr>db_binding := map_option
      (\<lambda>b. b\<lparr>bd_broker_subject := SNull, bd_refresh_token := SNull\<rparr>) (db_binding (cn_db c4))\<rparr>"
    by (auto simp: update_binding_def split: if_splits)
  moreover have "cn_db c' = forget_last_sync (cn_db c5)" using x(4) by simp
  ultimately show ?thesis by (simp add: bound_to_def)
qed

text \<open>
  C21. A purge of a store bound to the account succeeds unless the backend fails, and then
  nothing account-derived is left: no message, no identity for the account, no broker
  subject, no refresh token and no sync time. The binding and the disconnect marker stay.
\<close>

theorem purge_destroys:
  "case store_purge_account fault own account c of
      (Inl err, c') \<Rightarrow> cn_db c' = cn_db c
        \<and> (fault = quiet \<longrightarrow> own \<noteq> account \<or> \<not> bound_to account (cn_db c))
    | (Inr _, c') \<Rightarrow> db_messages (cn_db c') = [] \<and> recorded_identity (cn_db c') account = None
        \<and> identity_rows account (cn_db c') = []
        \<and> db_binding (cn_db c') = Some \<lparr>bd_account_id = SText (account_id_str account),
            bd_broker_subject = SNull, bd_refresh_token = SNull\<rparr>
        \<and> db_lifecycle (cn_db c') = map_option (\<lambda>l. l\<lparr>lr_last_sync := SNull\<rparr>) (db_lifecycle (cn_db c))"
proof -
  obtain r c' where run: "store_purge_account fault own account c = (r, c')" by fastforce
  show ?thesis
  proof (cases r)
    case (Inl err)
    have "atomic_op (store_purge_account fault own account)" using writes_atomic by blast
    then have "cn_db c' = cn_db c" using run Inl by (auto simp: atomic_op_def)
    moreover have "own \<noteq> account \<or> \<not> bound_to account (cn_db c)" if "fault = quiet"
      using run Inl that
      by (auto simp: store_purge_account_def for_account_def purge_def purge_body_def quiet_simps
          checked_account_def bound_to_def update_binding_def split: if_splits option.splits)
    ultimately show ?thesis using run Inl by simp
  next
    case (Inr u)
    then have "purge fault account c = (Inr u, c')"
      using run by (simp add: store_purge_account_def for_account_Inr)
    then obtain c1 c2 where "cn_db c1 = cn_db c" "purge_body fault account c1 = (Inr u, c2)"
      "cn_db c' = cn_db c2" unfolding purge_def by (rule committed_Inr)
    with purge_body_Inr [of fault account c1 u c2] show ?thesis
      using run Inr by (auto simp: forget_last_sync_def recorded_identity_def identity_rows_def
          bound_to_def filter_empty_conv split: list.split option.splits)
  qed
qed

theorem purge_destroys_witness:
  "\<exists>c'. store_purge_account quiet sample_account sample_account (sample_store sample_hash) = (Inr (), c')
    \<and> db_messages (cn_db c') = []"
proof -
  let ?run = "store_purge_account quiet sample_account sample_account (sample_store sample_hash)"
  have "fst ?run = Inr ()" by code_simp
  then have "?run = (Inr (), snd ?run)" by (metis prod.collapse)
  then show ?thesis
    using purge_destroys [where fault = quiet and own = sample_account and account = sample_account
        and c = "sample_store sample_hash"]
    by (cases "?run") auto
qed

end
