(* ===== verification/Store_Reads.thy ===== *)
theory Store_Reads
  imports Store_Props
begin

text \<open>
  What the store reads back: stored messages, ordered listings, credentials and lifecycle
  metadata round-trip, and unreadable rows are reported as corruption, never skipped.
\<close>

section \<open>Rows and envelopes\<close>

lemma text_within_text [simp]:
  "text_within n (SText s) = (if length s \<le> n then SText s else SNull)"
  by (simp add: text_within_def)

lemma only_integer_int [simp]: "only_integer (SInt i) = SInt i"
  by (simp add: only_integer_def)

lemma get_string_text [simp]: "utf8_valid s \<Longrightarrow> get_string (SText s) = Inr s"
  by (simp add: get_string_def)

lemma get_int_int [simp]: "get_int (SInt i) = Inr i"
  by (simp add: get_int_def)

text \<open>The row that stores an envelope, whatever its body.\<close>

definition row_stores :: "message_envelope \<Rightarrow> mail_row \<Rightarrow> bool" where
  "row_stores e r \<longleftrightarrow> mr_message_id r = SText (message_id_str (env_message_id e))
     \<and> mr_thread_id r = SText (thread_id_str (env_thread_id e))
     \<and> mr_sender r = SText (header_str (env_from e))
     \<and> mr_subject r = SText (header_str (env_subject e))
     \<and> mr_preview r = SText (header_str (env_preview e))
     \<and> mr_received_at r = SInt (as_millis (env_received_at e))
     \<and> mr_unread r = unread_int (env_unread e)"

lemma header_ok_D:
  "header_ok h \<Longrightarrow> length (header_str h) \<le> 1024 \<and> utf8_valid (header_str h)
    \<and> header_text_new (header_str h) = Inr h"
  by (cases h) (auto simp: header_ok_def MAX_HEADER_LEN_def)

lemma identifier_okD:
  "identifier_text s \<Longrightarrow> length s \<le> 256 \<and> utf8_valid s"
  by (auto simp: identifier_text_def MAX_IDENTIFIER_LEN_def identifier_text_valid
      intro: utf8_valid_ascii ascii_graphic_less_128)

lemma envelope_round_trip:
  assumes "envelope_ok e" and "row_stores e r"
  shows "envelope_from_row r = Inr e"
proof -
  have mid: "identifier_text (message_id_str (env_message_id e))"
    "message_id_new (message_id_str (env_message_id e)) = Inr (env_message_id e)"
    and tid: "identifier_text (thread_id_str (env_thread_id e))"
    "thread_id_new (thread_id_str (env_thread_id e)) = Inr (env_thread_id e)"
    using assms(1) by (auto simp: envelope_ok_def message_id_ok_def thread_id_ok_def)
  have hs: "header_ok (env_from e)" "header_ok (env_subject e)" "header_ok (env_preview e)"
    and t: "0 \<le> as_millis (env_received_at e)"
    using assms(1) by (auto simp: envelope_ok_def timestamp_ok_def)
  have ts: "unix_timestamp_new (as_millis (env_received_at e)) = Inr (env_received_at e)"
    using t by (cases "env_received_at e") simp
  note facts = identifier_okD [OF mid(1)] identifier_okD [OF tid(1)] hs [THEN header_ok_D] mid(2) tid(2) ts
  show ?thesis
    using assms(2) facts
    by (simp add: envelope_from_row_def row_stores_def unread_int_def
        del: header_text_new_Inr message_id_new_Inr thread_id_new_Inr unix_timestamp_new_Inr)
qed

text \<open>What a readable row says of the envelope read from it.\<close>

lemma rbind_Inr_elim:
  assumes "rbind r f = Inr b" obtains a where "r = Inr a" "f a = Inr b"
  using assms by (cases r) auto

lemma get_string_Inr: "get_string v = Inr s \<Longrightarrow> v = SText s \<and> utf8_valid s"
  by (auto simp: get_string_def split: sqlv.splits if_splits)

lemma get_int_Inr: "get_int v = Inr i \<Longrightarrow> v = SInt i"
  by (auto simp: get_int_def split: sqlv.splits)

lemma text_within_SText: "text_within n v = SText s \<Longrightarrow> v = SText s \<and> length s \<le> n"
  by (auto simp: text_within_def split: sqlv.splits if_splits)

lemma only_integer_SInt: "only_integer v = SInt i \<Longrightarrow> v = SInt i"
  by (auto simp: only_integer_def split: sqlv.splits)

lemma column_text:
  "get_string (text_within n v) = Inr s \<Longrightarrow> v = SText s \<and> length s \<le> n \<and> utf8_valid s"
  by (auto dest!: get_string_Inr text_within_SText)

lemma column_int: "get_int (only_integer v) = Inr i \<Longrightarrow> v = SInt i"
  by (auto dest!: get_int_Inr only_integer_SInt)

lemma envelope_from_row_Inr:
  assumes "envelope_from_row r = Inr e" shows "row_stores e r"
  using assms unfolding envelope_from_row_def
  by (elim rbind_Inr_elim)
    (auto dest!: column_text column_int simp: row_stores_def unread_int_def split: if_splits)

lemma envelope_from_row_ok:
  assumes "envelope_from_row r = Inr e" and "\<And>i. mr_received_at r = SInt i \<Longrightarrow> is_i64 i"
  shows "envelope_ok e"
  using assms unfolding envelope_from_row_def
  by (elim rbind_Inr_elim)
    (auto dest!: column_text column_int simp: envelope_ok_def header_ok_def timestamp_ok_def)

lemma envelope_from_row_err: "envelope_from_row r = Inl x \<Longrightarrow> x = Corrupted"
  unfolding envelope_from_row_def
  by (auto simp: result_simps corrupted_def split: if_splits)

section \<open>Listing\<close>

lemma read_rows_quiet:
  "fst (read_rows quiet rows c) =
    (if \<forall>r\<in>set rows. is_ok (envelope_from_row r)
     then Inr (map (\<lambda>r. projr (envelope_from_row r)) rows) else Inl Corrupted)"
proof (induction rows arbitrary: c)
  case Nil
  then show ?case by (simp add: quiet_simps)
next
  case (Cons r rows)
  show ?case
  proof (cases "envelope_from_row r")
    case (Inl x)
    then show ?thesis by (simp add: quiet_simps envelope_from_row_err [OF Inl])
  next
    case (Inr e)
    obtain q c1 where q: "read_rows quiet rows (tick c) = (q, c1)" by fastforce
    with Inr Cons.IH [of "tick c"] show ?thesis
      by (cases q) (auto simp: quiet_simps split: if_splits)
  qed
qed

lemma read_rows_Inr:
  assumes "read_rows fault rows c = (Inr es, c')"
  shows "list_all2 row_stores es rows"
  using assms
proof (induction rows arbitrary: c es c')
  case Nil
  then show ?case by (auto simp: db_bind_Inr_iff)
next
  case (Cons r rows)
  from Cons.prems obtain c1 e rest c2 where "envelope_from_row r = Inr e"
    "read_rows fault rows c1 = (Inr rest, c2)" "es = e # rest"
    by (auto simp: db_bind_Inr_iff)
  then show ?case using Cons.IH envelope_from_row_Inr by auto
qed

definition listed_before :: "message_envelope \<Rightarrow> message_envelope \<Rightarrow> bool" where
  "listed_before a b \<longleftrightarrow> as_millis (env_received_at b) < as_millis (env_received_at a)
     \<or> as_millis (env_received_at a) = as_millis (env_received_at b)
       \<and> env_message_id a \<le> env_message_id b"

lemma sqlv_order [simp]:
  "SInt i < SInt j \<longleftrightarrow> i < j" "SText s \<le> SText t \<longleftrightarrow> s \<le> t"
  by (auto simp: less_sqlv_def less_eq_sqlv_def)

lemma recent_before_listed:
  "row_stores a r \<Longrightarrow> row_stores b s \<Longrightarrow> recent_before r s \<Longrightarrow> listed_before a b"
  by (auto simp: row_stores_def recent_before_def listed_before_def less_eq_message_id_def)

lemma sorted_wrt_stored:
  assumes "list_all2 row_stores es rows" and "sorted_wrt recent_before rows"
  shows "sorted_wrt listed_before es"
  using assms
proof (induction rule: list_all2_induct)
  case (Cons e es r rows)
  have "listed_before e b" if "b \<in> set es" for b
  proof -
    obtain s where "s \<in> set rows" "row_stores b s"
      using Cons.hyps(2) \<open>b \<in> set es\<close> unfolding list_all2_conv_all_nth
      by (metis in_set_conv_nth)
    then show ?thesis using recent_before_listed Cons.hyps(1) Cons.prems by auto
  qed
  then show ?case using Cons by simp
qed simp

text \<open>
  C22. A listing is the newest rows first, equal times by identifier, at most the limit; it
  stores nothing, and with a working backend it fails exactly when a row in its window is
  unreadable, as corruption: a tampered row is never silently left out.
\<close>

theorem list_envelopes_ordered:
  "case store_list_envelopes fault own account limit c of
      (Inr es, c') \<Rightarrow> cn_db c' = cn_db c \<and> length es \<le> store_limit_get limit
        \<and> sorted_wrt listed_before es
        \<and> list_all2 row_stores es (selected_rows None limit (db_messages (cn_db c)))
    | (Inl err, c') \<Rightarrow> cn_db c' = cn_db c
        \<and> (fault = quiet \<and> own = account \<longrightarrow> err = Corrupted
            \<and> (\<exists>r\<in>set (selected_rows None limit (db_messages (cn_db c))).
                 \<not> is_ok (envelope_from_row r)))"
proof -
  obtain r c' where run: "store_list_envelopes fault own account limit c = (r, c')" by fastforce
  have "read_only_op (store_list_envelopes fault own account limit)"
    unfolding store_list_envelopes_def for_account_def list_envelopes_def by (intro op_rules)
  then have db: "cn_db c' = cn_db c" using run unfolding read_only_op_def by (metis snd_conv)
  show ?thesis
  proof (cases r)
    case (Inr es)
    then obtain c1 where l: "list_envelopes fault None limit c = (Inr es, c')"
      using run by (simp add: store_list_envelopes_def for_account_Inr)
    then obtain c1 c2 c3 rows where c1: "cn_db c1 = cn_db c" and
      "backend_call store_error fault c1 = (Inr (), c2)"
      and q: "query_row store_error fault (\<lambda>d. Inr (selected_rows None limit (db_messages d))) c2
        = (Inr rows, c3)"
      and rr: "read_rows fault rows c3 = (Inr es, c')"
      unfolding list_envelopes_def by (auto simp: db_bind_Inr_iff elim!: with_connection_Inr)
    then have rows: "rows = selected_rows None limit (db_messages (cn_db c))"
      using query_row_Inr [OF q] backend_call_db by fastforce
    have s: "sorted_wrt recent_before rows"
      unfolding rows selected_rows_def using recent.sorted_sort_by sorted_wrt_take by auto
    have "length rows \<le> store_limit_get limit" unfolding rows by (simp add: selected_rows_def)
    then show ?thesis
      using run Inr db rows s read_rows_Inr [OF rr] sorted_wrt_stored [OF read_rows_Inr [OF rr] s]
      by (simp add: list_all2_lengthD)
  next
    case (Inl err)
    have "err = Corrupted \<and> (\<exists>r\<in>set (selected_rows None limit (db_messages (cn_db c))).
        \<not> is_ok (envelope_from_row r))" if "fault = quiet" "own = account"
    proof -
      have "fst (read_rows quiet (selected_rows None limit (db_messages (cn_db c))) c4) = Inl err"
        if "c4 = tick (tick (tick c))" for c4
        using run Inl that \<open>fault = quiet\<close> \<open>own = account\<close>
        by (simp add: store_list_envelopes_def for_account_def checked_account_def list_envelopes_def
            quiet_simps)
      then show ?thesis
        using read_rows_quiet [of "selected_rows None limit (db_messages (cn_db c))" "tick (tick (tick c))"]
        by (auto split: if_splits)
    qed
    then show ?thesis using run Inl db by simp
  qed
qed

theorem list_envelopes_ordered_witness:
  "\<exists>es c'. store_list_envelopes quiet sample_account sample_account (StoreLimit 5)
      (snd (run_command quiet sample_account sample_account (CmdUpsert [sample_envelope])
        (sample_store sample_hash))) = (Inr es, c')
    \<and> map env_message_id es = [MessageId ''m1'', MessageId ''m0''] \<and> sorted_wrt listed_before es"
proof -
  let ?c = "snd (run_command quiet sample_account sample_account (CmdUpsert [sample_envelope])
        (sample_store sample_hash))"
  let ?run = "store_list_envelopes quiet sample_account sample_account (StoreLimit 5) ?c"
  have "map_ok (map env_message_id) (fst ?run) = Inr [MessageId ''m1'', MessageId ''m0'']" by code_simp
  then obtain es where es: "fst ?run = Inr es" "map env_message_id es = [MessageId ''m1'', MessageId ''m0'']"
    unfolding map_ok_Inr by metis
  then have run: "?run = (Inr es, snd ?run)" by (metis prod.collapse)
  have "sorted_wrt listed_before es"
    using list_envelopes_ordered [where fault = quiet and own = sample_account
        and account = sample_account and limit = "StoreLimit 5" and c = ?c]
    by (subst (asm) run) (simp only: prod.case sum.case)
  then show ?thesis by (intro exI conjI) (rule run, rule es(2))
qed

section \<open>A stored message is read back\<close>

lemma unique_rows:
  assumes "messages_ok rows" and "list_ex (has_id i) rows"
  obtains r where "filter (has_id i) rows = [r]" "r \<in> set rows" "has_id i r"
    "\<forall>x\<in>set rows. has_id i x \<longrightarrow> x = r"
proof -
  have "length (filter (has_id i) rows) = 1" using unique_match [OF assms(1)] assms(2) by simp
  then obtain r where r: "filter (has_id i) rows = [r]" by (auto simp: length_Suc_conv)
  then have "set (filter (has_id i) rows) = {r}" by simp
  then have "x \<in> set rows \<and> has_id i x \<longleftrightarrow> x = r" for x
    by (metis (mono_tags, lifting) filter_set mem_Collect_eq set_filter singleton_iff)
  then show thesis using r that by blast
qed

lemma filter_map_same:
  assumes "\<And>r. p (f r) = p r" shows "filter p (map f xs) = map f (filter p xs)"
  using assms by (simp add: filter_map o_def)

lemma get_message_quiet:
  "fst (store_message quiet own own i c) =
    (case filter (has_id i) (db_messages (cn_db c)) of [] \<Rightarrow> Inr None | r # _ \<Rightarrow> message_of_row r)"
  by (simp add: store_message_def for_account_def checked_account_def get_complete_message_def
      quiet_simps)

lemma message_of_row_stored:
  assumes "message_ok m" and "row_stores (msg_envelope m) r"
    and "mr_content r = SBlob (content_bytes (msg_content m))"
  shows "message_of_row r = Inr (Some m)"
proof -
  have "content_ok (msg_content m)" "envelope_ok (msg_envelope m)"
    using assms(1) by (auto simp: message_ok_def)
  then show ?thesis
    using envelope_round_trip [OF _ assms(2)] assms(3)
    by (auto simp: message_of_row_def content_state_def content_ok_def get_blob_def
        message_content_new_def)
qed

text \<open>
  C25. A stored message is read back as it was stored, except that it stays read when it had
  been read locally.
\<close>

theorem put_then_get:
  assumes "message_ok m" and "schema_ok (cn_db c)"
    and "store_put_message fault own account m c = (Inr u, c')"
  defines "i \<equiv> env_message_id (msg_envelope m)"
  shows "fst (store_message quiet own account i c') = Inr (Some (m\<lparr>msg_envelope :=
    (msg_envelope m)\<lparr>env_unread := env_unread (msg_envelope m) \<and> \<not> locally_read (cn_db c) i\<rparr>\<rparr>))"
proof -
  let ?e = "msg_envelope m" and ?b = "SBlob (content_bytes (msg_content m))"
  let ?rows = "db_messages (cn_db c)"
  define e' where "e' = ?e\<lparr>env_unread := env_unread ?e \<and> \<not> locally_read (cn_db c) i\<rparr>"
  have acc: "own = account" and put: "put fault m c = (Inr u, c')"
    using assms(3) by (auto simp: store_put_message_def for_account_Inr)
  have ok: "message_ok (m\<lparr>msg_envelope := e'\<rparr>)"
    using assms(1) by (simp add: message_ok_def envelope_ok_def e'_def)
  have mok: "messages_ok ?rows" by (rule schema_okD [OF assms(2)])
  have "\<exists>r. filter (has_id i) (db_messages (cn_db c')) = [r] \<and> row_stores e' r \<and> mr_content r = ?b"
  proof (cases "list_ex (has_id i) ?rows")
    case True
    obtain r where r: "filter (has_id i) ?rows = [r]" "r \<in> set ?rows" "has_id i r"
      "\<forall>x\<in>set ?rows. has_id i x \<longrightarrow> x = r"
      by (rule unique_rows [OF mok True])
    have read: "locally_read (cn_db c) i \<longleftrightarrow> mr_unread r = SInt 0"
      using r(2,3,4) unfolding locally_read_def list_ex_iff by blast
    have "mr_unread r = SInt 0 \<or> mr_unread r = SInt 1"
      using mok r(2) by (auto simp: messages_ok_def list_all_iff mail_row_ok_def)
    then have "row_stores e' ((set_envelope ?e r)\<lparr>mr_content := ?b\<rparr>)"
      using r(3) read
      by (auto simp: row_stores_def set_envelope_def e'_def has_id_def i_def sticky_unread_def unread_int_def)
    moreover have "filter (has_id i) (db_messages (cn_db c')) = [(set_envelope ?e r)\<lparr>mr_content := ?b\<rparr>]"
      using put_Inr [OF put] True r(1,3)
      by (simp add: upsert_message_def i_def [symmetric])
        (subst filter_map_same, simp add: has_id_def, simp)
    ultimately show ?thesis by simp
  next
    case False
    then have n: "filter (has_id i) ?rows = []" "\<not> locally_read (cn_db c) i"
      by (auto simp: filter_empty_conv list_ex_iff locally_read_def)
    have "row_stores e' (new_row ?e ?b)" "has_id i (new_row ?e ?b)"
      using n(2) by (auto simp: row_stores_def new_row_def e'_def has_id_def i_def)
    then show ?thesis
      using put_Inr [OF put] False n(1)
      by (simp add: upsert_message_def i_def [symmetric]) (simp add: new_row_def)
  qed
  then obtain r where "filter (has_id i) (db_messages (cn_db c')) = [r]" "row_stores e' r"
    "mr_content r = ?b" by blast
  then show ?thesis
    using message_of_row_stored [OF ok] acc
    by (simp add: get_message_quiet e'_def [symmetric])
qed

theorem put_then_get_witness:
  "fst (store_message quiet sample_account sample_account (MessageId ''m1'')
      (snd (store_put_message quiet sample_account sample_account sample_message
        (sample_store sample_hash)))) = Inr (Some sample_message)"
proof -
  let ?run = "store_put_message quiet sample_account sample_account sample_message (sample_store sample_hash)"
  have "fst ?run = Inr ()" by code_simp
  then have run: "?run = (Inr (), snd ?run)" by (metis prod.collapse)
  have "message_ok sample_message" by code_simp
  note get = put_then_get [OF this sample_schema_ok run]
  have i: "env_message_id (msg_envelope sample_message) = MessageId ''m1''" by code_simp
  have "sample_message\<lparr>msg_envelope := (msg_envelope sample_message)\<lparr>env_unread :=
      env_unread (msg_envelope sample_message)
        \<and> \<not> locally_read (cn_db (sample_store sample_hash)) (MessageId ''m1'')\<rparr>\<rparr> = sample_message"
    by code_simp
  with get show ?thesis unfolding i by (simp only:)
qed

section \<open>Credentials\<close>

lemma printable_utf8:
  "list_all (\<lambda>b. 33 \<le> byte b \<and> byte b \<le> 126) s \<Longrightarrow> utf8_valid s"
  by (rule utf8_valid_ascii) (auto simp: list_all_iff)

lemma update_refresh_token_Inr:
  assumes "update_refresh_token flt own t c0 = (Inr u, c1)"
  shows "\<exists>b. db_binding (cn_db c0) = Some b \<and> bd_account_id b = SText (account_id_str own)
    \<and> cn_db c1 = (cn_db c0)\<lparr>db_binding := Some (b\<lparr>bd_refresh_token :=
        (case t of Some t \<Rightarrow> SText t | None \<Rightarrow> SNull)\<rparr>)\<rparr>"
proof -
  from assms obtain c2 n where c2: "cn_db c2 = cn_db c0" "changed_one n = Inr u"
    "execute store_error flt (update_binding own (\<lambda>b. b\<lparr>bd_refresh_token :=
        (case t of Some t \<Rightarrow> SText t | None \<Rightarrow> SNull)\<rparr>)) c2 = (Inr n, c1)"
    unfolding update_refresh_token_def
    by (elim with_connection_Inr) (auto simp: db_bind_Inr_iff)
  then show ?thesis
    using execute_Inr [OF c2(3)]
    by (auto simp: update_binding_def changed_one_def bound_to_def split: if_splits option.splits)
qed

text \<open>The token a binding holds, and what the three operations make of it.\<close>

definition token_of :: "db \<Rightarrow> string option" where
  "token_of d =
     (case db_binding d of
        None \<Rightarrow> None
      | Some b \<Rightarrow> (case bd_refresh_token b of SText t \<Rightarrow> Some t | _ \<Rightarrow> None))"

lemma store_token_Inr:
  assumes "store_refresh_token flt own own t c = (Inr u, c')"
  shows "token_of (cn_db c') = Some t \<and> is_valid_refresh_token t"
proof -
  from assms have "is_valid_refresh_token t" and "update_refresh_token flt own (Some t) c = (Inr u, c')"
    by (auto simp: store_refresh_token_def db_bind_Inr_iff checked_account_def split: if_splits)
  with update_refresh_token_Inr [OF this(2)] show ?thesis by (auto simp: token_of_def)
qed

lemma clear_token_Inr:
  assumes "clear_refresh_token flt own own c = (Inr u, c')"
  shows "token_of (cn_db c') = None"
proof -
  from assms have "update_refresh_token flt own None c = (Inr u, c')"
    by (auto simp: clear_refresh_token_def db_bind_Inr_iff checked_account_def)
  with update_refresh_token_Inr [OF this] show ?thesis by (auto simp: token_of_def)
qed

lemma load_token_Inr:
  assumes "load_refresh_token flt own own c = (Inr v, c')"
  shows "v = token_of (cn_db c)"
  using assms unfolding load_refresh_token_def
  by (auto simp: db_bind_Inr_iff checked_account_def token_of_def read_binding_column_def
      judge_binding_column_def get_option_def get_string_def only_text_def rbind_Inr map_ok_Inr
      elim!: with_connection_Inr dest!: query_row_Inr split: option.splits sqlv.splits if_splits)

lemma load_column_quiet:
  assumes "account_id_ok own" and "db_binding (cn_db c) = Some b"
    and "bd_account_id b = SText (account_id_str own)"
  shows "fst (load_refresh_token quiet own own c) =
      judge_binding_column is_valid_refresh_token own (typeof (bd_refresh_token b),
        (case bd_refresh_token b of SText t \<Rightarrow> Some t | _ \<Rightarrow> None), Some (account_id_str own))
    \<or> (\<exists>t. bd_refresh_token b = SText t \<and> \<not> utf8_valid t)"
proof -
  have "utf8_valid (account_id_str own)"
    using assms(1) by (auto simp: account_id_ok_def intro: wf_intros)
  then show ?thesis
    using assms(2,3)
    by (cases "bd_refresh_token b")
      (auto simp: load_refresh_token_def quiet_simps checked_account_def read_binding_column_def
        only_text_def get_option_def get_string_def)
qed

text \<open>
  The refresh token round-trips: a stored token is the one loaded, clearing it leaves
  none, replacing it leaves the broker subject alone, and a token outside the stored shape
  is refused before it reaches the tables.
\<close>

theorem refresh_token_round_trip:
  assumes "account_id_ok own"
  shows "case store_refresh_token fault own own token c of
      (Inr _, c1) \<Rightarrow> is_valid_refresh_token token
        \<and> fst (load_refresh_token quiet own own c1) = Inr (Some token)
        \<and> map_option bd_broker_subject (db_binding (cn_db c1))
            = map_option bd_broker_subject (db_binding (cn_db c))
        \<and> (case clear_refresh_token fault' own own c1 of
             (Inr _, c2) \<Rightarrow> fst (load_refresh_token quiet own own c2) = Inr None
           | (Inl _, c2) \<Rightarrow> fst (load_refresh_token quiet own own c2) = Inr (Some token))
    | (Inl _, c1) \<Rightarrow> cn_db c1 = cn_db c"
proof -
  note update = update_refresh_token_Inr
  have loaded: "fst (load_refresh_token quiet own own c1) = Inr t"
    if "db_binding (cn_db c1) = Some b" "bd_account_id b = SText (account_id_str own)"
      "bd_refresh_token b = (case t of Some t \<Rightarrow> SText t | None \<Rightarrow> SNull)"
      "case t of Some t \<Rightarrow> is_valid_refresh_token t | None \<Rightarrow> True" for c1 b t
    using load_column_quiet [OF assms that(1,2)] that(3,4) printable_utf8
    by (cases t) (auto simp: judge_binding_column_def is_valid_refresh_token_def)
  obtain r c1 where run: "store_refresh_token fault own own token c = (r, c1)" by fastforce
  show ?thesis
  proof (cases r)
    case (Inl err)
    have "atomic_op (store_refresh_token fault own own token)" using writes_atomic by blast
    then show ?thesis using run Inl by (auto simp: atomic_op_def)
  next
    case (Inr u)
    then have v: "is_valid_refresh_token token"
      and up: "update_refresh_token fault own (Some token) c = (Inr u, c1)"
      using run by (auto simp: store_refresh_token_def db_bind_Inr_iff checked_account_def split: if_splits)
    obtain b where b: "db_binding (cn_db c) = Some b" "bd_account_id b = SText (account_id_str own)"
      "cn_db c1 = (cn_db c)\<lparr>db_binding := Some (b\<lparr>bd_refresh_token := SText token\<rparr>)\<rparr>"
      using update [OF up] by auto
    have l1: "fst (load_refresh_token quiet own own c1) = Inr (Some token)"
      by (rule loaded [where b = "b\<lparr>bd_refresh_token := SText token\<rparr>"]) (use b v in auto)
    obtain r2 c2 where clear: "clear_refresh_token fault' own own c1 = (r2, c2)" by fastforce
    have "case r2 of Inr _ \<Rightarrow> fst (load_refresh_token quiet own own c2) = Inr None
        | Inl _ \<Rightarrow> fst (load_refresh_token quiet own own c2) = Inr (Some token)"
    proof (cases r2)
      case (Inr v)
      then have "update_refresh_token fault' own None c1 = (Inr v, c2)"
        using clear by (auto simp: clear_refresh_token_def db_bind_Inr_iff checked_account_def)
      from update [OF this] obtain b' where "db_binding (cn_db c2) = Some b'"
        "bd_account_id b' = SText (account_id_str own)" "bd_refresh_token b' = SNull" by auto
      then show ?thesis using Inr loaded [where t = None] by simp
    next
      case (Inl err)
      have "atomic_op (clear_refresh_token fault' own own)" using writes_atomic by blast
      then have "cn_db c2 = cn_db c1" using clear Inl by (auto simp: atomic_op_def)
      then show ?thesis
        using Inl b v by (auto intro!: loaded [where b = "b\<lparr>bd_refresh_token := SText token\<rparr>"])
    qed
    then show ?thesis using run Inr clear v l1 b by (auto split: sum.splits)
  qed
qed

theorem refresh_token_round_trip_witness:
  "fst (load_refresh_token quiet sample_account sample_account
      (snd (store_refresh_token quiet sample_account sample_account ''tok''
        (sample_store sample_hash)))) = Inr (Some ''tok'')"
proof -
  let ?run = "store_refresh_token quiet sample_account sample_account ''tok'' (sample_store sample_hash)"
  have "fst ?run = Inr ()" by code_simp
  then have run: "?run = (Inr (), snd ?run)" by (metis prod.collapse)
  have "account_id_ok sample_account" by code_simp
  from refresh_token_round_trip [OF this, where fault = quiet and token = "''tok''"
      and c = "sample_store sample_hash" and fault' = quiet]
  show ?thesis by (subst (asm) run) (simp only: prod.case sum.case)
qed

end
