(* ===== verification/Store_Identity.thy ===== *)
theory Store_Identity
  imports Store_Reads
begin

text \<open>
  The recorded account identity and the lifecycle metadata: the compare-and-set that the
  gate relies on, the fail-closed treatment of an unreadable identity, and the abstract
  lifecycle machine that the commands of the store refine.
\<close>

section \<open>The compare-and-set of the identity\<close>

text \<open>An identity hash is 32 bytes.\<close>

definition hash_ok :: "identity_hash \<Rightarrow> bool" where
  "hash_ok h \<longleftrightarrow> length (hash_bytes h) = 32"

definition identity_unreadable :: "db \<Rightarrow> account_id \<Rightarrow> bool" where
  "identity_unreadable d account \<longleftrightarrow>
     (case identity_rows account d of [] \<Rightarrow> False | r # _ \<Rightarrow> \<not> is_ok (identity_of_row r))"

lemma identity_of_row_err: "identity_of_row r = Inl e \<Longrightarrow> e = Corrupted"
  by (auto simp: identity_of_row_def split: option.splits sqlv.splits if_splits)

lemma read_recorded_readable:
  assumes "read_recorded_identity fault account c = (Inr h, c')"
  shows "\<not> identity_unreadable (cn_db c) account
    \<and> recorded_identity (cn_db c) account = map_option IdentityHash h \<and> cn_db c' = cn_db c"
  using read_recorded_Inr [OF assms]
  by (auto simp: identity_unreadable_def recorded_identity_def split: list.splits)

lemma read_identity_hash_Inr:
  assumes "read_identity_hash fault account c = (Inr h, c')"
  shows "\<not> identity_unreadable (cn_db c) account
    \<and> recorded_identity (cn_db c) account = map_option IdentityHash h \<and> cn_db c' = cn_db c"
proof -
  from assms obtain c1 where "cn_db c1 = cn_db c" "read_recorded_identity fault account c1 = (Inr h, c')"
    unfolding read_identity_hash_def read_recorded_identity_def by (rule with_connection_Inr)
  with read_recorded_readable show ?thesis by metis
qed

lemma matches_expected_Inr:
  assumes "assert_identity_matches_expected fault account expected c = (Inr u, c')"
  shows "\<not> identity_unreadable (cn_db c) account
    \<and> recorded_identity (cn_db c) account = map_option IdentityHash expected \<and> cn_db c' = cn_db c"
proof -
  from assms obtain h c1 where h: "read_recorded_identity fault account c = (Inr h, c1)"
    "h = expected" "c' = c1"
    by (auto simp: assert_identity_matches_expected_def db_bind_Inr_iff split: if_splits)
  then show ?thesis using read_recorded_readable [OF h(1)] by simp
qed

text \<open>The row that a record leaves for the account.\<close>

lemma recorded_after:
  assumes "length h = 32"
  shows "recorded_identity (d\<lparr>db_identity := record_identity account h (db_identity d)\<rparr>) account
    = Some (IdentityHash h)"
proof -
  let ?k = "SText (account_id_str account)"
  let ?new = "\<lambda>r. r\<lparr>ir_hash := SBlob h, ir_version := SInt IDENTITY_ALGO_VERSION\<rparr>"
  have good: "identity_of_row r = Inr h" if "ir_hash r = SBlob h"
    "ir_version r = SInt IDENTITY_ALGO_VERSION" for r :: identity_row
    using that assms by (simp add: identity_of_row_def)
  show ?thesis
  proof (cases "list_ex (\<lambda>r. ir_account_id r = ?k) (db_identity d)")
    case True
    then obtain r rs where r: "filter (\<lambda>r. ir_account_id r = ?k) (db_identity d) = r # rs"
      by (cases "filter (\<lambda>r. ir_account_id r = ?k) (db_identity d)")
        (auto simp: filter_empty_conv list_ex_iff)
    have "filter (\<lambda>r. ir_account_id r = ?k)
        (map (\<lambda>r. if ir_account_id r = ?k then ?new r else r) (db_identity d))
      = map (\<lambda>r. if ir_account_id r = ?k then ?new r else r)
          (filter (\<lambda>r. ir_account_id r = ?k) (db_identity d))"
      by (rule filter_map_same) simp
    moreover have "ir_account_id r = ?k"
      using r by (metis (mono_tags, lifting) Cons_eq_filterD)
    ultimately show ?thesis
      using True r good by (simp add: recorded_identity_def identity_rows_def record_identity_def)
  next
    case False
    then have "filter (\<lambda>r. ir_account_id r = ?k) (db_identity d) = []"
      by (auto simp: filter_empty_conv list_ex_iff)
    then show ?thesis
      using False good by (simp add: recorded_identity_def identity_rows_def record_identity_def)
  qed
qed

lemma recorded_forget [simp]:
  "recorded_identity (forget_last_sync d) = recorded_identity d"
  by (auto simp: recorded_identity_def identity_rows_def forget_last_sync_def fun_eq_iff)

definition identity_written :: "account_id \<Rightarrow> string \<Rightarrow> bool \<Rightarrow> db \<Rightarrow> db" where
  "identity_written account fresh clear d =
     (let d1 = (if clear then forget_last_sync (d\<lparr>db_messages := []\<rparr>) else d)
      in d1\<lparr>db_identity := record_identity account fresh (db_identity d1)\<rparr>)"

lemma write_identity_hash_Inr:
  assumes "write_identity_hash fault account fresh clear expected c = (Inr u, c')"
  shows "\<not> identity_unreadable (cn_db c) account
    \<and> recorded_identity (cn_db c) account = map_option IdentityHash expected
    \<and> cn_db c' = identity_written account fresh clear (cn_db c)"
proof -
  let ?clear = "if clear
      then db_bind (execute store_error fault (\<lambda>d. (d\<lparr>db_messages := []\<rparr>, 0)))
        (\<lambda>_. execute store_error fault (\<lambda>d. (forget_last_sync d, 0)))
      else db_return 0"
  let ?rec = "\<lambda>d. d\<lparr>db_identity := record_identity account fresh (db_identity d)\<rparr>"
  from assms obtain c1 c2 c3 c4 n where c1: "cn_db c1 = cn_db c" "cn_db c' = cn_db c2"
    and e: "assert_identity_matches_expected fault account expected c1 = (Inr (), c3)"
    and k: "?clear c3 = (Inr n, c4)"
    and x: "db_bind (execute store_error fault (\<lambda>d. (?rec d, 1))) (\<lambda>_. db_return ()) c4 = (Inr u, c2)"
    unfolding write_identity_hash_def
    by (elim committed_Inr) (auto simp: db_bind_Inr_iff)
  from x obtain m where "execute store_error fault (\<lambda>d. (?rec d, 1)) c4 = (Inr m, c2)"
    by (auto simp: db_bind_Inr_iff)
  then have c2: "cn_db c2 = ?rec (cn_db c4)" by (auto dest: execute_Inr)
  have c4: "cn_db c4 = (if clear then forget_last_sync ((cn_db c)\<lparr>db_messages := []\<rparr>) else cn_db c)"
  proof (cases clear)
    case True
    then obtain c5 m1 where "execute store_error fault (\<lambda>d. (d\<lparr>db_messages := []\<rparr>, 0)) c3 = (Inr m1, c5)"
      "execute store_error fault (\<lambda>d. (forget_last_sync d, 0)) c5 = (Inr n, c4)"
      using k by (auto simp: db_bind_Inr_iff)
    from this [THEN execute_Inr] show ?thesis
      using True matches_expected_Inr [OF e] c1 by (auto simp: eq_commute [of _ "cn_db c5"])
  qed (use k matches_expected_Inr [OF e] c1 in auto)
  show ?thesis
    using matches_expected_Inr [OF e] c1 c2 c4 by (auto simp: identity_written_def Let_def)
qed

lemma hash_option_eq: "map_option IdentityHash (map_option hash_bytes h) = h"
  by (cases h) simp_all

lemma reconcile_identity_Inr:
  assumes "store_reconcile_identity fault own account fresh action expected c = (Inr u, c')"
    and "hash_ok fresh"
  shows "own = account \<and> recorded_identity (cn_db c) account = expected
    \<and> recorded_identity (cn_db c') account = Some fresh
    \<and> db_messages (cn_db c') = (if action = ClearMailboxAndRecord then [] else db_messages (cn_db c))"
proof -
  have acc: "own = account"
    and w: "write_identity_hash fault account (hash_bytes fresh) (action = ClearMailboxAndRecord)
      (map_option hash_bytes expected) c = (Inr u, c')"
    using assms(1) by (auto simp: store_reconcile_identity_def for_account_Inr)
  note f = write_identity_hash_Inr [OF w]
  let ?d = "if action = ClearMailboxAndRecord
    then forget_last_sync ((cn_db c)\<lparr>db_messages := []\<rparr>) else cn_db c"
  have "recorded_identity (cn_db c') account = Some fresh"
    using f recorded_after [of "hash_bytes fresh" account ?d] assms(2)
    by (simp add: identity_written_def Let_def hash_ok_def)
  moreover have "db_messages (cn_db c') = db_messages ?d"
    using f by (simp add: identity_written_def Let_def)
  ultimately show ?thesis using acc f by (simp add: hash_option_eq forget_last_sync_def)
qed

lemma load_identity_Inr:
  assumes "store_load_identity fault own account c = (Inr h, c')"
  shows "own = account \<and> \<not> identity_unreadable (cn_db c) account
    \<and> recorded_identity (cn_db c) account = h \<and> cn_db c' = cn_db c"
proof -
  from assms obtain b where "own = account" "read_identity_hash fault account c = (Inr b, c')"
    "h = map_option IdentityHash b"
    by (auto simp: store_load_identity_def for_account_Inr db_bind_Inr_iff)
  then show ?thesis using read_identity_hash_Inr by auto
qed

text \<open>
  A recorded identity that is present but unreadable (wrong type, length or algorithm
  version) is never taken for a first connect: loading it fails as corruption, and no gate
  decision, snapshot or body commits under it, whatever the backend does.
\<close>

theorem unreadable_identity_fails_closed:
  assumes "identity_unreadable (cn_db c) own"
  shows "fst (store_load_identity quiet own own c) = Inl Corrupted
    \<and> \<not> is_ok (fst (store_load_identity fault own own c))
    \<and> \<not> is_ok (fst (store_reconcile_identity fault own own fresh action expected c))
    \<and> \<not> is_ok (fst (store_reconcile_recent fault own own es k fence c))
    \<and> \<not> is_ok (fst (store_cache_message fault own own m fence c))"
proof (intro conjI)
  show "fst (store_load_identity quiet own own c) = Inl Corrupted"
  proof -
    obtain r rs where rows: "identity_rows own (cn_db c) = r # rs" "\<not> is_ok (identity_of_row r)"
      using assms by (auto simp: identity_unreadable_def split: list.splits)
    then have "identity_of_row r = Inl Corrupted"
      by (cases "identity_of_row r") (auto dest: identity_of_row_err)
    with rows(1) show ?thesis
      by (simp add: store_load_identity_def for_account_def checked_account_def read_identity_hash_def
          quiet_simps)
  qed
  show "\<not> is_ok (fst (store_load_identity fault own own c))"
    using assms load_identity_Inr [of fault own own c] by (metis is_ok_iff prod.collapse)
  have "\<not> is_ok (fst (write_identity_hash fault own h clear e c))" for h clear e
    using assms write_identity_hash_Inr [of fault own h clear e c] by (metis is_ok_iff prod.collapse)
  then show "\<not> is_ok (fst (store_reconcile_identity fault own own fresh action expected c))"
    by (simp add: store_reconcile_identity_def for_account_def db_bind_def db_result_def checked_account_def)
  have none: "recorded_identity (cn_db c) own = None"
    using assms by (auto simp: identity_unreadable_def recorded_identity_def split: list.splits sum.splits)
  have "\<not> is_ok (fst (reconcile fault own es k fence c))"
    using none reconcile_Inr [of fault own es k fence c] by (metis is_ok_iff prod.collapse option.distinct(1))
  then show "\<not> is_ok (fst (store_reconcile_recent fault own own es k fence c))"
    by (simp add: store_reconcile_recent_def for_account_def db_bind_def db_result_def checked_account_def)
  have "\<not> is_ok (fst (cache_if_present fault own m fence c))"
    using none cache_if_present_Inr [of fault own m fence c] by (metis is_ok_iff prod.collapse option.distinct(1))
  then show "\<not> is_ok (fst (store_cache_message fault own own m fence c))"
    by (simp add: store_cache_message_def for_account_def db_bind_def db_result_def checked_account_def)
qed

theorem unreadable_identity_fails_closed_witness:
  "fst (store_load_identity quiet sample_account sample_account
    (sample_store (IdentityHash ''short''))) = Inl Corrupted"
proof -
  have "identity_unreadable (cn_db (sample_store (IdentityHash ''short''))) sample_account" by code_simp
  from unreadable_identity_fails_closed [OF this] show ?thesis by blast
qed

section \<open>The lifecycle machine\<close>

text \<open>
  The abstract machine: a recovery marker and the time of the last full sync, and what each
  command of the store does to them.
\<close>

fun lifecycle_step :: "store_command \<Rightarrow> account_lifecycle_metadata \<Rightarrow> account_lifecycle_metadata" where
  "lifecycle_step CmdDisconnectStarted m = m\<lparr>alm_recovery := Some IncompleteTeardown\<rparr>"
| "lifecycle_step CmdRevokeUnconfirmed m = m\<lparr>alm_recovery := Some RevokeUnconfirmed\<rparr>"
| "lifecycle_step CmdClearRecovery m = m\<lparr>alm_recovery := None\<rparr>"
| "lifecycle_step (CmdSynced t) m = m\<lparr>alm_last_sync := Some t\<rparr>"
| "lifecycle_step CmdPurge m = m\<lparr>alm_last_sync := None\<rparr>"
| "lifecycle_step (CmdIdentity h action expected) m =
     (if action = ClearMailboxAndRecord then m\<lparr>alm_last_sync := None\<rparr> else m)"
| "lifecycle_step _ m = m"

definition lifecycle_view :: "lifecycle_row option \<Rightarrow> mailbox_store_error + account_lifecycle_metadata"
  where
  "lifecycle_view row =
     (case row of None \<Rightarrow> Inr account_lifecycle_metadata_default | Some l \<Rightarrow> lifecycle_of_row l)"

lemma lifecycle_metadata_quiet:
  "fst (store_lifecycle_metadata quiet own own c) = lifecycle_view (db_lifecycle (cn_db c))"
  by (simp add: store_lifecycle_metadata_def for_account_def checked_account_def
      read_lifecycle_metadata_def quiet_simps lifecycle_view_def)

lemma lifecycle_of_row_Inr:
  "lifecycle_of_row l = Inr m \<longleftrightarrow>
    lr_recovery l = sql_nullif (recovery_value (alm_recovery m)) 0
    \<and> (case alm_last_sync m of None \<Rightarrow> lr_last_sync l = SNull | Some t \<Rightarrow> 0 \<le> t \<and> lr_last_sync l = SInt t)"
proof -
  obtain r t where m: "m = \<lparr>alm_recovery = r, alm_last_sync = t\<rparr>" by (cases m) auto
  show ?thesis
    unfolding m
    by (cases "lr_recovery l"; cases "lr_last_sync l"; cases r; cases t)
      (auto simp: lifecycle_of_row_def sql_nullif_def recovery_value_def
        account_lifecycle_metadata_new_def split: if_splits disconnect_recovery_state.splits)
qed

lemma lifecycle_view_Inr:
  "lifecycle_view row = Inr m \<longleftrightarrow>
    (case row of None \<Rightarrow> m = account_lifecycle_metadata_default | Some l \<Rightarrow> lifecycle_of_row l = Inr m)"
  by (auto simp: lifecycle_view_def split: option.split)

lemma keeps_lifecycle_rows: "keeps (\<lambda>d. db_lifecycle d = l) (write_envelopes fault es)"
  by (rule keeps_write_envelopes) simp

fun touches_lifecycle :: "store_command \<Rightarrow> bool" where
  "touches_lifecycle CmdDisconnectStarted = True"
| "touches_lifecycle CmdRevokeUnconfirmed = True"
| "touches_lifecycle CmdClearRecovery = True"
| "touches_lifecycle (CmdSynced t) = True"
| "touches_lifecycle CmdPurge = True"
| "touches_lifecycle (CmdIdentity h action expected) = True"
| "touches_lifecycle _ = False"

lemma update_binding_lifecycle [simp]: "db_lifecycle (fst (update_binding account f d)) = db_lifecycle d"
  by (simp add: update_binding_def)

lemma other_commands_lifecycle:
  "\<not> touches_lifecycle cmd \<Longrightarrow> keeps (\<lambda>d. db_lifecycle d = l) (run_command fault own account cmd)"
  by (cases cmd)
    (auto simp: store_upsert_envelopes_def upsert_def store_put_message_def put_def write_envelope_def
      store_reconcile_recent_def reconcile_def reconcile_body_def store_cache_message_def
      cache_if_present_def cache_body_def store_mark_message_read_def mark_one_message_read_def
      store_mark_thread_read_def mark_one_thread_read_def store_broker_subject_def
      store_refresh_token_def clear_refresh_token_def update_refresh_token_def
      intro!: keep_rules keeps_lifecycle_rows keeps_read_only [OF read_only_result] keeps_execute)

lemma update_recovery_Inr:
  assumes "update_recovery fault recovery c = (Inr u, c')"
  shows "db_lifecycle (cn_db c') = Some (case db_lifecycle (cn_db c) of
      None \<Rightarrow> \<lparr>lr_recovery = sql_nullif (recovery_value recovery) 0, lr_last_sync = SNull\<rparr>
    | Some l \<Rightarrow> l\<lparr>lr_recovery := sql_nullif (recovery_value recovery) 0\<rparr>)"
  using single_update_Inr [OF assms [unfolded update_recovery_def]] by simp

lemma recovery_view:
  assumes "update_recovery fault recovery c = (Inr u, c')"
    and "lifecycle_view (db_lifecycle (cn_db c)) = Inr m"
  shows "lifecycle_view (db_lifecycle (cn_db c')) = Inr (m\<lparr>alm_recovery := recovery\<rparr>)"
  using update_recovery_Inr [OF assms(1)] assms(2)
  by (auto simp: lifecycle_view_Inr lifecycle_of_row_Inr account_lifecycle_metadata_default_def
      split: option.splits)

lemma synced_view:
  assumes "record_successful_sync_at fault t c = (Inr u, c')"
    and "lifecycle_view (db_lifecycle (cn_db c)) = Inr m"
  shows "lifecycle_view (db_lifecycle (cn_db c')) = Inr (m\<lparr>alm_last_sync := Some t\<rparr>)"
proof -
  have t: "0 \<le> t" using assms(1) by (auto simp: record_successful_sync_at_def split: if_splits)
  have "db_lifecycle (cn_db c') = Some (case db_lifecycle (cn_db c) of
      None \<Rightarrow> \<lparr>lr_recovery = SNull, lr_last_sync = SInt t\<rparr>
    | Some l \<Rightarrow> l\<lparr>lr_last_sync := SInt t\<rparr>)"
    using assms(1) t by (auto simp: record_successful_sync_at_def dest!: single_update_Inr)
  then show ?thesis
    using assms(2) t
    by (auto simp: lifecycle_view_Inr lifecycle_of_row_Inr account_lifecycle_metadata_default_def
        sql_nullif_def recovery_value_def split: option.splits)
qed

lemma forget_view:
  "lifecycle_view row = Inr m \<Longrightarrow>
    lifecycle_view (map_option (\<lambda>l. l\<lparr>lr_last_sync := SNull\<rparr>) row) = Inr (m\<lparr>alm_last_sync := None\<rparr>)"
  by (auto simp: lifecycle_view_Inr lifecycle_of_row_Inr account_lifecycle_metadata_default_def
      split: option.splits)

lemma lifecycle_step_read:
  assumes "fst (store_lifecycle_metadata quiet own own c) = Inr m"
    and "run_command fault own own cmd c = (Inr u, c')"
  shows "fst (store_lifecycle_metadata quiet own own c') = Inr (lifecycle_step cmd m)"
proof (cases "touches_lifecycle cmd")
  case False
  then have "db_lifecycle (cn_db c') = db_lifecycle (cn_db c)"
    using other_commands_lifecycle [OF False, of "db_lifecycle (cn_db c)" fault own own] assms(2)
    unfolding keeps_def by (metis snd_conv)
  moreover have "lifecycle_step cmd m = m" using False by (cases cmd) auto
  ultimately show ?thesis using assms(1) by (simp add: lifecycle_metadata_quiet)
next
  case True
  note v = assms(1) [unfolded lifecycle_metadata_quiet]
  show ?thesis
  proof (cases cmd)
    case (CmdIdentity h action expected)
    then obtain clear e where "write_identity_hash fault own (hash_bytes h)
        (action = ClearMailboxAndRecord) e c = (Inr u, c')"
      using assms(2) by (auto simp: store_reconcile_identity_def for_account_Inr)
    from write_identity_hash_Inr [OF this] show ?thesis
      using CmdIdentity v forget_view [OF v]
      by (simp add: lifecycle_metadata_quiet identity_written_def Let_def forget_last_sync_def)
  next
    case CmdPurge
    then have "purge fault own c = (Inr u, c')"
      using assms(2) by (simp add: store_purge_account_def for_account_Inr)
    then obtain c1 c2 where "cn_db c1 = cn_db c" "purge_body fault own c1 = (Inr u, c2)"
      "cn_db c' = cn_db c2" unfolding purge_def by (rule committed_Inr)
    with purge_body_Inr [of fault own c1 u c2] show ?thesis
      using CmdPurge forget_view [OF v] by (simp add: lifecycle_metadata_quiet forget_last_sync_def)
  qed (use assms(2) v True in \<open>auto simp: lifecycle_metadata_quiet for_account_Inr
      store_mark_disconnect_started_def store_mark_revoke_unconfirmed_def
      store_clear_disconnect_recovery_def store_record_successful_sync_def
      dest: recovery_view synced_view\<close>)
qed

text \<open>
  C26. The lifecycle row refines the abstract machine of what the commands do: after any
  committed command, reading the metadata gives the abstract step of what was read before. A
  sync time survives neither a purge nor a change of identity; a recovery marker survives a
  purge, and it survives a successful sync. On the last point the code is not what its contract
  says: the documentation of \<open>AccountLifecycleStore\<close> (\<^verbatim>\<open>application/src/lifecycle.rs\<close>, lines
  68-70) has a later successful sync clear the stale advice \<open>RevokeUnconfirmed\<close> before it
  records freshness. No code of the repository does that; the abstract machine here follows the
  code, and the second half of the claim states the divergence: advice read before a recorded
  sync is read unchanged after it.
\<close>

theorem lifecycle_refines:
  assumes "fst (store_lifecycle_metadata quiet own own c) = Inr m"
    and "run_command fault own own cmd c = (Inr u, c')"
  shows "fst (store_lifecycle_metadata quiet own own c') = Inr (lifecycle_step cmd m)
    \<and> (case cmd of
        CmdSynced t \<Rightarrow> fst (store_lifecycle_metadata quiet own own c')
          = Inr \<lparr>alm_recovery = alm_recovery m, alm_last_sync = Some t\<rparr>
      | _ \<Rightarrow> True)"
proof -
  have "fst (store_lifecycle_metadata quiet own own c') = Inr (lifecycle_step cmd m)"
    by (rule lifecycle_step_read [OF assms])
  then show ?thesis by (simp split: store_command.split)
qed

theorem lifecycle_refines_witness:
  "fst (store_lifecycle_metadata quiet sample_account sample_account
      (snd (run_command quiet sample_account sample_account (CmdSynced 7)
        (snd (run_command quiet sample_account sample_account CmdRevokeUnconfirmed
          (sample_store sample_hash))))))
    = Inr \<lparr>alm_recovery = Some RevokeUnconfirmed, alm_last_sync = Some 7\<rparr>"
proof -
  let ?c = "snd (run_command quiet sample_account sample_account CmdRevokeUnconfirmed (sample_store sample_hash))"
  let ?run = "run_command quiet sample_account sample_account (CmdSynced 7) ?c"
  have "fst ?run = Inr ()" by code_simp
  then have run: "?run = (Inr (), snd ?run)" by (metis prod.collapse)
  have "fst (store_lifecycle_metadata quiet sample_account sample_account ?c)
      = Inr \<lparr>alm_recovery = Some RevokeUnconfirmed, alm_last_sync = None\<rparr>" by code_simp
  from lifecycle_refines [OF this run, THEN conjunct2] show ?thesis by simp
qed

end
