(* ===== verification/Sync_Gate.thy ===== *)
theory Sync_Gate
  imports Store_Identity
begin

text \<open>
  The account-identity gate and the gated synchronisation of
  \<^verbatim>\<open>adapters/sync-runtime/src/gate.rs\<close>, over the ports \<open>AccountIdentityStore\<close>,
  \<open>AccountIdentityHasher\<close> and \<open>AccountProfile\<close>. The contract of the identity store is the
  locale \<open>identity_store\<close>; the SQL store provides it, with an arbitrary step of other
  processes between the read and the write of an attempt.
\<close>

section \<open>The gate\<close>

definition MAX_GATE_ATTEMPTS :: nat where "MAX_GATE_ATTEMPTS = 4"

datatype gated_sync_error = GatedGate gate_error | GatedSync sync_failure

type_synonym 'w load_port =
  "'w \<Rightarrow> account_id \<Rightarrow> (mailbox_store_error + identity_hash option) \<times> 'w"

type_synonym 'w record_port =
  "'w \<Rightarrow> account_id \<Rightarrow> identity_hash \<Rightarrow> identity_reconcile \<Rightarrow> identity_hash option
    \<Rightarrow> (mailbox_store_error + unit) \<times> 'w"

fun gate_attempts ::
    "'w load_port \<Rightarrow> 'w record_port \<Rightarrow> account_id \<Rightarrow> identity_hash \<Rightarrow> nat \<Rightarrow> 'w
      \<Rightarrow> (gate_error + identity_hash) \<times> 'w" where
  "gate_attempts load record account fresh 0 w = (Inl (GateStore IdentityRaced), w)"
| "gate_attempts load record account fresh (Suc left) w =
     (case load w account of
        (Inl err, w1) \<Rightarrow> (Inl (GateStore err), w1)
      | (Inr stored, w1) \<Rightarrow>
          (case decide stored fresh of
             Match \<Rightarrow> (Inr fresh, w1)
           | decision \<Rightarrow>
               (case record w1 account fresh
                   (if decision = FirstRecord then RecordOnly else ClearMailboxAndRecord) stored of
                  (Inr _, w2) \<Rightarrow> (Inr fresh, w2)
                | (Inl err, w2) \<Rightarrow>
                    if err = IdentityRaced then gate_attempts load record account fresh left w2
                    else (Inl (GateStore err), w2))))"

definition run_identity_gate ::
    "'w load_port \<Rightarrow> 'w record_port \<Rightarrow> (account_id \<Rightarrow> string \<Rightarrow> hasher_error + identity_hash)
      \<Rightarrow> account_id \<Rightarrow> string \<Rightarrow> 'w \<Rightarrow> (gate_error + identity_hash) \<times> 'w" where
  "run_identity_gate load record hasher account subject w =
     (case hasher account (normalize_subject subject) of
        Inl err \<Rightarrow> (Inl (GateHasher err), w)
      | Inr fresh \<Rightarrow> gate_attempts load record account fresh MAX_GATE_ATTEMPTS w)"

lemma co_world_new [simp]: "co_world (coordinator_new w) = w"
  by (simp add: coordinator_new_def)

text \<open>
  One session supplies both the subject and the remote; the coordinator is new and used by this
  call alone, so no account is active in it and no other cycle enters it.
\<close>

definition gated_sync ::
    "'w load_port \<Rightarrow> 'w record_port \<Rightarrow> (account_id \<Rightarrow> string \<Rightarrow> hasher_error + identity_hash)
      \<Rightarrow> 'w list_port \<Rightarrow> 'w fetch_port \<Rightarrow> 'w reconcile_port \<Rightarrow> 'w cache_port
      \<Rightarrow> account_id \<Rightarrow> string \<Rightarrow> sync_policy \<Rightarrow> 'w \<Rightarrow> (gated_sync_error + sync_report) \<times> 'w" where
  "gated_sync load record hasher list_recent fetch recon cache account subject policy w =
     (case run_identity_gate load record hasher account subject w of
        (Inl err, w1) \<Rightarrow> (Inl (GatedGate err), w1)
      | (Inr fence, w1) \<Rightarrow>
          (case sync_recent (\<lambda>c a s t. alone (\<lambda>w. list_recent w a s t) c) (\<lambda>c a i. alone (\<lambda>w. fetch w a i) c)
               (\<lambda>c a es k f. alone (\<lambda>w. recon w a es k f) c) (\<lambda>c a m f. alone (\<lambda>w. cache w a m f) c)
               account policy fence (coordinator_new w1) of
             (Inl err, c) \<Rightarrow> (Inl (GatedSync err), co_world c)
           | (Inr report, c) \<Rightarrow> (Inr report, co_world c)))"

lemma gated_sync_cycle:
  "gated_sync load record hasher list_recent fetch recon cache account subject policy w =
     (case run_identity_gate load record hasher account subject w of
        (Inl err, w1) \<Rightarrow> (Inl (GatedGate err), w1)
      | (Inr fence, w1) \<Rightarrow>
          apfst (map_err GatedSync) (sync_with_flight list_recent fetch recon cache account policy fence w1))"
  by (auto simp: gated_sync_def sync_recent_alone apfst_def apsnd_def map_prod_def
      split: prod.split sum.split)

section \<open>The contract of the identity store\<close>

text \<open>
  A load reports the identity on record at some moment of it and leaves the world that other
  processes made; a record is a compare-and-set of the identity, clearing the mail when told.
\<close>

locale identity_store =
  fixes load :: "'w load_port"
    and commit :: "'w record_port"
    and recorded :: "'w \<Rightarrow> account_id \<Rightarrow> identity_hash option"
    and mail :: "'w \<Rightarrow> message_id list"
    and others :: "'w \<Rightarrow> 'w \<Rightarrow> bool"
  assumes load_steps: "load w a = (r, w') \<Longrightarrow>
      \<exists>w0. others w0 w' \<and> recorded w0 = recorded w \<and> mail w0 = mail w
        \<and> (\<forall>h. r = Inr h \<longrightarrow> recorded w a = h)"
    and record_ok: "commit w a fresh action expected = (Inr u, w') \<Longrightarrow> hash_ok fresh \<Longrightarrow>
      recorded w a = expected \<and> recorded w' a = Some fresh
        \<and> mail w' = (if action = ClearMailboxAndRecord then [] else mail w)"
    and record_err: "commit w a fresh action expected = (Inl err, w') \<Longrightarrow>
      recorded w' = recorded w \<and> mail w' = mail w"
begin

text \<open>
  The invariant rule of the gate: a relation between the recorded identity and the mail that
  other processes keep, that a first record keeps, and that an empty mailbox satisfies, is
  kept by every attempt, in success and in failure.
\<close>

lemma gate_keeps:
  assumes env: "\<And>w w'. B (recorded w account) (mail w) \<Longrightarrow> others w w' \<Longrightarrow>
      B (recorded w' account) (mail w')"
    and first: "\<And>ms. B None ms \<Longrightarrow> B (Some fresh) ms"
    and empty: "B (Some fresh) []"
    and hash: "hash_ok fresh"
    and start: "B (recorded w account) (mail w)"
    and run: "gate_attempts load commit account fresh left w = (r, w')"
  shows "B (recorded w' account) (mail w')"
  using start run
proof (induction left arbitrary: w)
  case (Suc left)
  obtain q w1 where l: "load w account = (q, w1)" by fastforce
  obtain w0 where w0: "others w0 w1" "recorded w0 = recorded w" "mail w0 = mail w"
    using load_steps [OF l] by blast
  have b1: "B (recorded w1 account) (mail w1)" using env [OF _ w0(1)] w0(2,3) Suc.prems(1) by simp
  show ?case
  proof (cases q)
    case (Inl err)
    then show ?thesis using Suc.prems(2) l b1 by simp
  next
    case (Inr stored)
    show ?thesis
    proof (cases "stored = Some fresh")
      case True
      then show ?thesis using Suc.prems(2) l Inr b1 by simp
    next
      case False
      define act where "act = (if stored = None then RecordOnly else ClearMailboxAndRecord)"
      obtain q2 w2 where rec: "commit w1 account fresh act stored = (q2, w2)" by fastforce
      have dec: "decide stored fresh \<noteq> Match" "(decide stored fresh = FirstRecord) = (stored = None)"
        using False by (auto simp: decide_iff)
      have step: "gate_attempts load commit account fresh (Suc left) w =
          (case q2 of Inr _ \<Rightarrow> (Inr fresh, w2)
           | Inl err \<Rightarrow> if err = IdentityRaced then gate_attempts load commit account fresh left w2
               else (Inl (GateStore err), w2))"
        using l Inr rec dec
        by (cases "decide stored fresh") (auto simp: act_def split: sum.split)
      show ?thesis
      proof (cases q2)
        case (Inl err)
        then have "B (recorded w2 account) (mail w2)" using record_err rec b1 by simp
        then show ?thesis using Suc.prems(2) step Inl Suc.IH [of w2] by (auto split: if_splits)
      next
        case (Inr u)
        note ok = record_ok [OF rec [unfolded Inr] hash]
        have "B (recorded w2 account) (mail w2)"
        proof (cases "stored = None")
          case True
          then show ?thesis using ok b1 first by (auto simp: act_def)
        next
          case False
          then show ?thesis using ok empty by (auto simp: act_def)
        qed
        then show ?thesis using Suc.prems(2) step Inr by simp
      qed
    qed
  qed
qed simp

text \<open>Without interference the gate commits the fresh identity and decides the mail.\<close>

lemma gate_quiet:
  assumes still: "\<And>w w'. others w w' \<Longrightarrow> recorded w' = recorded w \<and> mail w' = mail w"
    and hash: "hash_ok fresh"
    and run: "gate_attempts load commit account fresh left w = (Inr h, w')"
  shows "h = fresh \<and> recorded w' account = Some fresh
    \<and> mail w' = (case recorded w account of
        Some old \<Rightarrow> if old = fresh then mail w else [] | None \<Rightarrow> mail w)"
  using run
proof (induction left arbitrary: w)
  case (Suc left)
  obtain q w1 where l: "load w account = (q, w1)" by fastforce
  have w1: "recorded w1 = recorded w" "mail w1 = mail w" "\<And>h. q = Inr h \<Longrightarrow> recorded w account = h"
    using load_steps [OF l] still by force+
  then obtain stored where q: "q = Inr stored" using Suc.prems l by (cases q) auto
  have st: "recorded w account = stored" using w1(3) q by simp
  show ?case
  proof (cases "stored = Some fresh")
    case True
    then show ?thesis using Suc.prems l q w1 st by simp
  next
    case False
    define act where "act = (if stored = None then RecordOnly else ClearMailboxAndRecord)"
    obtain q2 w2 where rec: "commit w1 account fresh act stored = (q2, w2)" by fastforce
    have step: "gate_attempts load commit account fresh (Suc left) w =
        (case q2 of Inr _ \<Rightarrow> (Inr fresh, w2)
         | Inl err \<Rightarrow> if err = IdentityRaced then gate_attempts load commit account fresh left w2
             else (Inl (GateStore err), w2))"
      using l q rec False
      by (cases stored) (auto simp: act_def split: sum.split)
    show ?thesis
    proof (cases q2)
      case (Inl err)
      then have "recorded w2 = recorded w" "mail w2 = mail w" using record_err rec w1 by auto
      moreover have "gate_attempts load commit account fresh left w2 = (Inr h, w')"
        using Suc.prems step Inl by (simp del: gate_attempts.simps split: if_splits)
      ultimately show ?thesis using Suc.IH [of w2] by (simp split: option.split)
    next
      case (Inr u)
      then show ?thesis
        using record_ok [OF rec [unfolded Inr] hash] Suc.prems step w1 st False
        by (auto simp: act_def split: option.split)
    qed
  qed
qed simp

end

section \<open>The SQL store behind the gate\<close>

text \<open>
  \<open>others\<close> is what other processes do to the connection's database after the load: any
  function of it, so any interleaved commits.
\<close>

definition sql_load_port :: "faults \<Rightarrow> account_id \<Rightarrow> (db conn \<Rightarrow> db conn) \<Rightarrow> (db conn \<times> 'r) load_port" where
  "sql_load_port fault own others w account =
     (case store_load_identity fault own account (fst w) of (r, c) \<Rightarrow> (r, others c, snd w))"

definition sql_record_port :: "faults \<Rightarrow> account_id \<Rightarrow> (db conn \<times> 'r) record_port" where
  "sql_record_port fault own w account fresh action expected =
     (case store_reconcile_identity fault own account fresh action expected (fst w) of
        (r, c) \<Rightarrow> (r, c, snd w))"

lemma load_identity_db: "store_load_identity fault own account c = (r, c') \<Longrightarrow> cn_db c' = cn_db c"
proof -
  have "read_only_op (store_load_identity fault own account)"
    unfolding store_load_identity_def for_account_def read_identity_hash_def by (intro op_rules)
  then show "store_load_identity fault own account c = (r, c') \<Longrightarrow> cn_db c' = cn_db c"
    unfolding read_only_op_def by (metis snd_conv)
qed

interpretation sql_gate: identity_store "sql_load_port fault own others" "sql_record_port fault own"
  "\<lambda>w. recorded_identity (cn_db (fst w))" "\<lambda>w. message_ids (cn_db (fst w))"
  "\<lambda>w w'. fst w' = others (fst w)"
  for fault own others
proof unfold_locales
  fix w w' :: "db conn \<times> 'r" and a r
  assume run: "sql_load_port fault own others w a = (r, w')"
  obtain c where c: "store_load_identity fault own a (fst w) = (r, c)" "fst w' = others c"
    using run by (auto simp: sql_load_port_def split: prod.splits)
  have "recorded_identity (cn_db (fst w)) a = h" if "r = Inr h" for h
    using load_identity_Inr [OF c(1) [unfolded that]] by simp
  then show "\<exists>w0 :: db conn \<times> 'r. fst w' = others (fst w0)
      \<and> recorded_identity (cn_db (fst w0)) = recorded_identity (cn_db (fst w))
      \<and> message_ids (cn_db (fst w0)) = message_ids (cn_db (fst w))
      \<and> (\<forall>h. r = Inr h \<longrightarrow> recorded_identity (cn_db (fst w)) a = h)"
    using load_identity_db [OF c(1)] c(2) by (intro exI [of _ "(c, snd w)"]) simp
next
  fix w w' :: "db conn \<times> 'r" and a fresh action expected u
  assume "sql_record_port fault own w a fresh action expected = (Inr u, w')" and "hash_ok fresh"
  then have "store_reconcile_identity fault own a fresh action expected (fst w) = (Inr u, fst w')"
    by (auto simp: sql_record_port_def split: prod.splits)
  from reconcile_identity_Inr [OF this \<open>hash_ok fresh\<close>]
  show "recorded_identity (cn_db (fst w)) a = expected
      \<and> recorded_identity (cn_db (fst w')) a = Some fresh
      \<and> message_ids (cn_db (fst w')) =
          (if action = ClearMailboxAndRecord then [] else message_ids (cn_db (fst w)))"
    by (simp add: message_ids_def)
next
  fix w w' :: "db conn \<times> 'r" and a fresh action expected err
  assume "sql_record_port fault own w a fresh action expected = (Inl err, w')"
  moreover have "atomic_op (store_reconcile_identity fault own a fresh action expected)"
    using writes_atomic by blast
  ultimately have "cn_db (fst w') = cn_db (fst w)"
    by (auto simp: sql_record_port_def atomic_op_def split: prod.splits)
  then show "recorded_identity (cn_db (fst w')) = recorded_identity (cn_db (fst w))
      \<and> message_ids (cn_db (fst w')) = message_ids (cn_db (fst w))"
    by simp
qed

section \<open>Properties of the gate\<close>

lemma gate_attempts_world:
  assumes "\<And>w a. I w \<Longrightarrow> I (snd (load w a))"
    and "\<And>w a f act e. I w \<Longrightarrow> I (snd (record w a f act e))" and "I w"
  shows "I (snd (gate_attempts load record account fresh left w))"
  using assms(3)
proof (induction left arbitrary: w)
  case (Suc left)
  obtain q w1 where l: "load w account = (q, w1)" by fastforce
  have w1: "I w1" using assms(1) [OF Suc.prems, of account] l by simp
  have w2: "I w2" if "record w1 account fresh act e = (q2, w2)" for act e q2 w2
    using assms(2) [OF w1, of account fresh act e] that by simp
  show ?case
    using l w1 w2 Suc.IH by (auto split: sum.split prod.split identity_decision.split)
qed simp

lemma gate_schema:
  assumes "schema_ok (cn_db (fst w))"
  shows "schema_ok (cn_db (fst (snd (gate_attempts (sql_load_port fault own (\<lambda>c. c))
    (sql_record_port fault own) account fresh left w))))"
proof (rule gate_attempts_world [where I = "\<lambda>w. schema_ok (cn_db (fst w))"])
  fix w :: "db conn \<times> 'a" and a f act e
  assume ok: "schema_ok (cn_db (fst w))"
  show "schema_ok (cn_db (fst (snd (sql_load_port fault own (\<lambda>c. c) w a))))"
    using ok load_identity_db by (auto simp: sql_load_port_def split: prod.split)
  show "schema_ok (cn_db (fst (snd (sql_record_port fault own w a f act e))))"
    using ok command_keeps_schema [of "map_option bd_account_id (db_binding (cn_db (fst w)))" fault own a
        "CmdIdentity f act e", unfolded keeps_def, rule_format, of "fst w"]
    by (auto simp: sql_record_port_def bound_schema_def split: prod.split)
qed (rule assms)

text \<open>
  C4. Whatever other processes commit between the steps of the gate, as long as they keep a
  relation between the recorded identity and the mail, so does the gate, in success and in
  failure: it records over another identity only together with an emptied mailbox.
\<close>

theorem gate_never_mixes_accounts:
  fixes others :: "db conn \<Rightarrow> db conn" and B :: "identity_hash option \<Rightarrow> message_id list \<Rightarrow> bool"
  assumes "\<And>c. B (recorded_identity (cn_db c) account) (message_ids (cn_db c)) \<Longrightarrow>
      B (recorded_identity (cn_db (others c)) account) (message_ids (cn_db (others c)))"
    and "\<And>ms. B None ms \<Longrightarrow> B (Some fresh) ms" and "B (Some fresh) []"
    and "hasher account (normalize_subject subject) = Inr fresh" and "hash_ok fresh"
    and "B (recorded_identity (cn_db (fst w)) account) (message_ids (cn_db (fst w)))"
    and "run_identity_gate (sql_load_port fault own others) (sql_record_port fault own) hasher
      account subject w = (r, w')"
  shows "B (recorded_identity (cn_db (fst w')) account) (message_ids (cn_db (fst w')))"
proof (rule sql_gate.gate_keeps [where others = others and fault = fault and own = own
    and fresh = fresh and left = MAX_GATE_ATTEMPTS and r = r and w = w])
  show "gate_attempts (sql_load_port fault own others) (sql_record_port fault own) account fresh
      MAX_GATE_ATTEMPTS w = (r, w')"
    using assms(4,7) by (simp add: run_identity_gate_def)
qed (use assms in auto)

text \<open>The witness's other process records the other account and clears the mail, once.\<close>

definition racing_process :: "db conn \<Rightarrow> db conn" where
  "racing_process c =
     c\<lparr>cn_db := identity_written sample_account (hash_bytes other_hash) True (cn_db c)\<rparr>"

theorem gate_never_mixes_accounts_witness:
  "let w' = snd (run_identity_gate (sql_load_port quiet sample_account racing_process)
        (sql_record_port quiet sample_account) (\<lambda>a s. Inr sample_hash) sample_account ''sub''
        (sample_store other_hash, ()))
   in message_ids (cn_db (fst w')) = []
      \<or> recorded_identity (cn_db (fst w')) sample_account = Some other_hash"
proof -
  let ?gate = "run_identity_gate (sql_load_port quiet sample_account racing_process)
        (sql_record_port quiet sample_account) (\<lambda>a s. Inr sample_hash) sample_account ''sub''
        (sample_store other_hash, ())"
  have env: "message_ids (cn_db (racing_process c)) = []
      \<or> recorded_identity (cn_db (racing_process c)) sample_account = Some other_hash" for c
    by (simp add: racing_process_def identity_written_def Let_def message_ids_def forget_last_sync_def)
  have rec: "recorded_identity (cn_db (sample_store other_hash)) sample_account = Some other_hash"
    by code_simp
  show ?thesis
    unfolding Let_def
    by (rule gate_never_mixes_accounts [where B = "\<lambda>h ms. ms = [] \<or> h = Some other_hash"
        and fresh = sample_hash, OF env _ _ _ _ _ prod.collapse [symmetric]])
      (use rec in \<open>auto simp: hash_ok_def sample_hash_def\<close>)
qed

lemma gated_sync_parts:
  assumes "hasher account (normalize_subject subject) = Inr fresh"
    and "gated_sync load record hasher list_recent fetch recon cache account subject policy w = (res, w')"
    and "\<And>e. res \<noteq> Inl (GatedGate e)"
  obtains h w1 r where "gate_attempts load record account fresh MAX_GATE_ATTEMPTS w = (Inr h, w1)"
    "sync_with_flight list_recent fetch recon cache account policy h w1 = (r, w')"
    "is_ok r = is_ok res"
proof -
  have same: "is_ok (map_err GatedSync r) = is_ok r" for r :: "sync_failure + sync_report"
    by (cases r) simp_all
  show thesis
    using assms that
    by (auto simp: gated_sync_cycle run_identity_gate_def apfst_def map_prod_def same
        split: prod.splits sum.splits)
qed

text \<open>
  C2. When the connected account is not the one on record, then once the gate has passed
  nothing of the other account's mailbox is left: whatever the outcome of the sync, every
  message in the store is one that this session listed. A successful cycle moreover leaves
  the new identity recorded and at most the keep limit of messages.
\<close>

theorem account_switch_isolates:
  assumes fresh: "hasher own (normalize_subject subject) = Inr fresh" "hash_ok fresh"
    and old: "recorded_identity (cn_db (fst w)) own = Some old" "old \<noteq> fresh"
    and quiet_remote: "\<And>w a ps t. cn_db (fst (snd (list_recent w a ps t))) = cn_db (fst w)"
      "\<And>w a i. cn_db (fst (snd (fetch w a i))) = cn_db (fst w)"
    and listed: "\<And>w a ps t page. fst (list_recent w a ps t) = Inr page \<Longrightarrow> set (page_items page) \<subseteq> E"
    and ok: "sync_policy_ok policy" "schema_ok (cn_db (fst w))"
    and run: "gated_sync (sql_load_port fault own (\<lambda>c. c)) (sql_record_port fault own) hasher
        list_recent fetch (sql_reconcile_port fault own) (sql_cache_port fault own) own subject policy w
      = (res, w')"
    and passed: "\<And>e. res \<noteq> Inl (GatedGate e)"
  shows "set (message_ids (cn_db (fst w'))) \<subseteq> env_message_id ` E
    \<and> (is_ok res \<longrightarrow> recorded_identity (cn_db (fst w')) own = Some fresh
        \<and> length (message_ids (cn_db (fst w'))) \<le> store_limit_get (sp_keep_limit policy))"
proof -
  obtain h w1 r where g: "gate_attempts (sql_load_port fault own (\<lambda>c. c)) (sql_record_port fault own)
      own fresh MAX_GATE_ATTEMPTS w = (Inr h, w1)"
    and s: "sync_with_flight list_recent fetch (sql_reconcile_port fault own) (sql_cache_port fault own)
      own policy h w1 = (r, w')" and r: "is_ok r = is_ok res"
    using gated_sync_parts [OF fresh(1) run passed] .
  have gate: "h = fresh" "message_ids (cn_db (fst w1)) = []"
    using sql_gate.gate_quiet [OF _ fresh(2) g] old by simp_all
  have "schema_ok (cn_db (fst w1))"
    using gate_schema [OF ok(2), of fault own own fresh MAX_GATE_ATTEMPTS] g by simp
  moreover have "set (message_ids (cn_db (fst w'))) \<subseteq> env_message_id ` E"
    by (rule sql.sync_listed_only [OF quiet_remote listed _ s]) (simp_all add: gate)
  moreover have "recorded_identity (cn_db (fst w')) own = Some fresh
      \<and> length (message_ids (cn_db (fst w'))) \<le> store_limit_get (sp_keep_limit policy)"
    if valid: "schema_ok (cn_db (fst w1))" and "is_ok res"
  proof -
    obtain rep where "r = Inr rep" using \<open>is_ok res\<close> r by (cases r) auto
    from sql.sync_quiet [OF quiet_remote ok(1) valid s [unfolded this gate(1)]] show ?thesis by simp
  qed
  ultimately show ?thesis by blast
qed

theorem account_switch_isolates_witness:
  "\<exists>rep w'. gated_sync (sql_load_port quiet sample_account (\<lambda>c. c)) (sql_record_port quiet sample_account)
        (\<lambda>a s. Inr sample_hash) sample_list sample_fetch (sql_reconcile_port quiet sample_account)
        (sql_cache_port quiet sample_account) sample_account ''sub'' sample_policy
        (sample_store other_hash, ()) = (Inr rep, w')
    \<and> set (message_ids (cn_db (fst w'))) \<subseteq> {MessageId ''m1''}
    \<and> recorded_identity (cn_db (fst w')) sample_account = Some sample_hash"
proof -
  let ?run = "gated_sync (sql_load_port quiet sample_account (\<lambda>c. c)) (sql_record_port quiet sample_account)
        (\<lambda>a s. Inr sample_hash) sample_list sample_fetch (sql_reconcile_port quiet sample_account)
        (sql_cache_port quiet sample_account) sample_account ''sub'' sample_policy
        (sample_store other_hash, ())"
  have "is_ok (fst ?run)" by code_simp
  then obtain rep where rep: "fst ?run = Inr rep" unfolding is_ok_iff by blast
  then have run: "?run = (Inr rep, snd ?run)" by (metis prod.collapse)
  have rec: "recorded_identity (cn_db (sample_store other_hash)) sample_account = Some other_hash"
    by code_simp
  have ok: "sync_policy_ok sample_policy" by code_simp
  have "env_message_id sample_envelope = MessageId ''m1''" by code_simp
  then have E: "env_message_id ` {sample_envelope} = {MessageId ''m1''}" by simp
  have "set (message_ids (cn_db (fst (snd ?run)))) \<subseteq> env_message_id ` {sample_envelope}
    \<and> (is_ok (Inr rep :: gated_sync_error + sync_report) \<longrightarrow>
        recorded_identity (cn_db (fst (snd ?run))) sample_account = Some sample_hash
        \<and> length (message_ids (cn_db (fst (snd ?run)))) \<le> store_limit_get (sp_keep_limit sample_policy))"
    by (rule account_switch_isolates [OF _ _ _ _ _ _ _ ok _ run])
      (use rec sample_schema_ok in \<open>auto simp: hash_ok_def sample_hash_def other_hash_def
        sample_list_def sample_fetch_def\<close>)
  then show ?thesis unfolding E using run by (intro exI conjI) (rule run, simp_all)
qed

text \<open>
  C3. A cycle whose fence is not the recorded identity can neither succeed nor write: any
  property of the store that the other processes keep while the remote is awaited, and that
  depends only on the tables, still holds after it.
\<close>

theorem stale_cycle_writes_nothing:
  fixes I :: "db \<Rightarrow> bool" and w :: "db conn \<times> 'r"
  assumes "\<And>w a ps t. recorded_identity (cn_db (fst w)) account \<noteq> Some fence \<and> I (cn_db (fst w)) \<Longrightarrow>
      recorded_identity (cn_db (fst (snd (list_recent w a ps t)))) account \<noteq> Some fence
        \<and> I (cn_db (fst (snd (list_recent w a ps t))))"
    and "recorded_identity (cn_db (fst w)) account \<noteq> Some fence" and "I (cn_db (fst w))"
    and "sync_with_flight list_recent fetch (sql_reconcile_port fault own) (sql_cache_port fault own)
      account policy fence w = (r, w')"
  shows "\<not> is_ok r \<and> I (cn_db (fst w'))"
  by (rule sql.sync_stale [where I = "\<lambda>w. I (cn_db (fst w))", OF _ _ assms(2,3,4)]) (use assms(1) in auto)

theorem stale_cycle_writes_nothing_witness:
  "\<exists>f w'. sync_with_flight sample_list sample_fetch (sql_reconcile_port quiet sample_account)
        (sql_cache_port quiet sample_account) sample_account sample_policy sample_hash
        (sample_store other_hash, ()) = (Inl (SyncFailure SF_IdentityFenced f), w')
    \<and> cn_db (fst w') = cn_db (sample_store other_hash)"
proof -
  let ?run = "sync_with_flight sample_list sample_fetch (sql_reconcile_port quiet sample_account)
        (sql_cache_port quiet sample_account) sample_account sample_policy sample_hash
        (sample_store other_hash, ())"
  have "map_err failure_source (fst ?run) = Inl SF_IdentityFenced" by code_simp
  then obtain e where e: "fst ?run = Inl e" "failure_source e = SF_IdentityFenced"
    unfolding map_err_Inl by metis
  then have run: "?run = (Inl (SyncFailure SF_IdentityFenced (failure_progress e)), snd ?run)"
    by (cases e) (metis prod.collapse sync_failure.sel)
  have rec: "recorded_identity (cn_db (sample_store other_hash)) sample_account = Some other_hash"
    by code_simp
  have ne: "other_hash \<noteq> sample_hash" by (simp add: sample_hash_def other_hash_def)
  have "\<not> is_ok (fst ?run) \<and> cn_db (fst (snd ?run)) = cn_db (sample_store other_hash)"
    by (rule stale_cycle_writes_nothing [where I = "\<lambda>d. d = cn_db (sample_store other_hash)"
        and list_recent = sample_list, OF _ _ _ prod.collapse [symmetric]])
      (use rec ne in \<open>auto simp: sample_list_def\<close>)
  then show ?thesis using run by (intro exI conjI) (rule run, simp)
qed

end
