(* ===== verification/OAuth_Session.thy ===== *)
theory OAuth_Session
  imports App_Mailbox
begin

text \<open>
  The authorization-code and PKCE state machine of \<^verbatim>\<open>crates/application/src/oauth.rs\<close>: the
  validated configuration, the prepared request, and the one-shot session with its three
  terminal operations. A \<open>Duration\<close> is its nanoseconds; an operation that reads the clock
  takes the reading as an argument. A \<open>Url\<close> is what the code reads of it: its text and
  components, and its decoded query pairs. Zeroising a buffer empties it. The
  base64 encoder, SHA-256, the URL builder and the random source are parameters.
\<close>

section \<open>Configuration\<close>

datatype oauth_error =
    InvalidConfiguration
  | EntropyUnavailable
  | MissingParameter string
  | DuplicateParameter
  | ConflictingCallback
  | ProviderRejected
  | InsufficientScope
  | RedirectMismatch
  | StateMismatch
  | Expired
  | NotExpired
  | AlreadyConsumed

fun oauth_error_text :: "oauth_error \<Rightarrow> string" where
  "oauth_error_text InvalidConfiguration = ''invalid OAuth configuration''"
| "oauth_error_text EntropyUnavailable = ''cryptographic entropy is unavailable''"
| "oauth_error_text (MissingParameter _) = ''the OAuth callback is incomplete''"
| "oauth_error_text DuplicateParameter = ''the OAuth callback contains duplicate parameters''"
| "oauth_error_text ConflictingCallback = ''the OAuth callback contains conflicting outcomes''"
| "oauth_error_text ProviderRejected = ''the OAuth provider rejected the request''"
| "oauth_error_text InsufficientScope = ''the OAuth grant omitted Gmail read access''"
| "oauth_error_text RedirectMismatch = ''the OAuth redirect does not match''"
| "oauth_error_text StateMismatch = ''the OAuth state does not match''"
| "oauth_error_text Expired = ''the OAuth request expired''"
| "oauth_error_text NotExpired = ''the OAuth request has not expired''"
| "oauth_error_text AlreadyConsumed = ''the OAuth request was already consumed''"

definition GMAIL_READONLY_SCOPE :: string where
  "GMAIL_READONLY_SCOPE = ''https://www.googleapis.com/auth/gmail.readonly''"

definition REQUESTED_SCOPE :: string where
  "REQUESTED_SCOPE = ''openid https://www.googleapis.com/auth/gmail.readonly''"

definition GOOGLE_AUTHORIZATION_ENDPOINT :: string where
  "GOOGLE_AUTHORIZATION_ENDPOINT = ''https://accounts.google.com/o/oauth2/v2/auth''"

definition SECRET_BYTES :: nat where "SECRET_BYTES = 32"

type_synonym duration = nat

text \<open>\<open>Duration::MAX\<close> in nanoseconds, and \<open>Duration::checked_add\<close>.\<close>

definition DURATION_MAX :: duration where
  "DURATION_MAX = (2 ^ 64 - 1) * 1000000000 + 999999999"

definition duration_checked_add :: "duration \<Rightarrow> duration \<Rightarrow> duration option" where
  "duration_checked_add a b = (if a + b \<le> DURATION_MAX then Some (a + b) else None)"

record url =
  url_text :: string
  url_scheme :: string
  url_host :: "string option"
  url_port :: "nat option"
  url_path :: string
  url_username :: string
  url_password :: "string option"
  url_query :: "string option"
  url_fragment :: "string option"
  url_pairs :: "(string \<times> string) list"

record authorization_config =
  ac_client_id :: string
  ac_redirect_uri :: url
  ac_lifetime :: duration

definition authorization_config_new ::
    "string \<Rightarrow> url \<Rightarrow> duration \<Rightarrow> oauth_error + authorization_config" where
  "authorization_config_new client_id redirect_uri lifetime =
     (let has_credentials = url_username redirect_uri \<noteq> [] \<or> url_password redirect_uri \<noteq> None
      in if str_trim client_id = [] \<or> lifetime = 0 \<or> has_credentials
            \<or> url_query redirect_uri \<noteq> None \<or> url_fragment redirect_uri \<noteq> None
         then Inl InvalidConfiguration
         else Inr \<lparr>ac_client_id = client_id, ac_redirect_uri = redirect_uri,
           ac_lifetime = lifetime\<rparr>)"

section \<open>The session\<close>

record authorization_session =
  as_expires_at :: duration
  as_redirect_uri :: url
  as_state :: string
  as_verifier :: string
  as_consumed :: bool

record authorization_grant =
  ag_code :: string
  ag_verifier :: string

definition consume :: "authorization_session \<Rightarrow> (oauth_error + unit) \<times> authorization_session" where
  "consume s =
     (if as_consumed s then (Inl AlreadyConsumed, s) else (Inr (), s\<lparr>as_consumed := True\<rparr>))"

text \<open>Inserting the pairs into a \<open>BTreeMap\<close>, stopping at the first name already present.\<close>

fun unique_query_parameters ::
    "(string \<times> string) list \<Rightarrow> (string \<rightharpoonup> string) \<Rightarrow> oauth_error + (string \<rightharpoonup> string)" where
  "unique_query_parameters [] parameters = Inr parameters"
| "unique_query_parameters ((name, value) # rest) parameters =
     (if parameters name \<noteq> None then Inl DuplicateParameter
      else unique_query_parameters rest (parameters(name \<mapsto> value)))"

definition required_parameter :: "(string \<rightharpoonup> string) \<Rightarrow> string \<Rightarrow> oauth_error + string" where
  "required_parameter parameters name =
     (case parameters name of
        Some value \<Rightarrow> if value = [] then Inl (MissingParameter name) else Inr value
      | None \<Rightarrow> Inl (MissingParameter name))"

definition callback_identity :: "string \<Rightarrow> string" where
  "callback_identity text = takeWhile (\<lambda>c. c \<noteq> CHR ''?'') text"

definition validate_redirect :: "authorization_session \<Rightarrow> url \<Rightarrow> oauth_error + unit" where
  "validate_redirect s callback =
     (if url_fragment callback \<noteq> None
         \<or> callback_identity (url_text callback) \<noteq> url_text (as_redirect_uri s)
      then Inl RedirectMismatch else Inr ())"

definition scope_grants_gmail :: "string \<Rightarrow> bool" where
  "scope_grants_gmail scope \<longleftrightarrow> GMAIL_READONLY_SCOPE \<in> set (split_ascii_whitespace scope)"

text \<open>The branches on the code and error parameters; the verifier is taken out on success.\<close>

definition callback_outcome ::
    "(string \<rightharpoonup> string) \<Rightarrow> authorization_session
      \<Rightarrow> (oauth_error + authorization_grant) \<times> authorization_session" where
  "callback_outcome parameters s =
     (case (parameters ''code'', parameters ''error'') of
        (Some _, Some _) \<Rightarrow> (Inl ConflictingCallback, s)
      | (None, Some _) \<Rightarrow> (Inl ProviderRejected, s)
      | (None, None) \<Rightarrow> (Inl (MissingParameter ''code''), s)
      | (Some code, None) \<Rightarrow>
          (if code = [] then (Inl (MissingParameter ''code''), s)
           else if (case parameters ''scope'' of
                Some scope \<Rightarrow> \<not> scope_grants_gmail scope | None \<Rightarrow> False)
           then (Inl InsufficientScope, s)
           else (Inr \<lparr>ag_code = code, ag_verifier = as_verifier s\<rparr>, s\<lparr>as_verifier := []\<rparr>)))"

definition validate_callback ::
    "duration \<Rightarrow> url \<Rightarrow> authorization_session
      \<Rightarrow> (oauth_error + authorization_grant) \<times> authorization_session" where
  "validate_callback now callback s =
     (if now \<ge> as_expires_at s then (Inl Expired, s)
      else case rbind (validate_redirect s callback) (\<lambda>_.
               rbind (unique_query_parameters (url_pairs callback) Map.empty) (\<lambda>parameters.
               rbind (required_parameter parameters ''state'') (\<lambda>state.
                 if as_state s \<noteq> state then Inl StateMismatch else Inr parameters))) of
          Inl err \<Rightarrow> (Inl err, s)
        | Inr parameters \<Rightarrow> callback_outcome parameters s)"

definition finish ::
    "duration \<Rightarrow> url \<Rightarrow> authorization_session
      \<Rightarrow> (oauth_error + authorization_grant) \<times> authorization_session" where
  "finish now callback s =
     (case consume s of
        (Inl err, s1) \<Rightarrow> (Inl err, s1)
      | (Inr _, s1) \<Rightarrow>
          (case validate_callback now callback s1 of
             (result, s2) \<Rightarrow>
               let s3 = s2\<lparr>as_state := []\<rparr>
               in (result, if is_ok result then s3 else s3\<lparr>as_verifier := []\<rparr>)))"

definition cancel :: "authorization_session \<Rightarrow> (oauth_error + unit) \<times> authorization_session" where
  "cancel s =
     (case consume s of
        (Inl err, s1) \<Rightarrow> (Inl err, s1)
      | (Inr _, s1) \<Rightarrow> (Inr (), s1\<lparr>as_state := [], as_verifier := []\<rparr>))"

definition expire ::
    "duration \<Rightarrow> authorization_session \<Rightarrow> (oauth_error + unit) \<times> authorization_session" where
  "expire now s =
     (if as_consumed s then (Inl AlreadyConsumed, s)
      else if now < as_expires_at s then (Inl NotExpired, s)
      else case consume s of
          (Inl err, s1) \<Rightarrow> (Inl err, s1)
        | (Inr _, s1) \<Rightarrow> (Inr (), s1\<lparr>as_state := [], as_verifier := []\<rparr>))"

section \<open>Preparing a request\<close>

definition pkce_challenge :: "(string \<Rightarrow> string) \<Rightarrow> (string \<Rightarrow> string) \<Rightarrow> string \<Rightarrow> string" where
  "pkce_challenge encode sha256 verifier = encode (sha256 verifier)"

definition authorization_pairs ::
    "authorization_config \<Rightarrow> string \<Rightarrow> string \<Rightarrow> (string \<times> string) list" where
  "authorization_pairs config state challenge =
     [(''response_type'', ''code''),
      (''client_id'', ac_client_id config),
      (''redirect_uri'', url_text (ac_redirect_uri config)),
      (''scope'', REQUESTED_SCOPE),
      (''state'', state),
      (''code_challenge'', challenge),
      (''code_challenge_method'', ''S256''),
      (''access_type'', ''offline''),
      (''prompt'', ''consent'')]"

definition prepare_with_secrets ::
    "(string \<Rightarrow> string) \<Rightarrow> (string \<Rightarrow> string) \<Rightarrow> (string \<Rightarrow> (string \<times> string) list \<Rightarrow> url)
      \<Rightarrow> authorization_config \<Rightarrow> duration \<Rightarrow> string \<Rightarrow> string
      \<Rightarrow> oauth_error + (url \<times> authorization_session)" where
  "prepare_with_secrets encode sha256 build_url config now verifier_bytes state_bytes =
     (if length verifier_bytes \<noteq> SECRET_BYTES \<or> length state_bytes \<noteq> SECRET_BYTES
      then Inl InvalidConfiguration
      else
        let verifier = encode verifier_bytes;
            state = encode state_bytes;
            challenge = pkce_challenge encode sha256 verifier
        in rbind (ok_or InvalidConfiguration (duration_checked_add now (ac_lifetime config)))
             (\<lambda>expires_at. Inr
               (build_url GOOGLE_AUTHORIZATION_ENDPOINT (authorization_pairs config state challenge),
                \<lparr>as_expires_at = expires_at, as_redirect_uri = ac_redirect_uri config,
                 as_state = state, as_verifier = verifier, as_consumed = False\<rparr>)))"

text \<open>The two random draws; \<open>None\<close> is a failing random source.\<close>

definition prepare_authorization ::
    "(string \<Rightarrow> string) \<Rightarrow> (string \<Rightarrow> string) \<Rightarrow> (string \<Rightarrow> (string \<times> string) list \<Rightarrow> url)
      \<Rightarrow> (nat \<Rightarrow> 'w \<Rightarrow> string option \<times> 'w) \<Rightarrow> ('w \<Rightarrow> duration) \<Rightarrow> authorization_config \<Rightarrow> 'w
      \<Rightarrow> (oauth_error + (url \<times> authorization_session)) \<times> 'w" where
  "prepare_authorization encode sha256 build_url random clock config w =
     (case random SECRET_BYTES w of
        (None, w1) \<Rightarrow> (Inl EntropyUnavailable, w1)
      | (Some verifier_bytes, w1) \<Rightarrow>
          (case random SECRET_BYTES w1 of
             (None, w2) \<Rightarrow> (Inl EntropyUnavailable, w2)
           | (Some state_bytes, w2) \<Rightarrow>
               (prepare_with_secrets encode sha256 build_url config (clock w2) verifier_bytes
                 state_bytes, w2)))"

section \<open>What one callback decides\<close>

lemma unique_query_parameters_eq:
  "unique_query_parameters pairs m =
     (if distinct (map fst pairs) \<and> fst ` set pairs \<inter> dom m = {}
      then Inr (m ++ map_of pairs) else Inl DuplicateParameter)"
proof (induction pairs arbitrary: m)
  case (Cons p rest)
  obtain name v where p: "p = (name, v)" by fastforce
  have merge: "m(name \<mapsto> v) ++ map_of rest = m ++ map_of (p # rest)" if "name \<notin> fst ` set rest"
  proof -
    have "map_of rest name = None" using that by (simp add: map_of_eq_None_iff)
    then show ?thesis by (auto simp: p fun_eq_iff map_add_def split: option.splits)
  qed
  show ?case
  proof (cases "m name = None \<and> name \<notin> fst ` set rest")
    case True
    then have "fst ` set rest \<inter> dom (m(name \<mapsto> v)) = {} \<longleftrightarrow> fst ` set (p # rest) \<inter> dom m = {}"
      by (auto simp: p dom_def)
    with True Cons.IH [of "m(name \<mapsto> v)"] merge show ?thesis
      by (simp add: p del: fun_upd_apply map_of.simps)
  next
    case False
    show ?thesis
    proof (cases "m name = None")
      case True
      then have repeated: "name \<in> fst ` set rest" using False by simp
      then have "fst ` set rest \<inter> dom (m(name \<mapsto> v)) \<noteq> {}" by auto
      then have "unique_query_parameters rest (m(name \<mapsto> v)) = Inl DuplicateParameter"
        using Cons.IH [of "m(name \<mapsto> v)"] by presburger
      then show ?thesis using True repeated by (simp add: p)
    next
      case False
      then have "name \<in> dom m" by auto
      then show ?thesis using False by (simp add: p)
    qed
  qed
qed simp

lemma required_parameter_Inr [simp]:
  "required_parameter m name = Inr v \<longleftrightarrow> m name = Some v \<and> v \<noteq> []"
  by (auto simp: required_parameter_def split: option.splits)

lemma callback_outcome_Inr:
  "callback_outcome m s = (Inr g, s') \<longleftrightarrow>
     (\<exists>code. m ''code'' = Some code \<and> code \<noteq> [] \<and> m ''error'' = None
        \<and> (\<forall>scope. m ''scope'' = Some scope \<longrightarrow> scope_grants_gmail scope)
        \<and> g = \<lparr>ag_code = code, ag_verifier = as_verifier s\<rparr> \<and> s' = s\<lparr>as_verifier := []\<rparr>)"
  by (auto simp: callback_outcome_def split: option.splits)

lemma callback_outcome_Inl:
  "callback_outcome m s = (Inl err, s') \<Longrightarrow> s' = s \<and> err \<notin> {AlreadyConsumed, NotExpired}"
  by (auto simp: callback_outcome_def split: option.splits if_splits)

text \<open>The callback is the one redirect this session asked for.\<close>

definition callback_accepted :: "duration \<Rightarrow> url \<Rightarrow> authorization_session \<Rightarrow> string \<Rightarrow> bool" where
  "callback_accepted now callback s code \<longleftrightarrow>
     now < as_expires_at s
     \<and> url_fragment callback = None
     \<and> callback_identity (url_text callback) = url_text (as_redirect_uri s)
     \<and> distinct (map fst (url_pairs callback))
     \<and> as_state s \<noteq> [] \<and> map_of (url_pairs callback) ''state'' = Some (as_state s)
     \<and> map_of (url_pairs callback) ''code'' = Some code \<and> code \<noteq> []
     \<and> map_of (url_pairs callback) ''error'' = None
     \<and> (\<forall>scope. map_of (url_pairs callback) ''scope'' = Some scope \<longrightarrow> scope_grants_gmail scope)"

lemma validate_callback_Inr:
  "validate_callback now callback s = (Inr g, s') \<longleftrightarrow>
     callback_accepted now callback s (ag_code g)
     \<and> g = \<lparr>ag_code = ag_code g, ag_verifier = as_verifier s\<rparr> \<and> s' = s\<lparr>as_verifier := []\<rparr>"
  by (cases g) (auto simp: validate_callback_def callback_accepted_def validate_redirect_def
      unique_query_parameters_eq callback_outcome_Inr required_parameter_def result_simps
      simp del: map_of_eq_Some_iff split: sum.splits if_splits option.splits)

lemma validate_callback_Inl:
  assumes "validate_callback now callback s = (Inl err, s')"
  shows "s' = s \<and> err \<notin> {AlreadyConsumed, NotExpired}"
  using assms callback_outcome_Inl [of _ s err s']
  by (auto simp: validate_callback_def validate_redirect_def unique_query_parameters_eq
      required_parameter_def result_simps split: sum.splits if_splits option.splits)

lemma validate_callback_kept:
  "validate_callback now callback s = (r, s') \<Longrightarrow>
     as_consumed s' = as_consumed s \<and> as_expires_at s' = as_expires_at s
     \<and> as_redirect_uri s' = as_redirect_uri s \<and> (is_ok r \<longrightarrow> as_verifier s' = [])"
  using validate_callback_Inr [of now callback s _ s'] validate_callback_Inl [of now callback s _ s']
  by (cases r) auto

section \<open>The session as a one-shot machine\<close>

datatype session_event = Finish duration url | Cancel | Expire duration

datatype session_outcome = Granted authorization_grant | Closed | Refused oauth_error

fun session_step :: "session_event \<Rightarrow> authorization_session \<Rightarrow> session_outcome \<times> authorization_session" where
  "session_step (Finish now callback) s =
     (case finish now callback s of (r, s') \<Rightarrow> (case_sum Refused Granted r, s'))"
| "session_step Cancel s =
     (case cancel s of (r, s') \<Rightarrow> (case_sum Refused (\<lambda>_. Closed) r, s'))"
| "session_step (Expire now) s =
     (case expire now s of (r, s') \<Rightarrow> (case_sum Refused (\<lambda>_. Closed) r, s'))"

fun session_run ::
    "session_event list \<Rightarrow> authorization_session \<Rightarrow> session_outcome list \<times> authorization_session" where
  "session_run [] s = ([], s)"
| "session_run (e # es) s =
     (case session_step e s of (out, s1) \<Rightarrow>
        (case session_run es s1 of (outs, s2) \<Rightarrow> (out # outs, s2)))"

definition spent :: "authorization_session \<Rightarrow> bool" where
  "spent s \<longleftrightarrow> as_consumed s \<and> as_state s = [] \<and> as_verifier s = []"

definition terminal :: "session_outcome \<Rightarrow> bool" where
  "terminal out \<longleftrightarrow> out \<notin> {Refused AlreadyConsumed, Refused NotExpired}"

lemma step_consumed [simp]:
  "as_consumed s \<Longrightarrow> session_step e s = (Refused AlreadyConsumed, s)"
  by (cases e) (simp_all add: finish_def cancel_def expire_def consume_def)

lemma finish_unconsumed:
  assumes "\<not> as_consumed s" and "finish now callback s = (r, s')"
  shows "spent s' \<and> r \<notin> {Inl AlreadyConsumed, Inl NotExpired}"
proof -
  obtain r2 s2 where v: "validate_callback now callback (s\<lparr>as_consumed := True\<rparr>) = (r2, s2)"
    by fastforce
  have "r = r2" "as_consumed s2"
    using assms v validate_callback_kept [OF v] by (auto simp: finish_def consume_def Let_def)
  moreover have "is_ok r2 \<longrightarrow> as_verifier s2 = []"
    using validate_callback_kept [OF v] by simp
  moreover have "r2 \<notin> {Inl AlreadyConsumed, Inl NotExpired}"
    using v validate_callback_Inl by fastforce
  moreover have "s' = (if is_ok r2 then s2\<lparr>as_state := []\<rparr> else s2\<lparr>as_state := [], as_verifier := []\<rparr>)"
    using assms v by (auto simp: finish_def consume_def Let_def)
  ultimately show ?thesis by (auto simp: spent_def)
qed

lemma step_unconsumed:
  assumes "\<not> as_consumed s" and "session_step e s = (out, s')"
  shows "out = Refused NotExpired \<and> s' = s \<or> terminal out \<and> spent s'"
proof (cases e)
  case (Finish now callback)
  obtain r where "finish now callback s = (r, s')" "out = case_sum Refused Granted r"
    using assms Finish by (auto split: prod.splits)
  with finish_unconsumed [OF assms(1)] show ?thesis
    by (auto simp: terminal_def split: sum.splits)
next
  case Cancel
  with assms show ?thesis by (auto simp: cancel_def consume_def terminal_def spent_def)
next
  case (Expire now)
  with assms show ?thesis
    by (auto simp: expire_def consume_def terminal_def spent_def split: if_splits)
qed

lemma run_consumed:
  "as_consumed s \<Longrightarrow> session_run es s = (replicate (length es) (Refused AlreadyConsumed), s)"
  by (induction es) simp_all

text \<open>
  C29. A session is single-use: whatever callbacks, cancellations and expiries reach it, in
  whatever order and at whatever time, it answers "not expired" until its one terminal
  outcome and "already consumed" from then on, and after that outcome it holds neither the
  state nor the verifier.
\<close>

theorem session_single_use:
  assumes "\<not> as_consumed s" and "session_run es s = (outs, s')"
  shows "outs = replicate (length es) (Refused NotExpired) \<and> s' = s
    \<or> (\<exists>n out. terminal out \<and> n < length es \<and> spent s'
        \<and> outs = replicate n (Refused NotExpired) @ out
            # replicate (length es - n - 1) (Refused AlreadyConsumed))"
  using assms
proof (induction es arbitrary: s outs)
  case (Cons e es)
  obtain out s1 where step: "session_step e s = (out, s1)" by fastforce
  obtain outs1 where run: "session_run es s1 = (outs1, s')" and outs: "outs = out # outs1"
    using Cons.prems step by (auto split: prod.splits)
  from step_unconsumed [OF Cons.prems(1) step] show ?case
  proof
    assume w: "out = Refused NotExpired \<and> s1 = s"
    with Cons.IH [of s outs1] Cons.prems(1) run consider
        "outs1 = replicate (length es) (Refused NotExpired)" "s' = s"
      | n t where "terminal t" "n < length es" "spent s'"
          "outs1 = replicate n (Refused NotExpired) @ t
             # replicate (length es - n - 1) (Refused AlreadyConsumed)"
      by blast
    then show ?thesis
    proof cases
      case 2
      then have "outs = replicate (Suc n) (Refused NotExpired) @ t
          # replicate (length (e # es) - Suc n - 1) (Refused AlreadyConsumed)"
        using outs w by simp
      with 2 show ?thesis by (intro disjI2 exI [of _ "Suc n"] exI [of _ t]) simp
    qed (use outs w in simp)
  next
    assume t: "terminal out \<and> spent s1"
    then have "as_consumed s1" by (simp add: spent_def)
    with run run_consumed have "outs1 = replicate (length es) (Refused AlreadyConsumed)" "s' = s1"
      by auto
    with t outs show ?thesis by (intro disjI2 exI [of _ 0] exI [of _ out]) simp
  qed
qed simp

text \<open>
  A callback is granted exactly when the session is fresh and unexpired and the callback
  is its own redirect: no fragment, the registered URI, no repeated parameter, the session's
  state, one non-empty code, no error, and a scope, if any, that includes Gmail read access.
  The grant carries that code and the session's verifier.
\<close>

theorem finish_grants_iff:
  "fst (finish now callback s) = Inr g \<longleftrightarrow>
     \<not> as_consumed s \<and> callback_accepted now callback s (ag_code g) \<and> ag_verifier g = as_verifier s"
proof (cases "as_consumed s")
  case False
  obtain r s2 where v: "validate_callback now callback (s\<lparr>as_consumed := True\<rparr>) = (r, s2)"
    by fastforce
  have "fst (finish now callback s) = r"
    using False v by (simp add: finish_def consume_def Let_def)
  moreover have "r = Inr g \<longleftrightarrow> callback_accepted now callback s (ag_code g) \<and> ag_verifier g = as_verifier s"
    using v validate_callback_Inr [of now callback "s\<lparr>as_consumed := True\<rparr>" g]
    by (cases g) (auto simp: callback_accepted_def)
  ultimately show ?thesis using False by simp
qed (simp add: finish_def consume_def)

text \<open>
  C31. The request a session prepares and the callback it accepts fit together: the URL
  carries the session's state and the S256 challenge of its verifier, each parameter once;
  and the redirect that returns this state with a code before the deadline is granted, with
  that verifier.
\<close>

theorem prepared_request_is_answerable:
  assumes "prepare_with_secrets encode sha256 build_url config now verifier_bytes state_bytes
      = Inr (u, s)"
    and "callback_identity (url_text callback) = url_text (ac_redirect_uri config)"
      "url_fragment callback = None"
      "url_pairs callback = [(''state'', as_state s), (''code'', code)]"
      "as_state s \<noteq> []" "code \<noteq> []" "later < now + ac_lifetime config"
  shows "u = build_url GOOGLE_AUTHORIZATION_ENDPOINT
      (authorization_pairs config (as_state s) (encode (sha256 (as_verifier s))))
    \<and> distinct (map fst (authorization_pairs config (as_state s) (encode (sha256 (as_verifier s)))))
    \<and> as_expires_at s = now + ac_lifetime config \<and> as_expires_at s \<le> DURATION_MAX
    \<and> as_verifier s = encode verifier_bytes \<and> as_state s = encode state_bytes
    \<and> fst (finish later callback s) = Inr \<lparr>ag_code = code, ag_verifier = as_verifier s\<rparr>"
proof -
  have s: "u = build_url GOOGLE_AUTHORIZATION_ENDPOINT
        (authorization_pairs config (as_state s) (encode (sha256 (as_verifier s))))
      \<and> as_expires_at s = now + ac_lifetime config \<and> as_expires_at s \<le> DURATION_MAX
      \<and> as_redirect_uri s = ac_redirect_uri config \<and> \<not> as_consumed s
      \<and> as_verifier s = encode verifier_bytes \<and> as_state s = encode state_bytes"
    using assms(1)
    by (cases "duration_checked_add now (ac_lifetime config)")
       (auto simp: prepare_with_secrets_def pkce_challenge_def duration_checked_add_def
         Let_def split: if_splits)
  have "callback_accepted later callback (s\<lparr>as_consumed := True\<rparr>) code"
    using s assms by (simp add: callback_accepted_def)
  then have "validate_callback later callback (s\<lparr>as_consumed := True\<rparr>)
      = (Inr \<lparr>ag_code = code, ag_verifier = as_verifier s\<rparr>, s\<lparr>as_consumed := True, as_verifier := []\<rparr>)"
    by (subst validate_callback_Inr) simp
  then have "fst (finish later callback s) = Inr \<lparr>ag_code = code, ag_verifier = as_verifier s\<rparr>"
    using s by (simp add: finish_def consume_def Let_def)
  with s show ?thesis by (simp add: authorization_pairs_def)
qed

section \<open>Concrete sessions\<close>

definition sample_redirect :: url where
  "sample_redirect = \<lparr>url_text = ''http://127.0.0.1:2000/'', url_scheme = ''http'',
     url_host = Some ''127.0.0.1'', url_port = Some 2000, url_path = ''/'', url_username = [],
     url_password = None,
     url_query = None, url_fragment = None, url_pairs = []\<rparr>"

definition sample_callback :: "string \<Rightarrow> url" where
  "sample_callback state = \<lparr>url_text = ''http://127.0.0.1:2000/?q'', url_scheme = ''http'',
     url_host = Some ''127.0.0.1'', url_port = Some 2000, url_path = ''/'', url_username = [],
     url_password = None, url_query = Some ''q'', url_fragment = None,
     url_pairs = [(''state'', state), (''code'', ''c'')]\<rparr>"

definition sample_session :: authorization_session where
  "sample_session = \<lparr>as_expires_at = 10, as_redirect_uri = sample_redirect, as_state = ''s'',
     as_verifier = ''v'', as_consumed = False\<rparr>"

theorem session_single_use_witness:
  "\<exists>outs s'. session_run [Expire 1, Finish 2 (sample_callback ''s''), Cancel] sample_session = (outs, s')
     \<and> outs = [Refused NotExpired, Granted \<lparr>ag_code = ''c'', ag_verifier = ''v''\<rparr>, Refused AlreadyConsumed]
     \<and> (outs = replicate 3 (Refused NotExpired) \<and> s' = sample_session
      \<or> (\<exists>n out. terminal out \<and> n < 3 \<and> spent s'
        \<and> outs = replicate n (Refused NotExpired) @ out # replicate (3 - n - 1) (Refused AlreadyConsumed)))"
proof -
  define es where "es = [Expire 1, Finish 2 (sample_callback ''s''), Cancel]"
  obtain outs s' where run: "session_run es sample_session = (outs, s')" by fastforce
  have "fst (session_run es sample_session) = [Refused NotExpired,
      Granted \<lparr>ag_code = ''c'', ag_verifier = ''v''\<rparr>, Refused AlreadyConsumed]"
    unfolding es_def by code_simp
  with run have outs: "outs = [Refused NotExpired, Granted \<lparr>ag_code = ''c'', ag_verifier = ''v''\<rparr>,
      Refused AlreadyConsumed]" by simp
  have "length es = 3" by (simp add: es_def)
  moreover have "\<not> as_consumed sample_session" by code_simp
  ultimately show ?thesis
    unfolding es_def [symmetric] using run outs session_single_use [of sample_session es outs s']
    by metis
qed

theorem prepared_request_is_answerable_witness:
  "\<exists>u s. prepare_with_secrets id rev (\<lambda>e ps. sample_redirect)
        \<lparr>ac_client_id = ''id'', ac_redirect_uri = sample_redirect, ac_lifetime = 5\<rparr> 3
        (replicate 32 CHR ''v'') (replicate 32 CHR ''s'') = Inr (u, s)
     \<and> fst (finish 7 (sample_callback (replicate 32 CHR ''s'')) s)
        = Inr \<lparr>ag_code = ''c'', ag_verifier = replicate 32 CHR ''v''\<rparr>"
proof -
  define config where
    "config = \<lparr>ac_client_id = ''id'', ac_redirect_uri = sample_redirect, ac_lifetime = 5\<rparr>"
  define s where "s = \<lparr>as_expires_at = 8, as_redirect_uri = sample_redirect,
     as_state = replicate 32 CHR ''s'', as_verifier = replicate 32 CHR ''v'', as_consumed = False\<rparr>"
  have run: "prepare_with_secrets id rev (\<lambda>e ps. sample_redirect) config 3
        (replicate 32 CHR ''v'') (replicate 32 CHR ''s'') = Inr (sample_redirect, s)"
    by (simp add: prepare_with_secrets_def SECRET_BYTES_def duration_checked_add_def
        DURATION_MAX_def config_def s_def)
  have "callback_identity (url_text (sample_callback (as_state s))) = url_text (ac_redirect_uri config)"
    by (simp add: config_def s_def callback_identity_def sample_callback_def sample_redirect_def)
  then have "fst (finish 7 (sample_callback (as_state s)) s)
      = Inr \<lparr>ag_code = ''c'', ag_verifier = as_verifier s\<rparr>"
    using prepared_request_is_answerable [OF run, of "sample_callback (as_state s)" "''c''" 7]
    by (simp add: sample_callback_def s_def config_def)
  with run show ?thesis by (auto simp: config_def s_def)
qed

end
