(* ===== verification/Token_Flow.thy ===== *)
theory Token_Flow
  imports OAuth_Session
begin

text \<open>
  The token exchange and refresh of \<^verbatim>\<open>crates/application/src/token.rs\<close>: client configuration,
  the ordered request parameters, the decoded response, the identity validation of the
  \<open>id_token\<close> claims and the mapping of transport failures. The transport and the clock are
  parameters: the transport is a function on an explicit world, the monotonic clock is read
  from the world after the response arrived, as the code does. A \<open>u64\<close> is a \<open>nat\<close> below
  \<open>2 ^ 64\<close> and \<open>saturating_add\<close> is written out.
\<close>

definition U64_MAX :: nat where "U64_MAX = 2 ^ 64 - 1"

definition saturating_add_u64 :: "nat \<Rightarrow> nat \<Rightarrow> nat" where
  "saturating_add_u64 a b = min (a + b) U64_MAX"

definition duration_saturating_add :: "duration \<Rightarrow> duration \<Rightarrow> duration" where
  "duration_saturating_add a b = min (a + b) DURATION_MAX"

text \<open>The system wall clock: a clock before the Unix epoch (\<open>None\<close>) reads as the maximum.\<close>

definition wall_unix_time :: "nat option \<Rightarrow> nat" where
  "wall_unix_time since_epoch = (case since_epoch of Some s \<Rightarrow> s | None \<Rightarrow> U64_MAX)"

section \<open>Errors\<close>

datatype token_transport_error =
    TT_Transport
  | TT_InvalidGrant
  | TT_InvalidToken
  | TT_ProviderRejected
  | TT_MalformedResponse

datatype token_error =
    TE_InvalidConfiguration
  | TE_Transport
  | TE_ProviderRejected
  | TE_AuthorizationCodeRejected
  | TE_MalformedResponse
  | TE_InsufficientScope
  | TE_ConsentRevoked
  | TE_IdentityUnverified

fun token_transport_error_text :: "token_transport_error \<Rightarrow> string" where
  "token_transport_error_text TT_Transport = ''the token endpoint could not be reached''"
| "token_transport_error_text TT_InvalidGrant = ''the token endpoint reported an invalid grant''"
| "token_transport_error_text TT_InvalidToken =
     ''the endpoint reported an unknown or invalid token''"
| "token_transport_error_text TT_ProviderRejected = ''the token endpoint rejected the request''"
| "token_transport_error_text TT_MalformedResponse =
     ''the token endpoint returned an incomplete response''"

fun token_error_text :: "token_error \<Rightarrow> string" where
  "token_error_text TE_InvalidConfiguration = ''invalid token client configuration''"
| "token_error_text TE_Transport = ''the token endpoint could not be reached''"
| "token_error_text TE_ProviderRejected = ''the token endpoint rejected the request''"
| "token_error_text TE_AuthorizationCodeRejected =
     ''the authorization code was rejected; sign in again''"
| "token_error_text TE_MalformedResponse = ''the token endpoint returned an incomplete response''"
| "token_error_text TE_InsufficientScope = ''the token grant omitted Gmail read access''"
| "token_error_text TE_ConsentRevoked =
     ''the granted consent was revoked and re-connect is required''"
| "token_error_text TE_IdentityUnverified =
     ''the token response carried no verified account identity''"

fun map_transport_error :: "token_transport_error \<Rightarrow> token_error" where
  "map_transport_error TT_Transport = TE_Transport"
| "map_transport_error TT_InvalidGrant = TE_ConsentRevoked"
| "map_transport_error TT_InvalidToken = TE_ProviderRejected"
| "map_transport_error TT_ProviderRejected = TE_ProviderRejected"
| "map_transport_error TT_MalformedResponse = TE_MalformedResponse"

fun map_exchange_transport_error :: "token_transport_error \<Rightarrow> token_error" where
  "map_exchange_transport_error TT_InvalidGrant = TE_AuthorizationCodeRejected"
| "map_exchange_transport_error other = map_transport_error other"

section \<open>Configuration and requests\<close>

record token_client_config =
  tc_client_id :: string
  tc_redirect_uri :: url
  tc_client_secret :: "string option"

definition token_client_config_new ::
    "string \<Rightarrow> url \<Rightarrow> string option \<Rightarrow> token_error + token_client_config" where
  "token_client_config_new client_id redirect_uri client_secret =
     (let has_credentials = url_username redirect_uri \<noteq> [] \<or> url_password redirect_uri \<noteq> None;
          blank_secret = (case client_secret of Some secret \<Rightarrow> str_trim secret = [] | None \<Rightarrow> False)
      in if str_trim client_id = [] \<or> has_credentials \<or> url_query redirect_uri \<noteq> None
            \<or> url_fragment redirect_uri \<noteq> None \<or> blank_secret
         then Inl TE_InvalidConfiguration
         else Inr \<lparr>tc_client_id = client_id, tc_redirect_uri = redirect_uri,
           tc_client_secret = client_secret\<rparr>)"

record exchange_request =
  er_code :: string
  er_code_verifier :: string
  er_client_id :: string
  er_redirect_uri :: url
  er_client_secret :: "string option"

definition exchange_request_new ::
    "authorization_grant \<Rightarrow> token_client_config \<Rightarrow> exchange_request" where
  "exchange_request_new grant config =
     \<lparr>er_code = ag_code grant, er_code_verifier = ag_verifier grant,
      er_client_id = tc_client_id config, er_redirect_uri = tc_redirect_uri config,
      er_client_secret = tc_client_secret config\<rparr>"

definition secret_parameter :: "string option \<Rightarrow> (string \<times> string) list" where
  "secret_parameter client_secret =
     (case client_secret of Some secret \<Rightarrow> [(''client_secret'', secret)] | None \<Rightarrow> [])"

definition exchange_parameters :: "exchange_request \<Rightarrow> (string \<times> string) list" where
  "exchange_parameters r =
     [(''grant_type'', ''authorization_code''),
      (''code'', er_code r),
      (''code_verifier'', er_code_verifier r),
      (''client_id'', er_client_id r),
      (''redirect_uri'', url_text (er_redirect_uri r))]
     @ secret_parameter (er_client_secret r)"

record refresh_request =
  rr_refresh_token :: string
  rr_client_id :: string
  rr_client_secret :: "string option"

definition refresh_request_new :: "string \<Rightarrow> token_client_config \<Rightarrow> refresh_request" where
  "refresh_request_new refresh_token config =
     \<lparr>rr_refresh_token = refresh_token, rr_client_id = tc_client_id config,
      rr_client_secret = tc_client_secret config\<rparr>"

definition refresh_parameters :: "refresh_request \<Rightarrow> (string \<times> string) list" where
  "refresh_parameters r =
     [(''grant_type'', ''refresh_token''),
      (''refresh_token'', rr_refresh_token r),
      (''client_id'', rr_client_id r)]
     @ secret_parameter (rr_client_secret r)"

section \<open>The account subject\<close>

definition MAX_SUBJECT_LEN :: nat where "MAX_SUBJECT_LEN = 255"

definition GOOGLE_ISSUERS :: "string list" where
  "GOOGLE_ISSUERS = [''accounts.google.com'', ''https://accounts.google.com'']"

datatype account_subject = AccountSubject (subject_str: string)

datatype broker_subject_error = BS_Empty | BS_Oversized | BS_InvalidCharacters

fun broker_subject_error_text :: "broker_subject_error \<Rightarrow> string" where
  "broker_subject_error_text BS_Empty = ''the broker reply carried an empty account subject''"
| "broker_subject_error_text BS_Oversized =
     ''the broker reply carried an oversized account subject''"
| "broker_subject_error_text BS_InvalidCharacters =
     ''the broker reply carried a subject with invalid characters''"

definition from_broker_validated :: "string \<Rightarrow> broker_subject_error + account_subject" where
  "from_broker_validated subject =
     (if subject = [] then Inl BS_Empty
      else if length subject > MAX_SUBJECT_LEN then Inl BS_Oversized
      else if \<not> list_all (\<lambda>c. 33 \<le> byte c \<and> byte c \<le> 126) subject then Inl BS_InvalidCharacters
      else Inr (AccountSubject subject))"

record id_token_claims =
  ic_subject :: string
  ic_audiences :: "string list"
  ic_issuer :: string
  ic_authorized_party :: "string option"
  ic_issued_at :: nat
  ic_expires_at :: nat

record identity_expiry =
  ie_issued_at :: nat
  ie_expires_at :: nat

definition validate_fresh :: "identity_expiry \<Rightarrow> nat \<Rightarrow> nat \<Rightarrow> token_error + unit" where
  "validate_fresh e now skew_secs =
     (if now \<ge> saturating_add_u64 (ie_expires_at e) skew_secs then Inl TE_IdentityUnverified
      else if ie_issued_at e > saturating_add_u64 now skew_secs then Inl TE_IdentityUnverified
      else Inr ())"

definition validate_account_subject ::
    "id_token_claims option \<Rightarrow> token_client_config
      \<Rightarrow> token_error + (account_subject \<times> identity_expiry)" where
  "validate_account_subject claims_opt config =
     rbind (ok_or TE_IdentityUnverified claims_opt) (\<lambda>claims.
       let client_id = tc_client_id config;
           single_exact_audience =
             length (ic_audiences claims) = 1 \<and> ic_audiences claims ! 0 = client_id;
           multi_audience_authorized =
             list_ex (\<lambda>audience. audience = client_id) (ic_audiences claims)
             \<and> ic_authorized_party claims = Some client_id
       in if \<not> (single_exact_audience \<or> multi_audience_authorized)
          then Inl TE_IdentityUnverified
          else if ic_issuer claims \<notin> set GOOGLE_ISSUERS then Inl TE_IdentityUnverified
          else
            let subject = str_trim (ic_subject claims)
            in if subject = [] \<or> length subject > MAX_SUBJECT_LEN
               then Inl TE_IdentityUnverified
               else Inr (AccountSubject subject,
                 \<lparr>ie_issued_at = ic_issued_at claims, ie_expires_at = ic_expires_at claims\<rparr>))"

section \<open>Responses\<close>

record token_response =
  tr_access_token :: string
  tr_expires_in :: duration
  tr_rotated_refresh_token :: "string option"
  tr_id_token_claims :: "id_token_claims option"
  tr_gmail_read_granted :: bool

record access_token =
  at_secret :: string
  at_expires_at :: duration

definition needs_refresh :: "access_token \<Rightarrow> duration \<Rightarrow> duration \<Rightarrow> bool" where
  "needs_refresh t now skew_margin \<longleftrightarrow> duration_saturating_add now skew_margin \<ge> at_expires_at t"

record token_success =
  ts_access_token :: access_token
  ts_rotated_refresh_token :: "string option"
  ts_subject :: account_subject
  ts_identity_expiry :: identity_expiry
  ts_gmail_read_granted :: bool

definition token_success_from_parts ::
    "string \<Rightarrow> duration \<Rightarrow> string option \<Rightarrow> id_token_claims option \<Rightarrow> bool \<Rightarrow> duration
      \<Rightarrow> token_client_config \<Rightarrow> token_error + token_success" where
  "token_success_from_parts access expires_in rotated claims granted now config =
     (if access = [] then Inl TE_MalformedResponse
      else
        rbind (ok_or TE_MalformedResponse (duration_checked_add now expires_in)) (\<lambda>expires_at.
        rbind (validate_account_subject claims config) (\<lambda>(subject, expiry).
          Inr \<lparr>ts_access_token = \<lparr>at_secret = access, at_expires_at = expires_at\<rparr>,
            ts_rotated_refresh_token = rotated, ts_subject = subject,
            ts_identity_expiry = expiry, ts_gmail_read_granted = granted\<rparr>)))"

datatype token_scope_outcome =
    TokenGranted token_success
  | TokenUnderScoped string "string option"

definition scope_outcome_from_response ::
    "token_response \<Rightarrow> duration \<Rightarrow> token_client_config \<Rightarrow> token_error + token_scope_outcome" where
  "scope_outcome_from_response response now config =
     (if tr_access_token response = [] then Inl TE_MalformedResponse
      else if \<not> tr_gmail_read_granted response
      then Inr (TokenUnderScoped (tr_access_token response) (tr_rotated_refresh_token response))
      else map_ok TokenGranted
        (token_success_from_parts (tr_access_token response) (tr_expires_in response)
          (tr_rotated_refresh_token response) (tr_id_token_claims response) True now config))"

section \<open>Exchange and refresh\<close>

type_synonym ('w, 'q) token_port =
  "'q \<Rightarrow> 'w \<Rightarrow> (token_transport_error + token_response) \<times> 'w"

definition exchange_grant_with_scope_outcome ::
    "authorization_grant \<Rightarrow> token_client_config \<Rightarrow> ('w, exchange_request) token_port
      \<Rightarrow> ('w \<Rightarrow> duration) \<Rightarrow> 'w \<Rightarrow> (token_error + token_scope_outcome) \<times> 'w" where
  "exchange_grant_with_scope_outcome grant config exchange clock w =
     (case exchange (exchange_request_new grant config) w of
        (Inl err, w1) \<Rightarrow> (Inl (map_exchange_transport_error err), w1)
      | (Inr response, w1) \<Rightarrow> (scope_outcome_from_response response (clock w1) config, w1))"

definition refresh_access_token_with_scope_outcome ::
    "string \<Rightarrow> token_client_config \<Rightarrow> ('w, refresh_request) token_port
      \<Rightarrow> ('w \<Rightarrow> duration) \<Rightarrow> 'w \<Rightarrow> (token_error + token_scope_outcome) \<times> 'w" where
  "refresh_access_token_with_scope_outcome refresh_token config refresh clock w =
     (case refresh (refresh_request_new refresh_token config) w of
        (Inl err, w1) \<Rightarrow> (Inl (map_transport_error err), w1)
      | (Inr response, w1) \<Rightarrow> (scope_outcome_from_response response (clock w1) config, w1))"

fun granted_only :: "token_error + token_scope_outcome \<Rightarrow> token_error + token_success" where
  "granted_only (Inl err) = Inl err"
| "granted_only (Inr (TokenGranted success)) = Inr success"
| "granted_only (Inr (TokenUnderScoped _ _)) = Inl TE_InsufficientScope"

definition exchange_grant ::
    "authorization_grant \<Rightarrow> token_client_config \<Rightarrow> ('w, exchange_request) token_port
      \<Rightarrow> ('w \<Rightarrow> duration) \<Rightarrow> 'w \<Rightarrow> (token_error + token_success) \<times> 'w" where
  "exchange_grant grant config exchange clock w =
     apfst granted_only (exchange_grant_with_scope_outcome grant config exchange clock w)"

definition refresh_access_token ::
    "string \<Rightarrow> token_client_config \<Rightarrow> ('w, refresh_request) token_port
      \<Rightarrow> ('w \<Rightarrow> duration) \<Rightarrow> 'w \<Rightarrow> (token_error + token_success) \<times> 'w" where
  "refresh_access_token refresh_token config refresh clock w =
     apfst granted_only (refresh_access_token_with_scope_outcome refresh_token config refresh clock w)"

section \<open>What a success proves\<close>

text \<open>The claims name this client, a Google issuer and a subject of the stored shape.\<close>

definition claims_verified :: "id_token_claims \<Rightarrow> string \<Rightarrow> bool" where
  "claims_verified c client_id \<longleftrightarrow>
     (ic_audiences c = [client_id]
       \<or> client_id \<in> set (ic_audiences c) \<and> ic_authorized_party c = Some client_id)
     \<and> ic_issuer c \<in> set GOOGLE_ISSUERS
     \<and> str_trim (ic_subject c) \<noteq> [] \<and> length (str_trim (ic_subject c)) \<le> MAX_SUBJECT_LEN"

lemma validate_account_subject_eq:
  "validate_account_subject claims config =
     (case claims of
        Some c \<Rightarrow>
          (if claims_verified c (tc_client_id config)
           then Inr (AccountSubject (str_trim (ic_subject c)),
             \<lparr>ie_issued_at = ic_issued_at c, ie_expires_at = ic_expires_at c\<rparr>)
           else Inl TE_IdentityUnverified)
      | None \<Rightarrow> Inl TE_IdentityUnverified)"
proof -
  have "length xs = 1 \<and> xs ! 0 = i \<longleftrightarrow> xs = [i]" for xs :: "string list" and i
    by (cases xs) auto
  then show ?thesis
    by (auto simp: validate_account_subject_def claims_verified_def list_ex_iff Let_def
        split: option.splits)
qed

definition success_of ::
    "token_client_config \<Rightarrow> duration \<Rightarrow> token_response \<Rightarrow> id_token_claims \<Rightarrow> token_success" where
  "success_of config now resp c =
     \<lparr>ts_access_token = \<lparr>at_secret = tr_access_token resp, at_expires_at = now + tr_expires_in resp\<rparr>,
      ts_rotated_refresh_token = tr_rotated_refresh_token resp,
      ts_subject = AccountSubject (str_trim (ic_subject c)),
      ts_identity_expiry = \<lparr>ie_issued_at = ic_issued_at c, ie_expires_at = ic_expires_at c\<rparr>,
      ts_gmail_read_granted = True\<rparr>"

lemma scope_outcome_Granted:
  "scope_outcome_from_response resp now config = Inr (TokenGranted t) \<longleftrightarrow>
     tr_access_token resp \<noteq> [] \<and> tr_gmail_read_granted resp
     \<and> now + tr_expires_in resp \<le> DURATION_MAX
     \<and> (\<exists>c. tr_id_token_claims resp = Some c \<and> claims_verified c (tc_client_id config)
          \<and> t = success_of config now resp c)"
  by (auto simp: scope_outcome_from_response_def token_success_from_parts_def result_simps
      validate_account_subject_eq duration_checked_add_def success_of_def split: option.splits if_splits)

lemma scope_outcome_errors:
  "scope_outcome_from_response resp now config = Inl err \<Longrightarrow>
     err \<in> {TE_MalformedResponse, TE_IdentityUnverified}"
  by (auto simp: scope_outcome_from_response_def token_success_from_parts_def result_simps
      validate_account_subject_eq duration_checked_add_def split: option.splits if_splits)

lemma granted_only_Inr [simp]: "granted_only r = Inr t \<longleftrightarrow> r = Inr (TokenGranted t)"
  by (cases r rule: granted_only.cases) auto

lemma granted_only_Inl:
  "granted_only r = Inl err \<longleftrightarrow>
     r = Inl err \<or> err = TE_InsufficientScope \<and> (\<exists>a b. r = Inr (TokenUnderScoped a b))"
  by (cases r rule: granted_only.cases) auto

text \<open>
  Refreshing gives an access token exactly when the endpoint answered with a token, Gmail
  read access, a representable lifetime and claims verified for this client; the token, the
  subject and the deadline are then those of that one answer, so no token is ever returned
  beside an unverified identity. A grant without Gmail access is reported before, and
  whatever, its claims.
\<close>

theorem refresh_success_iff:
  "let (answer, w1) = refresh (refresh_request_new refresh_token config) w
   in (fst (refresh_access_token refresh_token config refresh clock w) = Inr t \<longleftrightarrow>
        (\<exists>resp c. answer = Inr resp \<and> tr_access_token resp \<noteq> [] \<and> tr_gmail_read_granted resp
          \<and> clock w1 + tr_expires_in resp \<le> DURATION_MAX
          \<and> tr_id_token_claims resp = Some c \<and> claims_verified c (tc_client_id config)
          \<and> t = success_of config (clock w1) resp c))
    \<and> (fst (refresh_access_token refresh_token config refresh clock w) = Inl TE_InsufficientScope
        \<longleftrightarrow> (\<exists>resp. answer = Inr resp \<and> tr_access_token resp \<noteq> [] \<and> \<not> tr_gmail_read_granted resp))"
proof -
  obtain answer w1 where call: "refresh (refresh_request_new refresh_token config) w = (answer, w1)"
    by fastforce
  have scope: "scope_outcome_from_response resp now config = Inr (TokenUnderScoped a b) \<longleftrightarrow>
      tr_access_token resp \<noteq> [] \<and> \<not> tr_gmail_read_granted resp
      \<and> a = tr_access_token resp \<and> b = tr_rotated_refresh_token resp" for resp now a b
    by (auto simp: scope_outcome_from_response_def result_simps split: if_splits)
  show ?thesis
  proof (cases answer)
    case (Inl err)
    with call show ?thesis
      by (cases err) (simp_all add: refresh_access_token_def refresh_access_token_with_scope_outcome_def)
  next
    case (Inr resp)
    with call show ?thesis
      using scope_outcome_errors [of resp "clock w1" config TE_InsufficientScope]
      by (auto simp: refresh_access_token_def refresh_access_token_with_scope_outcome_def
          granted_only_Inl scope scope_outcome_Granted)
  qed
qed

text \<open>
  Only a refused refresh licenses deleting the stored credential: a refresh reports
  revoked consent exactly when the endpoint answered it with \<open>invalid_grant\<close>, and an exchange
  never does, since there that answer is a rejected authorization code.
\<close>

theorem consent_revoked_only_on_refresh:
  "(fst (refresh_access_token refresh_token config refresh clock w) = Inl TE_ConsentRevoked \<longleftrightarrow>
      fst (refresh (refresh_request_new refresh_token config) w) = Inl TT_InvalidGrant)
    \<and> fst (refresh_access_token refresh_token config refresh clock w) \<noteq> Inl TE_AuthorizationCodeRejected
    \<and> fst (exchange_grant grant config exchange clock w) \<noteq> Inl TE_ConsentRevoked
    \<and> (fst (exchange_grant grant config exchange clock w) = Inl TE_AuthorizationCodeRejected \<longleftrightarrow>
      fst (exchange (exchange_request_new grant config) w) = Inl TT_InvalidGrant)"
proof -
  have refresh_error: "map_transport_error err = TE_ConsentRevoked \<longleftrightarrow> err = TT_InvalidGrant"
    "map_transport_error err \<noteq> TE_AuthorizationCodeRejected"
    "map_exchange_transport_error err \<noteq> TE_ConsentRevoked"
    "map_exchange_transport_error err = TE_AuthorizationCodeRejected \<longleftrightarrow> err = TT_InvalidGrant" for err
    by (cases err; simp)+
  show ?thesis
    using scope_outcome_errors
    by (fastforce simp: refresh_access_token_def refresh_access_token_with_scope_outcome_def
        exchange_grant_def exchange_grant_with_scope_outcome_def refresh_error granted_only_Inl
        split: prod.splits sum.splits)
qed

text \<open>
  Saturation never extends a lifetime: an identity is fresh exactly when the exact sums
  say so and the wall clock is readable (a clock before the epoch fails every check), and a
  token needs a refresh exactly when the exact sum of now and margin reaches its deadline.
\<close>

theorem freshness_is_exact:
  assumes "ie_issued_at e \<le> U64_MAX" and "\<And>s. since_epoch = Some s \<Longrightarrow> s < U64_MAX"
    and "at_expires_at t \<le> DURATION_MAX"
  shows "(validate_fresh e (wall_unix_time since_epoch) skew = Inr () \<longleftrightarrow>
      (case since_epoch of
         Some now \<Rightarrow> now < ie_expires_at e + skew \<and> ie_issued_at e \<le> now + skew | None \<Rightarrow> False))
    \<and> (needs_refresh t now margin \<longleftrightarrow> at_expires_at t \<le> now + margin)"
  using assms
  by (auto simp: validate_fresh_def wall_unix_time_def saturating_add_u64_def needs_refresh_def
      duration_saturating_add_def min_def split: option.splits)

theorem freshness_is_exact_witness:
  "validate_fresh \<lparr>ie_issued_at = 100, ie_expires_at = 200\<rparr> (wall_unix_time (Some 204)) 5 = Inr ()
    \<and> validate_fresh \<lparr>ie_issued_at = 100, ie_expires_at = 200\<rparr> (wall_unix_time (Some 205)) 5 \<noteq> Inr ()
    \<and> needs_refresh \<lparr>at_secret = ''t'', at_expires_at = 50\<rparr> 40 10"
  using freshness_is_exact [of "\<lparr>ie_issued_at = 100, ie_expires_at = 200\<rparr>" "Some 204"
      "\<lparr>at_secret = ''t'', at_expires_at = 50\<rparr>" 5 40 10]
    freshness_is_exact [of "\<lparr>ie_issued_at = 100, ie_expires_at = 200\<rparr>" "Some 205"
      "\<lparr>at_secret = ''t'', at_expires_at = 50\<rparr>" 5 40 10]
  by (simp add: U64_MAX_def DURATION_MAX_def)

end
