(* ===== verification/Broker.thy ===== *)
theory Broker
  imports Token_Flow
begin

text \<open>
  The token broker of \<^verbatim>\<open>adapters/token-broker-core/src\<close>: subject permits
  (\<^verbatim>\<open>permits.rs\<close>), session handles and their registry (\<^verbatim>\<open>handle.rs\<close>, \<^verbatim>\<open>registry.rs\<close>) and
  the lifecycle operations of \<^verbatim>\<open>broker.rs\<close>. The world of an operation is the broker's own
  state (registry and permits) beside the state of its environment. Store, entropy and clock
  calls act on the environment only; a transport call is an await, so its port may change
  the whole world: whatever other operations do meanwhile is part of the port.
\<close>

section \<open>Errors and constants\<close>

datatype broker_error =
    BE_InvalidInput
  | BE_InvalidConfiguration
  | BE_Unavailable
  | BE_Busy
  | BE_SessionUnknown
  | BE_ProviderRejected
  | BE_AuthorizationCodeRejected
  | BE_Transport
  | BE_MalformedResponse
  | BE_InsufficientScope
  | BE_IdentityUnverified
  | BE_IdentityMismatch
  | BE_MissingRefreshToken
  | BE_ConsentRevoked
  | BE_PersistenceFailed
  | BE_RevokeUnconfirmed

fun broker_error_text :: "broker_error \<Rightarrow> string" where
  "broker_error_text BE_InvalidInput = ''the broker rejected the supplied input''"
| "broker_error_text BE_InvalidConfiguration = ''invalid broker configuration''"
| "broker_error_text BE_Unavailable = ''a broker-internal resource is unavailable''"
| "broker_error_text BE_Busy = ''a bounded broker resource is momentarily exhausted''"
| "broker_error_text BE_SessionUnknown =
     ''the authorization session is unknown, expired, or consumed''"
| "broker_error_text BE_ProviderRejected = ''the OAuth provider rejected the request''"
| "broker_error_text BE_AuthorizationCodeRejected =
     ''the authorization code was rejected; sign in again''"
| "broker_error_text BE_Transport = ''the provider endpoint could not be reached''"
| "broker_error_text BE_MalformedResponse = ''the provider returned an unusable response''"
| "broker_error_text BE_InsufficientScope = ''the grant omitted Gmail read access''"
| "broker_error_text BE_IdentityUnverified = ''the account identity could not be verified''"
| "broker_error_text BE_IdentityMismatch =
     ''the credential no longer belongs to the requested account''"
| "broker_error_text BE_MissingRefreshToken =
     ''no refresh token is available; re-connect is required''"
| "broker_error_text BE_ConsentRevoked = ''consent was revoked; re-connect is required''"
| "broker_error_text BE_PersistenceFailed = ''the refresh-token store failed''"
| "broker_error_text BE_RevokeUnconfirmed = ''the provider did not confirm the revocation''"

datatype refresh_token_store_error = RTS_Unavailable | RTS_Invalid

definition MAX_SUBJECT_PERMITS :: nat where "MAX_SUBJECT_PERMITS = 32"
definition MAX_PENDING_SESSIONS :: nat where "MAX_PENDING_SESSIONS = 8"
definition MAX_HANDLE_ALLOCATION_ATTEMPTS :: nat where "MAX_HANDLE_ALLOCATION_ATTEMPTS = 3"
definition SESSION_HANDLE_BYTES :: nat where "SESSION_HANDLE_BYTES = 16"
definition SESSION_HANDLE_LEN :: nat where "SESSION_HANDLE_LEN = 22"
definition LOOPBACK_REDIRECT_PREFIX :: string where
  "LOOPBACK_REDIRECT_PREFIX = ''http://127.0.0.1:''"
definition MIN_LOOPBACK_PORT :: nat where "MIN_LOOPBACK_PORT = 1024"
definition MAX_REDIRECT_LEN :: nat where "MAX_REDIRECT_LEN = 256"
definition MAX_CALLBACK_LEN :: nat where "MAX_CALLBACK_LEN = 4096"
definition MAX_ACCESS_TOKEN_LEN :: nat where "MAX_ACCESS_TOKEN_LEN = 4096"
definition MAX_REFRESH_TOKEN_LEN :: nat where "MAX_REFRESH_TOKEN_LEN = 1024"
definition MAX_EXPIRES_IN_SECS :: nat where "MAX_EXPIRES_IN_SECS = 86400"
definition NANOS_PER_SEC :: nat where "NANOS_PER_SEC = 1000000000"
definition MAX_SESSION_TTL :: duration where "MAX_SESSION_TTL = 3600 * NANOS_PER_SEC"
definition IDENTITY_FRESHNESS_SKEW_SECS :: nat where "IDENTITY_FRESHNESS_SKEW_SECS = 120"

fun map_oauth_error :: "oauth_error \<Rightarrow> broker_error" where
  "map_oauth_error InvalidConfiguration = BE_InvalidConfiguration"
| "map_oauth_error ProviderRejected = BE_ProviderRejected"
| "map_oauth_error InsufficientScope = BE_InsufficientScope"
| "map_oauth_error Expired = BE_SessionUnknown"
| "map_oauth_error AlreadyConsumed = BE_SessionUnknown"
| "map_oauth_error (MissingParameter _) = BE_InvalidInput"
| "map_oauth_error DuplicateParameter = BE_InvalidInput"
| "map_oauth_error ConflictingCallback = BE_InvalidInput"
| "map_oauth_error RedirectMismatch = BE_InvalidInput"
| "map_oauth_error StateMismatch = BE_InvalidInput"
| "map_oauth_error EntropyUnavailable = BE_Unavailable"
| "map_oauth_error NotExpired = BE_Unavailable"

fun map_token_error :: "token_error \<Rightarrow> broker_error" where
  "map_token_error TE_InvalidConfiguration = BE_InvalidConfiguration"
| "map_token_error TE_Transport = BE_Transport"
| "map_token_error TE_ProviderRejected = BE_ProviderRejected"
| "map_token_error TE_AuthorizationCodeRejected = BE_AuthorizationCodeRejected"
| "map_token_error TE_MalformedResponse = BE_MalformedResponse"
| "map_token_error TE_InsufficientScope = BE_InsufficientScope"
| "map_token_error TE_ConsentRevoked = BE_ConsentRevoked"
| "map_token_error TE_IdentityUnverified = BE_IdentityUnverified"

section \<open>Subjects and permits\<close>

datatype validated_subject = ValidatedSubject (validated_str: string)

definition validated_subject_new :: "string \<Rightarrow> broker_error + validated_subject" where
  "validated_subject_new text =
     (let visible_ascii = list_all is_ascii_graphic text
      in if text = [] \<or> length text > MAX_SUBJECT_LEN \<or> \<not> visible_ascii
         then Inl BE_InvalidInput else Inr (ValidatedSubject text))"

text \<open>A mutex is poisoned when a thread panicked while holding it.\<close>

datatype 'a mutex = Healthy 'a | Poisoned 'a

fun mutex_map :: "('a \<Rightarrow> 'a) \<Rightarrow> 'a mutex \<Rightarrow> 'a mutex" where
  "mutex_map f (Healthy a) = Healthy (f a)"
| "mutex_map f (Poisoned a) = Poisoned (f a)"

fun mutex_content :: "'a mutex \<Rightarrow> 'a" where
  "mutex_content (Healthy a) = a"
| "mutex_content (Poisoned a) = a"

type_synonym subject_permits = "string set mutex"

definition permits_claim :: "string \<Rightarrow> subject_permits \<Rightarrow> broker_error + subject_permits" where
  "permits_claim subject permits =
     (case permits of
        Poisoned _ \<Rightarrow> Inl BE_Unavailable
      | Healthy held \<Rightarrow>
          if subject \<in> held \<or> card held \<ge> MAX_SUBJECT_PERMITS then Inl BE_Busy
          else Inr (Healthy (insert subject held)))"

definition permit_drop :: "string \<Rightarrow> subject_permits \<Rightarrow> subject_permits" where
  "permit_drop subject permits = mutex_map (\<lambda>held. held - {subject}) permits"

section \<open>Handles and the session registry\<close>

datatype session_handle = SessionHandle (handle_str: string)

definition handle_generate ::
    "(string \<Rightarrow> string) \<Rightarrow> ('e \<Rightarrow> (broker_error + string) \<times> 'e) \<Rightarrow> 'e
      \<Rightarrow> (broker_error + session_handle) \<times> 'e" where
  "handle_generate encode handle_bytes e =
     apfst (map_ok (\<lambda>bytes. SessionHandle (encode bytes))) (handle_bytes e)"

definition handle_parse :: "string \<Rightarrow> broker_error + session_handle" where
  "handle_parse text =
     (let well_formed = length text = SESSION_HANDLE_LEN
            \<and> list_all (\<lambda>c. is_ascii_alphanumeric c \<or> c = CHR ''-'' \<or> c = CHR ''_'') text
      in if \<not> well_formed then Inl BE_InvalidInput else Inr (SessionHandle text))"

type_synonym sessions = "(string \<times> authorization_session) list"
type_synonym session_registry = "sessions mutex"

definition lock_sessions :: "session_registry \<Rightarrow> (broker_error + sessions) \<times> session_registry" where
  "lock_sessions registry =
     (case registry of
        Healthy sessions \<Rightarrow> (Inr sessions, registry)
      | Poisoned _ \<Rightarrow> (Inl BE_Unavailable, Poisoned []))"

text \<open>
  Reaping keeps the sessions whose \<open>expire\<close> is refused, one clock reading for the pass;
  allocation retries on a collision with a resident handle.
\<close>

definition reap :: "duration \<Rightarrow> sessions \<Rightarrow> sessions" where
  "reap now sessions = filter (\<lambda>(_, s). \<not> is_ok (fst (expire now s))) sessions"

fun allocate ::
    "(string \<Rightarrow> string) \<Rightarrow> ('e \<Rightarrow> (broker_error + string) \<times> 'e) \<Rightarrow> authorization_session \<Rightarrow> nat
      \<Rightarrow> sessions \<Rightarrow> 'e \<Rightarrow> (broker_error + session_handle) \<times> sessions \<times> 'e" where
  "allocate encode handle_bytes session 0 sessions e = (Inl BE_Unavailable, sessions, e)"
| "allocate encode handle_bytes session (Suc left) sessions e =
     (case handle_generate encode handle_bytes e of
        (Inl err, e1) \<Rightarrow> (Inl err, sessions, e1)
      | (Inr handle, e1) \<Rightarrow>
          if handle_str handle \<notin> fst ` set sessions
          then (Inr handle, (handle_str handle, session) # sessions, e1)
          else allocate encode handle_bytes session left sessions e1)"

definition registry_insert ::
    "(string \<Rightarrow> string) \<Rightarrow> ('e \<Rightarrow> (broker_error + string) \<times> 'e) \<Rightarrow> ('e \<Rightarrow> duration)
      \<Rightarrow> authorization_session \<Rightarrow> session_registry \<Rightarrow> 'e
      \<Rightarrow> (broker_error + session_handle) \<times> session_registry \<times> 'e" where
  "registry_insert encode handle_bytes clock session registry e =
     (case lock_sessions registry of
        (Inl err, registry1) \<Rightarrow> (Inl err, registry1, e)
      | (Inr sessions, _) \<Rightarrow>
          let live = reap (clock e) sessions
          in if length live \<ge> MAX_PENDING_SESSIONS then (Inl BE_Busy, Healthy live, e)
             else case allocate encode handle_bytes session MAX_HANDLE_ALLOCATION_ATTEMPTS live e of
               (r, sessions1, e1) \<Rightarrow> (r, Healthy sessions1, e1))"

definition registry_claim ::
    "session_handle \<Rightarrow> session_registry
      \<Rightarrow> (broker_error + authorization_session) \<times> session_registry" where
  "registry_claim handle registry =
     (case lock_sessions registry of
        (Inl err, registry1) \<Rightarrow> (Inl err, registry1)
      | (Inr sessions, _) \<Rightarrow>
          (ok_or BE_SessionUnknown (map_of sessions (handle_str handle)),
           Healthy (filter (\<lambda>(h, _). h \<noteq> handle_str handle) sessions)))"

section \<open>The world and the ports\<close>

record 'e bworld =
  bw_registry :: session_registry
  bw_permits :: subject_permits
  bw_env :: 'e

record 'e broker_ports =
  bp_exchange :: "('e bworld, exchange_request) token_port"
  bp_refresh :: "('e bworld, refresh_request) token_port"
  bp_revoke :: "string \<Rightarrow> 'e bworld \<Rightarrow> (token_transport_error + unit) \<times> 'e bworld"
  bp_store :: "validated_subject \<Rightarrow> string \<Rightarrow> 'e \<Rightarrow> (refresh_token_store_error + unit) \<times> 'e"
  bp_load :: "validated_subject \<Rightarrow> 'e \<Rightarrow> (refresh_token_store_error + string option) \<times> 'e"
  bp_delete :: "validated_subject \<Rightarrow> 'e \<Rightarrow> (refresh_token_store_error + unit) \<times> 'e"
  bp_clock :: "'e \<Rightarrow> duration"
  bp_wall :: "'e \<Rightarrow> nat"
  bp_handle_bytes :: "'e \<Rightarrow> (broker_error + string) \<times> 'e"
  bp_random :: "nat \<Rightarrow> 'e \<Rightarrow> string option \<times> 'e"
  bp_parse_url :: "string \<Rightarrow> url option"
  bp_encode :: "string \<Rightarrow> string"
  bp_sha256 :: "string \<Rightarrow> string"
  bp_build_url :: "string \<Rightarrow> (string \<times> string) list \<Rightarrow> url"

type_synonym ('e, 'a) broker_op = "'e bworld \<Rightarrow> (broker_error + 'a) \<times> 'e bworld"

definition on_env :: "('e \<Rightarrow> 'a \<times> 'e) \<Rightarrow> 'e bworld \<Rightarrow> 'a \<times> 'e bworld" where
  "on_env f w = (case f (bw_env w) of (a, e) \<Rightarrow> (a, w\<lparr>bw_env := e\<rparr>))"

text \<open>A permit is held while the body runs and dropped on every way out of it.\<close>

definition with_permit :: "string \<Rightarrow> ('e, 'a) broker_op \<Rightarrow> ('e, 'a) broker_op" where
  "with_permit subject body w =
     (case permits_claim subject (bw_permits w) of
        Inl err \<Rightarrow> (Inl err, w)
      | Inr permits \<Rightarrow>
          (case body (w\<lparr>bw_permits := permits\<rparr>) of
             (r, w1) \<Rightarrow> (r, w1\<lparr>bw_permits := permit_drop subject (bw_permits w1)\<rparr>)))"

record broker_config =
  bc_client_id :: string
  bc_client_secret :: "string option"
  bc_session_ttl :: duration

definition broker_new ::
    "string \<Rightarrow> string option \<Rightarrow> duration \<Rightarrow> broker_error + broker_config" where
  "broker_new client_id client_secret session_ttl =
     (let blank_secret = (case client_secret of Some secret \<Rightarrow> str_trim secret = [] | None \<Rightarrow> False)
      in if str_trim client_id = [] \<or> session_ttl = 0 \<or> session_ttl > MAX_SESSION_TTL \<or> blank_secret
         then Inl BE_InvalidConfiguration
         else Inr \<lparr>bc_client_id = client_id, bc_client_secret = client_secret,
           bc_session_ttl = session_ttl\<rparr>)"

definition broker_token_client_config :: "broker_config \<Rightarrow> url \<Rightarrow> broker_error + token_client_config" where
  "broker_token_client_config cfg redirect =
     map_err (\<lambda>_. BE_InvalidConfiguration)
       (token_client_config_new (bc_client_id cfg) redirect (bc_client_secret cfg))"

definition refresh_client_config ::
    "'e broker_ports \<Rightarrow> broker_config \<Rightarrow> broker_error + token_client_config" where
  "refresh_client_config p cfg =
     rbind (ok_or BE_InvalidConfiguration (bp_parse_url p ''http://127.0.0.1/''))
       (broker_token_client_config cfg)"

definition parse_loopback_redirect :: "(string \<Rightarrow> url option) \<Rightarrow> string \<Rightarrow> broker_error + url" where
  "parse_loopback_redirect parse text =
     (if length text > MAX_REDIRECT_LEN \<or> \<not> prefix LOOPBACK_REDIRECT_PREFIX text
      then Inl BE_InvalidInput
      else rbind (ok_or BE_InvalidInput (parse text)) (\<lambda>url.
        let non_privileged_port =
              (case url_port url of Some port \<Rightarrow> port \<ge> MIN_LOOPBACK_PORT | None \<Rightarrow> False);
            exact_root_loopback =
              url_scheme url = ''http'' \<and> url_host url = Some ''127.0.0.1''
              \<and> non_privileged_port \<and> url_path url = ''/''
              \<and> url_username url = [] \<and> url_password url = None
              \<and> url_query url = None \<and> url_fragment url = None
        in if exact_root_loopback then Inr url else Inl BE_InvalidInput))"

record pending_authorization =
  pa_authorization_url :: url
  pa_session_handle :: session_handle

definition begin_authorization ::
    "'e broker_ports \<Rightarrow> broker_config \<Rightarrow> string \<Rightarrow> ('e, pending_authorization) broker_op" where
  "begin_authorization p cfg redirect_uri w =
     (case rbind (parse_loopback_redirect (bp_parse_url p) redirect_uri) (\<lambda>redirect.
           rbind (map_err (\<lambda>_. BE_InvalidConfiguration)
              (authorization_config_new (bc_client_id cfg) redirect (bc_session_ttl cfg))) (\<lambda>config.
           map_ok (\<lambda>_. config) (broker_token_client_config cfg redirect))) of
        Inl err \<Rightarrow> (Inl err, w)
      | Inr config \<Rightarrow>
          (case on_env (prepare_authorization (bp_encode p) (bp_sha256 p) (bp_build_url p)
              (bp_random p) (bp_clock p) config) w of
             (Inl err, w1) \<Rightarrow> (Inl (map_oauth_error err), w1)
           | (Inr (url, session), w1) \<Rightarrow>
               (case registry_insert (bp_encode p) (bp_handle_bytes p) (bp_clock p) session
                   (bw_registry w1) (bw_env w1) of
                  (r, registry, e) \<Rightarrow>
                    (map_ok (\<lambda>handle. \<lparr>pa_authorization_url = url, pa_session_handle = handle\<rparr>) r,
                     w1\<lparr>bw_registry := registry, bw_env := e\<rparr>))))"

section \<open>Completing an authorization\<close>

record broker_token =
  bt_access_token :: string
  bt_subject :: string
  bt_expires_in_seconds :: nat

definition mint_broker_token :: "duration \<Rightarrow> token_success \<Rightarrow> broker_error + broker_token" where
  "mint_broker_token now success =
     (let access = at_secret (ts_access_token success)
      in if length access > MAX_ACCESS_TOKEN_LEN then Inl BE_MalformedResponse
         else
           let remaining = at_expires_at (ts_access_token success) - now;
               expires_in_seconds = remaining div NANOS_PER_SEC
           in if expires_in_seconds = 0 \<or> expires_in_seconds > MAX_EXPIRES_IN_SECS
              then Inl BE_MalformedResponse
              else Inr \<lparr>bt_access_token = access, bt_subject = subject_str (ts_subject success),
                bt_expires_in_seconds = expires_in_seconds\<rparr>)"

datatype store_snapshot = SnapshotEmpty | SnapshotOccupied

fun licenses_revoke :: "store_snapshot \<Rightarrow> bool" where
  "licenses_revoke SnapshotEmpty = True"
| "licenses_revoke SnapshotOccupied = False"

definition well_shaped_refresh :: "string \<Rightarrow> bool" where
  "well_shaped_refresh token \<longleftrightarrow> \<not> (token = [] \<or> length token > MAX_REFRESH_TOKEN_LEN)"

definition revoke_handle :: "token_success \<Rightarrow> string option" where
  "revoke_handle success =
     (case ts_rotated_refresh_token success of
        Some rotated \<Rightarrow>
          if well_shaped_refresh rotated then Some rotated
          else let access = at_secret (ts_access_token success)
            in if access = [] \<or> length access > MAX_ACCESS_TOKEN_LEN then None else Some access
      | None \<Rightarrow>
          let access = at_secret (ts_access_token success)
          in if access = [] \<or> length access > MAX_ACCESS_TOKEN_LEN then None else Some access)"

definition revoke_best_effort :: "'e broker_ports \<Rightarrow> string \<Rightarrow> 'e bworld \<Rightarrow> 'e bworld" where
  "revoke_best_effort p token w = snd (bp_revoke p token w)"

definition revoke_stranded_grant ::
    "'e broker_ports \<Rightarrow> store_snapshot \<Rightarrow> token_success \<Rightarrow> 'e bworld \<Rightarrow> 'e bworld" where
  "revoke_stranded_grant p snap success w =
     (if \<not> licenses_revoke snap then w
      else case revoke_handle success of
          Some handle \<Rightarrow> revoke_best_effort p handle w
        | None \<Rightarrow> w)"

definition stranded ::
    "'e broker_ports \<Rightarrow> store_snapshot \<Rightarrow> token_success \<Rightarrow> broker_error \<Rightarrow> ('e, 'a) broker_op" where
  "stranded p snap success err w = (Inl err, revoke_stranded_grant p snap success w)"

definition complete_granted ::
    "'e broker_ports \<Rightarrow> token_success \<Rightarrow> validated_subject \<Rightarrow> ('e, broker_token) broker_op" where
  "complete_granted p success subject w =
     (case on_env (bp_load p subject) w of
        (Inl _, w1) \<Rightarrow> (Inl BE_PersistenceFailed, w1)
      | (Inr stored, w1) \<Rightarrow>
          let snap = (case stored of None \<Rightarrow> SnapshotEmpty | Some _ \<Rightarrow> SnapshotOccupied)
          in if \<not> is_ok (validate_fresh (ts_identity_expiry success) (bp_wall p (bw_env w1))
                  IDENTITY_FRESHNESS_SKEW_SECS)
             then stranded p snap success BE_IdentityUnverified w1
             else (case mint_broker_token (bp_clock p (bw_env w1)) success of
                 Inl err \<Rightarrow> stranded p snap success err w1
               | Inr token \<Rightarrow>
                   (case ts_rotated_refresh_token success of
                      None \<Rightarrow> stranded p snap success BE_MissingRefreshToken w1
                    | Some refresh_token \<Rightarrow>
                        if \<not> well_shaped_refresh refresh_token
                        then stranded p snap success BE_MalformedResponse w1
                        else (case on_env (bp_store p subject refresh_token) w1 of
                            (Inl _, w2) \<Rightarrow> stranded p snap success BE_PersistenceFailed w2
                          | (Inr _, w2) \<Rightarrow> (Inr token, w2)))))"

definition complete_outcome ::
    "'e broker_ports \<Rightarrow> token_scope_outcome \<Rightarrow> ('e, broker_token) broker_op" where
  "complete_outcome p outcome w =
     (case outcome of
        TokenUnderScoped _ _ \<Rightarrow> (Inl BE_InsufficientScope, w)
      | TokenGranted success \<Rightarrow>
          (case validated_subject_new (subject_str (ts_subject success)) of
             Inl _ \<Rightarrow> (Inl BE_IdentityUnverified, w)
           | Inr subject \<Rightarrow>
               with_permit (validated_str subject) (complete_granted p success subject) w))"

definition finish_callback ::
    "'e broker_ports \<Rightarrow> broker_config \<Rightarrow> string \<Rightarrow> authorization_session \<Rightarrow> duration
      \<Rightarrow> broker_error + (authorization_grant \<times> token_client_config)" where
  "finish_callback p cfg callback_url session now =
     rbind (broker_token_client_config cfg (as_redirect_uri session)) (\<lambda>token_config.
       if length callback_url > MAX_CALLBACK_LEN then Inl BE_InvalidInput
       else rbind (ok_or BE_InvalidInput (bp_parse_url p callback_url)) (\<lambda>callback.
         map_ok (\<lambda>grant. (grant, token_config))
           (map_err map_oauth_error (fst (finish now callback session)))))"

definition complete_authorization ::
    "'e broker_ports \<Rightarrow> broker_config \<Rightarrow> string \<Rightarrow> string \<Rightarrow> ('e, broker_token) broker_op" where
  "complete_authorization p cfg handle_text callback_url w =
     (case handle_parse handle_text of
        Inl err \<Rightarrow> (Inl err, w)
      | Inr handle \<Rightarrow>
          (case registry_claim handle (bw_registry w) of
             (claimed, registry) \<Rightarrow>
               let w1 = w\<lparr>bw_registry := registry\<rparr>
               in case rbind claimed (\<lambda>session.
                     finish_callback p cfg callback_url session (bp_clock p (bw_env w1))) of
                    Inl err \<Rightarrow> (Inl err, w1)
                  | Inr (grant, token_config) \<Rightarrow>
                      (case exchange_grant_with_scope_outcome grant token_config (bp_exchange p)
                          (\<lambda>v. bp_clock p (bw_env v)) w1 of
                         (Inl err, w2) \<Rightarrow> (Inl (map_token_error err), w2)
                       | (Inr outcome, w2) \<Rightarrow> complete_outcome p outcome w2)))"

section \<open>Refresh, revoke and delete\<close>

text \<open>Persisting a rotated token: a malformed one is refused before any store write.\<close>

definition persist_rotation ::
    "'e broker_ports \<Rightarrow> validated_subject \<Rightarrow> string option \<Rightarrow> ('e, unit) broker_op" where
  "persist_rotation p subject rotated w =
     (case rotated of
        None \<Rightarrow> (Inr (), w)
      | Some token \<Rightarrow>
          if \<not> well_shaped_refresh token then (Inl BE_MalformedResponse, w)
          else apfst (map_err (\<lambda>_. BE_PersistenceFailed)) (on_env (bp_store p subject token) w))"

definition refresh_granted ::
    "'e broker_ports \<Rightarrow> validated_subject \<Rightarrow> token_success \<Rightarrow> ('e, broker_token) broker_op" where
  "refresh_granted p subject success w =
     (if subject_str (ts_subject success) \<noteq> validated_str subject
      then (Inl BE_IdentityMismatch, w)
      else case persist_rotation p subject (ts_rotated_refresh_token success) w of
          (Inl err, w1) \<Rightarrow> (Inl err, w1)
        | (Inr _, w1) \<Rightarrow>
            if \<not> is_ok (validate_fresh (ts_identity_expiry success) (bp_wall p (bw_env w1))
                IDENTITY_FRESHNESS_SKEW_SECS)
            then (Inl BE_IdentityUnverified, w1)
            else (mint_broker_token (bp_clock p (bw_env w1)) success, w1))"

definition refresh_answer ::
    "'e broker_ports \<Rightarrow> validated_subject \<Rightarrow> token_error + token_scope_outcome
      \<Rightarrow> ('e, broker_token) broker_op" where
  "refresh_answer p subject answer w =
     (case answer of
        Inl TE_ConsentRevoked \<Rightarrow>
          (case on_env (bp_delete p subject) w of
             (Inl _, w1) \<Rightarrow> (Inl BE_PersistenceFailed, w1)
           | (Inr _, w1) \<Rightarrow> (Inl BE_ConsentRevoked, w1))
      | Inl err \<Rightarrow> (Inl (map_token_error err), w)
      | Inr (TokenGranted success) \<Rightarrow> refresh_granted p subject success w
      | Inr (TokenUnderScoped _ rotated) \<Rightarrow>
          (case persist_rotation p subject rotated w of
             (Inl err, w1) \<Rightarrow> (Inl err, w1)
           | (Inr _, w1) \<Rightarrow> (Inl BE_InsufficientScope, w1)))"

definition refresh_held ::
    "'e broker_ports \<Rightarrow> broker_config \<Rightarrow> validated_subject \<Rightarrow> ('e, broker_token) broker_op" where
  "refresh_held p cfg subject w =
     (case on_env (bp_load p subject) w of
        (Inl _, w1) \<Rightarrow> (Inl BE_PersistenceFailed, w1)
      | (Inr None, w1) \<Rightarrow> (Inl BE_MissingRefreshToken, w1)
      | (Inr (Some stored), w1) \<Rightarrow>
          if \<not> well_shaped_refresh stored then (Inl BE_PersistenceFailed, w1)
          else (case refresh_client_config p cfg of
              Inl err \<Rightarrow> (Inl err, w1)
            | Inr token_config \<Rightarrow>
                (case refresh_access_token_with_scope_outcome stored token_config (bp_refresh p)
                    (\<lambda>v. bp_clock p (bw_env v)) w1 of
                   (answer, w2) \<Rightarrow> refresh_answer p subject answer w2)))"

text \<open>The two statements each operation on an account subject starts with.\<close>

definition for_subject ::
    "string \<Rightarrow> (validated_subject \<Rightarrow> ('e, 'a) broker_op) \<Rightarrow> ('e, 'a) broker_op" where
  "for_subject account_subject body w =
     (case validated_subject_new account_subject of
        Inl err \<Rightarrow> (Inl err, w)
      | Inr subject \<Rightarrow> with_permit (validated_str subject) (body subject) w)"

definition broker_refresh ::
    "'e broker_ports \<Rightarrow> broker_config \<Rightarrow> string \<Rightarrow> ('e, broker_token) broker_op" where
  "broker_refresh p cfg account_subject = for_subject account_subject (refresh_held p cfg)"

definition revoke_confirmed :: "token_transport_error + unit \<Rightarrow> bool" where
  "revoke_confirmed r \<longleftrightarrow> r \<in> {Inr (), Inl TT_InvalidGrant, Inl TT_InvalidToken}"

definition revoke_held :: "'e broker_ports \<Rightarrow> validated_subject \<Rightarrow> ('e, unit) broker_op" where
  "revoke_held p subject w =
     (case on_env (bp_load p subject) w of
        (Inl _, w1) \<Rightarrow> (Inl BE_PersistenceFailed, w1)
      | (Inr None, w1) \<Rightarrow> (Inr (), w1)
      | (Inr (Some token), w1) \<Rightarrow>
          if \<not> well_shaped_refresh token then (Inl BE_PersistenceFailed, w1)
          else (case bp_revoke p token w1 of
              (first, w2) \<Rightarrow>
                if revoke_confirmed first then (Inr (), w2)
                else (case bp_revoke p token w2 of
                    (second, w3) \<Rightarrow>
                      if revoke_confirmed second then (Inr (), w3)
                      else (Inl BE_RevokeUnconfirmed, w3))))"

definition revoke_provider_grant :: "'e broker_ports \<Rightarrow> string \<Rightarrow> ('e, unit) broker_op" where
  "revoke_provider_grant p account_subject = for_subject account_subject (revoke_held p)"

definition delete_stored_tokens :: "'e broker_ports \<Rightarrow> string \<Rightarrow> ('e, unit) broker_op" where
  "delete_stored_tokens p account_subject = for_subject account_subject (\<lambda>subject w.
     apfst (map_err (\<lambda>_. BE_PersistenceFailed)) (on_env (bp_delete p subject) w))"

end
