(* ===== verification/Broker_Props.thy ===== *)
theory Broker_Props
  imports Broker
begin

text \<open>
  What the broker does to its store and to the provider. The calls of one operation are
  recorded by instrumented ports, so the traces hold for any store, any provider and
  whatever other operations do during an await. \<open>Broker_Store\<close> turns the traces into
  statements about the stored credentials.
\<close>

section \<open>Recorded calls\<close>

datatype broker_event =
    EvLoad validated_subject "refresh_token_store_error + string option"
  | EvStore validated_subject string bool
  | EvDelete validated_subject bool
  | EvRevoke string "token_transport_error + unit"
  | EvRefresh refresh_request "token_transport_error + token_response" duration

text \<open>A refresh request is recorded with its answer and the clock when the answer is there.\<close>

definition without_log :: "('e \<times> broker_event list) bworld \<Rightarrow> 'e bworld" where
  "without_log w = \<lparr>bw_registry = bw_registry w, bw_permits = bw_permits w, bw_env = fst (bw_env w)\<rparr>"

definition with_log :: "broker_event list \<Rightarrow> 'e bworld \<Rightarrow> ('e \<times> broker_event list) bworld" where
  "with_log events w = \<lparr>bw_registry = bw_registry w, bw_permits = bw_permits w, bw_env = (bw_env w, events)\<rparr>"

definition logged_await ::
    "('a \<Rightarrow> 'e \<Rightarrow> broker_event list) \<Rightarrow> ('e bworld \<Rightarrow> 'a \<times> 'e bworld)
      \<Rightarrow> ('e \<times> broker_event list) bworld \<Rightarrow> 'a \<times> ('e \<times> broker_event list) bworld" where
  "logged_await event f w =
     (case f (without_log w) of (r, w1) \<Rightarrow> (r, with_log (snd (bw_env w) @ event r (bw_env w1)) w1))"

definition logged_call ::
    "('a \<Rightarrow> broker_event list) \<Rightarrow> ('e \<Rightarrow> 'a \<times> 'e)
      \<Rightarrow> 'e \<times> broker_event list \<Rightarrow> 'a \<times> 'e \<times> broker_event list" where
  "logged_call event f e = (case f (fst e) of (r, e1) \<Rightarrow> (r, e1, snd e @ event r))"

definition logged_ports :: "'e broker_ports \<Rightarrow> ('e \<times> broker_event list) broker_ports" where
  "logged_ports p =
     \<lparr>bp_exchange = \<lambda>q. logged_await (\<lambda>_ _. []) (bp_exchange p q),
      bp_refresh = \<lambda>q. logged_await (\<lambda>r e. [EvRefresh q r (bp_clock p e)]) (bp_refresh p q),
      bp_revoke = \<lambda>t. logged_await (\<lambda>r _. [EvRevoke t r]) (bp_revoke p t),
      bp_store = \<lambda>s t. logged_call (\<lambda>r. [EvStore s t (is_ok r)]) (bp_store p s t),
      bp_load = \<lambda>s. logged_call (\<lambda>r. [EvLoad s r]) (bp_load p s),
      bp_delete = \<lambda>s. logged_call (\<lambda>r. [EvDelete s (is_ok r)]) (bp_delete p s),
      bp_clock = bp_clock p \<circ> fst, bp_wall = bp_wall p \<circ> fst,
      bp_handle_bytes = logged_call (\<lambda>_. []) (bp_handle_bytes p),
      bp_random = \<lambda>n. logged_call (\<lambda>_. []) (bp_random p n),
      bp_parse_url = bp_parse_url p, bp_encode = bp_encode p, bp_sha256 = bp_sha256 p,
      bp_build_url = bp_build_url p\<rparr>"

abbreviation events :: "('e \<times> broker_event list) bworld \<Rightarrow> broker_event list" where
  "events w \<equiv> snd (bw_env w)"

lemma events_permits [simp]:
  "events (w\<lparr>bw_permits := x\<rparr>) = events w" "events (w\<lparr>bw_registry := y\<rparr>) = events w"
  by simp_all

lemma logged_load:
  "on_env (bp_load (logged_ports p) s) w = (r, w1) \<Longrightarrow> events w1 = events w @ [EvLoad s r]"
  by (auto simp: logged_ports_def on_env_def logged_call_def split: prod.splits)

lemma logged_store:
  "on_env (bp_store (logged_ports p) s t) w = (r, w1) \<Longrightarrow> events w1 = events w @ [EvStore s t (is_ok r)]"
  by (auto simp: logged_ports_def on_env_def logged_call_def split: prod.splits)

lemma logged_delete:
  "on_env (bp_delete (logged_ports p) s) w = (r, w1) \<Longrightarrow> events w1 = events w @ [EvDelete s (is_ok r)]"
  by (auto simp: logged_ports_def on_env_def logged_call_def split: prod.splits)

lemma logged_revoke:
  "bp_revoke (logged_ports p) t w = (r, w1) \<Longrightarrow> events w1 = events w @ [EvRevoke t r]"
  by (auto simp: logged_ports_def logged_await_def with_log_def split: prod.splits)

lemma logged_exchange:
  "bp_exchange (logged_ports p) q w = (r, w1) \<Longrightarrow> events w1 = events w"
  by (auto simp: logged_ports_def logged_await_def with_log_def split: prod.splits)

lemma logged_refresh:
  "bp_refresh (logged_ports p) q w = (x, w1) \<Longrightarrow>
     events w1 = events w @ [EvRefresh q x (bp_clock (logged_ports p) (bw_env w1))]
     \<and> (\<exists>v. fst (bp_refresh p q v) = x)"
  by (auto simp: logged_ports_def logged_await_def with_log_def split: prod.splits) (metis fst_conv)

lemmas logged_events = logged_load logged_store logged_delete logged_revoke logged_exchange

section \<open>The trace of a completion\<close>

lemma stranded_events:
  assumes "stranded (logged_ports p) snap success err w = (r, w1)"
  shows "r = Inl err \<and> (events w1 = events w
    \<or> (\<exists>t ans. licenses_revoke snap \<and> revoke_handle success = Some t
        \<and> events w1 = events w @ [EvRevoke t ans]))"
proof -
  have "events (snd (bp_revoke (logged_ports p) t w)) = events w @ [EvRevoke t (fst (bp_revoke (logged_ports p) t w))]" for t
    using logged_revoke [of p t w] by (metis prod.collapse)
  with assms show ?thesis
    by (auto simp: stranded_def revoke_stranded_grant_def revoke_best_effort_def
        split: if_splits option.splits)
qed

definition clean_completion :: "broker_event list \<Rightarrow> bool" where
  "clean_completion evs \<longleftrightarrow>
     evs = [] \<or> (\<exists>s a. evs = [EvLoad s a])
     \<or> (\<exists>s t b. evs = [EvLoad s (Inr None), EvRevoke t b])
     \<or> (\<exists>s v t. well_shaped_refresh t \<and> evs = [EvLoad s (Inr v), EvStore s t False])
     \<or> (\<exists>s t b. well_shaped_refresh t
          \<and> evs = [EvLoad s (Inr None), EvStore s t False, EvRevoke t b])"

definition completed :: "broker_token \<Rightarrow> broker_event list \<Rightarrow> bool" where
  "completed token evs \<longleftrightarrow>
     (\<exists>v t. well_shaped_refresh t \<and> (let s = ValidatedSubject (bt_subject token) in
        evs = [EvLoad s (Inr v), EvStore s t True]))"

definition completion_trace :: "broker_error + broker_token \<Rightarrow> broker_event list \<Rightarrow> bool" where
  "completion_trace r evs \<longleftrightarrow>
     (case r of Inr token \<Rightarrow> completed token evs | Inl _ \<Rightarrow> clean_completion evs)"

lemma revoke_handle_well_shaped:
  "ts_rotated_refresh_token success = Some t \<Longrightarrow> well_shaped_refresh t \<Longrightarrow> revoke_handle success = Some t"
  by (simp add: revoke_handle_def)

lemma mint_broker_token_Inr:
  "mint_broker_token now success = Inr token \<Longrightarrow>
     bt_subject token = subject_str (ts_subject success)
     \<and> bt_access_token token = at_secret (ts_access_token success)
     \<and> length (bt_access_token token) \<le> MAX_ACCESS_TOKEN_LEN
     \<and> 0 < bt_expires_in_seconds token \<and> bt_expires_in_seconds token \<le> MAX_EXPIRES_IN_SECS"
  by (auto simp: mint_broker_token_def Let_def split: if_splits)

lemma complete_granted_trace:
  assumes "complete_granted (logged_ports p) success subject w = (r, w')"
    and "subject_str (ts_subject success) = validated_str subject"
  shows "\<exists>evs. events w' = events w @ evs \<and> completion_trace r evs"
proof -
  obtain a w1 where load: "on_env (bp_load (logged_ports p) subject) w = (a, w1)" by fastforce
  note w1 = logged_load [OF load]
  show ?thesis
  proof (cases a)
    case (Inl err)
    with assms load w1 show ?thesis
      by (auto simp: complete_granted_def completion_trace_def clean_completion_def)
  next
    case (Inr stored)
    define snap where "snap = (case stored of None \<Rightarrow> SnapshotEmpty | Some _ \<Rightarrow> SnapshotOccupied)"
    have licensed: "licenses_revoke snap \<longleftrightarrow> stored = None"
      by (auto simp: snap_def split: option.splits)
    have early: ?thesis if "stranded (logged_ports p) snap success err w1 = (r, w')" for err
      using stranded_events [OF that] w1 Inr licensed
      by (auto simp: completion_trace_def clean_completion_def)
    note run = assms(1) [unfolded complete_granted_def load Inr prod.case sum.case Let_def,
        folded snap_def]
    show ?thesis
    proof (cases "\<exists>err. stranded (logged_ports p) snap success err w1 = (r, w')")
      case False
      with run obtain token t where mint: "mint_broker_token (bp_clock (logged_ports p) (bw_env w1)) success = Inr token"
        and rot: "ts_rotated_refresh_token success = Some t" "well_shaped_refresh t"
        by (auto split: if_splits sum.splits option.splits)
      obtain st w2 where store: "on_env (bp_store (logged_ports p) subject t) w1 = (st, w2)" by fastforce
      note w2 = logged_store [OF store]
      show ?thesis
      proof (cases st)
        case (Inl err)
        with run mint rot store False
        have "stranded (logged_ports p) snap success BE_PersistenceFailed w2 = (r, w')"
          by (auto split: if_splits)
        from stranded_events [OF this] show ?thesis
          using w1 w2 Inl Inr rot licensed revoke_handle_well_shaped [OF rot]
          by (auto simp: completion_trace_def clean_completion_def \<open>a = Inr stored\<close>)
      next
        case (Inr u)
        with run mint rot store False have "r = Inr token" "w' = w2"
          by (auto split: if_splits)
        then show ?thesis
          using w1 w2 Inr rot \<open>a = Inr stored\<close> mint_broker_token_Inr [OF mint] assms(2)
          by (simp add: completion_trace_def completed_def)
      qed
    qed (use early in blast)
  qed
qed

lemma with_permit_cases:
  assumes "with_permit s body w = (r, w')"
  obtains err where "r = Inl err" "err \<in> {BE_Busy, BE_Unavailable}" "w' = w"
  | held w1 where "bw_permits w = Healthy held" "s \<notin> held" "card held < MAX_SUBJECT_PERMITS"
      "body (w\<lparr>bw_permits := Healthy (insert s held)\<rparr>) = (r, w1)"
      "w' = w1\<lparr>bw_permits := permit_drop s (bw_permits w1)\<rparr>"
  using assms
  by (auto simp: with_permit_def permits_claim_def split: mutex.splits if_splits prod.splits)

lemma validated_subject_new_Inr:
  "validated_subject_new t = Inr s \<longleftrightarrow>
     s = ValidatedSubject t \<and> t \<noteq> [] \<and> length t \<le> MAX_SUBJECT_LEN \<and> list_all is_ascii_graphic t"
  by (auto simp: validated_subject_new_def Let_def)

lemma completion_trace_Nil [simp]: "completion_trace (Inl err) []"
  by (simp add: completion_trace_def clean_completion_def)

lemma complete_outcome_trace:
  assumes "complete_outcome (logged_ports p) outcome w = (r, w')"
  shows "\<exists>evs. events w' = events w @ evs \<and> completion_trace r evs"
proof (cases outcome)
  case (TokenGranted success)
  show ?thesis
  proof (cases "validated_subject_new (subject_str (ts_subject success))")
    case (Inr subject)
    then have str: "subject_str (ts_subject success) = validated_str subject"
      by (auto simp: validated_subject_new_Inr)
    from assms TokenGranted Inr
    have "with_permit (validated_str subject) (complete_granted (logged_ports p) success subject) w = (r, w')"
      by (simp add: complete_outcome_def)
    then show ?thesis
    proof (cases rule: with_permit_cases)
      case (2 held w1)
      from complete_granted_trace [OF 2(4) str] 2(5) show ?thesis by simp
    qed simp
  qed (use assms TokenGranted in \<open>auto simp: complete_outcome_def\<close>)
qed (use assms in \<open>auto simp: complete_outcome_def\<close>)

lemma complete_authorization_trace:
  "case complete_authorization (logged_ports p) cfg handle_text callback_url (with_log [] w) of
     (r, w') \<Rightarrow> completion_trace r (events w')"
proof -
  obtain r w' where run: "complete_authorization (logged_ports p) cfg handle_text callback_url
      (with_log [] w) = (r, w')" by fastforce
  have start: "events (with_log [] w) = []" by (simp add: with_log_def)
  consider (early) err where "r = Inl err" "events w' = []"
    | (answered) outcome w2 where "events w2 = []"
        "complete_outcome (logged_ports p) outcome w2 = (r, w')"
  proof (cases "handle_parse handle_text")
    case (Inl err)
    with run start early show ?thesis by (auto simp: complete_authorization_def)
  next
    case (Inr handle)
    obtain claimed registry where claim: "registry_claim handle (bw_registry (with_log [] w)) = (claimed, registry)"
      by fastforce
    define w1 where "w1 = (with_log [] w)\<lparr>bw_registry := registry\<rparr>"
    have w1: "events w1 = []" by (simp add: w1_def start)
    show ?thesis
    proof (cases "rbind claimed (\<lambda>session. finish_callback (logged_ports p) cfg callback_url session
        (bp_clock (logged_ports p) (bw_env (with_log [] w))))")
      case (Inl err)
      with run Inr claim have "r = Inl err" "w' = w1"
        by (simp_all add: complete_authorization_def Let_def w1_def)
      with w1 early show ?thesis by blast
    next
      case (Inr go)
      obtain grant config where go: "go = (grant, config)" by fastforce
      obtain x w2 where call: "bp_exchange (logged_ports p) (exchange_request_new grant config) w1 = (x, w2)"
        by fastforce
      then have w2: "events w2 = []" using logged_exchange [OF call] w1 by simp
      have "(case exchange_grant_with_scope_outcome grant config (bp_exchange (logged_ports p))
          (\<lambda>v. bp_clock (logged_ports p) (bw_env v)) w1 of
            (Inl err, w2) \<Rightarrow> (Inl (map_token_error err), w2)
          | (Inr outcome, w2) \<Rightarrow> complete_outcome (logged_ports p) outcome w2) = (r, w')"
        using run \<open>handle_parse handle_text = Inr handle\<close> claim Inr go
        by (simp add: complete_authorization_def Let_def w1_def)
      then show ?thesis
        using call w2 early answered
        by (auto simp: exchange_grant_with_scope_outcome_def split: sum.splits)
    qed
  qed
  then have "completion_trace r (events w')"
  proof cases
    case answered
    from complete_outcome_trace [OF answered(2)] answered(1) show ?thesis by simp
  qed simp
  with run show ?thesis by simp
qed


section \<open>The trace of a refresh and of a revocation\<close>

text \<open>
  A rotation comes before everything else that is said of the answer: with no new token nothing
  is stored, a malformed one is refused with nothing stored, and any other one is stored under
  the subject, a failure of which is the outcome.
\<close>

definition rotation_first ::
    "validated_subject \<Rightarrow> string option \<Rightarrow> (broker_error + broker_token \<Rightarrow> bool)
      \<Rightarrow> broker_error + broker_token \<Rightarrow> broker_event list \<Rightarrow> bool" where
  "rotation_first s rotated outcome r evs \<longleftrightarrow>
     (case rotated of
        None \<Rightarrow> evs = [] \<and> outcome r
      | Some t \<Rightarrow>
          if well_shaped_refresh t
          then \<exists>ok. evs = [EvStore s t ok] \<and> (if ok then outcome r else r = Inl BE_PersistenceFailed)
          else evs = [] \<and> r = Inl BE_MalformedResponse)"

text \<open>
  What may be reported of a full grant once its rotation is stored: the token of this answer for
  this subject, or that the identity is no longer fresh or the token unusable.
\<close>

definition refreshed :: "validated_subject \<Rightarrow> token_response \<Rightarrow> broker_error + broker_token \<Rightarrow> bool" where
  "refreshed s resp r \<longleftrightarrow>
     (case r of
        Inr token \<Rightarrow> bt_subject token = validated_str s \<and> bt_access_token token = tr_access_token resp
      | Inl err \<Rightarrow> err \<in> {BE_IdentityUnverified, BE_MalformedResponse})"

text \<open>
  What has to follow the provider's answer to a refresh request, as a function of that answer:
  the store calls after it and the outcome. Only a refused grant deletes the credential.
\<close>

definition after_answer ::
    "validated_subject \<Rightarrow> string \<Rightarrow> token_transport_error + token_response \<Rightarrow> duration
      \<Rightarrow> broker_error + broker_token \<Rightarrow> broker_event list \<Rightarrow> bool" where
  "after_answer s client x now r evs \<longleftrightarrow>
     (case x of
        Inl err \<Rightarrow>
          if err = TT_InvalidGrant
          then \<exists>ok. evs = [EvDelete s ok] \<and> r = Inl (if ok then BE_ConsentRevoked else BE_PersistenceFailed)
          else evs = [] \<and> r = Inl (if err = TT_Transport then BE_Transport
            else if err = TT_MalformedResponse then BE_MalformedResponse else BE_ProviderRejected)
      | Inr resp \<Rightarrow>
          if tr_access_token resp = [] then evs = [] \<and> r = Inl BE_MalformedResponse
          else if \<not> tr_gmail_read_granted resp
          then rotation_first s (tr_rotated_refresh_token resp) (\<lambda>r. r = Inl BE_InsufficientScope) r evs
          else if now + tr_expires_in resp > DURATION_MAX then evs = [] \<and> r = Inl BE_MalformedResponse
          else (case tr_id_token_claims resp of
              None \<Rightarrow> evs = [] \<and> r = Inl BE_IdentityUnverified
            | Some c \<Rightarrow>
                if \<not> claims_verified c client then evs = [] \<and> r = Inl BE_IdentityUnverified
                else if str_trim (ic_subject c) \<noteq> validated_str s then evs = [] \<and> r = Inl BE_IdentityMismatch
                else rotation_first s (tr_rotated_refresh_token resp) (refreshed s resp) r evs))"

text \<open>
  The calls of a whole refresh: the slot is read; without a usable token nothing is asked; else
  the provider is asked once, with the token that was read and as this client.
\<close>

definition refresh_trace ::
    "'e broker_ports \<Rightarrow> broker_config \<Rightarrow> string \<Rightarrow> broker_error + broker_token \<Rightarrow> broker_event list \<Rightarrow> bool" where
  "refresh_trace p cfg text r evs \<longleftrightarrow>
     (let s = ValidatedSubject text in
        evs = [] \<and> r \<in> {Inl BE_InvalidInput, Inl BE_Busy, Inl BE_Unavailable}
        \<or> (\<exists>err. evs = [EvLoad s (Inl err)]) \<and> r = Inl BE_PersistenceFailed
        \<or> evs = [EvLoad s (Inr None)] \<and> r = Inl BE_MissingRefreshToken
        \<or> (\<exists>old. evs = [EvLoad s (Inr (Some old))]
             \<and> r = Inl (if well_shaped_refresh old then BE_InvalidConfiguration else BE_PersistenceFailed))
        \<or> (\<exists>old x now rest.
             let q = \<lparr>rr_refresh_token = old, rr_client_id = bc_client_id cfg,
                      rr_client_secret = bc_client_secret cfg\<rparr>
             in evs = EvLoad s (Inr (Some old)) # EvRefresh q x now # rest \<and> well_shaped_refresh old
                \<and> (\<exists>v. fst (bp_refresh p q v) = x)
                \<and> after_answer s (bc_client_id cfg) x now r rest))"

lemma persist_rotation_events:
  assumes "persist_rotation (logged_ports p) s rotated w = (a, w1)"
    and "\<And>u. a = Inr u \<Longrightarrow> outcome r" and "\<And>err. a = Inl err \<Longrightarrow> r = Inl err"
  shows "\<exists>evs. events w1 = events w @ evs \<and> rotation_first s rotated outcome r evs"
proof (cases "\<exists>t. rotated = Some t \<and> well_shaped_refresh t")
  case True
  then obtain t where t: "rotated = Some t" "well_shaped_refresh t" by auto
  obtain b w2 where store: "on_env (bp_store (logged_ports p) s t) w = (b, w2)" by fastforce
  from logged_store [OF store] assms t store show ?thesis
    by (cases b) (auto simp: persist_rotation_def rotation_first_def)
next
  case False
  with assms show ?thesis
    by (auto simp: persist_rotation_def rotation_first_def split: option.splits)
qed

lemma mint_broker_token_Inl: "mint_broker_token now success = Inl err \<Longrightarrow> err = BE_MalformedResponse"
  by (auto simp: mint_broker_token_def Let_def split: if_splits)

lemma scope_outcome_eq:
  "scope_outcome_from_response resp now config =
     (if tr_access_token resp = [] then Inl TE_MalformedResponse
      else if \<not> tr_gmail_read_granted resp
      then Inr (TokenUnderScoped (tr_access_token resp) (tr_rotated_refresh_token resp))
      else if now + tr_expires_in resp > DURATION_MAX then Inl TE_MalformedResponse
      else (case tr_id_token_claims resp of
          None \<Rightarrow> Inl TE_IdentityUnverified
        | Some c \<Rightarrow> if claims_verified c (tc_client_id config)
            then Inr (TokenGranted (success_of config now resp c)) else Inl TE_IdentityUnverified))"
  by (auto simp: scope_outcome_from_response_def token_success_from_parts_def
      validate_account_subject_eq duration_checked_add_def success_of_def split: option.splits)

lemma refresh_granted_trace:
  assumes "refresh_granted (logged_ports p) s (success_of config now resp c) w = (r, w')"
    and "str_trim (ic_subject c) = validated_str s"
  shows "\<exists>evs. events w' = events w @ evs
    \<and> rotation_first s (tr_rotated_refresh_token resp) (refreshed s resp) r evs"
proof -
  let ?success = "success_of config now resp c"
  obtain a w1 where per: "persist_rotation (logged_ports p) s (tr_rotated_refresh_token resp) w = (a, w1)"
    by fastforce
  have run: "(case a of Inl err \<Rightarrow> (Inl err, w1) | Inr _ \<Rightarrow>
      if \<not> is_ok (validate_fresh (ts_identity_expiry ?success) (bp_wall (logged_ports p) (bw_env w1))
          IDENTITY_FRESHNESS_SKEW_SECS)
      then (Inl BE_IdentityUnverified, w1)
      else (mint_broker_token (bp_clock (logged_ports p) (bw_env w1)) ?success, w1)) = (r, w')"
    using assms per by (auto simp: refresh_granted_def success_of_def split: sum.splits if_splits)
  then have w': "w' = w1" by (auto split: sum.splits if_splits)
  have mint: "refreshed s resp (mint_broker_token n ?success)" for n
    using mint_broker_token_Inl [of n ?success] mint_broker_token_Inr [of n ?success] assms(2)
    by (cases "mint_broker_token n ?success") (simp_all add: refreshed_def success_of_def)
  have "refreshed s resp r" if "a = Inr u" for u
  proof -
    have "refreshed s resp (Inl BE_IdentityUnverified)" by (simp add: refreshed_def)
    with run that mint show ?thesis by (auto split: if_splits)
  qed
  moreover have "r = Inl err" if "a = Inl err" for err using run that by simp
  ultimately show ?thesis unfolding w' by (rule persist_rotation_events [OF per])
qed

lemma refresh_answer_trace:
  assumes "refresh_answer (logged_ports p) s answer w = (r, w')"
    and "answer = (case x of Inl err \<Rightarrow> Inl (map_transport_error err)
      | Inr resp \<Rightarrow> scope_outcome_from_response resp now config)"
  shows "\<exists>evs. events w' = events w @ evs \<and> after_answer s (tc_client_id config) x now r evs"
proof (cases x)
  case (Inl err)
  show ?thesis
  proof (cases "err = TT_InvalidGrant")
    case True
    obtain a w1 where del: "on_env (bp_delete (logged_ports p) s) w = (a, w1)" by fastforce
    from logged_delete [OF del] assms Inl True del show ?thesis
      by (cases a) (auto simp: refresh_answer_def after_answer_def)
  next
    case False
    with assms Inl have "w' = w" by (cases err; simp add: refresh_answer_def)
    with assms Inl False show ?thesis
      by (cases err; simp add: refresh_answer_def after_answer_def)
  qed
next
  case (Inr resp)
  consider (refused) err where "answer = Inl err" "err \<noteq> TE_ConsentRevoked"
      "after_answer s (tc_client_id config) x now (Inl (map_token_error err)) []"
    | (under) "tr_access_token resp \<noteq> []" "\<not> tr_gmail_read_granted resp"
        "answer = Inr (TokenUnderScoped (tr_access_token resp) (tr_rotated_refresh_token resp))"
    | (granted) c where "tr_access_token resp \<noteq> []" "tr_gmail_read_granted resp"
        "now + tr_expires_in resp \<le> DURATION_MAX" "tr_id_token_claims resp = Some c"
        "claims_verified c (tc_client_id config)" "answer = Inr (TokenGranted (success_of config now resp c))"
    using assms(2) Inr
    by (force simp: scope_outcome_eq after_answer_def split: if_splits option.splits)
  then show ?thesis
  proof cases
    case refused
    with assms(1) have "r = Inl (map_token_error err)" "w' = w"
      by (cases err; simp add: refresh_answer_def)+
    with refused show ?thesis by simp
  next
    case under
    obtain a w1 where per: "persist_rotation (logged_ports p) s (tr_rotated_refresh_token resp) w = (a, w1)"
      by fastforce
    with assms(1) under have "w' = w1" "\<And>u. a = Inr u \<Longrightarrow> r = Inl BE_InsufficientScope"
        "\<And>err. a = Inl err \<Longrightarrow> r = Inl err"
      by (auto simp: refresh_answer_def split: sum.splits)
    with persist_rotation_events [OF per, of "\<lambda>r. r = Inl BE_InsufficientScope" r] under Inr show ?thesis
      by (simp add: after_answer_def)
  next
    case granted
    have run: "refresh_granted (logged_ports p) s (success_of config now resp c) w = (r, w')"
      using assms(1) granted by (simp add: refresh_answer_def)
    show ?thesis
    proof (cases "str_trim (ic_subject c) = validated_str s")
      case True
      have "after_answer s (tc_client_id config) x now r
          = rotation_first s (tr_rotated_refresh_token resp) (refreshed s resp) r"
        using granted True Inr by (simp add: fun_eq_iff after_answer_def)
      with refresh_granted_trace [OF run True] show ?thesis by simp
    next
      case False
      with run have "r = Inl BE_IdentityMismatch" "w' = w" by (auto simp: refresh_granted_def success_of_def)
      with granted False Inr show ?thesis by (simp add: after_answer_def)
    qed
  qed
qed

lemma refresh_client_config_Inr:
  "refresh_client_config p cfg = Inr config \<Longrightarrow>
     tc_client_id config = bc_client_id cfg \<and> tc_client_secret config = bc_client_secret cfg"
  by (auto simp: refresh_client_config_def broker_token_client_config_def token_client_config_new_def
      Let_def result_simps split: if_splits)

lemma refresh_client_config_Inl:
  "refresh_client_config p cfg = Inl err \<Longrightarrow> err = BE_InvalidConfiguration"
  by (cases "bp_parse_url p ''http://127.0.0.1/''")
     (auto simp: refresh_client_config_def broker_token_client_config_def map_err_Inl)

lemma logged_config [simp]: "refresh_client_config (logged_ports p) cfg = refresh_client_config p cfg"
  by (simp add: refresh_client_config_def logged_ports_def)

lemma refresh_held_trace:
  assumes "refresh_held (logged_ports p) cfg s w = (r, w')" and "events w = []"
  shows "refresh_trace p cfg (validated_str s) r (events w')"
proof -
  obtain a w1 where load: "on_env (bp_load (logged_ports p) s) w = (a, w1)" by fastforce
  have w1: "events w1 = [EvLoad s a]" using logged_load [OF load] assms(2) by simp
  show ?thesis
  proof (cases "\<exists>old config. a = Inr (Some old) \<and> well_shaped_refresh old
      \<and> refresh_client_config p cfg = Inr config")
    case False
    then consider (failed) e where "a = Inl e" | (none) "a = Inr None"
      | (ill) old where "a = Inr (Some old)" "\<not> well_shaped_refresh old"
      | (config) old e where "a = Inr (Some old)" "well_shaped_refresh old" "refresh_client_config p cfg = Inl e"
      by (metis option.exhaust sum.exhaust)
    then show ?thesis
    proof cases
      case config
      with assms load refresh_client_config_Inl [OF config(3)]
      have "r = Inl BE_InvalidConfiguration" "w' = w1" by (simp_all add: refresh_held_def)
      with w1 config show ?thesis by (simp add: refresh_trace_def)
    qed (use assms load w1 in \<open>simp_all add: refresh_held_def refresh_trace_def\<close>)
  next
    case True
    then obtain old config where ok: "a = Inr (Some old)" "well_shaped_refresh old"
        "refresh_client_config p cfg = Inr config" by auto
    let ?q = "\<lparr>rr_refresh_token = old, rr_client_id = bc_client_id cfg, rr_client_secret = bc_client_secret cfg\<rparr>"
    have q: "refresh_request_new old config = ?q" "tc_client_id config = bc_client_id cfg"
      using refresh_client_config_Inr [OF ok(3)] by (simp_all add: refresh_request_new_def)
    obtain x w2 where call: "bp_refresh (logged_ports p) ?q w1 = (x, w2)" by fastforce
    note asked = logged_refresh [OF call]
    let ?now = "bp_clock (logged_ports p) (bw_env w2)"
    have "refresh_answer (logged_ports p) s (case x of Inl err \<Rightarrow> Inl (map_transport_error err)
        | Inr resp \<Rightarrow> scope_outcome_from_response resp ?now config) w2 = (r, w')"
      using assms load ok call q
      by (cases x) (simp_all add: refresh_held_def refresh_access_token_with_scope_outcome_def)
    from refresh_answer_trace [OF this refl] obtain evs where
      "events w' = events w2 @ evs" "after_answer s (bc_client_id cfg) x ?now r evs" unfolding q(2) by blast
    then show ?thesis
      unfolding refresh_trace_def Let_def
      using asked w1 ok by (intro disjI2 exI [of _ old] exI [of _ x] exI [of _ ?now] exI [of _ evs]) simp
  qed
qed

lemma for_subject_cases:
  assumes "for_subject text body w = (r, w')"
  obtains err where "r = Inl err" "err \<in> {BE_InvalidInput, BE_Busy, BE_Unavailable}" "w' = w"
  | held w1 where "bw_permits w = Healthy held" "text \<notin> held" "card held < MAX_SUBJECT_PERMITS"
      "body (ValidatedSubject text) (w\<lparr>bw_permits := Healthy (insert text held)\<rparr>) = (r, w1)"
      "w' = w1\<lparr>bw_permits := permit_drop text (bw_permits w1)\<rparr>"
proof (cases "validated_subject_new text")
  case (Inl err)
  with assms that(1) show ?thesis
    by (auto simp: for_subject_def validated_subject_new_def Let_def split: if_splits)
next
  case (Inr s)
  then have s: "s = ValidatedSubject text" by (simp add: validated_subject_new_Inr)
  with assms Inr have "with_permit text (body s) w = (r, w')" by (simp add: for_subject_def)
  then show ?thesis by (rule with_permit_cases) (use that s in auto)
qed

lemma broker_refresh_trace:
  "case broker_refresh (logged_ports p) cfg text (with_log [] w) of
     (r, w') \<Rightarrow> refresh_trace p cfg text r (events w')"
proof -
  obtain r w' where run: "broker_refresh (logged_ports p) cfg text (with_log [] w) = (r, w')" by fastforce
  have start: "events (with_log [] w) = []" by (simp add: with_log_def)
  from run have "refresh_trace p cfg text r (events w')"
    unfolding broker_refresh_def
  proof (cases rule: for_subject_cases)
    case (1 err)
    with start show ?thesis by (auto simp: refresh_trace_def)
  next
    case (2 held w1)
    then have "refresh_trace p cfg text r (events w1)"
      using refresh_held_trace [OF 2(4)] start by simp
    with 2(5) show ?thesis by simp
  qed
  with run show ?thesis by simp
qed

text \<open>
  C6. What a refresh does to its subject's slot is a function of the provider's answer. It reads
  the slot, asks once with the token it read, and then: a refused grant deletes the slot, which
  is reported as revoked consent exactly when the deletion succeeded; no other refusal and no
  failure of the transport touches it. A token answer that carries a rotated refresh token for
  this subject has that token, and no other, stored before anything is reported: there is no
  success, and no report of a missing scope, before the store succeeded, and a failed store is
  the outcome. Without a rotation, for another subject or with unverified claims nothing is
  stored. A success is for the requested subject with the access token of that answer. No
  refresh revokes.
\<close>

theorem refresh_keeps_or_rotates:
  "case broker_refresh (logged_ports p) cfg text (with_log [] w) of
     (r, w') \<Rightarrow> refresh_trace p cfg text r (events w')"
  by (rule broker_refresh_trace)

definition revoke_trace :: "string \<Rightarrow> broker_error + unit \<Rightarrow> broker_event list \<Rightarrow> bool" where
  "revoke_trace text r evs \<longleftrightarrow>
     (let s = ValidatedSubject text in
        evs = [] \<and> r \<in> {Inl BE_InvalidInput, Inl BE_Busy, Inl BE_Unavailable}
        \<or> (\<exists>a. evs = [EvLoad s a]) \<and> r = Inl BE_PersistenceFailed
        \<or> evs = [EvLoad s (Inr None)] \<and> r = Inr ()
        \<or> (\<exists>t x. evs = [EvLoad s (Inr (Some t)), EvRevoke t x] \<and> revoke_confirmed x \<and> r = Inr ())
        \<or> (\<exists>t x y. evs = [EvLoad s (Inr (Some t)), EvRevoke t x, EvRevoke t y] \<and> \<not> revoke_confirmed x
            \<and> r = (if revoke_confirmed y then Inr () else Inl BE_RevokeUnconfirmed)))"

text \<open>
  Revoking at the provider never changes the store and sends only the stored token, at
  most twice, the second time only after an unconfirmed first answer. It succeeds exactly
  when nothing is stored or an answer confirmed that the grant is gone; an unconfirmed
  revocation is reported after exactly two failed answers.
\<close>

theorem revoke_at_most_twice:
  "case revoke_provider_grant (logged_ports p) text (with_log [] w) of
     (r, w') \<Rightarrow> revoke_trace text r (events w')"
proof -
  obtain r w' where run: "revoke_provider_grant (logged_ports p) text (with_log [] w) = (r, w')" by fastforce
  have start: "events (with_log [] w) = []" by (simp add: with_log_def)
  have held: "revoke_held (logged_ports p) s v = (r, v') \<Longrightarrow> events v = [] \<Longrightarrow>
        (\<exists>a. events v' = [EvLoad s a]) \<and> r = Inl BE_PersistenceFailed
        \<or> events v' = [EvLoad s (Inr None)] \<and> r = Inr ()
        \<or> (\<exists>t x. events v' = [EvLoad s (Inr (Some t)), EvRevoke t x] \<and> revoke_confirmed x \<and> r = Inr ())
        \<or> (\<exists>t x y. events v' = [EvLoad s (Inr (Some t)), EvRevoke t x, EvRevoke t y] \<and> \<not> revoke_confirmed x
            \<and> r = (if revoke_confirmed y then Inr () else Inl BE_RevokeUnconfirmed))" for s v v'
    using logged_load [of p s v] logged_revoke [of p]
    by (auto simp: revoke_held_def split: sum.splits prod.splits option.splits if_splits)
  have locked: "for_subject text (revoke_held (logged_ports p)) (with_log [] w) = (r, w')"
    using run by (simp add: revoke_provider_grant_def)
  from locked have "revoke_trace text r (events w')"
  proof (cases rule: for_subject_cases)
    case (1 err)
    with start show ?thesis by (auto simp: revoke_trace_def Let_def)
  next
    case (2 h w1)
    from held [OF 2(4)] start 2(5) show ?thesis by (simp add: revoke_trace_def Let_def)
  qed
  with run show ?thesis by simp
qed

end
