(* ===== verification/Broker_State.thy ===== *)
theory Broker_State
  imports Broker_Props
begin

text \<open>
  The two pieces of state the broker itself keeps: the subject permits, which serialise the
  mutations of one credential, and the registry of pending sessions, whose removal of a
  session is the one claim a callback can make.
\<close>

section \<open>Permits\<close>

definition held_subjects :: "'e bworld \<Rightarrow> string set" where
  "held_subjects w = mutex_content (bw_permits w)"

lemma permit_drop_content [simp]: "mutex_content (permit_drop s permits) = mutex_content permits - {s}"
  by (cases permits) (simp_all add: permit_drop_def)

lemma for_subject_body_cong:
  assumes "\<And>v. text \<in> held_subjects v \<Longrightarrow> card (held_subjects v) \<le> MAX_SUBJECT_PERMITS \<Longrightarrow>
      body (ValidatedSubject text) v = body' (ValidatedSubject text) v"
    and "finite (held_subjects w)"
  shows "for_subject text body w = for_subject text body' w"
proof (cases "validated_subject_new text")
  case (Inr s)
  then have s: "s = ValidatedSubject text" by (simp add: validated_subject_new_Inr)
  show ?thesis
  proof (cases "permits_claim text (bw_permits w)")
    case (Inr permits)
    then obtain held where "bw_permits w = Healthy held" "text \<notin> held" "card held < MAX_SUBJECT_PERMITS"
        "permits = Healthy (insert text held)"
      by (auto simp: permits_claim_def split: mutex.splits if_splits)
    with assms(2) have "body s (w\<lparr>bw_permits := permits\<rparr>) = body' s (w\<lparr>bw_permits := permits\<rparr>)"
      unfolding s by (intro assms(1)) (auto simp: held_subjects_def)
    with \<open>validated_subject_new text = Inr s\<close> s Inr show ?thesis
      by (simp add: for_subject_def with_permit_def)
  qed (simp add: for_subject_def with_permit_def \<open>validated_subject_new text = Inr s\<close> s)
qed (simp add: for_subject_def)

text \<open>
  C32. Mutations of one subject never overlap. While its permit is held, every operation on
  it is refused without touching the world; an operation that was admitted runs only in
  worlds where it holds the permit, among at most 32, and on every way out, success or
  error, the subject is free again.
\<close>

theorem mutations_are_serialised:
  fixes w :: "'e bworld" and body :: "validated_subject \<Rightarrow> ('e, 'a) broker_op"
  assumes "finite (held_subjects w)" and "for_subject text body w = (r, w')"
  shows "(text \<in> held_subjects w \<longrightarrow> w' = w \<and> r \<in> {Inl BE_InvalidInput, Inl BE_Busy, Inl BE_Unavailable})
    \<and> (w' = w \<and> \<not> is_ok r \<or> text \<notin> held_subjects w')
    \<and> (\<forall>body'. (\<forall>v. text \<in> held_subjects v \<and> card (held_subjects v) \<le> MAX_SUBJECT_PERMITS \<longrightarrow>
          body' (ValidatedSubject text) v = body (ValidatedSubject text) v) \<longrightarrow>
        for_subject text body' w = (r, w'))"
proof (intro conjI allI impI)
  assume "text \<in> held_subjects w"
  with assms(2) show "w' = w" "r \<in> {Inl BE_InvalidInput, Inl BE_Busy, Inl BE_Unavailable}"
    by (auto elim!: for_subject_cases simp: held_subjects_def)
next
  show "w' = w \<and> \<not> is_ok r \<or> text \<notin> held_subjects w'"
    using assms(2) by (rule for_subject_cases) (auto simp: held_subjects_def)
next
  fix body'
  assume same: "\<forall>v. text \<in> held_subjects v \<and> card (held_subjects v) \<le> MAX_SUBJECT_PERMITS \<longrightarrow>
      body' (ValidatedSubject text) v = body (ValidatedSubject text) v"
  have "for_subject text body' w = for_subject text body w"
    by (rule for_subject_body_cong) (use same assms(1) in auto)
  with assms(2) show "for_subject text body' w = (r, w')" by simp
qed

theorem mutations_are_serialised_witness:
  "\<exists>w. for_subject ''alice'' (\<lambda>s v. (Inr (held_subjects v), v))
      \<lparr>bw_registry = Healthy [], bw_permits = Healthy {''bob''}, bw_env = ()\<rparr> = (Inr {''alice'', ''bob''}, w)
    \<and> ''alice'' \<notin> held_subjects w"
proof -
  define w :: "unit bworld" where
    "w = \<lparr>bw_registry = Healthy [], bw_permits = Healthy {''bob''}, bw_env = ()\<rparr>"
  obtain r w' where run: "for_subject ''alice'' (\<lambda>s v. (Inr (held_subjects v), v)) w = (r, w')"
    by fastforce
  have "validated_subject_new ''alice'' = Inr (ValidatedSubject ''alice'')" by code_simp
  then have r: "r = Inr {''alice'', ''bob''}"
    using run by (simp add: for_subject_def with_permit_def permits_claim_def w_def held_subjects_def
        MAX_SUBJECT_PERMITS_def)
  have "finite (held_subjects w)" by (simp add: w_def held_subjects_def)
  from mutations_are_serialised [OF this run] r have "''alice'' \<notin> held_subjects w'" by simp
  with run r show ?thesis unfolding w_def by blast
qed

section \<open>The session registry\<close>

definition registry_ok :: "session_registry \<Rightarrow> bool" where
  "registry_ok registry \<longleftrightarrow>
     distinct (map fst (mutex_content registry)) \<and> length (mutex_content registry) \<le> MAX_PENDING_SESSIONS"

lemma reap_sublist: "distinct (map fst xs) \<Longrightarrow> distinct (map fst (reap now xs))"
  "length (reap now xs) \<le> length xs" "set (reap now xs) \<subseteq> set xs"
  by (auto simp: reap_def distinct_map_filter)

lemma allocate_result:
  assumes "allocate encode hb session n sessions e = (r, sessions', e')"
  shows "(\<exists>err. r = Inl err \<and> sessions' = sessions)
    \<or> (\<exists>h. r = Inr h \<and> handle_str h \<notin> fst ` set sessions \<and> sessions' = (handle_str h, session) # sessions)"
  using assms
  by (induction n arbitrary: e) (auto split: prod.splits sum.splits if_splits)

lemma claim_Healthy:
  "registry_claim h (Healthy sessions) =
     (ok_or BE_SessionUnknown (map_of sessions (handle_str h)),
      Healthy (filter (\<lambda>(k, _). k \<noteq> handle_str h) sessions))"
  by (simp add: registry_claim_def lock_sessions_def)

lemma map_of_filter_key [simp]: "map_of (filter (\<lambda>(k, _). k \<noteq> h) xs) h = None"
  by (induction xs) auto

text \<open>
  The registry holds at most eight sessions under distinct handles. A session is
  inserted only under a handle no resident session has, never evicts an unexpired one, and
  can be claimed exactly once: the claim takes it out, and any later claim of the handle
  finds nothing. A refused insertion only reaps expired sessions, and a poisoned registry
  is emptied.
\<close>

theorem sessions_claimed_once:
  assumes "registry_ok registry"
    and "registry_insert encode hb clock session registry e = (r, registry', e')"
  shows "registry_ok registry'
    \<and> (case registry of
        Poisoned _ \<Rightarrow> r = Inl BE_Unavailable \<and> registry' = Poisoned []
      | Healthy sessions \<Rightarrow>
          (\<forall>(k, s) \<in> set sessions. \<not> is_ok (fst (expire (clock e) s)) \<longrightarrow>
             fst (registry_claim (SessionHandle k) registry') = Inr s)
          \<and> (case r of
               Inl err \<Rightarrow> registry' = Healthy (reap (clock e) sessions)
             | Inr h \<Rightarrow> map_of (reap (clock e) sessions) (handle_str h) = None
                 \<and> fst (registry_claim h registry') = Inr session
                 \<and> fst (registry_claim h (snd (registry_claim h registry'))) = Inl BE_SessionUnknown))"
proof (cases registry)
  case (Poisoned x)
  with assms show ?thesis
    by (auto simp: registry_insert_def lock_sessions_def registry_ok_def)
next
  case (Healthy sessions)
  define live where "live = reap (clock e) sessions"
  have live: "distinct (map fst live)" "length live \<le> MAX_PENDING_SESSIONS"
    using assms(1) Healthy reap_sublist(1) [of sessions "clock e"]
      le_trans [OF reap_sublist(2) [where now = "clock e" and xs = sessions]]
    by (auto simp: live_def registry_ok_def)
  have kept: "(k, s) \<in> set live" if "(k, s) \<in> set sessions" "\<not> is_ok (fst (expire (clock e) s))" for k s
    using that by (auto simp: live_def reap_def)
  have found: "fst (registry_claim (SessionHandle k) (Healthy live)) = Inr s" if "(k, s) \<in> set sessions" "\<not> is_ok (fst (expire (clock e) s))" for k s
    using map_of_is_SomeI [OF live(1) kept [OF that]] by (simp add: claim_Healthy del: map_of_eq_Some_iff)
  show ?thesis
  proof (cases "length live \<ge> MAX_PENDING_SESSIONS")
    case True
    with assms(2) Healthy have "r = Inl BE_Busy" "registry' = Healthy live"
      by (auto simp: registry_insert_def lock_sessions_def live_def Let_def)
    with Healthy live found show ?thesis
      by (auto simp: registry_ok_def live_def [symmetric])
  next
    case False
    obtain sessions' where reg: "allocate encode hb session MAX_HANDLE_ALLOCATION_ATTEMPTS live e = (r, sessions', e')"
        "registry' = Healthy sessions'"
      using assms(2) Healthy False
      by (auto simp: registry_insert_def lock_sessions_def live_def Let_def split: prod.splits)
    from allocate_result [OF reg(1)] show ?thesis
    proof
      assume "\<exists>err. r = Inl err \<and> sessions' = live"
      with reg(2) Healthy live found show ?thesis
        by (auto simp: registry_ok_def live_def [symmetric])
    next
      assume "\<exists>h. r = Inr h \<and> handle_str h \<notin> fst ` set live \<and> sessions' = (handle_str h, session) # live"
      then obtain h where h: "r = Inr h" "handle_str h \<notin> fst ` set live" "sessions' = (handle_str h, session) # live"
        by blast
      have "fst (registry_claim (SessionHandle k) registry') = Inr s"
        if "(k, s) \<in> set sessions" "\<not> is_ok (fst (expire (clock e) s))" for k s
      proof -
        have "k \<noteq> handle_str h" using kept [OF that] h(2) by force
        then show ?thesis using kept [OF that] live(1) h(3) reg(2) by (simp add: claim_Healthy)
      qed
      then show ?thesis
        using h reg(2) Healthy live False
        by (auto simp: registry_ok_def claim_Healthy live_def [symmetric] map_of_eq_None_iff)
    qed
  qed
qed

theorem sessions_claimed_once_witness:
  "case registry_insert id (\<lambda>e. (Inr ''h2'', e)) (\<lambda>_. 5) sample_session (Healthy [(''h1'', sample_session)]) ()
     of (r, registry', _) \<Rightarrow> r = Inr (SessionHandle ''h2'') \<and> registry_ok registry'
       \<and> fst (registry_claim (SessionHandle ''h1'') registry') = Inr sample_session
       \<and> fst (registry_claim (SessionHandle ''h2'') (snd (registry_claim (SessionHandle ''h2'') registry')))
         = Inl BE_SessionUnknown"
proof -
  obtain r registry' e' where run: "registry_insert id (\<lambda>e. (Inr ''h2'', e)) (\<lambda>_. 5) sample_session
      (Healthy [(''h1'', sample_session)]) () = (r, registry', e')"
    by (metis prod.collapse)
  have "fst (registry_insert id (\<lambda>e. (Inr ''h2'', e)) (\<lambda>_. 5) sample_session
      (Healthy [(''h1'', sample_session)]) ()) = Inr (SessionHandle ''h2'')" by code_simp
  then have r: "r = Inr (SessionHandle ''h2'')" using run by simp
  have "registry_ok (Healthy [(''h1'', sample_session)])"
    by (simp add: registry_ok_def MAX_PENDING_SESSIONS_def)
  moreover have "\<not> is_ok (fst (expire 5 sample_session))" by code_simp
  ultimately show ?thesis
    using sessions_claimed_once [OF _ run] run r by simp
qed

end
