(* ===== verification/Store_Registry.thy ===== *)
theory Store_Registry
  imports Sql_Backend
begin

text \<open>
  The encrypted account registry of \<^verbatim>\<open>adapters/store-sqlcipher/src/registry.rs\<close>: one table
  of account identifiers with their dedup tags in display order. The database engine is the
  fault-injecting backend of \<open>Sql_Backend\<close>; which file is a valid registry is decided from
  the three values the code reads after keying it.
\<close>

definition MAX_ACCOUNTS :: nat where "MAX_ACCOUNTS = 5"
definition DEDUP_TAG_LEN :: nat where "DEDUP_TAG_LEN = 32"
definition REGISTRY_APPLICATION_ID :: int where "REGISTRY_APPLICATION_ID = 0x54535231"
definition REGISTRY_VERSION :: int where "REGISTRY_VERSION = 1"

definition REGISTRY_SCHEMA :: string where
  "REGISTRY_SCHEMA = ''CREATE TABLE registry_accounts ( account_id TEXT PRIMARY KEY CHECK (length(CAST(account_id AS BLOB)) BETWEEN 1 AND 256), dedup_tag BLOB NOT NULL UNIQUE CHECK (length(dedup_tag) = 32), position INTEGER NOT NULL UNIQUE CHECK (position >= 0) )''"

datatype registry_error = RE_Storage | RE_Corrupted | RE_Full | RE_Duplicate | RE_UnsafeLocation

fun registry_error_text :: "registry_error \<Rightarrow> string" where
  "registry_error_text RE_Storage = ''the account registry could not be accessed''"
| "registry_error_text RE_Corrupted = ''the account registry is damaged or the key is wrong''"
| "registry_error_text RE_Full = ''the maximum number of accounts is already registered''"
| "registry_error_text RE_Duplicate = ''this account is already registered''"
| "registry_error_text RE_UnsafeLocation = ''the registry directory must be owner-only''"

definition registry_classify :: "rusqlite_error \<Rightarrow> registry_error" where
  "registry_classify err =
     (case err of
        SqliteFailure code \<Rightarrow>
          if code \<in> {DatabaseCorrupt, NotADatabase} then RE_Corrupted else RE_Storage
      | _ \<Rightarrow> RE_Storage)"

section \<open>Opening\<close>

definition registry_normalize :: "string \<Rightarrow> string" where
  "registry_normalize sql = join_str '' '' (split_whitespace sql)"

text \<open>Whether the file is fresh (the schema is then created), valid, or refused.\<close>

definition registry_judge_file :: "int \<Rightarrow> int \<Rightarrow> string list \<Rightarrow> registry_error + bool" where
  "registry_judge_file application_id user_version schema =
     (if application_id = 0 \<and> user_version = 0 \<and> schema = [] then Inr True
      else if application_id \<noteq> REGISTRY_APPLICATION_ID \<or> user_version \<noteq> REGISTRY_VERSION
        \<or> schema \<noteq> [registry_normalize REGISTRY_SCHEMA]
      then Inl RE_Corrupted else Inr False)"

section \<open>Operations\<close>

record registry_row =
  rg_account_id :: sqlv
  rg_dedup_tag :: sqlv
  rg_position :: int

type_synonym registry_db = "registry_row list"
type_synonym 'a registry_op = "(registry_db, registry_error, 'a) db_op"

definition by_position :: "registry_row \<Rightarrow> registry_row \<Rightarrow> bool" where
  "by_position r s \<longleftrightarrow> rg_position r \<le> rg_position s"

fun read_accounts :: "faults \<Rightarrow> registry_row list \<Rightarrow> account_id list registry_op" where
  "read_accounts fault [] = db_bind (backend_call registry_classify fault) (\<lambda>_. db_return [])"
| "read_accounts fault (r # rows) =
     db_bind (query_row registry_classify fault (\<lambda>_. get_string (rg_account_id r))) (\<lambda>value.
     db_bind (db_result (map_err (\<lambda>_. RE_Corrupted) (account_id_new value))) (\<lambda>account.
     db_bind (read_accounts fault rows) (\<lambda>accounts. db_return (account # accounts))))"

definition registry_accounts :: "faults \<Rightarrow> account_id list registry_op" where
  "registry_accounts fault =
     with_connection RE_Storage fault
       (db_bind (backend_call registry_classify fault) (\<lambda>_.
        db_bind (query_row registry_classify fault (\<lambda>db. Inr (sort_by by_position db)))
          (read_accounts fault)))"

definition tagged :: "string \<Rightarrow> registry_row \<Rightarrow> bool" where
  "tagged tag r \<longleftrightarrow> rg_dedup_tag r = SBlob tag"

text \<open>\<open>optional()\<close> turns the absence of a row into \<open>None\<close>.\<close>

definition registry_find_by_tag :: "faults \<Rightarrow> string \<Rightarrow> account_id option registry_op" where
  "registry_find_by_tag fault tag =
     with_connection RE_Storage fault
       (db_bind
         (query_row registry_classify fault (\<lambda>db.
            case filter (tagged tag) db of
              [] \<Rightarrow> Inr None
            | r # _ \<Rightarrow> map_ok Some (get_string (rg_account_id r))))
         (\<lambda>value. db_result
            (case value of
               None \<Rightarrow> Inr None
             | Some text \<Rightarrow> map_ok Some (map_err (\<lambda>_. RE_Corrupted) (account_id_new text)))))"

text \<open>\<open>coalesce(max(position) + 1, 0)\<close>, read as an \<open>i64\<close>: a sum beyond it is no integer.\<close>

definition next_position :: "registry_db \<Rightarrow> rusqlite_error + int" where
  "next_position db =
     (let n = (if db = [] then 0 else Max (rg_position ` set db) + 1)
      in if n < 2 ^ 63 then Inr n else Inl InvalidColumnType)"

definition registered :: "account_id \<Rightarrow> string \<Rightarrow> registry_row \<Rightarrow> bool" where
  "registered account tag r \<longleftrightarrow> rg_account_id r = SText (account_id_str account) \<or> tagged tag r"

definition append_row :: "account_id \<Rightarrow> string \<Rightarrow> int \<Rightarrow> registry_db \<Rightarrow> registry_db \<times> nat" where
  "append_row account tag position db =
     (db @ [\<lparr>rg_account_id = SText (account_id_str account), rg_dedup_tag = SBlob tag,
        rg_position = position\<rparr>], 1)"

definition register_body :: "faults \<Rightarrow> account_id \<Rightarrow> string \<Rightarrow> unit registry_op" where
  "register_body fault account tag =
     db_bind
       (query_row registry_classify fault
         (\<lambda>db. map_ok (\<lambda>next. (length db, next)) (next_position db)))
       (\<lambda>(count, next).
          if count \<ge> MAX_ACCOUNTS then db_result (Inl RE_Full)
          else db_bind
            (query_row registry_classify fault (\<lambda>db. Inr (list_ex (registered account tag) db)))
            (\<lambda>duplicate.
               if duplicate then db_result (Inl RE_Duplicate)
               else db_bind (execute registry_classify fault (append_row account tag next))
                 (\<lambda>_. db_return ())))"

definition registry_register :: "faults \<Rightarrow> account_id \<Rightarrow> string \<Rightarrow> unit registry_op" where
  "registry_register fault account tag =
     with_connection RE_Storage fault
       (transaction registry_classify fault (register_body fault account tag))"

definition delete_account :: "account_id \<Rightarrow> registry_db \<Rightarrow> registry_db \<times> nat" where
  "delete_account account db =
     (let keep = filter (\<lambda>r. rg_account_id r \<noteq> SText (account_id_str account)) db
      in (keep, length db - length keep))"

definition registry_remove :: "faults \<Rightarrow> account_id \<Rightarrow> bool registry_op" where
  "registry_remove fault account =
     with_connection RE_Storage fault
       (db_bind (execute registry_classify fault (delete_account account))
         (\<lambda>removed. db_return (removed = 1)))"

section \<open>The registry refines a list of accounts\<close>

text \<open>
  What every registry keeps: positions increase along the table, identifiers and tags are
  distinct and of the stored shape, and the table holds at most five rows.
\<close>

definition registry_row_ok :: "registry_row \<Rightarrow> bool" where
  "registry_row_ok r \<longleftrightarrow> 0 \<le> rg_position r
     \<and> (case (rg_account_id r, rg_dedup_tag r) of
          (SText a, SBlob t) \<Rightarrow> account_id_ok (AccountId a) \<and> length t = DEDUP_TAG_LEN
        | _ \<Rightarrow> False)"

definition registry_wf :: "registry_db \<Rightarrow> bool" where
  "registry_wf db \<longleftrightarrow>
     list_all registry_row_ok db \<and> sorted_wrt (<) (map rg_position db)
     \<and> distinct (map rg_account_id db) \<and> distinct (map rg_dedup_tag db) \<and> length db \<le> MAX_ACCOUNTS"

text \<open>The abstraction: accounts with their tags in display order.\<close>

fun text_of :: "sqlv \<Rightarrow> string" where
  "text_of (SText s) = s"
| "text_of (SBlob s) = s"
| "text_of _ = []"

definition entry_of :: "registry_row \<Rightarrow> account_id \<times> string" where
  "entry_of r = (AccountId (text_of (rg_account_id r)), text_of (rg_dedup_tag r))"

definition registry_entries :: "registry_db \<Rightarrow> (account_id \<times> string) list" where
  "registry_entries db = map entry_of (sort_by by_position db)"

lemma registry_row_okE:
  assumes "registry_row_ok r"
  obtains a t where "rg_account_id r = SText a" "rg_dedup_tag r = SBlob t" "account_id_ok (AccountId a)"
    "length t = DEDUP_TAG_LEN" "0 \<le> rg_position r" "entry_of r = (AccountId a, t)"
  using assms by (auto simp: registry_row_ok_def entry_of_def split: sqlv.splits)

lemma entry_id: "registry_row_ok r \<Longrightarrow> rg_account_id r = SText (account_id_str (fst (entry_of r)))"
  by (auto elim: registry_row_okE)

lemma registry_wf_sorted: "registry_wf db \<Longrightarrow> sort_by by_position db = db"
  by (rule sort_by_sorted)
     (auto simp: registry_wf_def by_position_def sorted_wrt_map elim: sorted_wrt_mono_rel [rotated])

lemma registry_entries_wf: "registry_wf db \<Longrightarrow> registry_entries db = map entry_of db"
  by (simp add: registry_entries_def registry_wf_sorted)

lemma account_text_utf8: "account_id_ok (AccountId a) \<Longrightarrow> utf8_valid a"
  by (auto simp: account_id_ok_def identifier_text_def intro: wf_intros ascii_graphic_less_128)

lemma read_accounts_quiet:
  "list_all registry_row_ok rows \<Longrightarrow>
     \<exists>c'. read_accounts quiet rows c = (Inr (map (fst \<circ> entry_of) rows), c') \<and> cn_db c' = cn_db c"
proof (induction rows arbitrary: c)
  case Nil
  then show ?case by (auto simp: quiet_simps)
next
  case (Cons r rows)
  then obtain a t where r: "rg_account_id r = SText a" "account_id_ok (AccountId a)"
      "entry_of r = (AccountId a, t)"
    by (auto elim: registry_row_okE)
  have new: "account_id_new a = Inr (AccountId a)" using r(2) by simp
  from Cons obtain c' where
    "read_accounts quiet rows (tick c) = (Inr (map (fst \<circ> entry_of) rows), c')" "cn_db c' = cn_db c"
    by fastforce
  with r show ?case
    by (auto simp: quiet_simps get_string_def account_text_utf8 new)
qed

lemma registry_accounts_quiet:
  assumes "registry_wf (cn_db c)"
  shows "fst (registry_accounts quiet c) = Inr (map fst (registry_entries (cn_db c)))"
proof -
  have ok: "list_all registry_row_ok (cn_db c)" using assms by (simp add: registry_wf_def)
  have "\<exists>c'. read_accounts quiet (cn_db c) (tick (tick (tick c)))
      = (Inr (map (fst \<circ> entry_of) (cn_db c)), c')"
    using read_accounts_quiet [OF ok, of "tick (tick (tick c))"] by auto
  then show ?thesis
    using assms by (auto simp: registry_accounts_def quiet_simps registry_wf_sorted registry_entries_wf)
qed

lemma find_tagged:
  assumes "list_all registry_row_ok db" and "distinct (map rg_dedup_tag db)"
  shows "(case filter (tagged tag) db of [] \<Rightarrow> None | r # _ \<Rightarrow> Some (rg_account_id r))
    = map_option (\<lambda>a. SText (account_id_str a)) (map_of (map prod.swap (map entry_of db)) tag)"
  using assms
proof (induction db)
  case (Cons r db)
  then obtain a t where r: "rg_account_id r = SText a" "rg_dedup_tag r = SBlob t"
      "entry_of r = (AccountId a, t)"
    by (auto elim: registry_row_okE)
  with Cons show ?case by (auto simp: tagged_def)
qed simp

lemma registry_find_quiet:
  assumes "registry_wf (cn_db c)"
  shows "fst (registry_find_by_tag quiet tag c)
    = Inr (map_of (map prod.swap (registry_entries (cn_db c))) tag)"
proof -
  have wf: "list_all registry_row_ok (cn_db c)" "distinct (map rg_dedup_tag (cn_db c))"
    using assms by (auto simp: registry_wf_def)
  show ?thesis
  proof (cases "filter (tagged tag) (cn_db c)")
    case Nil
    with find_tagged [OF wf, of tag] show ?thesis
      by (simp add: registry_find_by_tag_def quiet_simps registry_entries_wf [OF assms])
  next
    case (Cons r rest)
    then have "r \<in> set (cn_db c)" by (metis filter_is_subset list.set_intros(1) subsetD)
    with wf obtain a where a: "rg_account_id r = SText a" "account_id_ok (AccountId a)"
      by (auto simp: list_all_iff elim: registry_row_okE)
    have new: "account_id_new a = Inr (AccountId a)" using a(2) by simp
    from find_tagged [OF wf, of tag] Cons a
    have "map_of (map prod.swap (map entry_of (cn_db c))) tag = Some (AccountId a)"
      by (cases "map_of (map prod.swap (map entry_of (cn_db c))) tag") (auto simp: account_id.expand)
    with Cons a show ?thesis
      by (simp add: registry_find_by_tag_def quiet_simps registry_entries_wf [OF assms]
          get_string_def account_text_utf8 new)
  qed
qed

lemma next_position_above:
  assumes "next_position db = Inr n" and "r \<in> set db"
  shows "rg_position r < n"
proof -
  have "db \<noteq> []" using assms(2) by auto
  then have "n = Max (rg_position ` set db) + 1"
    using assms(1) by (auto simp: next_position_def Let_def split: if_splits)
  moreover have "rg_position r \<le> Max (rg_position ` set db)" using assms(2) by simp
  ultimately show ?thesis by simp
qed

lemma next_position_nonneg:
  assumes "next_position db = Inr n" and "list_all registry_row_ok db"
  shows "0 \<le> n"
proof (cases db)
  case Nil
  then show ?thesis using assms(1) by (simp add: next_position_def)
next
  case (Cons r rest)
  then have "0 \<le> rg_position r" using assms(2) by (auto simp: registry_row_ok_def)
  with next_position_above [OF assms(1), of r] Cons show ?thesis by simp
qed

lemma registered_entry:
  assumes "list_all registry_row_ok db"
  shows "list_ex (registered account tag) db \<longleftrightarrow>
    account \<in> fst ` set (map entry_of db) \<or> tag \<in> snd ` set (map entry_of db)"
  using assms
proof (induction db)
  case (Cons r db)
  then have "registry_row_ok r" by simp
  then obtain a t where r: "rg_account_id r = SText a" "rg_dedup_tag r = SBlob t"
      "entry_of r = (AccountId a, t)"
    by (rule registry_row_okE)
  have "registered account tag r \<longleftrightarrow> account = AccountId a \<or> tag = t"
    using r by (cases account) (auto simp: registered_def tagged_def)
  with Cons r show ?case by auto
qed simp

lemma registry_wf_append:
  assumes "registry_wf db" and "next_position db = Inr n" and "length db < MAX_ACCOUNTS"
    and "\<not> list_ex (registered account tag) db" and "account_id_ok account" and "length tag = DEDUP_TAG_LEN"
  defines "row \<equiv> \<lparr>rg_account_id = SText (account_id_str account), rg_dedup_tag = SBlob tag, rg_position = n\<rparr>"
  shows "registry_wf (db @ [row]) \<and> entry_of row = (account, tag)"
proof -
  have ok: "list_all registry_row_ok db" using assms(1) by (simp add: registry_wf_def)
  have "\<forall>r\<in>set db. rg_account_id r \<noteq> rg_account_id row \<and> rg_dedup_tag r \<noteq> rg_dedup_tag row
      \<and> rg_position r < rg_position row"
    using assms(4) next_position_above [OF assms(2)]
    by (auto simp: list_ex_iff registered_def tagged_def row_def)
  moreover have "registry_row_ok row"
    using next_position_nonneg [OF assms(2) ok] assms(5,6) by (cases account) (simp add: registry_row_ok_def row_def)
  ultimately show ?thesis
    using assms(1,3) by (cases account) (force simp: registry_wf_def sorted_wrt_append row_def entry_of_def)
qed

lemma registry_register_Inr:
  assumes "registry_register fault account tag c = (Inr u, c')"
  obtains n where "next_position (cn_db c) = Inr n" "length (cn_db c) < MAX_ACCOUNTS"
    "\<not> list_ex (registered account tag) (cn_db c)"
    "cn_db c' = cn_db c @ [\<lparr>rg_account_id = SText (account_id_str account),
       rg_dedup_tag = SBlob tag, rg_position = n\<rparr>]"
proof -
  from assms obtain c1 c2 where c1: "cn_db c1 = cn_db c" and c2: "cn_db c' = cn_db c2"
    and body: "register_body fault account tag c1 = (Inr u, c2)"
    unfolding registry_register_def by (elim committed_Inr)
  from body obtain p c3 where
      q1: "query_row registry_classify fault (\<lambda>db. map_ok (\<lambda>next. (length db, next)) (next_position db)) c1
        = (Inr p, c3)"
    and rest: "(case p of (count, next) \<Rightarrow>
          if count \<ge> MAX_ACCOUNTS then db_result (Inl RE_Full)
          else db_bind
            (query_row registry_classify fault (\<lambda>db. Inr (list_ex (registered account tag) db)))
            (\<lambda>duplicate.
               if duplicate then db_result (Inl RE_Duplicate)
               else db_bind (execute registry_classify fault (append_row account tag next))
                 (\<lambda>_. db_return ()))) c3 = (Inr u, c2)"
    unfolding register_body_def by (rule db_bind_Inr)
  from query_row_Inr [OF q1] c1 obtain n where
      p: "p = (length (cn_db c), n)" "next_position (cn_db c) = Inr n" "cn_db c3 = cn_db c"
    by (auto simp: map_ok_Inr)
  with rest have room: "length (cn_db c) < MAX_ACCOUNTS"
    and rest2: "db_bind
            (query_row registry_classify fault (\<lambda>db. Inr (list_ex (registered account tag) db)))
            (\<lambda>duplicate.
               if duplicate then db_result (Inl RE_Duplicate)
               else db_bind (execute registry_classify fault (append_row account tag n))
                 (\<lambda>_. db_return ())) c3 = (Inr u, c2)"
    by (auto split: if_splits)
  from rest2 obtain dup c4 where
      q2: "query_row registry_classify fault (\<lambda>db. Inr (list_ex (registered account tag) db)) c3 = (Inr dup, c4)"
    and rest3: "(if dup then db_result (Inl RE_Duplicate)
        else db_bind (execute registry_classify fault (append_row account tag n)) (\<lambda>_. db_return ())) c4
      = (Inr u, c2)"
    by (rule db_bind_Inr)
  from query_row_Inr [OF q2] p have dup: "dup = list_ex (registered account tag) (cn_db c)" "cn_db c4 = cn_db c"
    by auto
  from rest3 have "\<not> dup" by (auto split: if_splits)
  with rest3 obtain m where "execute registry_classify fault (append_row account tag n) c4 = (Inr m, c2)"
    by (auto simp: db_bind_Inr_iff)
  from execute_Inr [OF this] dup c2 have "cn_db c' = fst (append_row account tag n (cn_db c))" by (metis fst_conv)
  with that p(2) room \<open>\<not> dup\<close> dup(1) show thesis by (simp add: append_row_def)
qed

lemma registry_register_atomic: "atomic_op (registry_register fault account tag)"
  unfolding registry_register_def by (intro op_rules)

lemma registry_remove_cases:
  assumes "registry_remove fault account c = (r, c')"
  shows "(\<exists>err. r = Inl err \<and> cn_db c' = cn_db c)
    \<or> cn_db c' = filter (\<lambda>r. rg_account_id r \<noteq> SText (account_id_str account)) (cn_db c)
      \<and> r = Inr (length (cn_db c) - length (cn_db c') = 1)"
proof (cases r)
  case (Inl err)
  have "atomic_op (registry_remove fault account)"
    unfolding registry_remove_def by (intro atomic_with) (auto simp: db_return_result
        atomic_op_def db_bind_def db_result_def split: prod.splits sum.splits elim: execute_cases)
  with assms Inl show ?thesis by (auto simp: atomic_op_def)
next
  case (Inr b)
  with assms have "with_connection RE_Storage fault
      (db_bind (execute registry_classify fault (delete_account account))
        (\<lambda>removed. db_return (removed = 1))) c = (Inr b, c')"
    by (simp add: registry_remove_def)
  then obtain c1 where c1: "cn_db c1 = cn_db c"
    "db_bind (execute registry_classify fault (delete_account account))
      (\<lambda>removed. db_return (removed = 1)) c1 = (Inr b, c')"
    by (rule with_connection_Inr)
  then obtain n where "execute registry_classify fault (delete_account account) c1 = (Inr n, c')" "b = (n = 1)"
    by (auto simp: db_bind_Inr_iff)
  with execute_Inr [OF this(1)] c1(1) Inr show ?thesis by (auto simp: delete_account_def Let_def)
qed

lemma count_distinct:
  "distinct xs \<Longrightarrow> length (filter (\<lambda>y. y = x) xs) = (if x \<in> set xs then 1 else 0)"
  by (induction xs) auto

lemma registry_wf_filter: "registry_wf db \<Longrightarrow> registry_wf (filter p db)"
  by (auto simp: registry_wf_def list_all_iff distinct_map_filter sorted_wrt_map
      intro: sorted_wrt_filter le_trans [OF length_filter_le])

text \<open>
  C28. The registry refines a list of at most five accounts in display order, each with its
  own tag. Registering appends a new account, and fails without effect when the list is full
  or holds the account or its tag already; removing drops exactly the account and keeps the
  order; listing and the search by tag read the list. An error of the database leaves the
  list as it was.
\<close>

theorem registry_refines_list:
  assumes "registry_wf (cn_db c)" and "account_id_ok account" and "length tag = DEDUP_TAG_LEN"
  defines "entries \<equiv> registry_entries (cn_db c)"
  shows "(case registry_register fault account tag c of
        (Inr _, c') \<Rightarrow> registry_wf (cn_db c') \<and> registry_entries (cn_db c') = entries @ [(account, tag)]
          \<and> account \<notin> fst ` set entries \<and> tag \<notin> snd ` set entries \<and> length entries < MAX_ACCOUNTS
      | (Inl _, c') \<Rightarrow> cn_db c' = cn_db c)
    \<and> (case registry_remove fault account c of
        (Inr found, c') \<Rightarrow> registry_wf (cn_db c')
          \<and> registry_entries (cn_db c') = filter (\<lambda>(a, _). a \<noteq> account) entries
          \<and> (found \<longleftrightarrow> account \<in> fst ` set entries)
      | (Inl _, c') \<Rightarrow> cn_db c' = cn_db c)
    \<and> fst (registry_accounts quiet c) = Inr (map fst entries)
    \<and> fst (registry_find_by_tag quiet tag c) = Inr (map_of (map prod.swap entries) tag)"
proof (intro conjI)
  have ok: "list_all registry_row_ok (cn_db c)" using assms(1) by (simp add: registry_wf_def)
  note entries = registry_entries_wf [OF assms(1), folded entries_def]
  show "fst (registry_accounts quiet c) = Inr (map fst entries)"
    unfolding entries_def by (rule registry_accounts_quiet) (rule assms(1))
  show "fst (registry_find_by_tag quiet tag c) = Inr (map_of (map prod.swap entries) tag)"
    unfolding entries_def by (rule registry_find_quiet) (rule assms(1))
  obtain r c' where reg: "registry_register fault account tag c = (r, c')" by fastforce
  show "case registry_register fault account tag c of
        (Inr _, c') \<Rightarrow> registry_wf (cn_db c') \<and> registry_entries (cn_db c') = entries @ [(account, tag)]
          \<and> account \<notin> fst ` set entries \<and> tag \<notin> snd ` set entries \<and> length entries < MAX_ACCOUNTS
      | (Inl _, c') \<Rightarrow> cn_db c' = cn_db c"
  proof (cases r)
    case (Inl err)
    with reg registry_register_atomic [of fault account tag] show ?thesis by (auto simp: atomic_op_def)
  next
    case (Inr u)
    with reg obtain n where n: "next_position (cn_db c) = Inr n" "length (cn_db c) < MAX_ACCOUNTS"
      "\<not> list_ex (registered account tag) (cn_db c)"
      "cn_db c' = cn_db c @ [\<lparr>rg_account_id = SText (account_id_str account),
         rg_dedup_tag = SBlob tag, rg_position = n\<rparr>]"
      by (metis registry_register_Inr)
    have "account \<notin> fst ` set entries" "tag \<notin> snd ` set entries"
      using n(3) registered_entry [OF ok] entries by auto
    moreover note registry_wf_append [OF assms(1) n(1,2,3) assms(2,3)]
    ultimately show ?thesis
      using reg Inr n entries by (simp add: registry_entries_wf)
  qed
  obtain b c' where rem: "registry_remove fault account c = (b, c')" by fastforce
  have key: "rg_account_id r \<noteq> SText (account_id_str account) \<longleftrightarrow> fst (entry_of r) \<noteq> account"
    if "r \<in> set (cn_db c)" for r
  proof -
    obtain a t where "rg_account_id r = SText a" "entry_of r = (AccountId a, t)"
      using ok \<open>r \<in> set (cn_db c)\<close> registry_row_okE [of r] by (metis list_all_iff)
    then show ?thesis by (cases account) simp
  qed
  have filtered: "map entry_of (filter (\<lambda>r. rg_account_id r \<noteq> SText (account_id_str account)) (cn_db c))
      = filter (\<lambda>(a, _). a \<noteq> account) entries"
    unfolding entries filter_map using key by (auto simp: case_prod_beta cong: filter_cong)
  have "distinct (map fst entries)"
    using assms(1) ok entry_id unfolding entries registry_wf_def map_map distinct_map inj_on_def list_all_iff comp_def
    by metis
  then have dropped: "length (cn_db c) - length (filter (\<lambda>(a, _). a \<noteq> account) entries) = 1
      \<longleftrightarrow> account \<in> fst ` set entries"
  proof -
    have "length (cn_db c) - length (filter (\<lambda>(a, _). a \<noteq> account) entries)
        = length (filter (\<lambda>a. a = account) (map fst entries))"
      using sum_length_filter_compl [of "\<lambda>(a, _). a \<noteq> account" entries]
      by (simp add: entries filter_map comp_def case_prod_beta)
    also have "\<dots> = (if account \<in> set (map fst entries) then 1 else 0)"
      using \<open>distinct (map fst entries)\<close> by (rule count_distinct)
    finally show ?thesis by simp
  qed
  show "case registry_remove fault account c of
        (Inr found, c') \<Rightarrow> registry_wf (cn_db c')
          \<and> registry_entries (cn_db c') = filter (\<lambda>(a, _). a \<noteq> account) entries
          \<and> (found \<longleftrightarrow> account \<in> fst ` set entries)
      | (Inl _, c') \<Rightarrow> cn_db c' = cn_db c"
  proof (cases b)
    case (Inl err)
    with registry_remove_cases [OF rem] rem show ?thesis by simp
  next
    case (Inr found)
    with registry_remove_cases [OF rem]
    have c': "cn_db c' = filter (\<lambda>r. rg_account_id r \<noteq> SText (account_id_str account)) (cn_db c)"
      and found: "found = (length (cn_db c) - length (cn_db c') = 1)" by simp_all
    have wf: "registry_wf (cn_db c')" unfolding c' by (rule registry_wf_filter) (rule assms(1))
    then have abs: "registry_entries (cn_db c') = filter (\<lambda>(a, _). a \<noteq> account) entries"
      using filtered by (simp add: registry_entries_wf c')
    then have "length (cn_db c') = length (filter (\<lambda>(a, _). a \<noteq> account) entries)"
      using registry_entries_wf [OF wf] by (metis length_map)
    then have "found \<longleftrightarrow> account \<in> fst ` set entries" using found dropped by simp
    with rem Inr wf abs show ?thesis by simp
  qed
qed

text \<open>The empty registry is well-formed, so every history of these operations is.\<close>

lemma registry_wf_empty [simp]: "registry_wf []"
  by (simp add: registry_wf_def)

theorem registry_refines_list_witness:
  "case registry_register quiet (AccountId ''a2'') (replicate 32 CHR ''t'') \<lparr>cn_db = [], cn_calls = 0\<rparr> of
     (r, c') \<Rightarrow> r = Inr () \<and> registry_wf (cn_db c')
       \<and> registry_entries (cn_db c') = [(AccountId ''a2'', replicate 32 CHR ''t'')]"
proof -
  let ?c = "\<lparr>cn_db = [], cn_calls = 0\<rparr> :: registry_db conn"
  let ?run = "registry_register quiet (AccountId ''a2'') (replicate 32 CHR ''t'') ?c"
  have "fst ?run = Inr ()" by code_simp
  then obtain c' where run: "?run = (Inr (), c')" by (metis prod.collapse)
  have "account_id_ok (AccountId ''a2'')" by code_simp
  then have "case ?run of (Inr _, c') \<Rightarrow> registry_wf (cn_db c')
      \<and> registry_entries (cn_db c') = registry_entries [] @ [(AccountId ''a2'', replicate 32 CHR ''t'')]
      | (Inl _, c') \<Rightarrow> True"
    using registry_refines_list [of ?c "AccountId ''a2''" "replicate 32 CHR ''t''" quiet]
    by (auto simp: DEDUP_TAG_LEN_def split: sum.splits prod.splits)
  with run show ?thesis by (simp add: registry_entries_def)
qed

end
