(* ===== verification/Open_Validate.thy ===== *)
theory Open_Validate
  imports Samples
begin

text \<open>
  Opening an account database (\<^verbatim>\<open>adapters/store-sqlcipher/src/lib.rs\<close>), the part that speaks
  to SQLCipher: keying, the identity and schema checks, the first migration and the health
  checks. An encrypted file remembers the key its pages were written under; a wrong key is
  accepted by \<open>sqlite3_key\<close> and surfaces as a file that is no database on the first read,
  as SQLCipher documents. The checks on the file system around it are in \<open>Open_Files\<close>.
\<close>

datatype open_failure = OF_Corrupted | OF_Storage

definition classify_open :: "rusqlite_error \<Rightarrow> open_failure" where
  "classify_open err =
     (case err of
        SqliteFailure code \<Rightarrow>
          if code \<in> {DatabaseCorrupt, NotADatabase} then OF_Corrupted else OF_Storage
      | FromSqlConversionFailure \<Rightarrow> OF_Corrupted
      | IntegralValueOutOfRange \<Rightarrow> OF_Corrupted
      | InvalidColumnType \<Rightarrow> OF_Corrupted
      | InvalidQuery \<Rightarrow> OF_Corrupted
      | QueryReturnedNoRows \<Rightarrow> OF_Corrupted
      | Utf8Error \<Rightarrow> OF_Corrupted
      | OtherRusqliteError \<Rightarrow> OF_Storage)"

definition classify_key :: "rusqlite_error \<Rightarrow> open_failure" where
  "classify_key err = OF_Storage"

fun mailbox_open_error :: "open_failure \<Rightarrow> mailbox_store_error" where
  "mailbox_open_error OF_Corrupted = Corrupted"
| "mailbox_open_error OF_Storage = Storage"

definition STORE_APPLICATION_ID :: int where "STORE_APPLICATION_ID = 0x54534D31"
definition STORE_VERSION :: int where "STORE_VERSION = 1"
definition CANONICAL_SCHEMA_OBJECT_COUNT :: nat where "CANONICAL_SCHEMA_OBJECT_COUNT = 6"
definition MAX_SCHEMA_KIND_LEN :: nat where "MAX_SCHEMA_KIND_LEN = 16"
definition MAX_SCHEMA_NAME_LEN :: nat where "MAX_SCHEMA_NAME_LEN = 256"
definition MAX_SCHEMA_SQL_LEN :: nat where "MAX_SCHEMA_SQL_LEN = 16 * 1024"

section \<open>Files and connections\<close>

record schema_row =
  sch_type :: sqlv
  sch_name :: sqlv
  sch_sql :: sqlv

record db_image =
  im_application_id :: int
  im_user_version :: int
  im_schema :: "schema_row list"
  im_tables :: db
  im_journal_mode :: string
  im_integrity :: string
  im_foreign_key_failure :: bool
  im_cipher_failure :: bool

text \<open>An empty file has been written under no key yet.\<close>

record cipher_file =
  cf_key :: "string option"
  cf_image :: db_image

record cipher_conn =
  cc_key :: string
  cc_file :: cipher_file
  cc_cipher_version :: string
  cc_foreign_keys :: int
  cc_temp_store :: int
  cc_secure_delete :: int
  cc_journal_size_limit :: int
  cc_persist_wal :: int

type_synonym 'a open_op = "(cipher_conn, open_failure, 'a) db_op"

definition readable :: "cipher_conn \<Rightarrow> bool" where
  "readable k \<longleftrightarrow> cf_key (cc_file k) = None \<or> cf_key (cc_file k) = Some (cc_key k)"

definition read_image :: "(db_image \<Rightarrow> rusqlite_error + 'a) \<Rightarrow> cipher_conn \<Rightarrow> rusqlite_error + 'a" where
  "read_image get k =
     (if readable k then get (cf_image (cc_file k)) else Inl (SqliteFailure NotADatabase))"

definition image_query :: "faults \<Rightarrow> (db_image \<Rightarrow> rusqlite_error + 'a) \<Rightarrow> 'a open_op" where
  "image_query fault get = query_row classify_open fault (read_image get)"

definition pragma_query :: "faults \<Rightarrow> (cipher_conn \<Rightarrow> 'a) \<Rightarrow> 'a open_op" where
  "pragma_query fault get = query_row classify_open fault (\<lambda>k. Inr (get k))"

text \<open>
  A write encrypts the image under the key of the connection; like every access to the
  file it first has to read a page.
\<close>

definition write_image :: "(db_image \<Rightarrow> db_image) \<Rightarrow> cipher_conn \<Rightarrow> cipher_conn" where
  "write_image f k =
     k\<lparr>cc_file := \<lparr>cf_key = Some (cc_key k), cf_image = f (cf_image (cc_file k))\<rparr>\<rparr>"

definition image_execute :: "faults \<Rightarrow> (db_image \<Rightarrow> db_image) \<Rightarrow> unit open_op" where
  "image_execute fault f =
     db_bind (image_query fault (\<lambda>_. Inr ())) (\<lambda>_ c.
       (Inr (), c\<lparr>cn_db := write_image f (cn_db c)\<rparr>))"

definition set_pragmas :: "(cipher_conn \<Rightarrow> cipher_conn) \<Rightarrow> cipher_conn \<Rightarrow> cipher_conn \<times> nat" where
  "set_pragmas f k = (f k, 0)"

section \<open>The canonical schema\<close>

definition normalize :: "string \<Rightarrow> string" where
  "normalize sql =
     join_str '' '' (split_whitespace (rev (dropWhile (\<lambda>c. c = CHR '';'') (rev sql))))"

definition canonical_schema :: "(string \<times> string \<times> string) list" where
  "canonical_schema =
     [(''index'', ''messages_list_order'', normalize
        ''CREATE INDEX messages_list_order ON messages (received_at DESC, message_id ASC)''),
      (''index'', ''messages_thread_order'', normalize
        ''CREATE INDEX messages_thread_order ON messages (thread_id ASC, received_at ASC, message_id ASC)''),
      (''table'', ''account_binding'', normalize
        ''CREATE TABLE account_binding ( singleton INTEGER PRIMARY KEY CHECK (singleton = 1), account_id TEXT NOT NULL, broker_subject TEXT NULL CHECK (broker_subject IS NULL OR (length(CAST(broker_subject AS BLOB)) BETWEEN 1 AND 255)), refresh_token TEXT NULL CHECK (refresh_token IS NULL OR (length(CAST(refresh_token AS BLOB)) BETWEEN 1 AND 4096)) )''),
      (''table'', ''account_identity'', normalize
        ''CREATE TABLE account_identity ( account_id TEXT PRIMARY KEY, identity_hash BLOB NOT NULL, algo_version INTEGER NOT NULL )''),
      (''table'', ''account_lifecycle'', normalize
        ''CREATE TABLE account_lifecycle ( singleton INTEGER PRIMARY KEY CHECK (singleton = 1), disconnect_recovery INTEGER NULL CHECK (disconnect_recovery IN (1, 2)), last_successful_sync_unix_millis INTEGER NULL CHECK (last_successful_sync_unix_millis >= 0) )''),
      (''table'', ''messages'', normalize
        ''CREATE TABLE messages ( message_id TEXT PRIMARY KEY, thread_id TEXT NOT NULL, sender TEXT NOT NULL, subject TEXT NOT NULL, preview TEXT NOT NULL, received_at INTEGER NOT NULL, unread INTEGER NOT NULL CHECK (unread IN (0, 1)), content BLOB NULL )'')]"

text \<open>\<open>name NOT GLOB 'sqlite_*'\<close>, and the order and bound of the schema query.\<close>

definition user_object :: "schema_row \<Rightarrow> bool" where
  "user_object r =
     (case sch_name r of
        SText s \<Rightarrow> \<not> prefix ''sqlite_'' s
      | SBlob s \<Rightarrow> \<not> prefix ''sqlite_'' s
      | SInt _ \<Rightarrow> True
      | SNull \<Rightarrow> False)"

definition by_type_and_name :: "schema_row \<Rightarrow> schema_row \<Rightarrow> bool" where
  "by_type_and_name r s \<longleftrightarrow>
     sch_type r < sch_type s \<or> sch_type r = sch_type s \<and> sch_name r \<le> sch_name s"

definition schema_object :: "schema_row \<Rightarrow> rusqlite_error + (string \<times> string \<times> string)" where
  "schema_object r =
     rbind (get_string (text_within MAX_SCHEMA_KIND_LEN (sch_type r))) (\<lambda>kind.
     rbind (get_string (text_within MAX_SCHEMA_NAME_LEN (sch_name r))) (\<lambda>name.
     rbind (get_string (if sch_sql r = SNull then SText []
            else text_within MAX_SCHEMA_SQL_LEN (sch_sql r))) (\<lambda>sql.
       Inr (kind, name, normalize sql))))"

fun read_objects :: "nat \<Rightarrow> schema_row list \<Rightarrow> rusqlite_error + (string \<times> string \<times> string) list" where
  "read_objects room [] = Inr []"
| "read_objects 0 (r # rows) = Inl InvalidQuery"
| "read_objects (Suc room) (r # rows) =
     rbind (schema_object r) (\<lambda>object. map_ok (\<lambda>objects. object # objects) (read_objects room rows))"

definition schema :: "db_image \<Rightarrow> rusqlite_error + (string \<times> string \<times> string) list" where
  "schema im =
     read_objects CANONICAL_SCHEMA_OBJECT_COUNT
       (take (CANONICAL_SCHEMA_OBJECT_COUNT + 1)
         (sort_by by_type_and_name (filter user_object (im_schema im))))"

section \<open>Identity and health\<close>

definition owner_of :: "db_image \<Rightarrow> rusqlite_error + string" where
  "owner_of im =
     (case db_binding (im_tables im) of
        None \<Rightarrow> Inl QueryReturnedNoRows
      | Some b \<Rightarrow> get_string (text_within 256 (bd_account_id b)))"

definition validate_identity :: "faults \<Rightarrow> account_id \<Rightarrow> bool open_op" where
  "validate_identity fault account =
     db_bind (pragma_query fault cc_cipher_version) (\<lambda>cipher_version.
     if cipher_version = [] then db_result (Inl OF_Corrupted)
     else
       db_bind (image_query fault (\<lambda>im. Inr (im_application_id im))) (\<lambda>application_id.
       db_bind (image_query fault (\<lambda>im. Inr (im_user_version im))) (\<lambda>user_version.
       db_bind (image_query fault schema) (\<lambda>objects.
         let fresh = application_id = 0 \<and> user_version = 0 \<and> objects = []
         in if fresh then db_return True
            else if application_id \<noteq> STORE_APPLICATION_ID \<or> user_version \<noteq> STORE_VERSION
              \<or> objects \<noteq> canonical_schema
            then db_result (Inl OF_Corrupted)
            else db_bind (image_query fault owner_of) (\<lambda>owner.
              if account_id_new owner \<noteq> Inr account then db_result (Inl OF_Corrupted)
              else db_return False)))))"

definition validate_health :: "faults \<Rightarrow> unit open_op" where
  "validate_health fault =
     db_bind (pragma_query fault cc_foreign_keys) (\<lambda>foreign_keys.
     db_bind (pragma_query fault cc_temp_store) (\<lambda>temp_store.
     db_bind (pragma_query fault cc_secure_delete) (\<lambda>secure_delete.
     db_bind (image_query fault (\<lambda>im. Inr (im_journal_mode im))) (\<lambda>journal.
     db_bind (image_query fault (\<lambda>im. Inr (im_integrity im))) (\<lambda>integrity.
     db_bind (image_query fault (\<lambda>im. Inr (im_foreign_key_failure im))) (\<lambda>foreign_key_failure.
     db_bind (image_query fault (\<lambda>im. Inr (im_cipher_failure im))) (\<lambda>cipher_failure.
       db_result
         (if foreign_keys \<noteq> 1 \<or> temp_store \<noteq> 2 \<or> secure_delete \<noteq> 1 \<or> journal \<noteq> ''wal''
             \<or> integrity \<noteq> ''ok'' \<or> foreign_key_failure \<or> cipher_failure
          then Inl OF_Corrupted else Inr ()))))))))"

section \<open>Configuring and migrating\<close>

definition apply_key :: "faults \<Rightarrow> string \<Rightarrow> unit open_op" where
  "apply_key fault key =
     db_bind (execute classify_key fault (set_pragmas (\<lambda>k. k\<lparr>cc_key := key\<rparr>))) (\<lambda>_. db_return ())"

definition connection_pragmas :: "faults \<Rightarrow> unit open_op" where
  "connection_pragmas fault =
     db_bind (backend_call (\<lambda>_. OF_Storage) fault) (\<lambda>_.
     db_bind (execute classify_open fault
         (set_pragmas (\<lambda>k. k\<lparr>cc_foreign_keys := 1, cc_temp_store := 2\<rparr>)))
       (\<lambda>_. db_return ()))"

definition configure_owned_storage :: "faults \<Rightarrow> unit open_op" where
  "configure_owned_storage fault =
     db_bind (image_execute fault (\<lambda>im. im\<lparr>im_journal_mode := ''wal''\<rparr>)) (\<lambda>_.
     db_bind (execute classify_open fault (set_pragmas (\<lambda>k. k\<lparr>cc_secure_delete := 1\<rparr>)))
       (\<lambda>_. db_return ()))"

definition configure_storage :: "faults \<Rightarrow> account_id \<Rightarrow> string \<Rightarrow> bool open_op" where
  "configure_storage fault account key =
     db_bind (apply_key fault key) (\<lambda>_.
     db_bind (connection_pragmas fault) (\<lambda>_.
     db_bind (validate_identity fault account) (\<lambda>fresh.
     db_bind (configure_owned_storage fault) (\<lambda>_. db_return fresh))))"

definition materialize_fresh_wal :: "faults \<Rightarrow> unit open_op" where
  "materialize_fresh_wal fault = image_execute fault (\<lambda>im. im\<lparr>im_user_version := 0\<rparr>)"

text \<open>A transaction whose begin and commit report failures differently.\<close>

definition unchecked_transaction ::
    "(rusqlite_error \<Rightarrow> 'e) \<Rightarrow> (rusqlite_error \<Rightarrow> 'e) \<Rightarrow> faults \<Rightarrow>
      ('d, 'e, 'a) db_op \<Rightarrow> ('d, 'e, 'a) db_op" where
  "unchecked_transaction begin_error commit_error fault body c0 =
     (case backend_call begin_error fault c0 of
        (Inl err, c1) \<Rightarrow> (Inl err, c1)
      | (Inr _, c1) \<Rightarrow>
          (case db_bind body (\<lambda>a. db_bind (backend_call commit_error fault) (\<lambda>_. db_return a)) c1 of
             (Inl err, c2) \<Rightarrow> (Inl err, c2\<lparr>cn_db := cn_db c0\<rparr>)
           | (Inr a, c2) \<Rightarrow> (Inr a, c2)))"

text \<open>What the migration script creates; SQLite keeps the text of each statement.\<close>

definition lines_of :: "string list \<Rightarrow> sqlv" where
  "lines_of ls = SText (join_str [CHR 0x0A] ls)"

definition migration_schema :: "schema_row list" where
  "migration_schema =
     [\<lparr>sch_type = SText ''table'', sch_name = SText ''account_binding'', sch_sql = lines_of
        [''CREATE TABLE account_binding ('',
         ''    singleton INTEGER PRIMARY KEY CHECK (singleton = 1),'',
         ''    account_id TEXT NOT NULL,'',
         ''    broker_subject TEXT NULL CHECK (broker_subject IS NULL OR (length(CAST(broker_subject AS BLOB)) BETWEEN 1 AND 255)),'',
         ''    refresh_token TEXT NULL CHECK (refresh_token IS NULL OR (length(CAST(refresh_token AS BLOB)) BETWEEN 1 AND 4096))'',
         '')'']\<rparr>,
      \<lparr>sch_type = SText ''table'', sch_name = SText ''messages'', sch_sql = lines_of
        [''CREATE TABLE messages ('',
         ''    message_id TEXT PRIMARY KEY,'',
         ''    thread_id TEXT NOT NULL,'',
         ''    sender TEXT NOT NULL,'',
         ''    subject TEXT NOT NULL,'',
         ''    preview TEXT NOT NULL,'',
         ''    received_at INTEGER NOT NULL,'',
         ''    unread INTEGER NOT NULL CHECK (unread IN (0, 1)),'',
         ''    content BLOB NULL'',
         '')'']\<rparr>,
      \<lparr>sch_type = SText ''index'', sch_name = SText ''messages_list_order'', sch_sql = lines_of
        [''CREATE INDEX messages_list_order'',
         ''    ON messages (received_at DESC, message_id ASC)'']\<rparr>,
      \<lparr>sch_type = SText ''index'', sch_name = SText ''messages_thread_order'', sch_sql = lines_of
        [''CREATE INDEX messages_thread_order'',
         ''    ON messages (thread_id ASC, received_at ASC, message_id ASC)'']\<rparr>,
      \<lparr>sch_type = SText ''table'', sch_name = SText ''account_identity'', sch_sql = lines_of
        [''CREATE TABLE account_identity ('',
         ''    account_id TEXT PRIMARY KEY,'',
         ''    identity_hash BLOB NOT NULL,'',
         ''    algo_version INTEGER NOT NULL'',
         '')'']\<rparr>,
      \<lparr>sch_type = SText ''table'', sch_name = SText ''account_lifecycle'', sch_sql = lines_of
        [''CREATE TABLE account_lifecycle ('',
         ''    singleton INTEGER PRIMARY KEY CHECK (singleton = 1),'',
         ''    disconnect_recovery INTEGER NULL CHECK (disconnect_recovery IN (1, 2)),'',
         ''    last_successful_sync_unix_millis INTEGER NULL CHECK (last_successful_sync_unix_millis >= 0)'',
         '')'']\<rparr>]"

definition empty_tables :: db where
  "empty_tables =
     \<lparr>db_messages = [], db_binding = None, db_identity = [], db_lifecycle = None\<rparr>"

definition run_migration :: "db_image \<Rightarrow> db_image" where
  "run_migration im =
     im\<lparr>im_schema := im_schema im @ migration_schema, im_tables := empty_tables\<rparr>"

definition insert_binding :: "account_id \<Rightarrow> db \<Rightarrow> db" where
  "insert_binding account db =
     db\<lparr>db_binding := Some \<lparr>bd_account_id = SText (account_id_str account),
        bd_broker_subject = SNull, bd_refresh_token = SNull\<rparr>\<rparr>"

text \<open>A failure to begin is a storage failure whatever its code, unlike one to commit.\<close>

definition migrate_fresh :: "faults \<Rightarrow> account_id \<Rightarrow> unit open_op" where
  "migrate_fresh fault account =
     unchecked_transaction (\<lambda>_. OF_Storage) classify_open fault
       (db_bind (image_execute fault run_migration) (\<lambda>_.
        db_bind (image_execute fault (\<lambda>im. im\<lparr>im_tables := insert_binding account (im_tables im)\<rparr>)) (\<lambda>_.
        db_bind (image_execute fault (\<lambda>im. im\<lparr>im_application_id := STORE_APPLICATION_ID\<rparr>)) (\<lambda>_.
        image_execute fault (\<lambda>im. im\<lparr>im_user_version := STORE_VERSION\<rparr>)))))"

definition validate_recovery_read_only :: "faults \<Rightarrow> account_id \<Rightarrow> string \<Rightarrow> bool open_op" where
  "validate_recovery_read_only fault account key =
     db_bind (apply_key fault key) (\<lambda>_.
     db_bind (connection_pragmas fault) (\<lambda>_.
     db_bind (pragma_query fault cc_journal_size_limit) (\<lambda>journal_size_limit.
     if journal_size_limit \<noteq> -1 then db_result (Inl OF_Corrupted)
     else
       transaction classify_open fault
         (db_bind (validate_identity fault account) (\<lambda>fresh.
          db_bind (validate_health fault) (\<lambda>_. db_return fresh))))))"

definition configure_read_only :: "faults \<Rightarrow> account_id \<Rightarrow> string \<Rightarrow> unit open_op" where
  "configure_read_only fault account key =
     db_bind (validate_recovery_read_only fault account key) (\<lambda>fresh.
       db_result (if fresh then Inl OF_Corrupted else Inr ()))"

definition set_and_verify_persistent_wal :: "faults \<Rightarrow> unit open_op" where
  "set_and_verify_persistent_wal fault =
     db_bind (execute (\<lambda>_. OF_Storage) fault (set_pragmas (\<lambda>k. k\<lparr>cc_persist_wal := 1\<rparr>))) (\<lambda>_.
     db_bind (query_row (\<lambda>_. OF_Storage) fault (\<lambda>k. Inr (cc_persist_wal k))) (\<lambda>current.
       db_result (if current = 1 then Inr () else Inl OF_Storage)))"

text \<open>
  The statements of one writer open between connecting and handing out the store, without
  the checks on the directory entries.
\<close>

definition open_database :: "faults \<Rightarrow> account_id \<Rightarrow> string \<Rightarrow> unit open_op" where
  "open_database fault account key =
     db_bind (configure_storage fault account key) (\<lambda>fresh.
     db_bind (if fresh then db_bind (materialize_fresh_wal fault) (\<lambda>_. migrate_fresh fault account)
              else db_return ()) (\<lambda>_.
     db_bind (set_and_verify_persistent_wal fault) (\<lambda>_. validate_health fault)))"

end
