(* ===== verification/Open_Props.thy ===== *)
theory Open_Props
  imports Open_Validate
begin

text \<open>
  What opening an account database promises: only a blank file or one of this very account
  under this very key is accepted, nothing else is ever rewritten, and a created database
  opens again for its owner and for nobody else.
\<close>

section \<open>The schema text\<close>

text \<open>For ASCII text the White_Space code points are the six bytes below.\<close>

lemma ascii_byte: "\<not> digit7 c \<Longrightarrow> byte c < 128"
proof (cases c)
  case (Char b0 b1 b2 b3 b4 b5 b6 b7)
  assume "\<not> digit7 c"
  with Char show ?thesis by (simp add: of_char_Char)
qed

definition ascii_space :: "char \<Rightarrow> bool" where
  "ascii_space c \<longleftrightarrow>
     c \<in> {CHR 0x09, CHR 0x0A, CHR 0x0B, CHR 0x0C, CHR 0x0D, CHR '' ''}"

definition ascii_text :: "string \<Rightarrow> bool" where
  "ascii_text s \<longleftrightarrow> list_all (\<lambda>c. \<not> digit7 c) s"

lemma ascii_text_bytes: "ascii_text s \<Longrightarrow> list_all (\<lambda>c. byte c < 128) s"
  by (auto simp: ascii_text_def list_all_iff ascii_byte)

lemma is_whitespace_ascii:
  assumes "\<not> digit7 c"
  shows "is_whitespace (byte c) \<longleftrightarrow> ascii_space c"
proof -
  have "ascii_space c \<longleftrightarrow> byte c \<in> {9, 10, 11, 12, 13, 32}"
    unfolding ascii_space_def insert_iff empty_iff of_char_eq_iff [where 'a = nat, symmetric]
    by simp
  with ascii_byte [OF assms] show ?thesis
    by (auto simp: is_whitespace_def)
qed

lemma split_on_map:
  "split_on p (map f s) = map (map f) (split_on (\<lambda>c. p (f c)) s)"
  by (induction s) (auto split: list.split)

lemma split_on_cong:
  "(\<And>c. c \<in> set s \<Longrightarrow> p c = q c) \<Longrightarrow> split_on p s = split_on q s"
  by (induction s) auto

lemma split_on_sub: "w \<in> set (split_on p s) \<Longrightarrow> set w \<subseteq> set s"
  by (induction s arbitrary: w) (fastforce split: if_splits list.splits)+

lemma split_whitespace_ascii:
  assumes "ascii_text s"
  shows "split_whitespace s = filter (\<lambda>w. w \<noteq> []) (split_on ascii_space s)"
proof -
  have "split_on (\<lambda>c. is_whitespace (byte c)) s = split_on ascii_space s"
    using assms by (intro split_on_cong) (auto simp: ascii_text_def list_all_iff is_whitespace_ascii)
  then have "split_whitespace s =
      map (\<lambda>w. utf8_encode (map byte w)) (filter (\<lambda>w. w \<noteq> []) (split_on ascii_space s))"
    using utf8_decode_ascii [OF ascii_text_bytes [OF assms]]
    by (simp add: split_whitespace_def split_on_map filter_map o_def)
  also have "\<dots> = filter (\<lambda>w. w \<noteq> []) (split_on ascii_space s)"
    using ascii_text_bytes [OF assms]
    by (intro map_idI utf8_encode_ascii) (auto simp: list_all_iff dest!: split_on_sub)
  finally show ?thesis .
qed

definition ascii_normalize :: "string \<Rightarrow> string" where
  "ascii_normalize sql = join_str '' '' (filter (\<lambda>w. w \<noteq> [])
     (split_on ascii_space (rev (dropWhile (\<lambda>c. c = CHR '';'') (rev sql)))))"

lemma normalize_ascii:
  assumes "ascii_text sql"
  shows "normalize sql = ascii_normalize sql"
proof -
  have "ascii_text (rev (dropWhile (\<lambda>c. c = CHR '';'') (rev sql)))"
    using assms by (auto simp: ascii_text_def list_all_iff dest!: set_dropWhileD)
  then show ?thesis by (simp add: normalize_def ascii_normalize_def split_whitespace_ascii)
qed

fun ascii_object :: "schema_row \<Rightarrow> (string \<times> string \<times> string) option" where
  "ascii_object r =
     (case (sch_type r, sch_name r, sch_sql r) of
        (SText k, SText n, SText s) \<Rightarrow>
          if length k \<le> MAX_SCHEMA_KIND_LEN \<and> length n \<le> MAX_SCHEMA_NAME_LEN
            \<and> length s \<le> MAX_SCHEMA_SQL_LEN \<and> ascii_text k \<and> ascii_text n \<and> ascii_text s
          then Some (k, n, ascii_normalize s) else None
      | _ \<Rightarrow> None)"

lemma schema_object_ascii: "ascii_object r = Some t \<Longrightarrow> schema_object r = Inr t"
  by (auto simp: schema_object_def text_within_def get_string_def normalize_ascii
      utf8_valid_ascii ascii_text_bytes split: sqlv.splits if_splits)

lemma read_objects_ascii:
  "map ascii_object rows = map Some ts \<Longrightarrow> length ts \<le> room \<Longrightarrow> read_objects room rows = Inr ts"
proof (induction rows arbitrary: ts room)
  case (Cons r rows)
  then obtain t us room' where "ts = t # us" "room = Suc room'"
    by (cases ts; cases room) auto
  with Cons show ?case by (auto simp: schema_object_ascii simp del: ascii_object.simps)
qed simp

lemma migration_objects:
  "map ascii_object
     (take (CANONICAL_SCHEMA_OBJECT_COUNT + 1)
       (sort_by by_type_and_name (filter user_object migration_schema))) = map Some canonical_schema"
  by (simp add: canonical_schema_def normalize_ascii ascii_text_def) code_simp

section \<open>Images\<close>

definition blank :: "db_image \<Rightarrow> bool" where
  "blank im \<longleftrightarrow> im_application_id im = 0 \<and> im_user_version im = 0 \<and> schema im = Inr []"

definition owned_by :: "account_id \<Rightarrow> db_image \<Rightarrow> bool" where
  "owned_by account im \<longleftrightarrow>
     im_application_id im = STORE_APPLICATION_ID \<and> im_user_version im = STORE_VERSION
     \<and> schema im = Inr canonical_schema
     \<and> (\<exists>owner. owner_of im = Inr owner \<and> account_id_new owner = Inr account)"

abbreviation file_of :: "cipher_conn conn \<Rightarrow> cipher_file" where
  "file_of c \<equiv> cc_file (cn_db c)"

abbreviation image_of :: "cipher_conn conn \<Rightarrow> db_image" where
  "image_of c \<equiv> cf_image (file_of c)"

lemma canonical_not_Nil [simp]: "canonical_schema \<noteq> []" "[] \<noteq> canonical_schema"
  by (simp_all add: canonical_schema_def)

lemma blank_not_owned: "blank im \<Longrightarrow> \<not> owned_by account im"
  by (simp add: blank_def owned_by_def)

lemma schema_depends:
  "filter user_object (im_schema im) = filter user_object (im_schema im') \<Longrightarrow> schema im = schema im'"
  by (simp add: schema_def)

lemma insort_by_not_Nil [simp]: "insort_by le x xs \<noteq> []"
  by (cases xs) auto

lemma read_objects_Nil: "read_objects room rows = Inr [] \<longleftrightarrow> rows = []"
  by (cases "(room, rows)" rule: read_objects.cases) (auto simp: result_simps)

lemma schema_empty: "schema im = Inr [] \<longleftrightarrow> filter user_object (im_schema im) = []"
  by (cases "filter user_object (im_schema im)")
    (simp_all add: schema_def read_objects_Nil)

lemma migration_is_canonical:
  "read_objects CANONICAL_SCHEMA_OBJECT_COUNT
     (take (CANONICAL_SCHEMA_OBJECT_COUNT + 1)
       (sort_by by_type_and_name (filter user_object migration_schema))) = Inr canonical_schema"
  using migration_objects by (rule read_objects_ascii) (simp add: canonical_schema_def CANONICAL_SCHEMA_OBJECT_COUNT_def)

lemma migrated_schema:
  "schema im = Inr [] \<Longrightarrow> im_schema im' = im_schema im @ migration_schema
    \<Longrightarrow> schema im' = Inr canonical_schema"
  unfolding schema_empty using migration_is_canonical by (simp add: schema_def)

lemma migrated_owner:
  assumes "account_id_ok account" and "im_tables im = migrated_tables account"
  shows "owner_of im = Inr (account_id_str account)"
proof -
  from assms(1) have "length (account_id_str account) \<le> 256"
    and "list_all is_ascii_graphic (account_id_str account)"
    by (simp_all add: account_id_ok_def identifier_text_def MAX_IDENTIFIER_LEN_def)
  with assms(2) show ?thesis
    by (simp add: owner_of_def migrated_tables_def text_within_def get_string_def
        utf8_valid_ascii ascii_graphic_less_128)
qed


section \<open>Steps\<close>

text \<open>\<open>op_within R m\<close>: whatever its outcome, the operation moves the connection along \<open>R\<close>.\<close>

definition op_within :: "('d \<Rightarrow> 'd \<Rightarrow> bool) \<Rightarrow> ('d, 'e, 'a) db_op \<Rightarrow> bool" where
  "op_within R m \<longleftrightarrow> (\<forall>c. R (cn_db c) (cn_db (snd (m c))))"

locale movement =
  fixes R :: "'d \<Rightarrow> 'd \<Rightarrow> bool"
  assumes stay: "R k k"
    and go_on: "R k k1 \<Longrightarrow> R k1 k2 \<Longrightarrow> R k k2"
begin

lemma within_read_only: "read_only_op m \<Longrightarrow> op_within R m"
  by (simp add: op_within_def read_only_op_def stay)

lemma within_bind:
  assumes "op_within R m" and "\<And>a. op_within R (f a)"
  shows "op_within R (db_bind m f)"
  unfolding op_within_def
proof
  fix c
  obtain r c1 where m: "m c = (r, c1)" by fastforce
  with assms(1) have "R (cn_db c) (cn_db c1)" unfolding op_within_def by (metis snd_conv)
  with m assms(2) show "R (cn_db c) (cn_db (snd (db_bind m f c)))"
    by (cases r) (auto simp: db_bind_def op_within_def intro: go_on)
qed

lemma within_execute:
  assumes "\<And>k. R k (fst (stmt k))"
  shows "op_within R (execute classify fault stmt)"
  unfolding execute_def
proof (rule within_bind)
  show "op_within R (\<lambda>c. case stmt (cn_db c) of (db', changed) \<Rightarrow> (Inr changed, c\<lparr>cn_db := db'\<rparr>))"
    by (simp add: op_within_def split_beta assms)
qed (rule within_read_only, rule read_only_call)

lemma within_if: "op_within R m \<Longrightarrow> op_within R n \<Longrightarrow> op_within R (if b then m else n)"
  by simp

lemma within_option:
  "op_within R m \<Longrightarrow> (\<And>a. op_within R (f a)) \<Longrightarrow>
    op_within R (case x of None \<Rightarrow> m | Some a \<Rightarrow> f a)"
  by (simp split: option.split)

lemma within_sum:
  "(\<And>e. op_within R (f e)) \<Longrightarrow> (\<And>a. op_within R (g a)) \<Longrightarrow>
    op_within R (case x of Inl e \<Rightarrow> f e | Inr a \<Rightarrow> g a)"
  by (simp split: sum.split)

lemma within_prod: "(\<And>a b. op_within R (f a b)) \<Longrightarrow> op_within R (case x of (a, b) \<Rightarrow> f a b)"
  by (simp split: prod.split)

lemmas within_shapes = within_bind within_if within_option within_sum within_prod

end

text \<open>The two relations of an open: the file is untouched, and its rows are.\<close>

definition same_file :: "cipher_conn \<Rightarrow> cipher_conn \<Rightarrow> bool" where
  "same_file k k' \<longleftrightarrow> cc_file k' = cc_file k"

definition same_contents :: "db_image \<Rightarrow> db_image \<Rightarrow> bool" where
  "same_contents im im' \<longleftrightarrow>
     im_application_id im' = im_application_id im \<and> im_user_version im' = im_user_version im
     \<and> im_schema im' = im_schema im \<and> im_tables im' = im_tables im"

definition same_rows :: "cipher_conn \<Rightarrow> cipher_conn \<Rightarrow> bool" where
  "same_rows k k' \<longleftrightarrow>
     cc_key k' = cc_key k \<and> same_contents (cf_image (cc_file k)) (cf_image (cc_file k'))"

interpretation kept: movement same_file
  by unfold_locales (auto simp: same_file_def)

interpretation rows: movement same_rows
  by unfold_locales (auto simp: same_rows_def same_contents_def)

lemma read_only_pragma [op_rules]: "read_only_op (pragma_query fault get)"
  unfolding pragma_query_def by (rule read_only_query)

lemma read_only_image [op_rules]: "read_only_op (image_query fault get)"
  unfolding image_query_def by (rule read_only_query)

lemma image_same_rows:
  assumes "\<And>k. same_rows k (write_image f k)"
  shows "op_within same_rows (image_execute fault f)"
  unfolding image_execute_def
  by (rule rows.within_bind, rule rows.within_read_only, rule read_only_image)
    (simp add: op_within_def assms)

lemma read_only_if: "read_only_op m \<Longrightarrow> read_only_op n \<Longrightarrow> read_only_op (if b then m else n)"
  by simp

lemma read_only_identity: "read_only_op (validate_identity fault account)"
  unfolding validate_identity_def Let_def
  by (intro read_only_bind op_rules read_only_if)

lemma read_only_health: "read_only_op (validate_health fault)"
  unfolding validate_health_def by (intro op_rules)

lemma key_same_file: "op_within same_file (apply_key fault key)"
  unfolding apply_key_def
  by (intro kept.within_bind kept.within_execute kept.within_read_only op_rules)
    (simp add: set_pragmas_def same_file_def)

lemma pragmas_same_file: "op_within same_file (connection_pragmas fault)"
  unfolding connection_pragmas_def
  by (intro kept.within_bind kept.within_execute kept.within_read_only op_rules)
    (simp add: set_pragmas_def same_file_def)

lemma owned_storage_same_rows: "op_within same_rows (configure_owned_storage fault)"
  unfolding configure_owned_storage_def
  by (intro rows.within_bind rows.within_execute image_same_rows rows.within_read_only op_rules)
    (simp_all add: set_pragmas_def same_rows_def same_contents_def write_image_def)

lemma persist_same_rows: "op_within same_rows (set_and_verify_persistent_wal fault)"
  unfolding set_and_verify_persistent_wal_def
  by (intro rows.within_bind rows.within_execute rows.within_read_only op_rules)
    (simp_all add: set_pragmas_def same_rows_def same_contents_def)

lemma withinD: "op_within R m \<Longrightarrow> m c = (r, c') \<Longrightarrow> R (cn_db c) (cn_db c')"
  unfolding op_within_def by (metis snd_conv)


section \<open>What a successful step established\<close>

lemma pragma_Inr: "pragma_query fault get c = (Inr a, c') \<Longrightarrow> cn_db c' = cn_db c \<and> a = get (cn_db c)"
  unfolding pragma_query_def by (auto dest: query_row_Inr)

lemma image_Inr:
  "image_query fault get c = (Inr a, c') \<Longrightarrow>
    cn_db c' = cn_db c \<and> readable (cn_db c) \<and> get (image_of c) = Inr a"
  unfolding image_query_def by (auto dest!: query_row_Inr simp: read_image_def split: if_splits)

lemma image_execute_Inr:
  "image_execute fault f c = (Inr (), c') \<Longrightarrow>
    readable (cn_db c) \<and> cn_db c' = write_image f (cn_db c)"
  unfolding image_execute_def by (auto elim!: db_bind_Inr dest!: image_Inr)

lemma set_pragmas_Inr:
  "execute classify fault (set_pragmas f) c = (Inr n, c') \<Longrightarrow> cn_db c' = f (cn_db c)"
  by (auto simp: set_pragmas_def dest!: execute_Inr)

lemma pragmas_Inr:
  assumes "db_bind (apply_key fault key) (\<lambda>_. connection_pragmas fault) c = (Inr (), c')"
  shows "cn_db c' = (cn_db c)\<lparr>cc_key := key, cc_foreign_keys := 1, cc_temp_store := 2\<rparr>"
  using assms
  by (auto simp: apply_key_def connection_pragmas_def
      elim!: db_bind_Inr dest!: set_pragmas_Inr backend_call_db)

lemma validate_identity_Inr:
  assumes "validate_identity fault account c = (Inr fresh, c')"
  shows "cn_db c' = cn_db c \<and> readable (cn_db c) \<and>
    (if fresh then blank (image_of c) else owned_by account (image_of c))"
  using assms unfolding validate_identity_def Let_def
  by (auto elim!: db_bind_Inr dest!: pragma_Inr image_Inr simp: blank_def owned_by_def
      split: if_splits)

lemma db_bind_assoc: "db_bind (db_bind m f) g = db_bind m (\<lambda>a. db_bind (f a) g)"
  by (auto simp: fun_eq_iff db_bind_def split: prod.split sum.split)

lemma db_return_bind [simp]: "db_bind (db_return a) f = f a"
  by (simp add: fun_eq_iff db_bind_def db_return_def)

text \<open>Up to the identity check an open leaves the file alone.\<close>

definition identify :: "faults \<Rightarrow> account_id \<Rightarrow> string \<Rightarrow> bool open_op" where
  "identify fault account key =
     db_bind (db_bind (apply_key fault key) (\<lambda>_. connection_pragmas fault))
       (\<lambda>_. validate_identity fault account)"

lemma configure_storage_steps:
  "configure_storage fault account key =
    db_bind (identify fault account key) (\<lambda>fresh.
      db_bind (configure_owned_storage fault) (\<lambda>_. db_return fresh))"
  by (simp add: configure_storage_def identify_def db_bind_assoc)

lemma identify_same_file: "op_within same_file (identify fault account key)"
  unfolding identify_def
  by (intro kept.within_bind key_same_file pragmas_same_file kept.within_read_only
      read_only_identity)

lemma identify_Inr:
  assumes "identify fault account key c = (Inr fresh, c')"
  shows "file_of c' = file_of c \<and> cc_key (cn_db c') = key
    \<and> cf_key (file_of c) \<in> {None, Some key}
    \<and> (if fresh then blank (image_of c) else owned_by account (image_of c))"
proof -
  from assms obtain c1 where
    p: "db_bind (apply_key fault key) (\<lambda>_. connection_pragmas fault) c = (Inr (), c1)" and
    v: "validate_identity fault account c1 = (Inr fresh, c')"
    unfolding identify_def by (elim db_bind_Inr) (auto simp: db_bind_Inr_iff)
  from pragmas_Inr [OF p] have "file_of c1 = file_of c" and "cc_key (cn_db c1) = key"
    by simp_all
  with validate_identity_Inr [OF v] show ?thesis by (auto simp: readable_def)
qed

lemma configure_storage_Inr:
  assumes "configure_storage fault account key c = (Inr fresh, c')"
  shows "cf_key (file_of c) \<in> {None, Some key}"
    and "if fresh then blank (image_of c) else owned_by account (image_of c)"
    and "cf_key (file_of c') = Some key" and "cc_key (cn_db c') = key"
    and "same_contents (image_of c) (image_of c')"
proof -
  from assms obtain c2 where
    i: "identify fault account key c = (Inr fresh, c2)" and
    o: "configure_owned_storage fault c2 = (Inr (), c')"
    unfolding configure_storage_steps by (auto elim!: db_bind_Inr)
  note k = identify_Inr [OF i]
  from k show "cf_key (file_of c) \<in> {None, Some key}"
    and "if fresh then blank (image_of c) else owned_by account (image_of c)"
    by simp_all
  from o have "cf_key (file_of c') = Some (cc_key (cn_db c2))"
    by (auto simp: configure_owned_storage_def write_image_def
        elim!: db_bind_Inr dest!: image_execute_Inr set_pragmas_Inr)
  with k show "cf_key (file_of c') = Some key" by simp
  from withinD [OF owned_storage_same_rows o] k
  show "cc_key (cn_db c') = key" and "same_contents (image_of c) (image_of c')"
    by (simp_all add: same_rows_def)
qed

lemma unchecked_transaction_Inr:
  assumes "unchecked_transaction begin_error commit_error fault body c = (Inr a, c')"
  obtains c1 c2 where "cn_db c1 = cn_db c" "body c1 = (Inr a, c2)" "cn_db c' = cn_db c2"
  using assms unfolding unchecked_transaction_def
  by (auto split: prod.splits sum.splits elim!: db_bind_Inr dest!: backend_call_db)

lemma create_Inr:
  assumes "db_bind (materialize_fresh_wal fault) (\<lambda>_. migrate_fresh fault account) c = (Inr (), c')"
    and "cf_key (file_of c) = Some (cc_key (cn_db c))"
  shows "cn_db c' = write_image (\<lambda>im. im\<lparr>im_user_version := STORE_VERSION,
      im_schema := im_schema im @ migration_schema, im_tables := migrated_tables account,
      im_application_id := STORE_APPLICATION_ID\<rparr>) (cn_db c)"
  using assms unfolding materialize_fresh_wal_def migrate_fresh_def
  by (auto elim!: db_bind_Inr unchecked_transaction_Inr dest!: image_execute_Inr
      simp: write_image_def run_migration_def insert_binding_def empty_tables_def
        migrated_tables_def)


section \<open>Opening\<close>

lemma health_same: "validate_health fault c = (r, c') \<Longrightarrow> cn_db c' = cn_db c"
  using read_only_health unfolding read_only_op_def by (metis snd_conv)

definition settle :: "faults \<Rightarrow> unit open_op" where
  "settle fault = db_bind (set_and_verify_persistent_wal fault) (\<lambda>_. validate_health fault)"

lemma settle_same_rows: "op_within same_rows (settle fault)"
  unfolding settle_def
  by (intro rows.within_bind persist_same_rows rows.within_read_only read_only_health)

lemma settle_Inr:
  assumes "settle fault c = (Inr (), c')"
  shows "file_of c' = file_of c"
  using assms unfolding settle_def set_and_verify_persistent_wal_def
  by (elim db_bind_Inr) (auto dest!: set_pragmas_Inr query_row_Inr health_same)

lemma open_database_steps:
  "open_database fault account key =
    db_bind (configure_storage fault account key) (\<lambda>fresh.
    db_bind (if fresh then db_bind (materialize_fresh_wal fault) (\<lambda>_. migrate_fresh fault account)
             else db_return ()) (\<lambda>_. settle fault))"
  by (simp add: open_database_def settle_def)

lemma owned_same_contents: "same_contents im im' \<Longrightarrow> owned_by account im' = owned_by account im"
  by (simp add: same_contents_def owned_by_def schema_def owner_of_def)

lemma migrated_owned:
  assumes "blank im" and "account_id_ok account"
    and "im_application_id im' = STORE_APPLICATION_ID" "im_user_version im' = STORE_VERSION"
    and "im_schema im' = im_schema im @ migration_schema" "im_tables im' = migrated_tables account"
  shows "owned_by account im'"
  using assms migrated_schema [of im im'] migrated_owner [of account im']
  by (cases account) (simp add: blank_def owned_by_def)

lemma open_Inr:
  assumes "open_database fault account key c = (Inr (), c')" and "account_id_ok account"
  shows "cf_key (file_of c) \<in> {None, Some key} \<and> cf_key (file_of c') = Some key
    \<and> owned_by account (image_of c')
    \<and> (owned_by account (image_of c) \<and> im_tables (image_of c') = im_tables (image_of c)
       \<or> blank (image_of c) \<and> im_tables (image_of c') = migrated_tables account)"
proof -
  from assms(1) obtain fresh u c1 c2 where
    configure: "configure_storage fault account key c = (Inr fresh, c1)" and
    create: "(if fresh then db_bind (materialize_fresh_wal fault) (\<lambda>_. migrate_fresh fault account)
             else db_return ()) c1 = (Inr u, c2)" and
    settled: "settle fault c2 = (Inr (), c')"
    unfolding open_database_steps by (elim db_bind_Inr) blast
  note k = configure_storage_Inr [OF configure] and same = settle_Inr [OF settled]
  show ?thesis
  proof (cases fresh)
    case True
    with create k(3,4) have c2: "cn_db c2 = write_image (\<lambda>im. im\<lparr>im_user_version := STORE_VERSION,
        im_schema := im_schema im @ migration_schema, im_tables := migrated_tables account,
        im_application_id := STORE_APPLICATION_ID\<rparr>) (cn_db c1)"
      by (simp add: create_Inr)
    have "owned_by account (image_of c2)"
      using True k(2,5) c2 assms(2)
      by (intro migrated_owned [of "image_of c"]) (simp_all add: write_image_def same_contents_def)
    with True k c2 same show ?thesis by (auto simp: write_image_def)
  next
    case False
    with create same have "file_of c' = file_of c1" by simp
    moreover from False k(2) have "owned_by account (image_of c)" by simp
    moreover from this have "owned_by account (image_of c1)"
      using owned_same_contents [OF k(5)] by simp
    ultimately show ?thesis using k(1,3,5) by (simp add: same_contents_def)
  qed
qed

text \<open>A sound store of an account opens for it when no call fails.\<close>

definition healthy :: "db_image \<Rightarrow> bool" where
  "healthy im \<longleftrightarrow>
     im_integrity im = ''ok'' \<and> \<not> im_foreign_key_failure im \<and> \<not> im_cipher_failure im"

lemma quiet_pragma: "pragma_query quiet get c = (Inr (get (cn_db c)), tick c)"
  by (simp add: pragma_query_def quiet_query)

lemma quiet_image:
  "readable (cn_db c) \<Longrightarrow>
    image_query quiet get c = (map_err classify_open (get (image_of c)), tick c)"
  by (simp add: image_query_def quiet_query read_image_def)

lemma quiet_identity:
  assumes "readable (cn_db c)" and "owned_by account (image_of c)" and "cc_cipher_version (cn_db c) \<noteq> []"
  shows "\<exists>c'. validate_identity quiet account c = (Inr False, c') \<and> cn_db c' = cn_db c"
proof -
  from assms(2) obtain owner where o: "owner_of (image_of c) = Inr owner" "account_id_new owner = Inr account"
    by (auto simp: owned_by_def)
  with assms show ?thesis
    unfolding validate_identity_def Let_def owned_by_def
    by (simp add: db_bind_def quiet_pragma quiet_image db_return_def STORE_VERSION_def o
        del: account_id_new_Inr)
qed

lemma quiet_image_execute:
  "readable (cn_db c) \<Longrightarrow>
    image_execute quiet f c = (Inr (), (tick c)\<lparr>cn_db := write_image f (cn_db c)\<rparr>)"
  by (simp add: image_execute_def db_bind_def quiet_image)

lemma quiet_health:
  assumes "readable (cn_db c)" and "healthy (image_of c)" and "im_journal_mode (image_of c) = ''wal''"
    and "cc_foreign_keys (cn_db c) = 1" "cc_temp_store (cn_db c) = 2" "cc_secure_delete (cn_db c) = 1"
  shows "fst (validate_health quiet c) = Inr ()"
  using assms unfolding validate_health_def
  by (simp add: db_bind_def quiet_pragma quiet_image db_result_def healthy_def)

lemma owned_opens:
  assumes "cf_key (file_of c) = Some key" and "owned_by account (image_of c)"
    and "healthy (image_of c)" and "cc_cipher_version (cn_db c) \<noteq> []"
  shows "fst (open_database quiet account key c) = Inr ()"
proof -
  define k1 where "k1 = (cn_db c)\<lparr>cc_key := key, cc_foreign_keys := 1, cc_temp_store := 2\<rparr>"
  obtain c1 where c1: "db_bind (apply_key quiet key) (\<lambda>_. connection_pragmas quiet) c = (Inr (), c1)"
    by (simp add: apply_key_def connection_pragmas_def quiet_simps)
  from pragmas_Inr [OF c1] have k1: "cn_db c1 = k1" by (simp add: k1_def)
  have "\<exists>c2. validate_identity quiet account c1 = (Inr False, c2) \<and> cn_db c2 = cn_db c1"
    by (rule quiet_identity) (use assms k1 in \<open>simp_all add: k1_def readable_def\<close>)
  then obtain c2 where c2: "validate_identity quiet account c1 = (Inr False, c2)" "cn_db c2 = k1"
    using k1 by auto
  have "readable k1" using assms(1) by (simp add: k1_def readable_def)
  then have "\<exists>c3. db_bind (configure_owned_storage quiet) (\<lambda>_. set_and_verify_persistent_wal quiet) c2
      = (Inr (), c3) \<and> cn_db c3 =
        (write_image (\<lambda>im. im\<lparr>im_journal_mode := ''wal''\<rparr>) k1)\<lparr>cc_secure_delete := 1, cc_persist_wal := 1\<rparr>"
    using c2(2)
    by (simp add: configure_owned_storage_def set_and_verify_persistent_wal_def set_pragmas_def
        quiet_simps quiet_image_execute)
  then obtain c3 where
    c3: "db_bind (configure_owned_storage quiet) (\<lambda>_. set_and_verify_persistent_wal quiet) c2 = (Inr (), c3)"
    and k3: "cn_db c3 = (write_image (\<lambda>im. im\<lparr>im_journal_mode := ''wal''\<rparr>) k1)
      \<lparr>cc_secure_delete := 1, cc_persist_wal := 1\<rparr>"
    by blast
  have i: "identify quiet account key c = (Inr False, c2)"
    unfolding identify_def by (subst db_bind_pair, rule c1) (simp add: c2(1))
  have "open_database quiet account key c
      = db_bind (db_bind (configure_owned_storage quiet) (\<lambda>_. set_and_verify_persistent_wal quiet))
          (\<lambda>_. validate_health quiet) c2"
    unfolding open_database_steps configure_storage_steps db_bind_assoc
    by (subst db_bind_pair, rule i) (simp add: settle_def)
  also have "\<dots> = validate_health quiet c3"
    by (subst db_bind_pair, rule c3) simp
  finally have "open_database quiet account key c = validate_health quiet c3" .
  moreover have "fst (validate_health quiet c3) = Inr ()"
    by (rule quiet_health)
      (use assms in \<open>simp_all add: k3 k1_def write_image_def readable_def healthy_def\<close>)
  ultimately show ?thesis by simp
qed

lemma owned_by_one: "owned_by a im \<Longrightarrow> owned_by b im \<Longrightarrow> a = b"
  by (auto simp: owned_by_def simp del: account_id_new_Inr)

lemma open_any:
  assumes "open_database fault account key c = (r, c')"
  shows "(cf_key (file_of c) \<notin> {None, Some key}
      \<or> \<not> blank (image_of c) \<and> \<not> owned_by account (image_of c)
      \<longrightarrow> (\<exists>err. r = Inl err) \<and> file_of c' = file_of c)
    \<and> (\<not> blank (image_of c) \<longrightarrow> same_contents (image_of c) (image_of c'))"
proof -
  obtain i c1 where i: "identify fault account key c = (i, c1)" by fastforce
  show ?thesis
  proof (cases i)
    case (Inl err)
    with i assms have "r = Inl err" "c' = c1"
      by (simp_all add: open_database_steps configure_storage_steps db_bind_assoc db_bind_pair)
    with withinD [OF identify_same_file i] show ?thesis
      by (simp add: same_file_def same_contents_def)
  next
    case (Inr fresh)
    with identify_Inr i have k: "file_of c1 = file_of c" "cf_key (file_of c) \<in> {None, Some key}"
      "if fresh then blank (image_of c) else owned_by account (image_of c)"
      by blast+
    have "same_contents (image_of c) (image_of c')" if "\<not> blank (image_of c)"
    proof -
      from k(3) that have "\<not> fresh" by (auto split: if_splits)
      with i Inr assms
      have "db_bind (configure_owned_storage fault) (\<lambda>_. settle fault) c1 = (r, c')"
        by (simp add: open_database_steps configure_storage_steps db_bind_assoc db_bind_pair)
      moreover have "op_within same_rows (db_bind (configure_owned_storage fault) (\<lambda>_. settle fault))"
        by (intro rows.within_bind owned_storage_same_rows settle_same_rows)
      ultimately show ?thesis using withinD k(1) by (metis same_rows_def)
    qed
    with k show ?thesis by (auto split: if_splits)
  qed
qed

text \<open>
  Whatever the outcome of an open and whatever fails in it: a file written under another
  key, and a file that is neither blank nor a store of this account, is refused and left byte
  for byte as it was; and no open changes the rows, the schema or the ownership marks of a
  store that has an owner.
\<close>

theorem open_preserves_what_it_refuses:
  assumes "open_database fault account key c = (r, c')"
  shows "(cf_key (file_of c) \<notin> {None, Some key}
      \<or> \<not> blank (image_of c) \<and> \<not> owned_by account (image_of c)
      \<longrightarrow> (\<exists>err. r = Inl err) \<and> file_of c' = file_of c)
    \<and> (\<not> blank (image_of c) \<longrightarrow> same_contents (image_of c) (image_of c'))"
  using assms by (rule open_any)


text \<open>
  C27. A database created (or reopened) for an account under a key, whatever rows are written to it
  afterwards as long as its binding keeps the account and the file stays sound, opens again on
  any connection without backend failures exactly for that account and that key.
\<close>

theorem created_store_reopens:
  assumes "open_database fault account key c = (Inr (), c')" and "account_id_ok account"
    and "cc_file (cn_db d) = (file_of c')\<lparr>cf_image := (image_of c')\<lparr>im_tables := rows\<rparr>\<rparr>"
    and "map_option bd_account_id (db_binding rows)
      = map_option bd_account_id (db_binding (im_tables (image_of c')))"
    and "healthy (image_of d)" and "cc_cipher_version (cn_db d) \<noteq> []" and "account_id_ok account'"
  shows "fst (open_database quiet account' key' d) = Inr () \<longleftrightarrow> account' = account \<and> key' = key"
proof -
  from open_Inr [OF assms(1,2)] have k: "cf_key (file_of c') = Some key" "owned_by account (image_of c')"
    by simp_all
  have "owner_of (image_of d) = owner_of (image_of c')"
    using assms(3,4) by (auto simp: owner_of_def split: option.splits)
  then have owned: "owned_by account (image_of d)" and key: "cf_key (file_of d) = Some key"
    using k assms(3) by (simp_all add: owned_by_def schema_def)
  show ?thesis
  proof
    assume "fst (open_database quiet account' key' d) = Inr ()"
    then obtain d' where "open_database quiet account' key' d = (Inr (), d')" by (metis prod.collapse)
    from open_Inr [OF this assms(7)] key owned show "account' = account \<and> key' = key"
      using blank_not_owned owned_by_one by auto
  next
    assume "account' = account \<and> key' = key"
    with owned_opens [OF key owned assms(5,6)] show "fst (open_database quiet account' key' d) = Inr ()"
      by simp
  qed
qed

section \<open>Samples\<close>

definition new_conn :: "cipher_file \<Rightarrow> cipher_conn conn" where
  "new_conn f =
     \<lparr>cn_db = \<lparr>cc_key = [], cc_file = f, cc_cipher_version = ''4.6.1'', cc_foreign_keys = 0,
        cc_temp_store = 0, cc_secure_delete = 1, cc_journal_size_limit = -1, cc_persist_wal = 0\<rparr>,
      cn_calls = 0\<rparr>"

definition empty_file :: cipher_file where
  "empty_file =
     \<lparr>cf_key = None,
      cf_image = \<lparr>im_application_id = 0, im_user_version = 0, im_schema = [],
        im_tables = empty_tables, im_journal_mode = ''delete'', im_integrity = ''ok'',
        im_foreign_key_failure = False, im_cipher_failure = False\<rparr>\<rparr>"

lemma empty_opens: "fst (open_database quiet sample_account ''key'' (new_conn empty_file)) = Inr ()"
  by code_simp

lemma empty_healthy:
  "healthy (image_of (snd (open_database quiet sample_account ''key'' (new_conn empty_file))))"
  by code_simp

lemma sample_account_ok: "account_id_ok sample_account" "account_id_ok (AccountId ''acc-2'')"
  by code_simp+

lemma empty_run:
  "open_database quiet sample_account ''key'' (new_conn empty_file)
    = (Inr (), snd (open_database quiet sample_account ''key'' (new_conn empty_file)))"
  using empty_opens by (metis prod.collapse)

definition created :: cipher_file where
  "created = file_of (snd (open_database quiet sample_account ''key'' (new_conn empty_file)))"

lemma file_of_new_conn [simp]: "file_of (new_conn f) = f"
  by (simp add: new_conn_def)

lemma created_key: "cf_key created = Some ''key''"
  using open_Inr [OF empty_run sample_account_ok(1)] by (simp add: created_def)

theorem open_preserves_what_it_refuses_witness:
  "(\<exists>err. fst (open_database quiet sample_account ''other'' (new_conn created)) = Inl err)
    \<and> file_of (snd (open_database quiet sample_account ''other'' (new_conn created))) = created"
proof -
  obtain r c' where "open_database quiet sample_account ''other'' (new_conn created) = (r, c')"
    by fastforce
  with open_preserves_what_it_refuses [OF this] created_key show ?thesis by simp
qed

theorem created_store_reopens_witness:
  "fst (open_database quiet sample_account ''key'' (new_conn created)) = Inr ()
    \<and> fst (open_database quiet (AccountId ''acc-2'') ''key'' (new_conn created)) \<noteq> Inr ()"
proof -
  have same: "cc_file (cn_db (new_conn created)) = created\<lparr>cf_image := (cf_image created)
      \<lparr>im_tables := im_tables (cf_image created)\<rparr>\<rparr>"
    by simp
  have sound: "healthy (image_of (new_conn created))" "cc_cipher_version (cn_db (new_conn created)) \<noteq> []"
    using empty_healthy by (simp_all add: created_def new_conn_def)
  note reopens = created_store_reopens [OF empty_run sample_account_ok(1)
      same [unfolded created_def] refl, folded created_def, OF sound]
  from reopens [OF sample_account_ok(1)] reopens [OF sample_account_ok(2)] show ?thesis
    by (simp add: sample_account_def)
qed

end
