(* ===== verification/Leaf_Files.thy ===== *)
theory Leaf_Files
  imports Open_Validate
begin

text \<open>
  The directory entries of an account database (\<^verbatim>\<open>adapters/store-sqlcipher/src/lib.rs\<close>): the
  four leaves (main, journal, WAL, shared memory), their identities, and the \<open>LeafGuard\<close> that
  claims a fresh main file, normalises modes and cleans up after a failed first open. The file
  system is shared: before every system call the other processes of the machine, SQLite's own
  file handling among them, may have changed it in any way (\<open>fe_others\<close>), and every call may
  fail (\<open>fe_fault\<close>). The system calls the opener makes are recorded in a log.
\<close>

section \<open>The file system\<close>

datatype errno = NOENT | EXIST | OtherErrno

datatype file_kind = RegularFile | Directory | Symlink | OtherKind

record file_stat =
  st_dev :: int
  st_ino :: nat
  st_uid :: nat
  st_kind :: file_kind
  st_mode :: nat
  st_size :: int

text \<open>Paths by what the code asks of them.\<close>

record db_path =
  pa_parent :: "string option"
  pa_file_name :: "string option"

text \<open>Objects are numbered; a directory object maps names to objects.\<close>

record fs =
  fs_names :: "nat \<Rightarrow> (string \<times> nat) list"
  fs_stat :: "nat \<Rightarrow> file_stat"
  fs_data :: "nat \<Rightarrow> string"
  fs_next :: nat
  fs_directories :: "string \<Rightarrow> nat option"
  fs_canonical :: "string \<Rightarrow> string option"
  fs_exists :: "db_path \<Rightarrow> bool"

datatype fs_event =
    EvStat nat string "errno + file_stat"
  | EvFstat nat "errno + file_stat"
  | EvOpen nat string "errno + nat"
  | EvCreate nat string "errno + nat"
  | EvChmod nat string "errno + unit"
  | EvFchmod nat "errno + unit"
  | EvUnlink nat string "errno + unit"
  | EvMkdir nat string "errno + nat"
  | EvRmdir nat string "errno + unit"
  | EvList nat "errno + string list"
  | EvCopy nat nat "errno + unit"
  | EvSync nat "errno + unit"
  | EvPath string "errno + unit"

datatype writer_hook =
    AfterSnapshot | BeforeFreshClaim | AfterFreshClaim | AfterOpen | BeforeFreshMigration
  | AfterFreshWalNormalization | AfterFreshMigration
  | CleanupBeforeRecord nat | CleanupAfterRecord nat | CleanupAfterRevalidate nat
  | NormalizeAfterOpen nat

datatype recovery_hook =
    AfterDirectoryCreate | AfterDirectoryNormalize | AfterMainCopy | AfterWalCopy
  | BeforeReadOnlyOpen | AfterReadOnlyOpen | BeforeOriginalFinalRevalidate | BeforeCleanup

datatype open_mode = ReadWrite | ReadOnly | Immutable

text \<open>
  The environment: which calls fail, what happens to the files without a call of this code
  before each of its calls (by other processes, and by the database engine, whose VFS may create
  a sidecar again that was deleted), the attributes the kernel gives a new object, the hooks (always \<open>Ok\<close>
  outside the tests), and the database engine, which resolves a path and answers the
  logical database it finds, a moved file and the close configuration.
\<close>

record fs_env =
  fe_fault :: "nat \<Rightarrow> errno option"
  fe_others :: "nat \<Rightarrow> fs \<Rightarrow> fs"
  fe_new :: "nat \<Rightarrow> file_stat"
  fe_writer_hook :: "writer_hook \<Rightarrow> open_failure + unit"
  fe_recovery_hook :: "recovery_hook \<Rightarrow> open_failure + unit"
  fe_engine :: "open_mode \<Rightarrow> fs \<Rightarrow> db_path \<Rightarrow> cipher_conn"
  fe_moved :: "nat \<Rightarrow> bool"
  fe_configured :: "nat \<Rightarrow> bool"

record file_identity =
  fi_device :: nat
  fi_inode :: nat
  fi_owner :: nat
  fi_mode :: nat

text \<open>The world holds the files, the log, the connection in use and the created stage leaves.\<close>

record recovery_stage_leaves =
  rl_main :: "file_identity option"
  rl_wal :: "file_identity option"
  rl_shm :: "file_identity option"

record leaf_world =
  lw_fs :: fs
  lw_log :: "fs_event list"
  lw_conn :: cipher_conn
  lw_created :: recovery_stage_leaves

type_synonym 'a leaf_op = "(leaf_world, open_failure, 'a) db_op"

section \<open>System calls\<close>

definition syscall :: "fs_env \<Rightarrow> (errno + 'a \<Rightarrow> fs_event) \<Rightarrow> (fs \<Rightarrow> (errno + 'a) \<times> fs) \<Rightarrow>
    (errno + 'a) leaf_op" where
  "syscall env note act c =
     (let now = fe_others env (cn_calls c) (lw_fs (cn_db c));
          (r, fs') = (case fe_fault env (cn_calls c) of Some err \<Rightarrow> (Inl err, now) | None \<Rightarrow> act now)
      in (Inr r, (tick c)\<lparr>cn_db :=
           (cn_db c)\<lparr>lw_fs := fs', lw_log := lw_log (cn_db c) @ [note r]\<rparr>\<rparr>))"

definition lookup_entry :: "fs \<Rightarrow> nat \<Rightarrow> string \<Rightarrow> errno + nat" where
  "lookup_entry fs dir name = ok_or NOENT (map_of (fs_names fs dir) name)"

definition statat :: "fs_env \<Rightarrow> nat \<Rightarrow> string \<Rightarrow> (errno + file_stat) leaf_op" where
  "statat env dir name =
     syscall env (EvStat dir name) (\<lambda>fs. (map_ok (fs_stat fs) (lookup_entry fs dir name), fs))"

definition fstat :: "fs_env \<Rightarrow> nat \<Rightarrow> (errno + file_stat) leaf_op" where
  "fstat env obj = syscall env (EvFstat obj) (\<lambda>fs. (Inr (fs_stat fs obj), fs))"

text \<open>\<open>O_NOFOLLOW\<close> refuses a symbolic link; \<open>O_DIRECTORY\<close> anything but a directory.\<close>

definition openat :: "fs_env \<Rightarrow> (file_kind \<Rightarrow> bool) \<Rightarrow> nat \<Rightarrow> string \<Rightarrow> (errno + nat) leaf_op" where
  "openat env accepts dir name =
     syscall env (EvOpen dir name) (\<lambda>fs.
       (rbind (lookup_entry fs dir name) (\<lambda>obj.
          if accepts (st_kind (fs_stat fs obj)) then Inr obj else Inl OtherErrno), fs))"

definition add_object :: "nat \<Rightarrow> string \<Rightarrow> file_stat \<Rightarrow> fs \<Rightarrow> (errno + nat) \<times> fs" where
  "add_object dir name st fs =
     (if map_of (fs_names fs dir) name \<noteq> None then (Inl EXIST, fs)
      else (Inr (fs_next fs),
        fs\<lparr>fs_names := (fs_names fs)(dir := (name, fs_next fs) # fs_names fs dir, fs_next fs := []),
           fs_stat := (fs_stat fs)(fs_next fs := st),
           fs_data := (fs_data fs)(fs_next fs := []),
           fs_next := fs_next fs + 1\<rparr>))"

definition create_excl :: "fs_env \<Rightarrow> nat \<Rightarrow> string \<Rightarrow> (errno + nat) leaf_op" where
  "create_excl env dir name c =
     syscall env (EvCreate dir name)
       (add_object dir name ((fe_new env (cn_calls c))\<lparr>st_kind := RegularFile, st_size := 0\<rparr>)) c"

definition mkdirat :: "fs_env \<Rightarrow> nat \<Rightarrow> string \<Rightarrow> (errno + nat) leaf_op" where
  "mkdirat env dir name c =
     syscall env (EvMkdir dir name)
       (add_object dir name ((fe_new env (cn_calls c))\<lparr>st_kind := Directory\<rparr>)) c"

definition set_mode :: "nat \<Rightarrow> nat \<Rightarrow> fs \<Rightarrow> fs" where
  "set_mode obj mode fs = fs\<lparr>fs_stat := (fs_stat fs)(obj := (fs_stat fs obj)\<lparr>st_mode := mode\<rparr>)\<rparr>"

definition fchmod :: "fs_env \<Rightarrow> nat \<Rightarrow> nat \<Rightarrow> (errno + unit) leaf_op" where
  "fchmod env obj mode = syscall env (EvFchmod obj) (\<lambda>fs. (Inr (), set_mode obj mode fs))"

definition chmod_no_follow_at :: "fs_env \<Rightarrow> nat \<Rightarrow> string \<Rightarrow> nat \<Rightarrow> (errno + unit) leaf_op" where
  "chmod_no_follow_at env dir name mode =
     syscall env (EvChmod dir name) (\<lambda>fs.
       case lookup_entry fs dir name of
         Inl err \<Rightarrow> (Inl err, fs)
       | Inr obj \<Rightarrow>
           if st_kind (fs_stat fs obj) = Symlink then (Inl OtherErrno, fs)
           else (Inr (), set_mode obj mode fs))"

definition remove_entry :: "nat \<Rightarrow> string \<Rightarrow> fs \<Rightarrow> fs" where
  "remove_entry dir name fs =
     fs\<lparr>fs_names := (fs_names fs)(dir := filter (\<lambda>e. fst e \<noteq> name) (fs_names fs dir))\<rparr>"

definition unlinkat :: "fs_env \<Rightarrow> nat \<Rightarrow> string \<Rightarrow> (errno + unit) leaf_op" where
  "unlinkat env dir name =
     syscall env (EvUnlink dir name) (\<lambda>fs.
       case lookup_entry fs dir name of
         Inl err \<Rightarrow> (Inl err, fs)
       | Inr obj \<Rightarrow>
           if st_kind (fs_stat fs obj) = Directory then (Inl OtherErrno, fs)
           else (Inr (), remove_entry dir name fs))"

definition rmdirat :: "fs_env \<Rightarrow> nat \<Rightarrow> string \<Rightarrow> (errno + unit) leaf_op" where
  "rmdirat env dir name =
     syscall env (EvRmdir dir name) (\<lambda>fs.
       case lookup_entry fs dir name of
         Inl err \<Rightarrow> (Inl err, fs)
       | Inr obj \<Rightarrow>
           if st_kind (fs_stat fs obj) \<noteq> Directory \<or> fs_names fs obj \<noteq> [] then (Inl OtherErrno, fs)
           else (Inr (), remove_entry dir name fs))"

definition list_names :: "fs_env \<Rightarrow> nat \<Rightarrow> (errno + string list) leaf_op" where
  "list_names env dir = syscall env (EvList dir) (\<lambda>fs. (Inr (map fst (fs_names fs dir)), fs))"

text \<open>\<open>map_err(|_error| OpenFailure::Storage)?\<close> on the result of a call.\<close>

definition or_storage :: "(errno + 'a) leaf_op \<Rightarrow> 'a leaf_op" where
  "or_storage m = db_bind m (\<lambda>r. db_result (map_err (\<lambda>_. OF_Storage) r))"

definition writer_hook_at :: "fs_env \<Rightarrow> writer_hook \<Rightarrow> unit leaf_op" where
  "writer_hook_at env point = db_result (fe_writer_hook env point)"

section \<open>Identities\<close>

definition OWNER_ONLY_FILE_MODE :: nat where "OWNER_ONLY_FILE_MODE = 384"

definition device_number :: "int \<Rightarrow> open_failure + nat" where
  "device_number raw = (if 0 \<le> raw then Inr (nat raw) else Inl OF_Storage)"

definition regular_identity :: "file_stat \<Rightarrow> nat \<Rightarrow> open_failure + file_identity" where
  "regular_identity st parent_owner =
     (if st_kind st \<noteq> RegularFile \<or> st_uid st \<noteq> parent_owner then Inl OF_Storage
      else map_ok (\<lambda>device. \<lparr>fi_device = device, fi_inode = st_ino st, fi_owner = st_uid st,
             fi_mode = st_mode st\<rparr>) (device_number (st_dev st)))"

definition restrictive_regular_identity :: "file_stat \<Rightarrow> nat \<Rightarrow> open_failure + file_identity" where
  "restrictive_regular_identity st parent_owner =
     rbind (regular_identity st parent_owner) (\<lambda>identity.
       if fi_mode identity = OWNER_ONLY_FILE_MODE then Inr identity else Inl OF_Storage)"

definition leaf_entry :: "fs_env \<Rightarrow> nat \<Rightarrow> string \<Rightarrow> nat \<Rightarrow> file_identity option leaf_op" where
  "leaf_entry env parent name parent_owner =
     db_bind (statat env parent name) (\<lambda>r. db_result
       (case r of
          Inr st \<Rightarrow> map_ok Some (regular_identity st parent_owner)
        | Inl NOENT \<Rightarrow> Inr None
        | Inl _ \<Rightarrow> Inl OF_Storage))"

record leaf_snapshot =
  ls_main :: "file_identity option"
  ls_journal :: "file_identity option"
  ls_wal :: "file_identity option"
  ls_shm :: "file_identity option"

definition is_fresh :: "leaf_snapshot \<Rightarrow> bool" where
  "is_fresh s \<longleftrightarrow> ls_main s = None \<and> ls_journal s = None \<and> ls_wal s = None \<and> ls_shm s = None"

record leaf_names =
  ln_main :: string
  ln_journal :: string
  ln_wal :: string
  ln_shm :: string

definition leaf_names_of :: "string \<Rightarrow> leaf_names" where
  "leaf_names_of name =
     \<lparr>ln_main = name, ln_journal = name @ ''-journal'', ln_wal = name @ ''-wal'',
      ln_shm = name @ ''-shm''\<rparr>"

definition snapshot_leaf_entries :: "fs_env \<Rightarrow> nat \<Rightarrow> nat \<Rightarrow> leaf_names \<Rightarrow> leaf_snapshot leaf_op" where
  "snapshot_leaf_entries env parent parent_owner names =
     db_bind (leaf_entry env parent (ln_main names) parent_owner) (\<lambda>main.
     db_bind (leaf_entry env parent (ln_journal names) parent_owner) (\<lambda>journal.
     db_bind (leaf_entry env parent (ln_wal names) parent_owner) (\<lambda>wal.
     db_bind (leaf_entry env parent (ln_shm names) parent_owner) (\<lambda>shm.
       db_return \<lparr>ls_main = main, ls_journal = journal, ls_wal = wal, ls_shm = shm\<rparr>))))"

section \<open>The guard\<close>

record leaf_guard =
  lg_parent :: nat
  lg_parent_owner :: nat
  lg_names :: leaf_names
  lg_snapshot :: leaf_snapshot
  lg_fresh_main :: "file_identity option"
  lg_fresh_migration_succeeded :: bool

fun owner_only :: "file_identity option \<Rightarrow> bool" where
  "owner_only None = True"
| "owner_only (Some identity) \<longleftrightarrow> fi_mode identity = OWNER_ONLY_FILE_MODE"

text \<open>\<open>openat(CWD, parent, ...)\<close> resolves the canonical parent path.\<close>

definition open_directory_path :: "fs_env \<Rightarrow> string \<Rightarrow> (errno + nat) leaf_op" where
  "open_directory_path env path =
     syscall env (\<lambda>r. EvPath path (map_ok (\<lambda>_. ()) r)) (\<lambda>fs. (ok_or NOENT (fs_directories fs path), fs))"

definition leaf_guard_open :: "fs_env \<Rightarrow> db_path \<Rightarrow> leaf_guard leaf_op" where
  "leaf_guard_open env path =
     db_bind (db_result (ok_or OF_Storage (pa_parent path))) (\<lambda>parent_path.
     db_bind (db_result (ok_or OF_Storage (pa_file_name path))) (\<lambda>name.
     db_bind (or_storage (open_directory_path env parent_path)) (\<lambda>parent.
     db_bind (or_storage (fstat env parent)) (\<lambda>parent_stat.
     if st_kind parent_stat \<noteq> Directory then db_result (Inl OF_Storage)
     else
       let names = leaf_names_of name; parent_owner = st_uid parent_stat
       in db_bind (snapshot_leaf_entries env parent parent_owner names) (\<lambda>snapshot.
          if \<not> (owner_only (ls_main snapshot) \<and> owner_only (ls_wal snapshot)
                 \<and> owner_only (ls_shm snapshot))
          then db_result (Inl OF_Storage)
          else if ls_main snapshot = None \<and> (ls_journal snapshot \<noteq> None \<or> ls_wal snapshot \<noteq> None
              \<or> ls_shm snapshot \<noteq> None)
          then db_result (Inl OF_Corrupted)
          else db_return
            \<lparr>lg_parent = parent, lg_parent_owner = parent_owner, lg_names = names,
             lg_snapshot = snapshot, lg_fresh_main = None, lg_fresh_migration_succeeded = False\<rparr>)))))"

text \<open>\<open>&mut self\<close>: the guard with the claimed identity is the result.\<close>

definition claim_fresh_main :: "fs_env \<Rightarrow> leaf_guard \<Rightarrow> leaf_guard leaf_op" where
  "claim_fresh_main env g =
     db_bind (or_storage (create_excl env (lg_parent g) (ln_main (lg_names g)))) (\<lambda>descriptor.
     db_bind (or_storage (fchmod env descriptor OWNER_ONLY_FILE_MODE)) (\<lambda>_.
     db_bind (or_storage (fstat env descriptor)) (\<lambda>st.
     db_bind (db_result (restrictive_regular_identity st (lg_parent_owner g))) (\<lambda>identity.
       db_return (g\<lparr>lg_fresh_main := Some identity\<rparr>)))))"

definition require_main_identity :: "fs_env \<Rightarrow> leaf_guard \<Rightarrow> unit leaf_op" where
  "require_main_identity env g =
     db_bind (db_result (ok_or OF_Storage
       (case lg_fresh_main g of Some i \<Rightarrow> Some i | None \<Rightarrow> ls_main (lg_snapshot g)))) (\<lambda>expected.
     db_bind (leaf_entry env (lg_parent g) (ln_main (lg_names g)) (lg_parent_owner g)) (\<lambda>entry.
     db_bind (db_result (ok_or OF_Storage entry)) (\<lambda>actual.
       db_result (if actual = expected then Inr () else Inl OF_Storage))))"

definition snapshot_now :: "fs_env \<Rightarrow> leaf_guard \<Rightarrow> leaf_snapshot leaf_op" where
  "snapshot_now env g = snapshot_leaf_entries env (lg_parent g) (lg_parent_owner g) (lg_names g)"

definition require_snapshot_unchanged :: "fs_env \<Rightarrow> leaf_guard \<Rightarrow> unit leaf_op" where
  "require_snapshot_unchanged env g =
     db_bind (snapshot_now env g) (\<lambda>actual.
       db_result (if actual = lg_snapshot g then Inr () else Inl OF_Storage))"

datatype existing_preflight =
  Stable | MainWithoutSidecars | WalWithoutShm | FreshWal | FreshWalWithoutShm

definition permits_new_sidecars :: "existing_preflight \<Rightarrow> bool" where
  "permits_new_sidecars p \<longleftrightarrow> p \<in> {MainWithoutSidecars, WalWithoutShm, FreshWalWithoutShm}"

fun sidecars_as_expected :: "existing_preflight \<Rightarrow> leaf_snapshot \<Rightarrow> leaf_snapshot \<Rightarrow> bool" where
  "sidecars_as_expected Stable before now \<longleftrightarrow> ls_wal now = ls_wal before \<and> ls_shm now = ls_shm before"
| "sidecars_as_expected FreshWal before now \<longleftrightarrow>
     ls_wal now = ls_wal before \<and> ls_shm now = ls_shm before"
| "sidecars_as_expected MainWithoutSidecars before now \<longleftrightarrow> ls_wal now \<noteq> None \<and> ls_shm now \<noteq> None"
| "sidecars_as_expected WalWithoutShm before now \<longleftrightarrow>
     ls_wal now = ls_wal before \<and> ls_shm now \<noteq> None"
| "sidecars_as_expected FreshWalWithoutShm before now \<longleftrightarrow>
     ls_wal now = ls_wal before \<and> ls_shm now \<noteq> None"

definition require_existing_writer_state ::
    "fs_env \<Rightarrow> leaf_guard \<Rightarrow> existing_preflight \<Rightarrow> unit leaf_op" where
  "require_existing_writer_state env g preflight =
     db_bind (snapshot_now env g) (\<lambda>actual. db_result
       (if ls_main actual = ls_main (lg_snapshot g) \<and> ls_journal actual = ls_journal (lg_snapshot g)
          \<and> sidecars_as_expected preflight (lg_snapshot g) actual
          \<and> owner_only (ls_main actual) \<and> owner_only (ls_wal actual) \<and> owner_only (ls_shm actual)
        then Inr () else Inl OF_Storage))"

definition mark_fresh_migration_succeeded :: "leaf_guard \<Rightarrow> leaf_guard" where
  "mark_fresh_migration_succeeded g = g\<lparr>lg_fresh_migration_succeeded := True\<rparr>"

section \<open>Normalising the leaves that SQLite created\<close>

definition same_object :: "file_identity \<Rightarrow> file_identity \<Rightarrow> bool" where
  "same_object i j \<longleftrightarrow> fi_device i = fi_device j \<and> fi_inode i = fi_inode j"

definition check_object :: "file_identity \<Rightarrow> file_identity \<Rightarrow> unit leaf_op" where
  "check_object identity other =
     db_result (if same_object other identity then Inr () else Inl OF_Storage)"

definition normalize_new_leaf ::
    "fs_env \<Rightarrow> leaf_guard \<Rightarrow> nat \<Rightarrow> string \<Rightarrow> file_identity \<Rightarrow> unit leaf_op" where
  "normalize_new_leaf env g index name identity =
     db_bind (if fi_mode identity \<noteq> OWNER_ONLY_FILE_MODE
              then or_storage (chmod_no_follow_at env (lg_parent g) name OWNER_ONLY_FILE_MODE)
              else db_return ()) (\<lambda>_.
     db_bind (or_storage (openat env (\<lambda>kind. kind \<noteq> Symlink) (lg_parent g) name)) (\<lambda>descriptor.
     db_bind (or_storage (fstat env descriptor)) (\<lambda>st.
     db_bind (db_result (regular_identity st (lg_parent_owner g))) (\<lambda>opened.
     db_bind (check_object identity opened) (\<lambda>_.
     db_bind (writer_hook_at env (NormalizeAfterOpen index)) (\<lambda>_.
     db_bind (or_storage (fchmod env descriptor OWNER_ONLY_FILE_MODE)) (\<lambda>_.
     db_bind (or_storage (fstat env descriptor)) (\<lambda>st'.
     db_bind (db_result (restrictive_regular_identity st' (lg_parent_owner g)))
       (check_object identity)))))))))"

definition normalize_leaf ::
    "fs_env \<Rightarrow> leaf_guard \<Rightarrow> nat \<Rightarrow> string \<Rightarrow> file_identity option \<Rightarrow> unit leaf_op" where
  "normalize_leaf env g index name prior =
     db_bind (leaf_entry env (lg_parent g) name (lg_parent_owner g)) (\<lambda>entry.
     case entry of
       None \<Rightarrow> db_return ()
     | Some identity \<Rightarrow>
         db_bind (if prior = None then normalize_new_leaf env g index name identity
                  else db_return ()) (\<lambda>_.
         db_bind (leaf_entry env (lg_parent g) name (lg_parent_owner g)) (\<lambda>again.
         db_bind (db_result (ok_or OF_Storage again)) (\<lambda>normalized. db_result
           (if \<not> same_object normalized identity \<or> fi_mode normalized \<noteq> OWNER_ONLY_FILE_MODE
            then Inl OF_Storage else Inr ())))))"

definition normalize_fresh_leaves :: "fs_env \<Rightarrow> leaf_guard \<Rightarrow> unit leaf_op" where
  "normalize_fresh_leaves env g =
     (let s = lg_snapshot g; n = lg_names g in
      db_bind (normalize_leaf env g 0 (ln_main n) (ls_main s)) (\<lambda>_.
      db_bind (normalize_leaf env g 1 (ln_journal n) (ls_journal s)) (\<lambda>_.
      db_bind (normalize_leaf env g 2 (ln_wal n) (ls_wal s)) (\<lambda>_.
      db_bind (normalize_leaf env g 3 (ln_shm n) (ls_shm s)) (\<lambda>_.
        require_main_identity env g)))))"

section \<open>Cleaning up after a failed first open\<close>

definition remove_unchanged_restrictive_leaf ::
    "fs_env \<Rightarrow> nat \<Rightarrow> string \<Rightarrow> nat \<Rightarrow> nat \<Rightarrow> file_identity option \<Rightarrow> string \<Rightarrow> file_identity \<Rightarrow>
      unit leaf_op" where
  "remove_unchanged_restrictive_leaf env parent name parent_owner index expected main authority =
     db_bind (writer_hook_at env (CleanupBeforeRecord index)) (\<lambda>_.
     db_bind (leaf_entry env parent name parent_owner) (\<lambda>first.
     case first of None \<Rightarrow> db_return () | Some recorded \<Rightarrow>
     if (case expected of None \<Rightarrow> False | Some identity \<Rightarrow> identity \<noteq> recorded)
     then db_result (Inl OF_Storage)
     else
       db_bind (writer_hook_at env (CleanupAfterRecord index)) (\<lambda>_.
       db_bind (leaf_entry env parent name parent_owner) (\<lambda>second.
       case second of None \<Rightarrow> db_return () | Some revalidated \<Rightarrow>
       if recorded \<noteq> revalidated then db_result (Inl OF_Storage)
       else if fi_mode recorded \<noteq> OWNER_ONLY_FILE_MODE then db_result (Inl OF_Storage)
       else
         db_bind (writer_hook_at env (CleanupAfterRevalidate index)) (\<lambda>_.
         db_bind (leaf_entry env parent main parent_owner) (\<lambda>bound.
         if bound \<noteq> Some authority then db_result (Inl OF_Storage)
         else
           db_bind (unlinkat env parent name) (\<lambda>r. db_result
             (case r of Inr () \<Rightarrow> Inr () | Inl NOENT \<Rightarrow> Inr () | Inl _ \<Rightarrow> Inl OF_Storage))))))))"

text \<open>\<open>.ok().flatten()\<close>: a failed lookup counts as no entry.\<close>

definition entry_or_none :: "fs_env \<Rightarrow> nat \<Rightarrow> string \<Rightarrow> nat \<Rightarrow> file_identity option leaf_op" where
  "entry_or_none env parent name parent_owner c =
     (case leaf_entry env parent name parent_owner c of
        (Inl _, c') \<Rightarrow> (Inr None, c')
      | (Inr entry, c') \<Rightarrow> (Inr entry, c'))"

text \<open>The loop over the leaves stops at the first failure; nothing of it is reported.\<close>

fun cleanup_leaves ::
    "fs_env \<Rightarrow> leaf_guard \<Rightarrow> file_identity \<Rightarrow> (nat \<times> string) list \<Rightarrow> unit leaf_op" where
  "cleanup_leaves env g fresh_main [] = db_return ()"
| "cleanup_leaves env g fresh_main ((index, name) # rest) =
     db_bind (entry_or_none env (lg_parent g) (ln_main (lg_names g)) (lg_parent_owner g)) (\<lambda>entry.
     if entry \<noteq> Some fresh_main then db_return ()
     else (\<lambda>c.
       case remove_unchanged_restrictive_leaf env (lg_parent g) name (lg_parent_owner g) index
           (if index = 0 then Some fresh_main else None) (ln_main (lg_names g)) fresh_main c of
         (Inl _, c') \<Rightarrow> (Inr (), c')
       | (Inr _, c') \<Rightarrow> cleanup_leaves env g fresh_main rest c'))"

definition cleanup_fresh_candidates :: "fs_env \<Rightarrow> leaf_guard \<Rightarrow> unit leaf_op" where
  "cleanup_fresh_candidates env g =
     (case lg_fresh_main g of
        None \<Rightarrow> db_return ()
      | Some fresh_main \<Rightarrow>
          if lg_fresh_migration_succeeded g then db_return ()
          else (let n = lg_names g in
            cleanup_leaves env g fresh_main
              [(3, ln_shm n), (2, ln_wal n), (1, ln_journal n), (0, ln_main n)]))"

end
