(* ===== verification/Open_Files.thy ===== *)
theory Open_Files
  imports Leaf_Files
begin

text \<open>
  The whole opening of an account database (\<^verbatim>\<open>adapters/store-sqlcipher/src/lib.rs\<close>): the
  preflight of an existing file with its private recovery copy, the writer open and the strict
  read-only open, composed of the leaf operations of \<open>Leaf_Files\<close> and the statements of
  \<open>Open_Validate\<close>. One connection is in use at a time; the logical database it shows is the
  engine's answer for the path at that moment.
\<close>

section \<open>Connections\<close>

definition on_connection :: "'a open_op \<Rightarrow> 'a leaf_op" where
  "on_connection m c =
     (case m \<lparr>cn_db = lw_conn (cn_db c), cn_calls = cn_calls c\<rparr> of
        (r, k) \<Rightarrow> (r, c\<lparr>cn_db := (cn_db c)\<lparr>lw_conn := cn_db k\<rparr>, cn_calls := cn_calls k\<rparr>))"

text \<open>
  Connecting shows what the engine finds. What the engine itself does to the sidecars, then or in
  a later statement, reaches the files before the next system call, as \<open>fe_others\<close>.
\<close>

definition connect :: "fs_env \<Rightarrow> faults \<Rightarrow> open_mode \<Rightarrow> db_path \<Rightarrow> unit leaf_op" where
  "connect env fault mode path =
     db_bind (backend_call (\<lambda>_. OF_Storage) fault) (\<lambda>_ c.
       (Inr (), c\<lparr>cn_db := (cn_db c)\<lparr>lw_conn := fe_engine env mode (lw_fs (cn_db c)) path\<rparr>\<rparr>))"

text \<open>A call of the engine that answers a truth value.\<close>

definition engine_says :: "faults \<Rightarrow> (nat \<Rightarrow> bool) \<Rightarrow> bool leaf_op" where
  "engine_says fault answer c =
     db_bind (backend_call (\<lambda>_. OF_Storage) fault) (\<lambda>_. db_return (answer (cn_calls c))) c"

definition disable_and_verify_checkpoint_on_close :: "fs_env \<Rightarrow> faults \<Rightarrow> unit leaf_op" where
  "disable_and_verify_checkpoint_on_close env fault =
     db_bind (engine_says fault (fe_configured env)) (\<lambda>set.
     if \<not> set then db_result (Inl OF_Storage)
     else db_bind (engine_says fault (fe_configured env)) (\<lambda>current.
       db_result (if \<not> current then Inl OF_Storage else Inr ())))"

definition opened_file_has_moved :: "fs_env \<Rightarrow> faults \<Rightarrow> unit leaf_op" where
  "opened_file_has_moved env fault =
     db_bind (engine_says fault (fe_moved env)) (\<lambda>moved.
       db_result (if moved then Inl OF_Storage else Inr ()))"

definition open_connection :: "fs_env \<Rightarrow> faults \<Rightarrow> db_path \<Rightarrow> unit leaf_op" where
  "open_connection env fault path =
     db_bind (connect env fault ReadWrite path) (\<lambda>_. disable_and_verify_checkpoint_on_close env fault)"

definition open_read_only_connection :: "fs_env \<Rightarrow> faults \<Rightarrow> db_path \<Rightarrow> unit leaf_op" where
  "open_read_only_connection env fault path = connect env fault ReadOnly path"

section \<open>Paths\<close>

definition canonical_database_path :: "fs_env \<Rightarrow> db_path \<Rightarrow> db_path leaf_op" where
  "canonical_database_path env path =
     db_bind (db_result (ok_or OF_Storage (pa_file_name path))) (\<lambda>file_name.
     let parent = (case pa_parent path of Some p \<Rightarrow> if p = [] then ''.'' else p | None \<Rightarrow> ''.'') in
     db_bind (or_storage (syscall env (\<lambda>r. EvPath parent (map_ok (\<lambda>_. ()) r))
       (\<lambda>fs. (ok_or NOENT (fs_canonical fs parent), fs)))) (\<lambda>canonical_parent.
       db_return \<lparr>pa_parent = Some canonical_parent, pa_file_name = Some file_name\<rparr>))"

definition hex_digit :: "nat \<Rightarrow> char" where
  "hex_digit value = (if value \<le> 9 then char_of (48 + value) else char_of (65 + (value - 10)))"

definition uri_byte :: "char \<Rightarrow> string" where
  "uri_byte b =
     (if is_ascii_alphanumeric b \<or> b \<in> {CHR ''-'', CHR ''.'', CHR ''_'', CHR ''~'', CHR ''/''} then [b]
      else [CHR ''%'', hex_digit (byte b div 16), hex_digit (byte b mod 16)])"

definition file_uri :: "string \<Rightarrow> string \<Rightarrow> string" where
  "file_uri path query = ''file:'' @ concat (map uri_byte path) @ query"

definition immutable_file_uri :: "string \<Rightarrow> string" where
  "immutable_file_uri path = file_uri path ''?immutable=1''"

section \<open>The private recovery copy\<close>

record directory_identity =
  di_device :: nat
  di_inode :: nat
  di_owner :: nat
  di_mode :: nat

definition RECOVERY_STAGE_LIMIT :: nat where "RECOVERY_STAGE_LIMIT = 8"

text \<open>\<open>mode & !0o700 != 0\<close>: a bit outside the owner's three.\<close>

definition directory_identity_from_stat ::
    "file_stat \<Rightarrow> nat \<Rightarrow> bool \<Rightarrow> open_failure + directory_identity" where
  "directory_identity_from_stat st owner exact_mode =
     (if st_kind st \<noteq> Directory \<or> st_uid st \<noteq> owner
        \<or> (if exact_mode then st_mode st \<noteq> 448 else st_mode st div 512 * 512 + st_mode st mod 64 \<noteq> 0)
      then Inl OF_Storage
      else map_ok (\<lambda>device. \<lparr>di_device = device, di_inode = st_ino st, di_owner = st_uid st,
             di_mode = st_mode st\<rparr>) (device_number (st_dev st)))"

definition same_directory_object :: "directory_identity \<Rightarrow> directory_identity \<Rightarrow> bool" where
  "same_directory_object l r \<longleftrightarrow>
     di_device l = di_device r \<and> di_inode l = di_inode r \<and> di_owner l = di_owner r"

definition recovery_directory_identity ::
    "fs_env \<Rightarrow> bool \<Rightarrow> nat \<Rightarrow> string \<Rightarrow> nat \<Rightarrow> directory_identity leaf_op" where
  "recovery_directory_identity env exact_mode parent name owner =
     db_bind (or_storage (statat env parent name)) (\<lambda>st.
       db_result (directory_identity_from_stat st owner exact_mode))"

record recovery_stage =
  rs_directory :: nat
  rs_name :: string
  rs_path :: string
  rs_identity :: directory_identity

definition recovery_hook_at :: "fs_env \<Rightarrow> recovery_hook \<Rightarrow> unit leaf_op" where
  "recovery_hook_at env point = db_result (fe_recovery_hook env point)"

definition cleanup_created_empty_recovery_directory ::
    "fs_env \<Rightarrow> leaf_guard \<Rightarrow> string \<Rightarrow> directory_identity \<Rightarrow> unit leaf_op" where
  "cleanup_created_empty_recovery_directory env g name expected =
     db_bind (recovery_directory_identity env False (lg_parent g) name (lg_parent_owner g)) (\<lambda>actual.
     if \<not> same_directory_object actual expected then db_result (Inl OF_Storage)
     else or_storage (rmdirat env (lg_parent g) name))"

definition setup_recovery_stage ::
    "fs_env \<Rightarrow> leaf_guard \<Rightarrow> string \<Rightarrow> directory_identity \<Rightarrow> (nat \<times> directory_identity) leaf_op" where
  "setup_recovery_stage env g name initial =
     db_bind (recovery_hook_at env AfterDirectoryCreate) (\<lambda>_.
     db_bind (or_storage (chmod_no_follow_at env (lg_parent g) name 448)) (\<lambda>_.
     db_bind (recovery_directory_identity env True (lg_parent g) name (lg_parent_owner g)) (\<lambda>normalized.
     if \<not> same_directory_object initial normalized then db_result (Inl OF_Storage)
     else
       db_bind (recovery_hook_at env AfterDirectoryNormalize) (\<lambda>_.
       db_bind (or_storage (openat env (\<lambda>kind. kind = Directory) (lg_parent g) name)) (\<lambda>directory.
       db_bind (or_storage (fstat env directory)) (\<lambda>st.
       db_bind (db_result (directory_identity_from_stat st (lg_parent_owner g) True)) (\<lambda>opened.
         db_result (if opened \<noteq> normalized then Inl OF_Storage
                    else Inr (directory, normalized)))))))))"

definition stage_name :: "nat \<Rightarrow> string" where
  "stage_name slot = ''.tersa-wal-recovery-v1-'' @ [char_of (48 + slot)]"

definition with_cleanup :: "'a leaf_op \<Rightarrow> unit leaf_op \<Rightarrow> 'a leaf_op" where
  "with_cleanup m on_error c =
     (case m c of
        (Inl err, c') \<Rightarrow> (Inl err, snd (on_error c'))
      | (Inr a, c') \<Rightarrow> (Inr a, c'))"

fun try_recovery_stages ::
    "fs_env \<Rightarrow> leaf_guard \<Rightarrow> string \<Rightarrow> nat list \<Rightarrow> recovery_stage leaf_op" where
  "try_recovery_stages env g parent_path [] = db_result (Inl OF_Storage)"
| "try_recovery_stages env g parent_path (slot # slots) =
     db_bind (mkdirat env (lg_parent g) (stage_name slot)) (\<lambda>made.
     case made of
       Inl EXIST \<Rightarrow> try_recovery_stages env g parent_path slots
     | Inl _ \<Rightarrow> db_result (Inl OF_Storage)
     | Inr _ \<Rightarrow>
         db_bind (recovery_directory_identity env False (lg_parent g) (stage_name slot)
           (lg_parent_owner g)) (\<lambda>initial.
         db_bind (with_cleanup (setup_recovery_stage env g (stage_name slot) initial)
             (cleanup_created_empty_recovery_directory env g (stage_name slot) initial))
           (\<lambda>(directory, identity). db_return
             \<lparr>rs_directory = directory, rs_name = stage_name slot,
              rs_path = parent_path @ ''/'' @ stage_name slot, rs_identity = identity\<rparr>)))"

definition create_recovery_stage :: "fs_env \<Rightarrow> leaf_guard \<Rightarrow> db_path \<Rightarrow> recovery_stage leaf_op" where
  "create_recovery_stage env g path =
     db_bind (db_result (ok_or OF_Storage (pa_parent path))) (\<lambda>parent_path.
       try_recovery_stages env g parent_path [0..<RECOVERY_STAGE_LIMIT])"

text \<open>The kinds of leaf by the sizes they accept.\<close>

datatype recovery_leaf_kind = MainDatabase | WriteAheadLog

fun accepts_size :: "recovery_leaf_kind \<Rightarrow> int \<Rightarrow> bool" where
  "accepts_size MainDatabase n \<longleftrightarrow> 512 \<le> n"
| "accepts_size WriteAheadLog n \<longleftrightarrow> n = 0 \<or> 32 \<le> n"

definition copy_data :: "fs_env \<Rightarrow> nat \<Rightarrow> nat \<Rightarrow> (errno + unit) leaf_op" where
  "copy_data env source destination =
     syscall env (EvCopy source destination) (\<lambda>fs.
       (Inr (), fs\<lparr>fs_data := (fs_data fs)(destination := fs_data fs source)\<rparr>))"

definition sync_all :: "fs_env \<Rightarrow> nat \<Rightarrow> (errno + unit) leaf_op" where
  "sync_all env obj = syscall env (EvSync obj) (\<lambda>fs. (Inr (), fs))"

text \<open>\<open>*created = Some(identity)\<close>: recorded before the data is copied.\<close>

definition note_created ::
    "(recovery_stage_leaves \<Rightarrow> recovery_stage_leaves) \<Rightarrow> unit leaf_op" where
  "note_created f c = (Inr (), c\<lparr>cn_db := (cn_db c)\<lparr>lw_created := f (lw_created (cn_db c))\<rparr>\<rparr>)"

definition create_private_leaf ::
    "fs_env \<Rightarrow> nat \<Rightarrow> string \<Rightarrow> nat \<Rightarrow> (nat \<times> file_identity) leaf_op" where
  "create_private_leaf env directory name owner =
     db_bind (or_storage (create_excl env directory name)) (\<lambda>descriptor.
     db_bind (or_storage (fchmod env descriptor OWNER_ONLY_FILE_MODE)) (\<lambda>_.
     db_bind (or_storage (fstat env descriptor)) (\<lambda>st.
     db_bind (db_result (restrictive_regular_identity st owner)) (\<lambda>identity.
       db_return (descriptor, identity)))))"

definition copy_recovery_leaf ::
    "fs_env \<Rightarrow> leaf_guard \<Rightarrow> string \<Rightarrow> recovery_leaf_kind \<Rightarrow> file_identity \<Rightarrow> nat \<Rightarrow>
      (file_identity \<Rightarrow> recovery_stage_leaves \<Rightarrow> recovery_stage_leaves) \<Rightarrow> file_identity leaf_op" where
  "copy_recovery_leaf env g name kind expected directory created =
     db_bind (or_storage (openat env (\<lambda>k. k \<noteq> Symlink) (lg_parent g) name)) (\<lambda>source.
     db_bind (or_storage (fstat env source)) (\<lambda>st.
     if \<not> accepts_size kind (st_size st) then db_result (Inl OF_Corrupted)
     else
       db_bind (db_result (restrictive_regular_identity st (lg_parent_owner g))) (\<lambda>source_identity.
       if source_identity \<noteq> expected then db_result (Inl OF_Storage)
       else
         db_bind (create_private_leaf env directory name (lg_parent_owner g)) (\<lambda>(destination, identity).
         db_bind (note_created (created identity)) (\<lambda>_.
         db_bind (or_storage (copy_data env source destination)) (\<lambda>_.
         db_bind (or_storage (sync_all env destination)) (\<lambda>_. db_return identity)))))))"

section \<open>Checking and removing the recovery copy\<close>

definition expected_leaves :: "leaf_guard \<Rightarrow> recovery_stage_leaves \<Rightarrow> (string \<times> file_identity option) list" where
  "expected_leaves g leaves =
     (let n = lg_names g in
      [(ln_main n, rl_main leaves), (ln_journal n, None), (ln_wal n, rl_wal leaves),
       (ln_shm n, rl_shm leaves)])"

definition recovery_stage_has_only_expected_names ::
    "fs_env \<Rightarrow> leaf_guard \<Rightarrow> nat \<Rightarrow> recovery_stage_leaves \<Rightarrow> unit leaf_op" where
  "recovery_stage_has_only_expected_names env g directory expected =
     db_bind (or_storage (list_names env directory)) (\<lambda>entries. db_result
       (if list_all (\<lambda>name. name \<in> {''.'', ''..''}
            \<or> list_ex (\<lambda>(n, leaf). leaf \<noteq> None \<and> n = name) (expected_leaves g expected)) entries
        then Inr () else Inl OF_Storage))"

fun check_leaves ::
    "fs_env \<Rightarrow> nat \<Rightarrow> nat \<Rightarrow> (string \<times> file_identity option) list \<Rightarrow> unit leaf_op" where
  "check_leaves env directory owner [] = db_return ()"
| "check_leaves env directory owner ((name, expected) # rest) =
     db_bind (leaf_entry env directory name owner) (\<lambda>entry.
     if entry \<noteq> expected then db_result (Inl OF_Storage)
     else check_leaves env directory owner rest)"

fun remove_leaves ::
    "fs_env \<Rightarrow> nat \<Rightarrow> nat \<Rightarrow> (string \<times> file_identity option) list \<Rightarrow> unit leaf_op" where
  "remove_leaves env directory owner [] = db_return ()"
| "remove_leaves env directory owner ((name, None) # rest) = remove_leaves env directory owner rest"
| "remove_leaves env directory owner ((name, Some expected) # rest) =
     db_bind (leaf_entry env directory name owner) (\<lambda>entry.
     if entry \<noteq> Some expected then db_result (Inl OF_Storage)
     else db_bind (or_storage (unlinkat env directory name)) (\<lambda>_.
       remove_leaves env directory owner rest))"

text \<open>The directory by its name and by its descriptor is still the one created.\<close>

definition require_stage_directory :: "fs_env \<Rightarrow> leaf_guard \<Rightarrow> recovery_stage \<Rightarrow> unit leaf_op" where
  "require_stage_directory env g stage =
     db_bind (recovery_directory_identity env True (lg_parent g) (rs_name stage) (lg_parent_owner g)) (\<lambda>named.
     if named \<noteq> rs_identity stage then db_result (Inl OF_Storage)
     else
       db_bind (or_storage (fstat env (rs_directory stage))) (\<lambda>st.
       db_bind (db_result (directory_identity_from_stat st (lg_parent_owner g) True)) (\<lambda>held.
         db_result (if held \<noteq> rs_identity stage then Inl OF_Storage else Inr ()))))"

definition cleanup_recovery_stage ::
    "fs_env \<Rightarrow> leaf_guard \<Rightarrow> recovery_stage \<Rightarrow> recovery_stage_leaves \<Rightarrow> unit leaf_op" where
  "cleanup_recovery_stage env g stage leaves =
     db_bind (require_stage_directory env g stage) (\<lambda>_.
     db_bind (recovery_stage_has_only_expected_names env g (rs_directory stage) leaves) (\<lambda>_.
     db_bind (check_leaves env (rs_directory stage) (lg_parent_owner g) (expected_leaves g leaves)) (\<lambda>_.
     db_bind (remove_leaves env (rs_directory stage) (lg_parent_owner g)
       (rev (expected_leaves g leaves))) (\<lambda>_.
     db_bind (recovery_directory_identity env True (lg_parent g) (rs_name stage)
       (lg_parent_owner g)) (\<lambda>named.
     if named \<noteq> rs_identity stage then db_result (Inl OF_Storage)
     else or_storage (rmdirat env (lg_parent g) (rs_name stage)))))))"

definition verify_recovery_stage ::
    "fs_env \<Rightarrow> leaf_guard \<Rightarrow> recovery_stage \<Rightarrow> file_identity \<Rightarrow> file_identity \<Rightarrow> file_identity \<Rightarrow> unit leaf_op" where
  "verify_recovery_stage env g stage main wal shm =
     db_bind (require_stage_directory env g stage) (\<lambda>_.
       check_leaves env (rs_directory stage) (lg_parent_owner g)
         [(ln_main (lg_names g), Some main), (ln_wal (lg_names g), Some wal),
          (ln_shm (lg_names g), Some shm)])"

fun finish_recovery_validation ::
    "open_failure + bool \<Rightarrow> open_failure + unit \<Rightarrow> open_failure + unit \<Rightarrow> open_failure + bool" where
  "finish_recovery_validation (Inl err) cleanup_hook cleanup = Inl err"
| "finish_recovery_validation (Inr fresh) cleanup_hook cleanup =
     map_ok (\<lambda>_. fresh) (rbind cleanup_hook (\<lambda>_. cleanup))"

definition validate_in_stage ::
    "fs_env \<Rightarrow> faults \<Rightarrow> leaf_guard \<Rightarrow> account_id \<Rightarrow> string \<Rightarrow> file_identity \<Rightarrow> file_identity \<Rightarrow>
      recovery_stage \<Rightarrow> bool leaf_op" where
  "validate_in_stage env fault g account key main wal stage =
     db_bind (copy_recovery_leaf env g (ln_main (lg_names g)) MainDatabase main (rs_directory stage)
       (\<lambda>i l. l\<lparr>rl_main := Some i\<rparr>)) (\<lambda>copied_main.
     db_bind (recovery_hook_at env AfterMainCopy) (\<lambda>_.
     db_bind (copy_recovery_leaf env g (ln_wal (lg_names g)) WriteAheadLog wal (rs_directory stage)
       (\<lambda>i l. l\<lparr>rl_wal := Some i\<rparr>)) (\<lambda>copied_wal.
     db_bind (recovery_hook_at env AfterWalCopy) (\<lambda>_.
     db_bind (create_private_leaf env (rs_directory stage) (ln_shm (lg_names g)) (lg_parent_owner g))
       (\<lambda>(shm, copied_shm).
     db_bind (note_created (\<lambda>l. l\<lparr>rl_shm := Some copied_shm\<rparr>)) (\<lambda>_.
     db_bind (require_snapshot_unchanged env g) (\<lambda>_.
     let verify = verify_recovery_stage env g stage copied_main copied_wal copied_shm in
     db_bind verify (\<lambda>_.
     db_bind (recovery_hook_at env BeforeReadOnlyOpen) (\<lambda>_.
     db_bind (open_read_only_connection env fault
       \<lparr>pa_parent = Some (rs_path stage), pa_file_name = Some (ln_main (lg_names g))\<rparr>) (\<lambda>_.
     db_bind (disable_and_verify_checkpoint_on_close env fault) (\<lambda>_.
     db_bind (opened_file_has_moved env fault) (\<lambda>_.
     db_bind verify (\<lambda>_.
     db_bind (recovery_hook_at env AfterReadOnlyOpen) (\<lambda>_.
     db_bind verify (\<lambda>_.
     db_bind (on_connection (validate_recovery_read_only fault account key)) (\<lambda>fresh.
     db_bind verify (\<lambda>_.
     db_bind (recovery_hook_at env BeforeOriginalFinalRevalidate) (\<lambda>_.
     db_bind (require_snapshot_unchanged env g) (\<lambda>_. db_return fresh)))))))))))))))))))"

text \<open>The outcome of an operation as a value: what the code keeps and looks at later.\<close>

definition outcome_of :: "'a leaf_op \<Rightarrow> (open_failure + 'a) leaf_op" where
  "outcome_of m c = (case m c of (r, c') \<Rightarrow> (Inr r, c'))"

definition created_now :: "recovery_stage_leaves leaf_op" where
  "created_now c = (Inr (lw_created (cn_db c)), c)"

definition validate_wal_without_shm_from_private_copy ::
    "fs_env \<Rightarrow> faults \<Rightarrow> leaf_guard \<Rightarrow> db_path \<Rightarrow> account_id \<Rightarrow> string \<Rightarrow> bool leaf_op" where
  "validate_wal_without_shm_from_private_copy env fault g path account key =
     db_bind (db_result (ok_or OF_Storage (ls_main (lg_snapshot g)))) (\<lambda>main.
     db_bind (db_result (ok_or OF_Storage (ls_wal (lg_snapshot g)))) (\<lambda>wal.
     db_bind (create_recovery_stage env g path) (\<lambda>stage.
     db_bind (note_created (\<lambda>_. \<lparr>rl_main = None, rl_wal = None, rl_shm = None\<rparr>)) (\<lambda>_.
     db_bind (outcome_of (validate_in_stage env fault g account key main wal stage)) (\<lambda>validation.
     db_bind (outcome_of (recovery_hook_at env BeforeCleanup)) (\<lambda>cleanup_hook.
     db_bind created_now (\<lambda>leaves.
     db_bind (outcome_of (cleanup_recovery_stage env g stage leaves)) (\<lambda>cleanup.
       db_result (finish_recovery_validation validation cleanup_hook cleanup)))))))))"

section \<open>The preflight of an existing file\<close>

definition preflight_existing ::
    "fs_env \<Rightarrow> faults \<Rightarrow> db_path \<Rightarrow> account_id \<Rightarrow> string \<Rightarrow> leaf_guard \<Rightarrow> existing_preflight leaf_op" where
  "preflight_existing env fault path account key g =
     (let s = lg_snapshot g in
      if ls_journal s \<noteq> None \<or> ls_wal s = None \<and> ls_shm s \<noteq> None then db_result (Inl OF_Corrupted)
      else if ls_wal s \<noteq> None \<and> ls_shm s = None then
        db_bind (validate_wal_without_shm_from_private_copy env fault g path account key) (\<lambda>fresh.
          db_return (if fresh then FreshWalWithoutShm else WalWithoutShm))
      else
        db_bind (connect env fault Immutable path) (\<lambda>_.
        db_bind (on_connection (apply_key fault key)) (\<lambda>_.
        db_bind (on_connection (validate_identity fault account)) (\<lambda>_.
        if ls_wal s = None then db_return MainWithoutSidecars
        else
          db_bind (open_read_only_connection env fault path) (\<lambda>_.
          db_bind (disable_and_verify_checkpoint_on_close env fault) (\<lambda>_.
          db_bind (opened_file_has_moved env fault) (\<lambda>_.
          db_bind (on_connection (validate_recovery_read_only fault account key)) (\<lambda>fresh.
            db_return (if fresh then FreshWal else Stable)))))))))"

section \<open>The writer open\<close>

text \<open>
  The guard is a mutable variable of the open. On an error the leaves that this open created
  are cleaned up with the guard as it then is, so every stage returns the guard with its
  result.
\<close>

type_synonym 'a guarded_op = "(open_failure + 'a) \<times> leaf_guard"

definition existing_checked ::
    "fs_env \<Rightarrow> faults \<Rightarrow> db_path \<Rightarrow> account_id \<Rightarrow> string \<Rightarrow> leaf_guard \<Rightarrow> existing_preflight option leaf_op" where
  "existing_checked env fault path account key g =
     (if ls_main (lg_snapshot g) = None then db_return None
      else
        db_bind (preflight_existing env fault path account key g) (\<lambda>preflight.
        db_bind (require_snapshot_unchanged env g) (\<lambda>_. db_return (Some preflight))))"

definition claim_if_fresh :: "fs_env \<Rightarrow> leaf_guard \<Rightarrow> ((open_failure + unit) \<times> leaf_guard) leaf_op" where
  "claim_if_fresh env g c =
     (if \<not> is_fresh (lg_snapshot g) then (Inr (Inr (), g), c)
      else
        (case db_bind (writer_hook_at env BeforeFreshClaim) (\<lambda>_. claim_fresh_main env g) c of
           (Inl err, c') \<Rightarrow> (Inr (Inl err, g), c')
         | (Inr g', c') \<Rightarrow> (Inr (fe_writer_hook env AfterFreshClaim, g'), c')))"

definition create_fresh ::
    "fs_env \<Rightarrow> faults \<Rightarrow> account_id \<Rightarrow> leaf_guard \<Rightarrow> leaf_guard leaf_op" where
  "create_fresh env fault account g =
     db_bind (writer_hook_at env AfterFreshWalNormalization) (\<lambda>_.
     db_bind (writer_hook_at env BeforeFreshMigration) (\<lambda>_.
     db_bind (on_connection (migrate_fresh fault account)) (\<lambda>_.
     db_bind (normalize_fresh_leaves env g) (\<lambda>_.
       db_return (mark_fresh_migration_succeeded g)))))"

definition before_migration ::
    "fs_env \<Rightarrow> faults \<Rightarrow> account_id \<Rightarrow> string \<Rightarrow> existing_preflight option \<Rightarrow> leaf_guard \<Rightarrow> bool leaf_op" where
  "before_migration env fault account key preflight g =
     db_bind (writer_hook_at env AfterOpen) (\<lambda>_.
     db_bind (if preflight \<noteq> None then require_snapshot_unchanged env g else db_return ()) (\<lambda>_.
     db_bind (opened_file_has_moved env fault) (\<lambda>_.
     db_bind (require_main_identity env g) (\<lambda>_.
     db_bind (on_connection (configure_storage fault account key)) (\<lambda>fresh.
     db_bind (if fresh then on_connection (materialize_fresh_wal fault) else db_return ()) (\<lambda>_.
     db_bind (if fresh \<or> (case preflight of None \<Rightarrow> False | Some p \<Rightarrow> permits_new_sidecars p)
              then normalize_fresh_leaves env g else db_return ()) (\<lambda>_.
       db_return fresh)))))))"

definition after_migration ::
    "fs_env \<Rightarrow> faults \<Rightarrow> existing_preflight option \<Rightarrow> leaf_guard \<Rightarrow> unit leaf_op" where
  "after_migration env fault preflight g =
     db_bind (on_connection (set_and_verify_persistent_wal fault)) (\<lambda>_.
     db_bind (on_connection (validate_health fault)) (\<lambda>_.
     case preflight of
       None \<Rightarrow> db_return ()
     | Some p \<Rightarrow> require_existing_writer_state env g p))"

definition opened_outcome ::
    "fs_env \<Rightarrow> faults \<Rightarrow> account_id \<Rightarrow> string \<Rightarrow> existing_preflight option \<Rightarrow> leaf_guard \<Rightarrow>
      ((open_failure + unit) \<times> leaf_guard) leaf_op" where
  "opened_outcome env fault account key preflight g =
     db_bind (outcome_of (before_migration env fault account key preflight g)) (\<lambda>started.
     case started of
       Inl err \<Rightarrow> db_return (Inl err, g)
     | Inr fresh \<Rightarrow>
         db_bind (if fresh then outcome_of (create_fresh env fault account g) else db_return (Inr g)) (\<lambda>created.
         case created of
           Inl err \<Rightarrow> db_return (Inl err, g)
         | Inr g' \<Rightarrow>
             db_bind (outcome_of
               (db_bind (if fresh then writer_hook_at env AfterFreshMigration else db_return ())
                 (\<lambda>_. after_migration env fault preflight g')))
               (\<lambda>r. db_return (r, g'))))"

text \<open>Every failure after the preflight cleans up before it is returned.\<close>

definition fail_open :: "fs_env \<Rightarrow> leaf_guard \<Rightarrow> open_failure \<Rightarrow> unit leaf_op" where
  "fail_open env g err =
     db_bind (cleanup_fresh_candidates env g) (\<lambda>_. db_result (Inl err))"

definition open_claimed ::
    "fs_env \<Rightarrow> faults \<Rightarrow> db_path \<Rightarrow> account_id \<Rightarrow> string \<Rightarrow> existing_preflight option \<Rightarrow> leaf_guard \<Rightarrow> unit leaf_op" where
  "open_claimed env fault path account key preflight g =
     db_bind (outcome_of (open_connection env fault path)) (\<lambda>connected.
     case connected of
       Inl err \<Rightarrow> fail_open env g err
     | Inr _ \<Rightarrow>
         db_bind (opened_outcome env fault account key preflight g) (\<lambda>(r, g').
         case r of
           Inl err \<Rightarrow> fail_open env g' err
         | Inr _ \<Rightarrow> db_return ()))"

definition open_or_clean_up ::
    "fs_env \<Rightarrow> faults \<Rightarrow> db_path \<Rightarrow> account_id \<Rightarrow> string \<Rightarrow> existing_preflight option \<Rightarrow> leaf_guard \<Rightarrow> unit leaf_op" where
  "open_or_clean_up env fault path account key preflight g =
     (case fe_writer_hook env AfterSnapshot of
        Inl err \<Rightarrow> fail_open env g err
      | Inr _ \<Rightarrow>
          db_bind (claim_if_fresh env g) (\<lambda>(claimed, g').
          case claimed of
            Inl err \<Rightarrow> fail_open env g' err
          | Inr _ \<Rightarrow> open_claimed env fault path account key preflight g'))"

definition open_inner_impl ::
    "fs_env \<Rightarrow> faults \<Rightarrow> account_id \<Rightarrow> db_path \<Rightarrow> string \<Rightarrow> unit leaf_op" where
  "open_inner_impl env fault account path key =
     db_bind (canonical_database_path env path) (\<lambda>canonical_path.
     db_bind (leaf_guard_open env canonical_path) (\<lambda>g.
     db_bind (existing_checked env fault canonical_path account key g) (\<lambda>preflight.
       open_or_clean_up env fault canonical_path account key preflight g)))"

text \<open>The store's failures, as \<open>open\<close> and \<open>open_existing\<close> report them.\<close>

definition store_open ::
    "fs_env \<Rightarrow> faults \<Rightarrow> account_id \<Rightarrow> db_path \<Rightarrow> string \<Rightarrow> leaf_world conn \<Rightarrow>
      (mailbox_store_error + unit) \<times> leaf_world conn" where
  "store_open env fault account path key c =
     (case open_inner_impl env fault account path key c of
        (r, c') \<Rightarrow> (map_err mailbox_open_error r, c'))"


definition store_open_existing ::
    "fs_env \<Rightarrow> faults \<Rightarrow> account_id \<Rightarrow> db_path \<Rightarrow> string \<Rightarrow> leaf_world conn \<Rightarrow>
      (mailbox_store_error + unit option) \<times> leaf_world conn" where
  "store_open_existing env fault account path key c =
     (case syscall env (\<lambda>r. EvPath [] (map_ok (\<lambda>_. ()) r)) (\<lambda>fs. (Inr (fs_exists fs path), fs)) c of
        (Inr (Inr True), c') \<Rightarrow>
          (case store_open env fault account path key c' of (r, c'') \<Rightarrow> (map_ok Some r, c''))
      | (Inr (Inr False), c') \<Rightarrow> (Inr None, c')
      | (_, c') \<Rightarrow> (Inl Storage, c'))"

section \<open>The read-only open\<close>

text \<open>\<open>symlink_metadata\<close> of a directory and of a name in it, by path.\<close>

definition stat_directory_path :: "fs_env \<Rightarrow> string \<Rightarrow> (errno + file_stat) leaf_op" where
  "stat_directory_path env path =
     syscall env (\<lambda>r. EvPath path (map_ok (\<lambda>_. ()) r))
       (\<lambda>fs. (map_ok (fs_stat fs) (ok_or NOENT (fs_directories fs path)), fs))"

definition stat_path :: "fs_env \<Rightarrow> string \<Rightarrow> string \<Rightarrow> (errno + file_stat) leaf_op" where
  "stat_path env parent name =
     syscall env (\<lambda>r. EvPath (parent @ ''/'' @ name) (map_ok (\<lambda>_. ()) r))
       (\<lambda>fs. (rbind (ok_or NOENT (fs_directories fs parent)) (\<lambda>dir.
          map_ok (fs_stat fs) (lookup_entry fs dir name)), fs))"

definition identity_from_metadata :: "file_stat \<Rightarrow> file_identity" where
  "identity_from_metadata st =
     \<lparr>fi_device = nat (st_dev st mod 2 ^ 64), fi_inode = st_ino st, fi_owner = st_uid st,
      fi_mode = st_mode st mod 4096\<rparr>"

definition file_identity_at :: "fs_env \<Rightarrow> string \<Rightarrow> string \<Rightarrow> file_identity leaf_op" where
  "file_identity_at env parent name =
     db_bind (or_storage (stat_path env parent name)) (\<lambda>st. db_result
       (if st_kind st \<noteq> RegularFile then Inl OF_Storage else Inr (identity_from_metadata st)))"

definition restrictive_file_identity :: "fs_env \<Rightarrow> string \<Rightarrow> string \<Rightarrow> nat \<Rightarrow> file_identity leaf_op" where
  "restrictive_file_identity env parent name parent_owner =
     db_bind (file_identity_at env parent name) (\<lambda>identity. db_result
       (if fi_owner identity = parent_owner \<and> fi_mode identity = OWNER_ONLY_FILE_MODE
        then Inr identity else Inl OF_Storage))"

record read_only_file_identities =
  ro_main :: file_identity
  ro_wal :: file_identity
  ro_shm :: file_identity

definition preflight_read_only_files ::
    "fs_env \<Rightarrow> string \<Rightarrow> string \<Rightarrow> read_only_file_identities leaf_op" where
  "preflight_read_only_files env parent name =
     db_bind (or_storage (stat_directory_path env parent)) (\<lambda>parent_metadata.
     if st_kind parent_metadata \<noteq> Directory then db_result (Inl OF_Storage)
     else let parent_owner = st_uid parent_metadata in
     db_bind (or_storage (stat_path env parent name)) (\<lambda>main_metadata.
     if st_kind main_metadata \<noteq> RegularFile \<or> st_size main_metadata < 512
     then db_result (Inl OF_Storage)
     else let main = identity_from_metadata main_metadata in
     if fi_owner main \<noteq> parent_owner \<or> fi_mode main \<noteq> OWNER_ONLY_FILE_MODE
     then db_result (Inl OF_Storage)
     else
       db_bind (stat_path env parent (name @ ''-journal'')) (\<lambda>journal.
       if journal \<noteq> Inl NOENT then db_result (Inl OF_Storage)
       else
         db_bind (restrictive_file_identity env parent (name @ ''-wal'') parent_owner) (\<lambda>wal.
         db_bind (restrictive_file_identity env parent (name @ ''-shm'') parent_owner) (\<lambda>shm.
           db_return \<lparr>ro_main = main, ro_wal = wal, ro_shm = shm\<rparr>)))))"

definition verify_read_only_file_identities ::
    "fs_env \<Rightarrow> string \<Rightarrow> string \<Rightarrow> read_only_file_identities \<Rightarrow> unit leaf_op" where
  "verify_read_only_file_identities env parent name expected =
     (let parent_owner = fi_owner (ro_main expected) in
      db_bind (restrictive_file_identity env parent name parent_owner) (\<lambda>main.
      db_bind (restrictive_file_identity env parent (name @ ''-wal'') parent_owner) (\<lambda>wal.
      db_bind (restrictive_file_identity env parent (name @ ''-shm'') parent_owner) (\<lambda>shm.
        db_result (if \<lparr>ro_main = main, ro_wal = wal, ro_shm = shm\<rparr> = expected
                   then Inr () else Inl OF_Storage)))))"

definition open_read_only_steps ::
    "fs_env \<Rightarrow> faults \<Rightarrow> account_id \<Rightarrow> db_path \<Rightarrow> string \<Rightarrow> unit leaf_op" where
  "open_read_only_steps env fault account path key =
     db_bind (canonical_database_path env path) (\<lambda>canonical_path.
     db_bind (db_result (ok_or OF_Storage (pa_parent canonical_path))) (\<lambda>parent.
     db_bind (db_result (ok_or OF_Storage (pa_file_name canonical_path))) (\<lambda>name.
     db_bind (preflight_read_only_files env parent name) (\<lambda>identities.
     db_bind (open_read_only_connection env fault canonical_path) (\<lambda>_.
     db_bind (disable_and_verify_checkpoint_on_close env fault) (\<lambda>_.
     db_bind (opened_file_has_moved env fault) (\<lambda>_.
     db_bind (verify_read_only_file_identities env parent name identities) (\<lambda>_.
     db_bind (on_connection (set_and_verify_persistent_wal fault)) (\<lambda>_.
     db_bind (on_connection (configure_read_only fault account key)) (\<lambda>_.
       verify_read_only_file_identities env parent name identities))))))))))"

datatype read_only_failure = RO_Storage | RO_Corrupted

text \<open>\<open>open_read_only_with_hooks\<close>, \<open>open_read_only_classified\<close> and \<open>open_read_only\<close>.\<close>

definition open_read_only_with_hooks ::
    "fs_env \<Rightarrow> faults \<Rightarrow> account_id \<Rightarrow> db_path \<Rightarrow> string \<Rightarrow> leaf_world conn \<Rightarrow>
      (mailbox_store_error + unit) \<times> leaf_world conn" where
  "open_read_only_with_hooks env fault account path key c =
     (case open_read_only_steps env fault account path key c of
        (r, c') \<Rightarrow> (map_err mailbox_open_error r, c'))"

definition classify_read_only :: "mailbox_store_error \<Rightarrow> read_only_failure" where
  "classify_read_only err = (if err = Storage then RO_Storage else RO_Corrupted)"

definition open_read_only_classified ::
    "fs_env \<Rightarrow> faults \<Rightarrow> account_id \<Rightarrow> db_path \<Rightarrow> string \<Rightarrow> leaf_world conn \<Rightarrow>
      (read_only_failure + unit) \<times> leaf_world conn" where
  "open_read_only_classified env fault account path key c =
     (case open_read_only_with_hooks env fault account path key c of
        (r, c') \<Rightarrow> (map_err classify_read_only r, c'))"

fun read_only_store_error :: "read_only_failure \<Rightarrow> mailbox_store_error" where
  "read_only_store_error RO_Storage = Storage"
| "read_only_store_error RO_Corrupted = Corrupted"

definition open_read_only ::
    "fs_env \<Rightarrow> faults \<Rightarrow> account_id \<Rightarrow> db_path \<Rightarrow> string \<Rightarrow> leaf_world conn \<Rightarrow>
      (mailbox_store_error + unit) \<times> leaf_world conn" where
  "open_read_only env fault account path key c =
     (case open_read_only_classified env fault account path key c of
        (r, c') \<Rightarrow> (map_err read_only_store_error r, c'))"

end
