(* ===== verification/Open_Safety.thy ===== *)
theory Open_Safety
  imports Open_Files Open_Props
begin

text \<open>
  What an open does to the files around it, over the log of its system calls and under
  arbitrary interference: it removes nothing but files it created itself.
\<close>

section \<open>Justified removals\<close>

definition displays :: "file_stat \<Rightarrow> file_identity \<Rightarrow> bool" where
  "displays st i \<longleftrightarrow> (\<exists>owner. regular_identity st owner = Inr i)"

text \<open>The log records the exclusive creation of a name, and the identity of what it created.\<close>

definition made :: "fs_event list \<Rightarrow> nat \<Rightarrow> string \<Rightarrow> file_identity \<Rightarrow> bool" where
  "made log dir name i \<longleftrightarrow>
     (\<exists>xs obj ys st zs. log = xs @ EvCreate dir name (Inr obj) # ys @ EvFstat obj (Inr st) # zs
        \<and> displays st i)"

text \<open>
  What must directly precede a removal: a lookup, in the same directory, of a name this open
  created there, showing the very file it created; and when that is another name (the main
  file, standing for its sidecars), two lookups of the removed name that show one and the
  same owner-only file.
\<close>

definition justified :: "fs_event list \<Rightarrow> nat \<Rightarrow> string \<Rightarrow> bool" where
  "justified log dir name \<longleftrightarrow>
     (\<exists>zs witness_name st i. log = zs @ [EvStat dir witness_name (Inr st)] \<and> displays st i
        \<and> made zs dir witness_name i
        \<and> (witness_name = name \<or>
           (\<exists>ws a b j. zs = ws @ [EvStat dir name (Inr a), EvStat dir name (Inr b)]
              \<and> displays a j \<and> displays b j \<and> fi_mode j = OWNER_ONLY_FILE_MODE)))"

definition removals_justified :: "fs_event list \<Rightarrow> bool" where
  "removals_justified log \<longleftrightarrow>
     (\<forall>xs dir name r ys. log = xs @ EvUnlink dir name r # ys \<longrightarrow> justified xs dir name)"

lemma made_append: "made log dir name i \<Longrightarrow> made (log @ evs) dir name i"
  unfolding made_def by (metis append.assoc append_Cons)

fun is_unlink :: "fs_event \<Rightarrow> bool" where
  "is_unlink (EvUnlink dir name r) = True"
| "is_unlink _ = False"

lemma removals_Nil [simp]: "removals_justified []"
  by (simp add: removals_justified_def)

lemma removals_snoc:
  "removals_justified (log @ [ev]) \<longleftrightarrow>
     removals_justified log \<and> (\<forall>dir name r. ev = EvUnlink dir name r \<longrightarrow> justified log dir name)"
proof
  assume *: "removals_justified (log @ [ev])"
  show "removals_justified log \<and> (\<forall>dir name r. ev = EvUnlink dir name r \<longrightarrow> justified log dir name)"
    unfolding removals_justified_def
  proof (intro conjI allI impI)
    fix xs dir name r ys
    assume "log = xs @ EvUnlink dir name r # ys"
    then have "log @ [ev] = xs @ EvUnlink dir name r # (ys @ [ev])" by simp
    with * show "justified xs dir name" unfolding removals_justified_def by blast
  next
    fix dir name r
    assume "ev = EvUnlink dir name r"
    with * show "justified log dir name" unfolding removals_justified_def by blast
  qed
next
  assume *: "removals_justified log \<and> (\<forall>dir name r. ev = EvUnlink dir name r \<longrightarrow> justified log dir name)"
  show "removals_justified (log @ [ev])"
    unfolding removals_justified_def
  proof (intro allI impI)
    fix xs dir name r ys
    assume eq: "log @ [ev] = xs @ EvUnlink dir name r # ys"
    show "justified xs dir name"
    proof (cases ys rule: rev_cases)
      case Nil
      with eq * show ?thesis by simp
    next
      case (snoc zs e)
      with eq have "log = xs @ EvUnlink dir name r # zs" by simp
      with * show ?thesis unfolding removals_justified_def by blast
    qed
  qed
qed

section \<open>Careful operations\<close>

text \<open>
  A careful step extends the log by justified removals only. Under a condition on the
  world that careful steps keep, so are sequences of careful operations.
\<close>

definition careful :: "leaf_world \<Rightarrow> leaf_world \<Rightarrow> bool" where
  "careful w w' \<longleftrightarrow> (\<exists>evs. lw_log w' = lw_log w @ evs)
     \<and> (removals_justified (lw_log w) \<longrightarrow> removals_justified (lw_log w'))"

interpretation cf: movement careful
  by unfold_locales (auto simp: careful_def)

text \<open>The created leaves of the recovery stage are files that this open made in it.\<close>

definition created_made :: "nat \<Rightarrow> leaf_names \<Rightarrow> leaf_world \<Rightarrow> bool" where
  "created_made dir n w \<longleftrightarrow>
     (\<forall>i. (rl_main (lw_created w) = Some i \<longrightarrow> made (lw_log w) dir (ln_main n) i)
        \<and> (rl_wal (lw_created w) = Some i \<longrightarrow> made (lw_log w) dir (ln_wal n) i)
        \<and> (rl_shm (lw_created w) = Some i \<longrightarrow> made (lw_log w) dir (ln_shm n) i))"

definition staging :: "nat \<Rightarrow> leaf_names \<Rightarrow> leaf_world \<Rightarrow> leaf_world \<Rightarrow> bool" where
  "staging dir n w w' \<longleftrightarrow> careful w w' \<and> (created_made dir n w \<longrightarrow> created_made dir n w')"

interpretation st: movement "staging dir n" for dir n
  by unfold_locales (auto simp: staging_def intro: cf.stay cf.go_on)

text \<open>Quiet steps append no removal and leave the created leaves.\<close>

definition plain :: "leaf_world \<Rightarrow> leaf_world \<Rightarrow> bool" where
  "plain w w' \<longleftrightarrow> (\<exists>evs. lw_log w' = lw_log w @ evs \<and> list_all (\<lambda>e. \<not> is_unlink e) evs)
     \<and> lw_created w' = lw_created w"

interpretation pl: movement plain
  by unfold_locales (auto simp: plain_def)

lemma removals_plain:
  "removals_justified log \<Longrightarrow> list_all (\<lambda>e. \<not> is_unlink e) evs \<Longrightarrow> removals_justified (log @ evs)"
proof (induction evs rule: rev_induct)
  case (snoc e evs)
  then show ?case
    using removals_snoc [of "log @ evs" e] by auto
qed simp

lemma plain_careful: "plain w w' \<Longrightarrow> careful w w'"
  by (auto simp: plain_def careful_def removals_plain)

lemma plain_staging: "plain w w' \<Longrightarrow> staging dir n w w'"
  using plain_careful
  by (auto simp: staging_def created_made_def plain_def made_append)

lemma op_within_mono: "op_within R m \<Longrightarrow> (\<And>w w'. R w w' \<Longrightarrow> S w w') \<Longrightarrow> op_within S m"
  by (simp add: op_within_def)

named_theorems plain_ops \<open>operations that remove nothing\<close>

lemma plain_syscall: "(\<And>r. \<not> is_unlink (note r)) \<Longrightarrow> op_within plain (syscall env note act)"
  by (auto simp: op_within_def syscall_def plain_def Let_def split: option.split prod.split)

lemma plain_return [plain_ops]: "op_within plain (db_return a)"
  by (intro pl.within_read_only op_rules)

lemma plain_result [plain_ops]: "op_within plain (db_result a)"
  by (intro pl.within_read_only op_rules)

lemma plain_call [plain_ops]: "op_within plain (backend_call classify fault)"
  by (intro pl.within_read_only op_rules)

lemma plain_calls [plain_ops]:
  "op_within plain (statat env dir name)" "op_within plain (fstat env obj)"
  "op_within plain (openat env accepts dir name)" "op_within plain (fchmod env obj mode)"
  "op_within plain (chmod_no_follow_at env dir name mode)" "op_within plain (rmdirat env dir name)"
  "op_within plain (list_names env dir)" "op_within plain (open_directory_path env path)"
  "op_within plain (copy_data env source destination)" "op_within plain (sync_all env obj)"
  "op_within plain (stat_directory_path env path)" "op_within plain (stat_path env path name)"
  unfolding statat_def fstat_def openat_def fchmod_def chmod_no_follow_at_def rmdirat_def
    list_names_def open_directory_path_def copy_data_def sync_all_def stat_directory_path_def
    stat_path_def
  by (intro plain_syscall; simp)+

lemma plain_create [plain_ops]:
  "op_within plain (create_excl env dir name)" "op_within plain (mkdirat env dir name)"
  using plain_syscall [of "EvCreate dir name"] plain_syscall [of "EvMkdir dir name"]
  unfolding op_within_def create_excl_def mkdirat_def by simp_all

lemmas plain_shapes [plain_ops] = pl.within_shapes

lemma plain_or_storage [plain_ops]: "op_within plain m \<Longrightarrow> op_within plain (or_storage m)"
  unfolding or_storage_def by (intro plain_ops)

lemma plain_writer_hook [plain_ops]: "op_within plain (writer_hook_at env point)"
  unfolding writer_hook_at_def by (intro plain_ops)

lemma plain_recovery_hook [plain_ops]: "op_within plain (recovery_hook_at env point)"
  unfolding recovery_hook_at_def by (intro plain_ops)

lemma plain_outcome [plain_ops]: "op_within plain m \<Longrightarrow> op_within plain (outcome_of m)"
  by (simp add: op_within_def outcome_of_def split_beta)

lemma plain_leaf_entry [plain_ops]: "op_within plain (leaf_entry env parent name owner)"
  unfolding leaf_entry_def by (intro plain_ops)

lemma plain_snapshot [plain_ops]: "op_within plain (snapshot_leaf_entries env parent owner names)"
  unfolding snapshot_leaf_entries_def by (intro plain_ops)

lemma plain_guard_open [plain_ops]: "op_within plain (leaf_guard_open env path)"
  unfolding leaf_guard_open_def Let_def by (intro plain_ops)

lemma plain_claim [plain_ops]: "op_within plain (claim_fresh_main env g)"
  unfolding claim_fresh_main_def by (intro plain_ops)

lemma plain_require [plain_ops]:
  "op_within plain (require_main_identity env g)" "op_within plain (require_snapshot_unchanged env g)"
  "op_within plain (require_existing_writer_state env g p)"
  unfolding require_main_identity_def require_snapshot_unchanged_def snapshot_now_def
    require_existing_writer_state_def
  by (intro plain_ops)+

lemma plain_normalize [plain_ops]: "op_within plain (normalize_fresh_leaves env g)"
  unfolding normalize_fresh_leaves_def normalize_leaf_def normalize_new_leaf_def check_object_def
    Let_def
  by (intro plain_ops)

lemma plain_on_connection [plain_ops]: "op_within plain (on_connection m)"
  by (auto simp: op_within_def on_connection_def plain_def split: prod.split)

lemma plain_engine [plain_ops]:
  "op_within plain (engine_says fault answer)" "op_within plain (connect env fault mode path)"
proof -
  show "op_within plain (engine_says fault answer)"
    unfolding op_within_def engine_says_def
  proof
    fix c :: "leaf_world conn"
    have "op_within plain (db_bind (backend_call (\<lambda>_. OF_Storage) fault) (\<lambda>_. db_return (answer (cn_calls c))))"
      by (intro plain_ops)
    then show "plain (cn_db c) (cn_db (snd (db_bind (backend_call (\<lambda>_. OF_Storage) fault)
        (\<lambda>_. db_return (answer (cn_calls c))) c)))"
      by (simp add: op_within_def)
  qed
  show "op_within plain (connect env fault mode path)"
    unfolding connect_def
    by (intro plain_ops) (simp add: op_within_def plain_def)
qed

lemma plain_connections [plain_ops]:
  "op_within plain (disable_and_verify_checkpoint_on_close env fault)"
  "op_within plain (opened_file_has_moved env fault)"
  "op_within plain (open_connection env fault path)"
  "op_within plain (open_read_only_connection env fault path)"
  unfolding disable_and_verify_checkpoint_on_close_def opened_file_has_moved_def
    open_connection_def open_read_only_connection_def
  by (intro plain_ops)+

lemma plain_canonical [plain_ops]: "op_within plain (canonical_database_path env path)"
  unfolding canonical_database_path_def Let_def by (intro plain_ops plain_syscall) simp

lemma plain_check_leaves [plain_ops]: "op_within plain (check_leaves env directory owner leaves)"
  by (induction leaves) (auto intro!: plain_ops)

lemma plain_stage_checks [plain_ops]:
  "op_within plain (recovery_directory_identity env exact_mode parent name owner)"
  "op_within plain (recovery_stage_has_only_expected_names env g directory leaves)"
  "op_within plain (require_stage_directory env g stage)"
  "op_within plain (verify_recovery_stage env g stage main wal shm)"
  "op_within plain (cleanup_created_empty_recovery_directory env g name expected)"
  "op_within plain (setup_recovery_stage env g name expected)"
  unfolding recovery_directory_identity_def recovery_stage_has_only_expected_names_def
    require_stage_directory_def verify_recovery_stage_def setup_recovery_stage_def
    cleanup_created_empty_recovery_directory_def
  by (intro plain_ops)+

lemma plain_with_cleanup [plain_ops]:
  assumes "op_within plain m" and "op_within plain n"
  shows "op_within plain (with_cleanup m n)"
  unfolding op_within_def with_cleanup_def
proof
  fix c
  obtain r c1 where m: "m c = (r, c1)" by fastforce
  from withinD [OF assms(1) m] assms(2)
  show "plain (cn_db c) (cn_db (snd (case m c of (Inl err, c') \<Rightarrow> (Inl err, snd (n c'))
      | (Inr a, c') \<Rightarrow> (Inr a, c'))))"
    by (cases r) (auto simp: m op_within_def intro: pl.go_on)
qed

lemma plain_try_stages [plain_ops]: "op_within plain (try_recovery_stages env g parent slots)"
proof (induction slots)
  case (Cons slot slots)
  show ?case
    unfolding try_recovery_stages.simps
    by (rule plain_shapes(1), rule plain_create)
      (auto split: sum.split errno.split intro!: plain_ops Cons)
qed (simp add: plain_ops)

lemma plain_create_stage [plain_ops]: "op_within plain (create_recovery_stage env g path)"
  unfolding create_recovery_stage_def by (intro plain_ops)


section \<open>The steps that matter\<close>

lemma syscall_run:
  assumes "syscall env note act c = (r, c')"
  obtains x where "r = Inr x" "lw_log (cn_db c') = lw_log (cn_db c) @ [note x]"
    "lw_created (cn_db c') = lw_created (cn_db c)"
  using assms by (auto simp: syscall_def Let_def split: option.splits prod.splits)

lemma syscall_total:
  "\<exists>x c1. syscall env note act c = (Inr x, c1) \<and> lw_log (cn_db c1) = lw_log (cn_db c) @ [note x]
    \<and> lw_created (cn_db c1) = lw_created (cn_db c)"
proof -
  obtain r c1 where run: "syscall env note act c = (r, c1)" by fastforce
  then show ?thesis by (rule syscall_run) (use run in auto)
qed

lemma leaf_entry_run:
  assumes "leaf_entry env dir name owner c = (r, c')"
  shows "\<exists>res. lw_log (cn_db c') = lw_log (cn_db c) @ [EvStat dir name res]
    \<and> lw_created (cn_db c') = lw_created (cn_db c)
    \<and> (\<forall>i. r = Inr (Some i) \<longrightarrow> (\<exists>st. res = Inr st \<and> displays st i))"
proof -
  obtain x c1 where s: "statat env dir name c = (Inr x, c1)"
    "lw_log (cn_db c1) = lw_log (cn_db c) @ [EvStat dir name x]"
    "lw_created (cn_db c1) = lw_created (cn_db c)"
    unfolding statat_def using syscall_total by blast
  from assms s have "c' = c1" "\<forall>i. r = Inr (Some i) \<longrightarrow> (\<exists>st. x = Inr st \<and> displays st i)"
    by (auto simp: leaf_entry_def db_bind_pair db_result_def displays_def map_ok_Inr
        split: sum.splits errno.splits)
  with s show ?thesis by blast
qed

lemma unlink_careful:
  assumes "justified (lw_log (cn_db c)) dir name"
  shows "careful (cn_db c) (cn_db (snd (unlinkat env dir name c)))"
proof -
  obtain x c1 where "unlinkat env dir name c = (Inr x, c1)"
    "lw_log (cn_db c1) = lw_log (cn_db c) @ [EvUnlink dir name x]"
    unfolding unlinkat_def using syscall_total by blast
  with assms show ?thesis by (simp add: careful_def removals_snoc)
qed

text \<open>Going on after a step: what it established is at hand for the rest.\<close>

lemma careful_bind:
  assumes "op_within plain m" and "\<And>a c1. m c = (Inr a, c1) \<Longrightarrow> careful (cn_db c1) (cn_db (snd (f a c1)))"
  shows "careful (cn_db c) (cn_db (snd (db_bind m f c)))"
proof -
  obtain r c1 where m: "m c = (r, c1)" by fastforce
  with assms show ?thesis
    by (cases r) (auto simp: db_bind_def intro: cf.go_on dest: withinD plain_careful)
qed

lemma careful_judged:
  "careful (cn_db c) (cn_db (snd (m c))) \<Longrightarrow>
    careful (cn_db c) (cn_db (snd (db_bind m (\<lambda>r. db_result (j r)) c)))"
  by (auto simp: db_bind_def db_result_def split: prod.split sum.split)

lemma careful_plain: "op_within plain m \<Longrightarrow> careful (cn_db c) (cn_db (snd (m c)))"
  by (auto simp: op_within_def intro: plain_careful)

lemma careful_made:
  "careful w w' \<Longrightarrow> made (lw_log w) dir name i \<Longrightarrow> made (lw_log w') dir name i"
  by (auto simp: careful_def made_append)

lemma create_private_made:
  assumes "create_private_leaf env dir name owner c = (Inr (d, i), c')"
  shows "made (lw_log (cn_db c')) dir name i"
proof -
  from assms obtain c1 c2 where
    c1: "or_storage (create_excl env dir name) c = (Inr d, c1)" and
    c2: "or_storage (fchmod env d OWNER_ONLY_FILE_MODE) c1 = (Inr (), c2)" and
    rest: "db_bind (or_storage (fstat env d)) (\<lambda>st.
      db_bind (db_result (restrictive_regular_identity st owner)) (\<lambda>identity. db_return (d, identity))) c2
      = (Inr (d, i), c')"
    unfolding create_private_leaf_def by (elim db_bind_Inr) (auto simp: db_bind_Inr_iff)
  from rest obtain st where c3: "or_storage (fstat env d) c2 = (Inr st, c')"
    and i: "restrictive_regular_identity st owner = Inr i"
    by (auto simp: db_bind_Inr_iff)
  from c1 obtain x where "syscall env (EvCreate dir name) (add_object dir name
      ((fe_new env (cn_calls c))\<lparr>st_kind := RegularFile, st_size := 0\<rparr>)) c = (Inr x, c1)" "x = Inr d"
    by (auto simp: or_storage_def create_excl_def db_bind_Inr_iff)
  then have l1: "lw_log (cn_db c1) = lw_log (cn_db c) @ [EvCreate dir name (Inr d)]"
    by (auto elim: syscall_run)
  from c2 obtain y where l2: "lw_log (cn_db c2) = lw_log (cn_db c1) @ [EvFchmod d y]"
    by (auto simp: or_storage_def fchmod_def db_bind_Inr_iff elim: syscall_run)
  from c3 have "lw_log (cn_db c') = lw_log (cn_db c2) @ [EvFstat d (Inr st)]"
    by (auto simp: or_storage_def fstat_def db_bind_Inr_iff elim: syscall_run)
  moreover from i have "displays st i"
    by (auto simp: restrictive_regular_identity_def displays_def result_simps split: if_splits)
  ultimately show ?thesis
    unfolding made_def l1 l2 by (intro exI [of _ "lw_log (cn_db c)"] exI [of _ d] exI [of _ "[EvFchmod d y]"]
        exI [of _ st] exI [of _ "[]"]) simp
qed


section \<open>Cleaning up after a failed first open\<close>

lemma careful_done:
  "careful (cn_db c) (cn_db (snd (db_return a c)))" "careful (cn_db c) (cn_db (snd (db_result r c)))"
  by (simp_all add: db_return_def db_result_def cf.stay)

lemma careful_hook:
  "(\<And>u. careful (cn_db c) (cn_db (snd (f u c)))) \<Longrightarrow>
    careful (cn_db c) (cn_db (snd (db_bind (writer_hook_at env point) f c)))"
  by (cases "fe_writer_hook env point")
    (auto simp: writer_hook_at_def db_bind_def db_result_def cf.stay)

lemma careful_if:
  "(b \<Longrightarrow> careful w (cn_db (snd (m c)))) \<Longrightarrow> (\<not> b \<Longrightarrow> careful w (cn_db (snd (n c)))) \<Longrightarrow>
    careful w (cn_db (snd ((if b then m else n) c)))"
  by simp

lemma careful_option:
  "(x = None \<Longrightarrow> careful w (cn_db (snd (m c)))) \<Longrightarrow>
    (\<And>a. x = Some a \<Longrightarrow> careful w (cn_db (snd (f a c)))) \<Longrightarrow>
    careful w (cn_db (snd ((case x of None \<Rightarrow> m | Some a \<Rightarrow> f a) c)))"
  by (simp split: option.split)

lemmas careful_shapes = careful_done careful_if careful_option careful_hook

lemma revalidated_justified:
  assumes "made (lw_log (cn_db c)) parent main authority"
    and "leaf_entry env parent name owner c = (Inr (Some a), c1)"
    and "leaf_entry env parent name owner c1 = (Inr (Some a), c2)"
    and "fi_mode a = OWNER_ONLY_FILE_MODE"
    and "leaf_entry env parent main owner c2 = (Inr (Some authority), c3)"
  shows "justified (lw_log (cn_db c3)) parent name"
proof -
  from leaf_entry_run [OF assms(2)] leaf_entry_run [OF assms(3)] leaf_entry_run [OF assms(5)]
  obtain s1 s2 s3 where log: "lw_log (cn_db c3) = (lw_log (cn_db c)
      @ [EvStat parent name (Inr s1), EvStat parent name (Inr s2)]) @ [EvStat parent main (Inr s3)]"
    and "displays s1 a" "displays s2 a" "displays s3 authority"
    by auto
  moreover have "made (lw_log (cn_db c) @ [EvStat parent name (Inr s1), EvStat parent name (Inr s2)])
      parent main authority"
    by (rule made_append) (rule assms(1))
  ultimately show ?thesis unfolding justified_def using assms(4) by blast
qed

lemma remove_unchanged_careful:
  assumes "made (lw_log (cn_db c)) parent main authority"
  shows "careful (cn_db c) (cn_db (snd (remove_unchanged_restrictive_leaf env parent name
    owner index expected main authority c)))"
  unfolding remove_unchanged_restrictive_leaf_def
  apply (rule careful_hook, rule careful_bind, rule plain_leaf_entry)
  apply (rule careful_option, rule careful_done, rule careful_if, rule careful_done)
  apply (rule careful_hook, rule careful_bind, rule plain_leaf_entry)
  apply (rule careful_option, rule careful_done, rule careful_if, rule careful_done,
      rule careful_if, rule careful_done)
  apply (rule careful_hook, rule careful_bind, rule plain_leaf_entry)
  apply (rule careful_if, rule careful_done, rule careful_judged, rule unlink_careful)
  using assms by (auto intro: revalidated_justified)

lemma entry_or_none_run:
  "entry_or_none env parent name owner c = (r, c') \<Longrightarrow> plain (cn_db c) (cn_db c')"
  using plain_leaf_entry [of env parent name owner]
  by (auto simp: entry_or_none_def op_within_def split: prod.splits sum.splits) (metis snd_conv)+

lemma plain_entry_or_none [plain_ops]: "op_within plain (entry_or_none env parent name owner)"
  unfolding op_within_def by (metis entry_or_none_run prod.collapse)

lemma cleanup_leaves_careful:
  assumes "made (lw_log (cn_db c)) (lg_parent g) (ln_main (lg_names g)) fresh_main"
  shows "careful (cn_db c) (cn_db (snd (cleanup_leaves env g fresh_main leaves c)))"
  using assms
proof (induction leaves arbitrary: c)
  case (Cons leaf leaves)
  obtain index name where leaf: "leaf = (index, name)" by fastforce
  show ?case
    unfolding leaf cleanup_leaves.simps
  proof (rule careful_bind, rule plain_entry_or_none, rule careful_if, rule careful_done)
    fix entry c1
    assume "entry_or_none env (lg_parent g) (ln_main (lg_names g)) (lg_parent_owner g) c = (Inr entry, c1)"
    with Cons.prems have made: "made (lw_log (cn_db c1)) (lg_parent g) (ln_main (lg_names g)) fresh_main"
      by (metis entry_or_none_run plain_careful careful_made)
    obtain r c2 where r: "remove_unchanged_restrictive_leaf env (lg_parent g) name (lg_parent_owner g)
        index (if index = 0 then Some fresh_main else None) (ln_main (lg_names g)) fresh_main c1 = (r, c2)"
      by fastforce
    then have step: "careful (cn_db c1) (cn_db c2)"
      using remove_unchanged_careful [OF made] by (metis snd_conv)
    with Cons.IH [of c2] made
    have "careful (cn_db c1) (cn_db (snd (cleanup_leaves env g fresh_main leaves c2)))"
      by (blast intro: careful_made cf.go_on)
    with step show "careful (cn_db c1) (cn_db (snd (case remove_unchanged_restrictive_leaf env
        (lg_parent g) name (lg_parent_owner g) index (if index = 0 then Some fresh_main else None)
        (ln_main (lg_names g)) fresh_main c1 of (Inl _, c') \<Rightarrow> (Inr (), c')
        | (Inr _, c') \<Rightarrow> cleanup_leaves env g fresh_main leaves c')))"
      by (simp add: r split: sum.split)
  qed
qed (simp add: careful_done)

text \<open>The guard's authority is a file this open made.\<close>

definition guard_ok :: "leaf_guard \<Rightarrow> leaf_world \<Rightarrow> bool" where
  "guard_ok g w \<longleftrightarrow> (\<forall>i. lg_fresh_main g = Some i \<longrightarrow>
     made (lw_log w) (lg_parent g) (ln_main (lg_names g)) i)"

lemma guard_ok_careful: "careful w w' \<Longrightarrow> guard_ok g w \<Longrightarrow> guard_ok g w'"
  by (auto simp: guard_ok_def intro: careful_made)

lemma cleanup_careful:
  "guard_ok g (cn_db c) \<Longrightarrow> careful (cn_db c) (cn_db (snd (cleanup_fresh_candidates env g c)))"
  by (auto simp: cleanup_fresh_candidates_def Let_def guard_ok_def split: option.split
      intro: careful_done cleanup_leaves_careful simp del: cleanup_leaves.simps)

lemma fail_open_careful:
  "guard_ok g (cn_db c) \<Longrightarrow> careful (cn_db c) (cn_db (snd (fail_open env g err c)))"
  unfolding fail_open_def by (rule careful_judged, rule cleanup_careful)

lemma claim_steps:
  "claim_fresh_main env g =
    db_bind (create_private_leaf env (lg_parent g) (ln_main (lg_names g)) (lg_parent_owner g))
      (\<lambda>(_, i). db_return (g\<lparr>lg_fresh_main := Some i\<rparr>))"
  by (simp add: claim_fresh_main_def create_private_leaf_def db_bind_assoc)

lemma claim_guard_ok:
  assumes "claim_fresh_main env g c = (Inr g', c')"
  shows "guard_ok g' (cn_db c')"
  using assms unfolding claim_steps
  by (auto elim!: db_bind_Inr dest!: create_private_made simp: guard_ok_def)


section \<open>The recovery stage\<close>

lemma checked_unlink_careful:
  assumes "made (lw_log (cn_db c)) dir name i"
    and "leaf_entry env dir name owner c = (Inr (Some i), c1)"
  shows "careful (cn_db c1) (cn_db (snd (unlinkat env dir name c1)))"
proof (rule unlink_careful)
  from leaf_entry_run [OF assms(2)] obtain st where
    "lw_log (cn_db c1) = lw_log (cn_db c) @ [EvStat dir name (Inr st)]" "displays st i"
    by auto
  with assms(1) show "justified (lw_log (cn_db c1)) dir name"
    unfolding justified_def by blast
qed

lemma or_storage_same: "snd (or_storage m c) = snd (m c)"
  by (simp add: or_storage_def db_bind_def db_result_def split: prod.split sum.split)

lemma remove_leaves_careful:
  assumes "\<forall>name i. (name, Some i) \<in> set leaves \<longrightarrow> made (lw_log (cn_db c)) dir name i"
  shows "careful (cn_db c) (cn_db (snd (remove_leaves env dir owner leaves c)))"
  using assms
proof (induction leaves arbitrary: c)
  case (Cons leaf leaves)
  obtain name x where leaf: "leaf = (name, x)" by fastforce
  show ?case
  proof (cases x)
    case None
    with Cons leaf show ?thesis by simp
  next
    case (Some i)
    with Cons.prems leaf have made: "made (lw_log (cn_db c)) dir name i" by simp
    show ?thesis
      unfolding leaf Some remove_leaves.simps
    proof (rule careful_bind, rule plain_leaf_entry, rule careful_if, rule careful_done)
      fix entry c1
      assume run: "leaf_entry env dir name owner c = (Inr entry, c1)" and "\<not> entry \<noteq> Some i"
      then have "careful (cn_db c1) (cn_db (snd (or_storage (unlinkat env dir name) c1)))"
        using checked_unlink_careful [OF made] by (simp add: or_storage_same)
      moreover obtain r c2 where r: "or_storage (unlinkat env dir name) c1 = (r, c2)" by fastforce
      ultimately have step: "careful (cn_db c1) (cn_db c2)" by simp
      moreover have "careful (cn_db c) (cn_db c1)"
        using run plain_leaf_entry by (metis withinD plain_careful)
      ultimately have "careful (cn_db c) (cn_db c2)" by (rule cf.go_on [rotated])
      with Cons have "careful (cn_db c2) (cn_db (snd (remove_leaves env dir owner leaves c2)))"
        by (auto intro: careful_made)
      with step r show "careful (cn_db c1) (cn_db (snd (db_bind (or_storage (unlinkat env dir name))
          (\<lambda>_. remove_leaves env dir owner leaves) c1)))"
        by (cases r) (auto simp: db_bind_def intro: cf.go_on)
    qed
  qed
qed (simp add: careful_done)

lemma careful_then:
  assumes "careful (cn_db c) (cn_db (snd (m c)))"
    and "\<And>a c1. m c = (Inr a, c1) \<Longrightarrow> careful (cn_db c1) (cn_db (snd (f a c1)))"
  shows "careful (cn_db c) (cn_db (snd (db_bind m f c)))"
proof -
  obtain r c1 where m: "m c = (r, c1)" by fastforce
  with assms show ?thesis
    by (cases r) (auto simp: db_bind_def intro: cf.go_on)
qed

lemma cleanup_stage_careful:
  assumes "\<forall>name i. (name, Some i) \<in> set (expected_leaves g leaves) \<longrightarrow>
      made (lw_log (cn_db c)) (rs_directory stage) name i"
  shows "careful (cn_db c) (cn_db (snd (cleanup_recovery_stage env g stage leaves c)))"
  unfolding cleanup_recovery_stage_def
proof (rule careful_bind, intro plain_ops, rule careful_bind, intro plain_ops,
    rule careful_bind, intro plain_ops, rule careful_then)
  fix u1 c1 u2 c2 u3 c3
  assume "require_stage_directory env g stage c = (Inr u1, c1)"
    and "recovery_stage_has_only_expected_names env g (rs_directory stage) leaves c1 = (Inr u2, c2)"
    and "check_leaves env (rs_directory stage) (lg_parent_owner g) (expected_leaves g leaves) c2
      = (Inr u3, c3)"
  then have "careful (cn_db c) (cn_db c1)" "careful (cn_db c1) (cn_db c2)" "careful (cn_db c2) (cn_db c3)"
    by (auto intro!: plain_careful dest!: withinD [rotated] intro: plain_ops)
  then have "careful (cn_db c) (cn_db c3)" by (blast intro: cf.go_on)
  with assms show "careful (cn_db c3) (cn_db (snd (remove_leaves env (rs_directory stage)
      (lg_parent_owner g) (rev (expected_leaves g leaves)) c3)))"
    by (intro remove_leaves_careful) (auto intro: careful_made)
next
  fix a c1
  show "careful (cn_db c1) (cn_db (snd (db_bind (recovery_directory_identity env True (lg_parent g)
      (rs_name stage) (lg_parent_owner g)) (\<lambda>named.
        if named \<noteq> rs_identity stage then db_result (Inl OF_Storage)
        else or_storage (rmdirat env (lg_parent g) (rs_name stage))) c1)))"
    by (rule careful_plain) (intro plain_ops)
qed

text \<open>Noting a created leaf keeps the notes true when it follows its creation.\<close>

lemma staging_created:
  assumes "\<And>w i. made (lw_log w) dir name i \<Longrightarrow> created_made dir n w \<Longrightarrow>
      created_made dir n (w\<lparr>lw_created := upd i (lw_created w)\<rparr>)"
    and "\<And>d i. op_within (staging dir n) (k d i)"
  shows "op_within (staging dir n) (db_bind (create_private_leaf env dir name owner)
    (\<lambda>(d, i). db_bind (note_created (upd i)) (\<lambda>_. k d i)))"
  unfolding op_within_def
proof
  fix c
  obtain r c1 where r: "create_private_leaf env dir name owner c = (r, c1)" by fastforce
  have "op_within plain (create_private_leaf env dir name owner)"
    unfolding create_private_leaf_def by (intro plain_ops)
  then have step: "staging dir n (cn_db c) (cn_db c1)"
    using r by (metis withinD plain_staging)
  show "staging dir n (cn_db c) (cn_db (snd (db_bind (create_private_leaf env dir name owner)
    (\<lambda>(d, i). db_bind (note_created (upd i)) (\<lambda>_. k d i)) c)))"
  proof (cases r)
    case (Inl err)
    with r step show ?thesis by (simp add: db_bind_def)
  next
    case (Inr di)
    obtain d i where di: "di = (d, i)" by fastforce
    with r Inr have made: "made (lw_log (cn_db c1)) dir name i" by (simp add: create_private_made)
    obtain u c2 where c2: "note_created (upd i) c1 = (Inr u, c2)"
      and w2: "cn_db c2 = (cn_db c1)\<lparr>lw_created := upd i (lw_created (cn_db c1))\<rparr>"
      by (simp add: note_created_def)
    have "staging dir n (cn_db c1) (cn_db c2)"
      using assms(1) [OF made] by (simp add: w2 staging_def careful_def)
    moreover have "staging dir n (cn_db c2) (cn_db (snd (k d i c2)))"
      using assms(2) by (simp add: op_within_def)
    ultimately show ?thesis
      using step by (auto simp: db_bind_def r Inr di c2 intro: st.go_on)
  qed
qed

lemma staging_plain: "op_within plain m \<Longrightarrow> op_within (staging dir n) m"
  by (rule op_within_mono [where R = plain]) (simp_all add: plain_staging)

lemma staging_step:
  "op_within plain m \<Longrightarrow> (\<And>a. op_within (staging dir n) (f a)) \<Longrightarrow>
    op_within (staging dir n) (db_bind m f)"
  by (rule st.within_bind, rule staging_plain)

lemma copy_leaf_staging:
  assumes "\<And>w i. made (lw_log w) dir name i \<Longrightarrow> created_made dir n w \<Longrightarrow>
      created_made dir n (w\<lparr>lw_created := upd i (lw_created w)\<rparr>)"
  shows "op_within (staging dir n) (copy_recovery_leaf env g name kind expected dir upd)"
  unfolding copy_recovery_leaf_def
proof (rule staging_step, intro plain_ops, rule staging_step, intro plain_ops,
    rule st.within_if, rule staging_plain, rule plain_result,
    rule staging_step, rule plain_result, rule st.within_if, rule staging_plain, rule plain_result,
    rule staging_created, rule assms)
  fix source destination identity
  show "op_within (staging dir n) (db_bind (or_storage (copy_data env source destination)) (\<lambda>_.
      db_bind (or_storage (sync_all env destination)) (\<lambda>_. db_return identity)))"
    by (intro staging_plain plain_ops)
qed

lemma validate_in_stage_staging:
  "op_within (staging (rs_directory stage) (lg_names g))
    (validate_in_stage env fault g account key main wal stage)"
  unfolding validate_in_stage_def Let_def
proof (rule st.within_bind, rule copy_leaf_staging, simp add: created_made_def,
    rule staging_step, rule plain_recovery_hook, rule st.within_bind, rule copy_leaf_staging,
    simp add: created_made_def, rule staging_step, rule plain_recovery_hook, rule staging_created,
    simp add: created_made_def)
qed (intro staging_plain plain_ops)


lemma created_expected:
  "created_made dir (lg_names g) w \<Longrightarrow> (name, Some i) \<in> set (expected_leaves g (lw_created w)) \<Longrightarrow>
    made (lw_log w) dir name i"
  by (auto simp: expected_leaves_def created_made_def Let_def)

lemma careful_outcome:
  "careful w (cn_db (snd (m c))) \<Longrightarrow> careful w (cn_db (snd (outcome_of m c)))"
  by (simp add: outcome_of_def split_beta)

text \<open>The private copy as a whole.\<close>

lemma private_copy_careful:
  "careful (cn_db c) (cn_db (snd (validate_wal_without_shm_from_private_copy env fault g path
    account key c)))"
  unfolding validate_wal_without_shm_from_private_copy_def
proof (rule careful_bind, rule plain_result, rule careful_bind, rule plain_result,
    rule careful_bind, rule plain_create_stage)
  fix main c1 wal c2 stage c3
  define reset where "reset = note_created (\<lambda>_. \<lparr>rl_main = None, rl_wal = None, rl_shm = None\<rparr>)"
  define validate where "validate = validate_in_stage env fault g account key main wal stage"
  define tail where "tail = (\<lambda>validation.
     db_bind (outcome_of (recovery_hook_at env BeforeCleanup)) (\<lambda>cleanup_hook.
     db_bind created_now (\<lambda>leaves.
     db_bind (outcome_of (cleanup_recovery_stage env g stage leaves)) (\<lambda>cleanup.
       db_result (finish_recovery_validation validation cleanup_hook cleanup)))))"
  obtain u c4 where c4: "reset c3 = (Inr u, c4)" "lw_log (cn_db c4) = lw_log (cn_db c3)"
    and start: "created_made (rs_directory stage) (lg_names g) (cn_db c4)"
    by (simp add: reset_def note_created_def created_made_def)
  obtain r c5 where v: "validate c4 = (r, c5)" by fastforce
  then have c5: "outcome_of validate c4 = (Inr r, c5)" and "snd (validate c4) = c5"
    by (simp_all add: outcome_of_def)
  then have step: "staging (rs_directory stage) (lg_names g) (cn_db c4) (cn_db c5)"
    using validate_in_stage_staging unfolding validate_def op_within_def by metis
  with start have made5: "created_made (rs_directory stage) (lg_names g) (cn_db c5)"
    by (simp add: staging_def)
  have "careful (cn_db c5) (cn_db (snd (tail r c5)))"
    unfolding tail_def
  proof (rule careful_bind, intro plain_ops)
    fix h c6
    assume "outcome_of (recovery_hook_at env BeforeCleanup) c5 = (Inr h, c6)"
    then have c6: "c6 = c5" by (simp add: outcome_of_def recovery_hook_at_def db_result_def)
    have leaves: "created_now c5 = (Inr (lw_created (cn_db c5)), c5)"
      by (simp add: created_now_def)
    have "careful (cn_db c5) (cn_db (snd (cleanup_recovery_stage env g stage (lw_created (cn_db c5)) c5)))"
      using created_expected [OF made5] by (intro cleanup_stage_careful) blast
    then have "careful (cn_db c5) (cn_db (snd (db_bind (outcome_of (cleanup_recovery_stage env g stage
        (lw_created (cn_db c5)))) (\<lambda>cleanup.
          db_result (finish_recovery_validation r h cleanup)) c5)))"
      by (intro careful_judged careful_outcome)
    then show "careful (cn_db c6) (cn_db (snd (db_bind created_now (\<lambda>leaves.
        db_bind (outcome_of (cleanup_recovery_stage env g stage leaves)) (\<lambda>cleanup.
          db_result (finish_recovery_validation r h cleanup))) c6)))"
      by (simp add: db_bind_def [of created_now] leaves c6)
  qed
  moreover have "careful (cn_db c3) (cn_db c5)"
    using step c4(2) by (simp add: staging_def careful_def)
  ultimately have "careful (cn_db c3) (cn_db (snd (tail r c5)))" by (rule cf.go_on [rotated])
  then show "careful (cn_db c3) (cn_db (snd (db_bind (note_created
      (\<lambda>_. \<lparr>rl_main = None, rl_wal = None, rl_shm = None\<rparr>)) (\<lambda>_.
      db_bind (outcome_of (validate_in_stage env fault g account key main wal stage)) (\<lambda>validation.
      db_bind (outcome_of (recovery_hook_at env BeforeCleanup)) (\<lambda>cleanup_hook.
      db_bind created_now (\<lambda>leaves.
      db_bind (outcome_of (cleanup_recovery_stage env g stage leaves)) (\<lambda>cleanup.
        db_result (finish_recovery_validation validation cleanup_hook cleanup)))))) c3)))"
    unfolding reset_def [symmetric] validate_def [symmetric] tail_def [symmetric]
    by (simp add: db_bind_def c4 c5)
qed

section \<open>The writer open\<close>

lemma preflight_careful:
  "careful (cn_db c) (cn_db (snd (existing_checked env fault path account key g c)))"
proof -
  have preflight: "careful (cn_db c) (cn_db (snd (preflight_existing env fault path account key g c)))" for c
    unfolding preflight_existing_def Let_def
    by (intro careful_if careful_done careful_then private_copy_careful)
      (rule careful_plain, intro plain_ops)+
  show ?thesis
    unfolding existing_checked_def
    by (intro careful_if careful_done careful_then preflight) (rule careful_plain, intro plain_ops)+
qed

lemma claim_if_fresh_run:
  assumes "lg_fresh_main g = None" and "claim_if_fresh env g c = (r, c')"
  obtains x g' where "r = Inr (x, g')" "plain (cn_db c) (cn_db c')" "guard_ok g' (cn_db c')"
proof (cases "is_fresh (lg_snapshot g)")
  case False
  with assms show ?thesis by (intro that) (auto simp: claim_if_fresh_def guard_ok_def pl.stay)
next
  case True
  obtain y c1 where run: "db_bind (writer_hook_at env BeforeFreshClaim) (\<lambda>_. claim_fresh_main env g) c = (y, c1)"
    by fastforce
  have "op_within plain (db_bind (writer_hook_at env BeforeFreshClaim) (\<lambda>_. claim_fresh_main env g))"
    by (intro plain_ops)
  with run have "plain (cn_db c) (cn_db c1)" by (rule withinD [rotated])
  with True assms run show ?thesis
    by (cases y) (auto simp: claim_if_fresh_def guard_ok_def intro!: that elim!: db_bind_Inr
        dest!: claim_guard_ok)
qed

lemma outcome_plain:
  assumes "op_within plain m" and "outcome_of m c = (r, c')"
  obtains x where "r = Inr x" "m c = (x, c')" "plain (cn_db c) (cn_db c')"
  using assms by (auto simp: outcome_of_def split: prod.splits dest: withinD)

lemma opened_outcome_run:
  assumes "opened_outcome env fault account key preflight g c = (r, c')" and "guard_ok g (cn_db c)"
  obtains x g' where "r = Inr (x, g')" "plain (cn_db c) (cn_db c')" "guard_ok g' (cn_db c')"
proof -
  have keep: "guard_ok g' w'" if "plain (cn_db c) w'" "g' = g \<or> g' = mark_fresh_migration_succeeded g" for g' w'
    using that guard_ok_careful [OF plain_careful assms(2)]
    by (auto simp: guard_ok_def mark_fresh_migration_succeeded_def)
  have ops: "op_within plain (before_migration env fault account key preflight g)"
    "op_within plain (create_fresh env fault account g)"
    "op_within plain (db_bind (if f then writer_hook_at env AfterFreshMigration else db_return ())
      (\<lambda>_. after_migration env fault preflight g'))" for f g'
    unfolding before_migration_def create_fresh_def after_migration_def by (intro plain_ops)+
  have "op_within plain (opened_outcome env fault account key preflight g)"
    unfolding opened_outcome_def by (intro plain_ops ops)
  with assms(1) have plain: "plain (cn_db c) (cn_db c')" by (rule withinD [rotated])
  have "\<exists>x g'. r = Inr (x, g') \<and> (g' = g \<or> g' = mark_fresh_migration_succeeded g)"
    using assms(1) unfolding opened_outcome_def
    by (auto simp: db_bind_def db_return_def outcome_of_def create_fresh_def
        split: prod.splits sum.splits if_splits)
  with plain keep show ?thesis using that by blast
qed

lemma open_or_clean_up_careful:
  assumes "lg_fresh_main g = None"
  shows "careful (cn_db c) (cn_db (snd (open_or_clean_up env fault path account key preflight g c)))"
proof (cases "fe_writer_hook env AfterSnapshot")
  case (Inl err)
  then show ?thesis
    using assms fail_open_careful [of g c env err]
    by (simp add: open_or_clean_up_def guard_ok_def)
next
  case (Inr u)
  have rest: "careful (cn_db c1) (cn_db (snd (open_claimed env fault path account key preflight g1 c1)))"
    if "guard_ok g1 (cn_db c1)" for g1 c1
    unfolding open_claimed_def
  proof (rule careful_bind, intro plain_ops)
    fix connected c2
    assume "outcome_of (open_connection env fault path) c1 = (Inr connected, c2)"
    then have "plain (cn_db c1) (cn_db c2)"
      by (rule withinD [OF plain_outcome [OF plain_connections(3)]])
    with that have ok: "guard_ok g1 (cn_db c2)" by (blast intro: guard_ok_careful plain_careful)
    obtain r c3 where o: "opened_outcome env fault account key preflight g1 c2 = (r, c3)" by fastforce
    then obtain x g2 where r: "r = Inr (x, g2)" and "plain (cn_db c2) (cn_db c3)"
      and "guard_ok g2 (cn_db c3)"
      by (rule opened_outcome_run [OF _ ok])
    then have "careful (cn_db c2) (cn_db (snd (case x of Inl err \<Rightarrow> fail_open env g2 err c3
        | Inr _ \<Rightarrow> db_return () c3)))"
      by (auto split: sum.split intro: cf.go_on plain_careful fail_open_careful careful_done)
    with o r ok show "careful (cn_db c2) (cn_db (snd ((case connected of
        Inl err \<Rightarrow> fail_open env g1 err
      | Inr _ \<Rightarrow>
          db_bind (opened_outcome env fault account key preflight g1) (\<lambda>(r, g2).
          case r of Inl err \<Rightarrow> fail_open env g2 err | Inr _ \<Rightarrow> db_return ())) c2)))"
      by (cases connected; cases x) (auto simp: db_bind_def intro: fail_open_careful)
  qed
  obtain r c1 where claim: "claim_if_fresh env g c = (r, c1)" by fastforce
  then obtain x g1 where r: "r = Inr (x, g1)" and "plain (cn_db c) (cn_db c1)"
    and ok: "guard_ok g1 (cn_db c1)"
    by (rule claim_if_fresh_run [OF assms])
  then have step: "careful (cn_db c) (cn_db c1)" by (simp add: plain_careful)
  show ?thesis
    using step rest [OF ok] fail_open_careful [OF ok]
    by (cases x) (auto simp: open_or_clean_up_def Inr db_bind_def [of "claim_if_fresh env g"] claim r
        intro: cf.go_on)
qed

lemma guard_open_None:
  "leaf_guard_open env path c = (Inr g, c') \<Longrightarrow> lg_fresh_main g = None"
  unfolding leaf_guard_open_def Let_def
  by (auto simp: db_bind_Inr_iff split: if_splits)

lemma open_careful:
  "careful (cn_db c) (cn_db (snd (open_inner_impl env fault account path key c)))"
  unfolding open_inner_impl_def
proof (rule careful_bind, rule plain_canonical, rule careful_bind, rule plain_guard_open,
    rule careful_then, rule preflight_careful)
  fix canonical c1 g c2 preflight c3
  assume "leaf_guard_open env canonical c1 = (Inr g, c2)"
  then show "careful (cn_db c3) (cn_db (snd (open_or_clean_up env fault canonical account key preflight g c3)))"
    by (intro open_or_clean_up_careful) (rule guard_open_None)
qed

text \<open>
  C1. Whatever else happens to the directory meanwhile and whatever fails: every file that
  an open removes is removed directly after a lookup in that directory has shown, under a
  name this very open had created exclusively there, the very file it created; and a
  sidecar is removed only when two lookups showed it unchanged and owner-only. A file that was
  there before, or that replaced one of its own, is never taken for its own.
\<close>

theorem open_removes_only_its_own:
  assumes "open_inner_impl env fault account path key c = (r, c')" and "lw_log (cn_db c) = []"
  shows "lw_log (cn_db c') = xs @ EvUnlink dir name u # ys \<longrightarrow> justified xs dir name"
proof -
  have "removals_justified (lw_log (cn_db c'))"
    using open_careful [of c env fault account path key] assms
    by (simp add: careful_def)
  then show ?thesis by (simp add: removals_justified_def)
qed


section \<open>A sample: the first open of an empty profile\<close>

definition calm_env :: fs_env where
  "calm_env =
     \<lparr>fe_fault = (\<lambda>_. None), fe_others = (\<lambda>_ fs. fs),
      fe_new = (\<lambda>_. \<lparr>st_dev = 1, st_ino = 7, st_uid = 501, st_kind = RegularFile, st_mode = 384, st_size = 0\<rparr>),
      fe_writer_hook = (\<lambda>_. Inr ()), fe_recovery_hook = (\<lambda>_. Inr ()),
      fe_engine = (\<lambda>_ _ _. cn_db (new_conn empty_file)), fe_moved = (\<lambda>_. False),
      fe_configured = (\<lambda>_. True)\<rparr>"

definition empty_profile :: "leaf_world conn" where
  "empty_profile =
     \<lparr>cn_db = \<lparr>lw_fs =
         \<lparr>fs_names = (\<lambda>_. []),
          fs_stat = (\<lambda>_. \<lparr>st_dev = 1, st_ino = 2, st_uid = 501, st_kind = Directory, st_mode = 448, st_size = 64\<rparr>),
          fs_data = (\<lambda>_. []), fs_next = 1,
          fs_directories = (\<lambda>p. if p = ''/profile'' then Some 0 else None),
          fs_canonical = (\<lambda>p. if p = ''/profile'' then Some p else None), fs_exists = (\<lambda>_. False)\<rparr>,
        lw_log = [], lw_conn = cn_db (new_conn empty_file),
        lw_created = \<lparr>rl_main = None, rl_wal = None, rl_shm = None\<rparr>\<rparr>,
      cn_calls = 0\<rparr>"

definition mail_path :: db_path where
  "mail_path = \<lparr>pa_parent = Some ''/profile'', pa_file_name = Some ''mail.db''\<rparr>"

text \<open>The engine fails to open the claimed file: the open takes it away again.\<close>

definition failing_run :: "(open_failure + unit) \<times> leaf_world conn" where
  "failing_run = open_inner_impl calm_env (\<lambda>n. if n = 10 then Some OtherRusqliteError else None)
     sample_account mail_path ''key'' empty_profile"

lemma failing_log: "lw_log (cn_db (snd failing_run)) ! 20 = EvUnlink 0 ''mail.db'' (Inr ())"
    "length (lw_log (cn_db (snd failing_run))) = 21"
  by code_simp+

theorem open_removes_only_its_own_witness:
  "justified (take 20 (lw_log (cn_db (snd failing_run)))) 0 ''mail.db''"
proof -
  have "lw_log (cn_db (snd failing_run)) =
      take 20 (lw_log (cn_db (snd failing_run))) @ EvUnlink 0 ''mail.db'' (Inr ()) # []"
    using id_take_nth_drop [of 20 "lw_log (cn_db (snd failing_run))"] failing_log by simp
  moreover obtain r c' where "failing_run = (r, c')" by fastforce
  ultimately show ?thesis
    using open_removes_only_its_own [of calm_env _ sample_account mail_path "''key''" empty_profile r c'
        "take 20 (lw_log (cn_db (snd failing_run)))" 0 "''mail.db''" "Inr ()" "[]"]
    unfolding failing_run_def by (simp add: empty_profile_def)
qed

end
