(* ===== verification/Open_Serving.thy ===== *)
theory Open_Serving
  imports Open_Safety
begin

text \<open>
  What an open serves: the writer open only a store of its own account and key, the strict
  read-only open only what the engine found, and without a modifying call of its own.
\<close>

section \<open>What a successful writer open serves\<close>

text \<open>Only the statements of the database touch the connection.\<close>

definition same_conn :: "leaf_world \<Rightarrow> leaf_world \<Rightarrow> bool" where
  "same_conn w w' \<longleftrightarrow> lw_conn w' = lw_conn w"

interpretation sc: movement same_conn
  by unfold_locales (auto simp: same_conn_def)

named_theorems conn_ops \<open>operations that leave the connection alone\<close>

lemma conn_syscall: "op_within same_conn (syscall env note act)"
  by (auto simp: op_within_def syscall_def same_conn_def Let_def split: prod.split)

lemma conn_calls [conn_ops]:
  "op_within same_conn (statat env dir name)" "op_within same_conn (fstat env obj)"
  "op_within same_conn (openat env accepts dir name)" "op_within same_conn (fchmod env obj mode)"
  "op_within same_conn (chmod_no_follow_at env dir name mode)"
  unfolding statat_def fstat_def openat_def fchmod_def chmod_no_follow_at_def
  by (rule conn_syscall)+

lemma conn_base [conn_ops]:
  "op_within same_conn (db_return a)" "op_within same_conn (db_result r)"
  "op_within same_conn (backend_call classify fault)"
  by (intro sc.within_read_only op_rules)+

lemmas conn_shapes [conn_ops] = sc.within_shapes

lemma conn_leaf_ops [conn_ops]:
  "op_within same_conn (require_main_identity env g)"
  "op_within same_conn (require_snapshot_unchanged env g)"
  "op_within same_conn (require_existing_writer_state env g p)"
  "op_within same_conn (normalize_fresh_leaves env g)"
  "op_within same_conn (writer_hook_at env point)"
  unfolding require_main_identity_def require_snapshot_unchanged_def snapshot_now_def
    require_existing_writer_state_def snapshot_leaf_entries_def leaf_entry_def or_storage_def
    normalize_fresh_leaves_def normalize_leaf_def normalize_new_leaf_def check_object_def
    writer_hook_at_def Let_def
  by (intro conn_ops)+

lemma conn_engine [conn_ops]:
  "op_within same_conn (engine_says fault answer)"
  "op_within same_conn (opened_file_has_moved env fault)"
  "op_within same_conn (disable_and_verify_checkpoint_on_close env fault)"
proof -
  have says: "op_within same_conn (engine_says fault answer)" for answer
    by (auto simp: op_within_def engine_says_def db_bind_def backend_call_def db_return_def
        same_conn_def split: option.split)
  then show "op_within same_conn (engine_says fault answer)" .
  show "op_within same_conn (opened_file_has_moved env fault)"
    "op_within same_conn (disable_and_verify_checkpoint_on_close env fault)"
    unfolding opened_file_has_moved_def disable_and_verify_checkpoint_on_close_def
    by (intro conn_ops says)+
qed

lemma conn_keeps:
  "op_within same_conn m \<Longrightarrow> m c = (r, c') \<Longrightarrow> lw_conn (cn_db c') = lw_conn (cn_db c)"
  unfolding op_within_def same_conn_def by (metis snd_conv)

text \<open>The connection of the world, as a connection of its own.\<close>

abbreviation conn_of :: "leaf_world conn \<Rightarrow> cipher_conn conn" where
  "conn_of c \<equiv> \<lparr>cn_db = lw_conn (cn_db c), cn_calls = cn_calls c\<rparr>"

lemma on_connection_Inr:
  assumes "on_connection m c = (Inr a, c')"
  shows "m (conn_of c) = (Inr a, conn_of c')"
  using assms by (auto simp: on_connection_def split: prod.splits)


lemma materialize_Inr:
  "materialize_fresh_wal fault c = (Inr (), c') \<Longrightarrow>
    cn_db c' = write_image (\<lambda>im. im\<lparr>im_user_version := 0\<rparr>) (cn_db c)"
  unfolding materialize_fresh_wal_def by (simp add: image_execute_Inr)

lemma migrate_Inr:
  "migrate_fresh fault account c = (Inr (), c') \<Longrightarrow>
    cn_db c' = write_image (\<lambda>im. im\<lparr>im_user_version := STORE_VERSION,
      im_schema := im_schema im @ migration_schema, im_tables := migrated_tables account,
      im_application_id := STORE_APPLICATION_ID\<rparr>) (cn_db c)"
  unfolding migrate_fresh_def
  by (auto elim!: db_bind_Inr unchecked_transaction_Inr dest!: image_execute_Inr
      simp: write_image_def run_migration_def insert_binding_def empty_tables_def
        migrated_tables_def)

lemma persist_Inr:
  "set_and_verify_persistent_wal fault c = (Inr (), c') \<Longrightarrow> cc_file (cn_db c') = cc_file (cn_db c)"
  unfolding set_and_verify_persistent_wal_def
  by (elim db_bind_Inr) (auto dest!: set_pragmas_Inr query_row_Inr)

text \<open>What an open promises of the database it was given and of the one it serves.\<close>

definition accepted :: "account_id \<Rightarrow> string \<Rightarrow> cipher_file \<Rightarrow> cipher_file \<Rightarrow> bool" where
  "accepted account key f f' \<longleftrightarrow>
     cf_key f \<in> {None, Some key} \<and> cf_key f' = Some key \<and> owned_by account (cf_image f')
     \<and> (owned_by account (cf_image f) \<and> im_tables (cf_image f') = im_tables (cf_image f)
        \<or> blank (cf_image f) \<and> im_tables (cf_image f') = migrated_tables account)"

lemma before_migration_serves:
  assumes "before_migration env fault account key preflight g c = (Inr fresh, c')"
  shows "cf_key (cc_file (lw_conn (cn_db c))) \<in> {None, Some key}
    \<and> cf_key (cc_file (lw_conn (cn_db c'))) = Some key \<and> cc_key (lw_conn (cn_db c')) = key
    \<and> (if fresh then blank (cf_image (cc_file (lw_conn (cn_db c))))
       else owned_by account (cf_image (cc_file (lw_conn (cn_db c)))))
    \<and> same_contents (cf_image (cc_file (lw_conn (cn_db c)))) (cf_image (cc_file (lw_conn (cn_db c'))))"
proof -
  define started where "started = db_bind (writer_hook_at env AfterOpen) (\<lambda>_.
     db_bind (if preflight \<noteq> None then require_snapshot_unchanged env g else db_return ()) (\<lambda>_.
     db_bind (opened_file_has_moved env fault) (\<lambda>_. require_main_identity env g)))"
  have split: "before_migration env fault account key preflight g =
     db_bind started (\<lambda>_. db_bind (on_connection (configure_storage fault account key)) (\<lambda>fresh.
     db_bind (if fresh then on_connection (materialize_fresh_wal fault) else db_return ()) (\<lambda>_.
     db_bind (if fresh \<or> (case preflight of None \<Rightarrow> False | Some p \<Rightarrow> permits_new_sidecars p)
              then normalize_fresh_leaves env g else db_return ()) (\<lambda>_. db_return fresh))))"
    unfolding before_migration_def started_def by (simp only: db_bind_assoc)
  from assms obtain u c1 c2 v c3 w where
    o: "started c = (Inr u, c1)" and
    conf: "on_connection (configure_storage fault account key) c1 = (Inr fresh, c2)" and
    mat: "(if fresh then on_connection (materialize_fresh_wal fault) else db_return ()) c2 = (Inr v, c3)" and
    norm: "(if fresh \<or> (case preflight of None \<Rightarrow> False | Some p \<Rightarrow> permits_new_sidecars p)
              then normalize_fresh_leaves env g else db_return ()) c3 = (Inr w, c')"
    unfolding split by (auto simp: db_bind_Inr_iff)
  have "op_within same_conn started" unfolding started_def by (intro conn_ops)
  with o have k1: "lw_conn (cn_db c1) = lw_conn (cn_db c)" by (rule conn_keeps [rotated])
  note k2 = configure_storage_Inr [OF on_connection_Inr [OF conf]]
  have "op_within same_conn (if fresh \<or> (case preflight of None \<Rightarrow> False | Some p \<Rightarrow> permits_new_sidecars p)
      then normalize_fresh_leaves env g else db_return ())"
    by (intro conn_ops)
  with norm have k4: "lw_conn (cn_db c') = lw_conn (cn_db c3)" by (rule conn_keeps [rotated])
  show ?thesis
  proof (cases fresh)
    case True
    with mat have "lw_conn (cn_db c3) = write_image (\<lambda>im. im\<lparr>im_user_version := 0\<rparr>) (lw_conn (cn_db c2))"
      using materialize_Inr [of fault "conn_of c2" "conn_of c3"] by (simp add: on_connection_Inr)
    with True k1 k2 k4 show ?thesis
      by (auto simp: write_image_def same_contents_def blank_def)
  next
    case False
    with mat k1 k2 k4 show ?thesis by simp
  qed
qed

lemma create_fresh_serves:
  assumes "create_fresh env fault account g c = (Inr g', c')"
  shows "lw_conn (cn_db c') = write_image (\<lambda>im. im\<lparr>im_user_version := STORE_VERSION,
      im_schema := im_schema im @ migration_schema, im_tables := migrated_tables account,
      im_application_id := STORE_APPLICATION_ID\<rparr>) (lw_conn (cn_db c))"
proof -
  from assms obtain c1 c2 u v where
    "writer_hook_at env AfterFreshWalNormalization c = (Inr u, c)"
    and mig: "on_connection (migrate_fresh fault account) c = (Inr (), c1)"
    and norm: "normalize_fresh_leaves env g c1 = (Inr v, c')"
    unfolding create_fresh_def writer_hook_at_def
    by (auto simp: db_bind_Inr_iff)
  with migrate_Inr [OF on_connection_Inr [OF mig]] conn_keeps [OF conn_leaf_ops(4) norm] show ?thesis
    by simp
qed

lemma after_migration_serves:
  assumes "db_bind (if b then writer_hook_at env AfterFreshMigration else db_return ())
      (\<lambda>_. after_migration env fault preflight g) c = (Inr (), c')"
  shows "cc_file (lw_conn (cn_db c')) = cc_file (lw_conn (cn_db c))"
proof -
  from assms obtain c1 c2 where
    p: "on_connection (set_and_verify_persistent_wal fault) c = (Inr (), c1)" and
    h: "on_connection (validate_health fault) c1 = (Inr (), c2)" and
    e: "(case preflight of None \<Rightarrow> db_return () | Some p \<Rightarrow> require_existing_writer_state env g p) c2
      = (Inr (), c')"
    unfolding after_migration_def writer_hook_at_def
    by (auto simp: db_bind_Inr_iff split: if_splits)
  have "op_within same_conn
      (case preflight of None \<Rightarrow> db_return () | Some p \<Rightarrow> require_existing_writer_state env g p)"
    by (intro conn_ops)
  with e have "lw_conn (cn_db c') = lw_conn (cn_db c2)" by (rule conn_keeps [rotated])
  with persist_Inr [OF on_connection_Inr [OF p]] health_same [OF on_connection_Inr [OF h]]
  show ?thesis by simp
qed

lemma outcome_Inr: "outcome_of m c = (Inr r, c') \<longleftrightarrow> m c = (r, c')"
  by (auto simp: outcome_of_def split: prod.split)

lemma opened_serves:
  assumes "opened_outcome env fault account key preflight g c = (Inr (Inr (), g'), c')"
    and "account_id_ok account"
  shows "accepted account key (cc_file (lw_conn (cn_db c))) (cc_file (lw_conn (cn_db c')))"
proof -
  from assms(1) obtain started c1 where
    b: "before_migration env fault account key preflight g c = (started, c1)" and
    rest: "(case started of Inl err \<Rightarrow> db_return (Inl err, g)
      | Inr fresh \<Rightarrow>
         db_bind (if fresh then outcome_of (create_fresh env fault account g) else db_return (Inr g)) (\<lambda>created.
         case created of
           Inl err \<Rightarrow> db_return (Inl err, g)
         | Inr g' \<Rightarrow>
             db_bind (outcome_of
               (db_bind (if fresh then writer_hook_at env AfterFreshMigration else db_return ())
                 (\<lambda>_. after_migration env fault preflight g')))
               (\<lambda>r. db_return (r, g')))) c1 = (Inr (Inr (), g'), c')"
    unfolding opened_outcome_def by (elim db_bind_Inr) (simp add: outcome_Inr)
  then obtain fresh created c2 where started: "started = Inr fresh" and
    cr: "(if fresh then outcome_of (create_fresh env fault account g) else db_return (Inr g)) c1
      = (Inr created, c2)" and
    rest2: "(case created of Inl err \<Rightarrow> db_return (Inl err, g)
         | Inr g' \<Rightarrow>
             db_bind (outcome_of
               (db_bind (if fresh then writer_hook_at env AfterFreshMigration else db_return ())
                 (\<lambda>_. after_migration env fault preflight g')))
               (\<lambda>r. db_return (r, g'))) c2 = (Inr (Inr (), g'), c')"
    by (cases started) (auto elim!: db_bind_Inr)
  from rest2 obtain g1 where created: "created = Inr g1" and
    a: "db_bind (if fresh then writer_hook_at env AfterFreshMigration else db_return ())
      (\<lambda>_. after_migration env fault preflight g1) c2 = (Inr (), c')"
    by (cases created) (auto simp: db_bind_Inr_iff outcome_Inr)
  from cr created have m: "if fresh then create_fresh env fault account g c1 = (Inr g1, c2) else g1 = g \<and> c2 = c1"
    by (auto simp: outcome_Inr split: if_splits)
  note b = b [unfolded started]
  note kb = before_migration_serves [OF b] and ka = after_migration_serves [OF a]
  show ?thesis
  proof (cases fresh)
    case True
    with m have c2: "lw_conn (cn_db c2) = write_image (\<lambda>im. im\<lparr>im_user_version := STORE_VERSION,
        im_schema := im_schema im @ migration_schema, im_tables := migrated_tables account,
        im_application_id := STORE_APPLICATION_ID\<rparr>) (lw_conn (cn_db c1))"
      by (simp add: create_fresh_serves)
    have "owned_by account (cf_image (cc_file (lw_conn (cn_db c2))))"
      using True kb c2 assms(2)
      by (intro migrated_owned [of "cf_image (cc_file (lw_conn (cn_db c)))"])
        (simp_all add: write_image_def same_contents_def)
    with True kb c2 ka show ?thesis by (simp add: accepted_def write_image_def)
  next
    case False
    with kb have contents: "same_contents (cf_image (cc_file (lw_conn (cn_db c))))
        (cf_image (cc_file (lw_conn (cn_db c1))))" by simp
    from False m ka have "cc_file (lw_conn (cn_db c')) = cc_file (lw_conn (cn_db c1))" by simp
    with False kb owned_same_contents [OF contents, of account] show ?thesis
      by (simp add: accepted_def same_contents_def)
  qed
qed

lemma open_connection_serves:
  assumes "open_connection env fault path c = (Inr (), c')"
  shows "\<exists>fs. lw_conn (cn_db c') = fe_engine env ReadWrite fs path"
proof -
  from assms obtain c1 where con: "connect env fault ReadWrite path c = (Inr (), c1)"
    and ckpt: "disable_and_verify_checkpoint_on_close env fault c1 = (Inr (), c')"
    unfolding open_connection_def by (elim db_bind_Inr) auto
  have "lw_conn (cn_db c1) = fe_engine env ReadWrite (lw_fs (cn_db c)) path"
    using con unfolding connect_def by (elim db_bind_Inr) (auto dest: backend_call_db)
  with conn_keeps [OF conn_engine(3) ckpt] show ?thesis by auto
qed

lemma fail_open_Inr [simp]: "fail_open env g err c = (Inr a, c') \<longleftrightarrow> False"
  by (auto simp: fail_open_def db_bind_Inr_iff)

lemma writer_open_serves:
  assumes "open_inner_impl env fault account path key c = (Inr (), c')" and "account_id_ok account"
  shows "\<exists>fs canonical_path. accepted account key
    (cc_file (fe_engine env ReadWrite fs canonical_path)) (cc_file (lw_conn (cn_db c')))"
proof -
  from assms(1) obtain canonical g preflight c1 where
    "open_or_clean_up env fault canonical account key preflight g c1 = (Inr (), c')"
    unfolding open_inner_impl_def by (elim db_bind_Inr)
  then obtain g1 c2 where "open_claimed env fault canonical account key preflight g1 c2 = (Inr (), c')"
    by (auto simp: open_or_clean_up_def elim!: db_bind_Inr split: sum.splits)
  then obtain connected c3 where
    con: "open_connection env fault canonical c2 = (connected, c3)" and
    rest: "(case connected of
        Inl err \<Rightarrow> fail_open env g1 err
      | Inr _ \<Rightarrow>
          db_bind (opened_outcome env fault account key preflight g1) (\<lambda>(r, g2).
          case r of Inl err \<Rightarrow> fail_open env g2 err | Inr _ \<Rightarrow> db_return ())) c3 = (Inr (), c')"
    unfolding open_claimed_def by (elim db_bind_Inr) (simp add: outcome_Inr)
  then obtain r g2 c4 where o: "opened_outcome env fault account key preflight g1 c3 = (Inr (r, g2), c4)" and
    last: "(case r of Inl err \<Rightarrow> fail_open env g2 err | Inr _ \<Rightarrow> db_return ()) c4 = (Inr (), c')"
    by (cases connected) (auto elim!: db_bind_Inr)
  from con rest have con: "open_connection env fault canonical c2 = (Inr (), c3)"
    by (cases connected) auto
  from o last have "opened_outcome env fault account key preflight g1 c3 = (Inr (Inr (), g2), c')"
    by (cases r) auto
  with open_connection_serves [OF con] opened_serves [OF _ assms(2)] show ?thesis by metis
qed


section \<open>The read-only open\<close>

fun is_lookup :: "fs_event \<Rightarrow> bool" where
  "is_lookup (EvStat dir name r) = True"
| "is_lookup (EvFstat obj r) = True"
| "is_lookup (EvOpen dir name r) = True"
| "is_lookup (EvList dir r) = True"
| "is_lookup (EvPath path r) = True"
| "is_lookup _ = False"

definition looking :: "leaf_world \<Rightarrow> leaf_world \<Rightarrow> bool" where
  "looking w w' \<longleftrightarrow> (\<exists>evs. lw_log w' = lw_log w @ evs \<and> list_all is_lookup evs)"

interpretation lk: movement looking
  by unfold_locales (auto simp: looking_def)

named_theorems look_ops \<open>operations that only look\<close>

lemma look_syscall: "(\<And>r. is_lookup (note r)) \<Longrightarrow> op_within looking (syscall env note act)"
  by (auto simp: op_within_def syscall_def looking_def Let_def split: prod.split)

lemma look_base [look_ops]:
  "op_within looking (db_return a)" "op_within looking (db_result r)"
  "op_within looking (backend_call classify fault)"
  by (intro lk.within_read_only op_rules)+

lemmas look_shapes [look_ops] = lk.within_shapes

lemma look_engine [look_ops]:
  "op_within looking (on_connection m)" "op_within looking (connect env fault mode path)"
  "op_within looking (opened_file_has_moved env fault)"
  "op_within looking (disable_and_verify_checkpoint_on_close env fault)"
proof -
  have says: "op_within looking (engine_says fault answer)" for answer
    by (auto simp: op_within_def engine_says_def db_bind_def backend_call_def db_return_def
        looking_def split: option.split)
  show "op_within looking (on_connection m)"
    by (auto simp: op_within_def on_connection_def looking_def split: prod.split)
  show "op_within looking (connect env fault mode path)"
    unfolding connect_def by (intro look_ops) (simp add: op_within_def looking_def)
  show "op_within looking (opened_file_has_moved env fault)"
    "op_within looking (disable_and_verify_checkpoint_on_close env fault)"
    unfolding opened_file_has_moved_def disable_and_verify_checkpoint_on_close_def
    by (intro look_ops says)+
qed

lemma look_stats [look_ops]:
  "op_within looking (stat_path env parent name)" "op_within looking (stat_directory_path env parent)"
  unfolding stat_path_def stat_directory_path_def by (rule look_syscall, simp)+

lemma look_identity [look_ops]: "op_within looking (restrictive_file_identity env parent name owner)"
  unfolding restrictive_file_identity_def file_identity_at_def or_storage_def by (intro look_ops)

lemma look_canonical [look_ops]: "op_within looking (canonical_database_path env path)"
proof -
  have "op_within looking (syscall env (\<lambda>r. EvPath p (map_ok (\<lambda>_. ()) r)) act)" for p and act :: "fs \<Rightarrow> (errno + string) \<times> fs"
    by (rule look_syscall) simp
  then show ?thesis
    unfolding canonical_database_path_def or_storage_def Let_def by (intro look_ops)
qed

lemma look_preflight [look_ops]: "op_within looking (preflight_read_only_files env parent name)"
  unfolding preflight_read_only_files_def or_storage_def Let_def by (rule look_ops)+

lemma look_verify [look_ops]:
  "op_within looking (verify_read_only_file_identities env parent name identities)"
  unfolding verify_read_only_file_identities_def Let_def by (rule look_ops)+

lemma conn_read_only_checks [conn_ops]:
  "op_within same_conn (verify_read_only_file_identities env parent name identities)"
  unfolding verify_read_only_file_identities_def restrictive_file_identity_def or_storage_def
    file_identity_at_def stat_path_def Let_def
  by (intro conn_ops conn_syscall)+

lemma validate_health_Inr:
  "validate_health fault c = (Inr (), c') \<Longrightarrow> healthy (image_of c)"
  unfolding validate_health_def healthy_def
  by (auto elim!: db_bind_Inr dest!: pragma_Inr image_Inr split: if_splits)

lemma configure_read_only_Inr:
  assumes "configure_read_only fault account key c = (Inr (), c')"
  shows "file_of c' = file_of c \<and> cf_key (file_of c) \<in> {None, Some key}
    \<and> owned_by account (image_of c) \<and> healthy (image_of c)"
proof -
  from assms have "validate_recovery_read_only fault account key c = (Inr False, c')"
    unfolding configure_read_only_def by (elim db_bind_Inr) (auto split: if_splits)
  then obtain c1 c2 where
    p: "db_bind (apply_key fault key) (\<lambda>_. connection_pragmas fault) c = (Inr (), c1)" and
    k2: "cn_db c2 = cn_db c1" and
    t: "transaction classify_open fault (db_bind (validate_identity fault account) (\<lambda>fresh.
      db_bind (validate_health fault) (\<lambda>_. db_return fresh))) c2 = (Inr False, c')"
    unfolding validate_recovery_read_only_def
    by (auto simp: db_bind_Inr_iff dest!: pragma_Inr split: if_splits)
  from t obtain c3 c4 c5 where k3: "cn_db c3 = cn_db c2"
    and v: "validate_identity fault account c3 = (Inr False, c4)"
    and h: "validate_health fault c4 = (Inr (), c5)" and k5: "cn_db c' = cn_db c5"
    by (elim transaction_Inr) (auto simp: db_bind_Inr_iff)
  from pragmas_Inr [OF p] k2 k3 have "file_of c3 = file_of c" "cc_key (cn_db c3) = key" by simp_all
  with validate_identity_Inr [OF v] validate_health_Inr [OF h] health_same [OF h] k5
  show ?thesis by (auto simp: readable_def)
qed

text \<open>
  The database file of the connection is as it was before, or it is what the engine answered to
  a read-only open of some path: nothing else ever became of it.
\<close>

definition as_opened :: "fs_env \<Rightarrow> leaf_world \<Rightarrow> leaf_world \<Rightarrow> bool" where
  "as_opened env w w' \<longleftrightarrow> cc_file (lw_conn w') = cc_file (lw_conn w)
     \<or> (\<exists>fs path. cc_file (lw_conn w') = cc_file (fe_engine env ReadOnly fs path))"

interpretation ao: movement "as_opened env" for env
  unfolding as_opened_def by unfold_locales (simp, metis)

lemma as_opened_conn: "op_within same_conn m \<Longrightarrow> op_within (as_opened env) m"
  by (simp add: op_within_def same_conn_def as_opened_def)

lemma as_opened_file: "op_within same_file m \<Longrightarrow> op_within (as_opened env) (on_connection m)"
  unfolding op_within_def on_connection_def as_opened_def same_file_def
  by (auto split: prod.split) (metis conn.select_convs(1) snd_conv)+

lemma persist_same_file: "op_within same_file (set_and_verify_persistent_wal fault)"
  unfolding set_and_verify_persistent_wal_def
  by (intro kept.within_bind kept.within_execute kept.within_read_only op_rules)
    (simp add: set_pragmas_def same_file_def)

lemma transaction_same_file:
  "op_within same_file m \<Longrightarrow> op_within same_file (transaction classify fault m)"
  unfolding op_within_def
proof
  fix c :: "cipher_conn conn"
  assume m: "\<forall>c. same_file (cn_db c) (cn_db (snd (m c)))"
  obtain q c1 where begun: "backend_call classify fault c = (q, c1)" by fastforce
  obtain r c2 where body: "m c1 = (r, c2)" by fastforce
  obtain u c3 where ended: "backend_call classify fault c2 = (u, c3)" by fastforce
  have "cn_db c1 = cn_db c" "cn_db c3 = cn_db c2"
    using begun ended by (auto simp: backend_call_db)
  moreover have "same_file (cn_db c1) (cn_db c2)" using m body by (metis snd_conv)
  ultimately show "same_file (cn_db c) (cn_db (snd (transaction classify fault m c)))"
    by (cases q; cases r; cases u) (simp_all add: transaction_def begun body ended same_file_def)
qed

lemma configure_same_file: "op_within same_file (configure_read_only fault account key)"
  unfolding configure_read_only_def validate_recovery_read_only_def
  by (intro kept.within_bind kept.within_if key_same_file pragmas_same_file transaction_same_file
      kept.within_read_only read_only_identity read_only_health op_rules)

lemma connect_as_opened: "op_within (as_opened env) (connect env fault ReadOnly path)"
  unfolding connect_def
  by (intro ao.within_bind as_opened_conn [OF conn_base(3)]) (auto simp: op_within_def as_opened_def)

lemma conn_canonical: "op_within same_conn (canonical_database_path env path)"
  unfolding canonical_database_path_def or_storage_def Let_def by (intro conn_ops conn_syscall)

lemma conn_preflight: "op_within same_conn (preflight_read_only_files env parent name)"
  unfolding preflight_read_only_files_def restrictive_file_identity_def or_storage_def
    file_identity_at_def stat_path_def stat_directory_path_def Let_def
  by (intro conn_ops conn_syscall)+

lemma read_only_as_opened: "op_within (as_opened env) (open_read_only_steps env fault account path key)"
  unfolding open_read_only_steps_def open_read_only_connection_def
  by (intro ao.within_bind connect_as_opened as_opened_file persist_same_file configure_same_file
      as_opened_conn [OF conn_canonical] as_opened_conn [OF conn_preflight]
      as_opened_conn [OF conn_read_only_checks] as_opened_conn [OF conn_engine(2)]
      as_opened_conn [OF conn_engine(3)] as_opened_conn [OF conn_base(2)])

text \<open>
  C14. The strict read-only open never writes. Whatever its outcome, in success and in every
  failure, the only system calls it makes are lookups, and the database, with its rows, its
  tables and its header, is the one that the engine opened: no statement of the open changes it,
  and a blank database is not migrated. When it succeeds, what it serves is a sound store of
  this very account under this very key. The engine's own work on the sidecars is not a
  call of the open: a sidecar that is deleted after the preflight may be created again by
  SQLite, which the model counts among what happens to the files between two calls; the
  identity check after the validation then refuses the open, and the new entry stays.
\<close>

theorem read_only_open_never_writes:
  assumes "open_read_only_steps env fault account path key c = (r, c')"
  shows "(\<exists>evs. lw_log (cn_db c') = lw_log (cn_db c) @ evs \<and> list_all is_lookup evs)
    \<and> (cc_file (lw_conn (cn_db c')) = cc_file (lw_conn (cn_db c))
       \<or> (\<exists>fs path. cc_file (lw_conn (cn_db c')) = cc_file (fe_engine env ReadOnly fs path)))
    \<and> (r = Inr () \<longrightarrow> (\<exists>fs canonical_path f. f = cc_file (lw_conn (cn_db c'))
         \<and> f = cc_file (fe_engine env ReadOnly fs canonical_path)
         \<and> cf_key f \<in> {None, Some key} \<and> owned_by account (cf_image f) \<and> healthy (cf_image f)))"
proof (intro conjI impI)
  have "op_within looking (open_read_only_steps env fault account path key)"
    unfolding open_read_only_steps_def open_read_only_connection_def by (intro look_ops)
  from withinD [OF this assms]
  show "\<exists>evs. lw_log (cn_db c') = lw_log (cn_db c) @ evs \<and> list_all is_lookup evs"
    by (simp add: looking_def)
  show "cc_file (lw_conn (cn_db c')) = cc_file (lw_conn (cn_db c))
       \<or> (\<exists>fs path. cc_file (lw_conn (cn_db c')) = cc_file (fe_engine env ReadOnly fs path))"
    using withinD [OF read_only_as_opened assms] by (simp add: as_opened_def)
next
  assume "r = Inr ()"
  with assms obtain canonical parent name identities c1 c2 c3 c4 c5 c6 c7 where
    con: "connect env fault ReadOnly canonical c1 = (Inr (), c2)" and
    ckpt: "disable_and_verify_checkpoint_on_close env fault c2 = (Inr (), c3)" and
    moved: "opened_file_has_moved env fault c3 = (Inr (), c4)" and
    ids: "verify_read_only_file_identities env parent name identities c4 = (Inr (), c5)" and
    wal: "on_connection (set_and_verify_persistent_wal fault) c5 = (Inr (), c6)" and
    conf: "on_connection (configure_read_only fault account key) c6 = (Inr (), c7)" and
    again: "verify_read_only_file_identities env parent name identities c7 = (Inr (), c')"
    unfolding open_read_only_steps_def open_read_only_connection_def
    by (auto simp: db_bind_Inr_iff)
  have "lw_conn (cn_db c2) = fe_engine env ReadOnly (lw_fs (cn_db c1)) canonical"
    using con unfolding connect_def by (elim db_bind_Inr) (auto dest: backend_call_db)
  moreover have "lw_conn (cn_db c5) = lw_conn (cn_db c2)"
    using conn_keeps [OF conn_engine(3) ckpt] conn_keeps [OF conn_engine(2) moved]
      conn_keeps [OF conn_read_only_checks ids] by simp
  moreover have "lw_conn (cn_db c') = lw_conn (cn_db c7)"
    by (rule conn_keeps [OF conn_read_only_checks again])
  moreover note persist_Inr [OF on_connection_Inr [OF wal]]
    configure_read_only_Inr [OF on_connection_Inr [OF conf]]
  ultimately show "\<exists>fs canonical_path f. f = cc_file (lw_conn (cn_db c'))
         \<and> f = cc_file (fe_engine env ReadOnly fs canonical_path)
         \<and> cf_key f \<in> {None, Some key} \<and> owned_by account (cf_image f) \<and> healthy (cf_image f)"
    by auto
qed


section \<open>The writer open serves its own\<close>

text \<open>
  C13. A writer open that succeeds, through every check of files and database and under whatever
  interference and failures, was given by the engine either a blank database or one that is
  this product's store of this very account, written under this very key; what it serves is a
  store of this account under this key, with its rows as they were or, from a blank one only,
  with the tables of a fresh store.
\<close>

theorem writer_open_serves_its_own:
  assumes "open_inner_impl env fault account path key c = (Inr (), c')" and "account_id_ok account"
  shows "\<exists>fs canonical_path. accepted account key
    (cc_file (fe_engine env ReadWrite fs canonical_path)) (cc_file (lw_conn (cn_db c')))"
  using assms by (rule writer_open_serves)

definition first_open :: "(open_failure + unit) \<times> leaf_world conn" where
  "first_open = open_inner_impl calm_env quiet sample_account mail_path ''key'' empty_profile"

lemma first_open_succeeds: "fst first_open = Inr ()"
  by code_simp

theorem writer_open_serves_its_own_witness:
  "accepted sample_account ''key'' empty_file (cc_file (lw_conn (cn_db (snd first_open))))"
proof -
  have "open_inner_impl calm_env quiet sample_account mail_path ''key'' empty_profile
      = (Inr (), snd first_open)"
    using first_open_succeeds unfolding first_open_def by (metis prod.collapse)
  from writer_open_serves_its_own [OF this sample_account_ok(1)] show ?thesis
    by (simp add: calm_env_def new_conn_def)
qed

text \<open>The strict read-only open of a profile with its three files.\<close>

definition created_env :: fs_env where
  "created_env = calm_env\<lparr>fe_engine := (\<lambda>_ _ _. cn_db (new_conn created))\<rparr>"

definition full_profile :: "leaf_world conn" where
  "full_profile =
     empty_profile\<lparr>cn_db := (cn_db empty_profile)\<lparr>lw_fs := (lw_fs (cn_db empty_profile))
       \<lparr>fs_names := (\<lambda>d. if d = 0 then [(''mail.db'', 1), (''mail.db-wal'', 2), (''mail.db-shm'', 3)] else []),
        fs_stat := (\<lambda>n. \<lparr>st_dev = 1, st_ino = n, st_uid = 501,
          st_kind = (if n = 0 then Directory else RegularFile), st_mode = 384, st_size = 4096\<rparr>)\<rparr>\<rparr>\<rparr>"

lemma read_only_opens:
  assumes "cf_key (file_of c) = Some key" and "owned_by account (image_of c)" and "healthy (image_of c)"
    and "im_journal_mode (image_of c) = ''wal''" and "cc_cipher_version (cn_db c) \<noteq> []"
    and "cc_secure_delete (cn_db c) = 1" and "cc_journal_size_limit (cn_db c) = -1"
  shows "\<exists>c'. configure_read_only quiet account key c = (Inr (), c')"
proof -
  define k1 where "k1 = (cn_db c)\<lparr>cc_key := key, cc_foreign_keys := 1, cc_temp_store := 2\<rparr>"
  obtain c1 where c1: "db_bind (apply_key quiet key) (\<lambda>_. connection_pragmas quiet) c = (Inr (), c1)"
    by (simp add: apply_key_def connection_pragmas_def quiet_simps)
  from pragmas_Inr [OF c1] have k1: "cn_db c1 = k1" by (simp add: k1_def)
  have "\<exists>c2. validate_identity quiet account (tick (tick c1)) = (Inr False, c2) \<and> cn_db c2 = cn_db (tick (tick c1))"
    by (rule quiet_identity) (use assms k1 in \<open>simp_all add: k1_def readable_def\<close>)
  then obtain c2 where c2: "validate_identity quiet account (tick (tick c1)) = (Inr False, c2)" "cn_db c2 = k1"
    using k1 by auto
  have "fst (validate_health quiet c2) = Inr ()"
    by (rule quiet_health) (use assms c2 in \<open>simp_all add: k1_def readable_def healthy_def\<close>)
  then obtain c3 where c3: "validate_health quiet c2 = (Inr (), c3)" by (metis prod.collapse)
  have "validate_recovery_read_only quiet account key c =
      db_bind (db_bind (apply_key quiet key) (\<lambda>_. connection_pragmas quiet)) (\<lambda>_.
        db_bind (pragma_query quiet cc_journal_size_limit) (\<lambda>journal_size_limit.
        if journal_size_limit \<noteq> -1 then db_result (Inl OF_Corrupted)
        else transaction classify_open quiet (db_bind (validate_identity quiet account) (\<lambda>fresh.
          db_bind (validate_health quiet) (\<lambda>_. db_return fresh))))) c"
    by (simp add: validate_recovery_read_only_def db_bind_assoc)
  also have "\<dots> = (Inr False, tick c3)"
    by (subst db_bind_pair, rule c1)
      (use assms(7) k1 in \<open>simp add: k1_def db_bind_def quiet_pragma quiet_transaction c2(1) c3
        db_return_def\<close>)
  finally show ?thesis by (simp add: configure_read_only_def db_bind_def db_result_def)
qed

text \<open>The checks of the directory entries, in a directory that stays as it is.\<close>

definition full_ids :: read_only_file_identities where
  "full_ids =
     (let i = (\<lambda>n. \<lparr>fi_device = 1, fi_inode = n, fi_owner = 501, fi_mode = 384\<rparr>)
      in \<lparr>ro_main = i 1, ro_wal = i 2, ro_shm = i 3\<rparr>)"

lemma full_verify:
  assumes "lw_fs (cn_db c) = lw_fs (cn_db full_profile)"
  shows "\<exists>c'. verify_read_only_file_identities created_env ''/profile'' ''mail.db'' full_ids c = (Inr (), c')
    \<and> lw_fs (cn_db c') = lw_fs (cn_db full_profile) \<and> lw_conn (cn_db c') = lw_conn (cn_db c)"
  using assms
  by (simp add: verify_read_only_file_identities_def restrictive_file_identity_def file_identity_at_def
      or_storage_def stat_path_def syscall_def created_env_def calm_env_def full_profile_def
      empty_profile_def full_ids_def db_bind_def db_result_def lookup_entry_def
      identity_from_metadata_def OWNER_ONLY_FILE_MODE_def Let_def)


abbreviation full_fs :: "leaf_world conn \<Rightarrow> bool" where
  "full_fs c \<equiv> lw_fs (cn_db c) = lw_fs (cn_db full_profile)"

lemma full_canonical:
  "\<exists>c'. canonical_database_path created_env mail_path full_profile = (Inr mail_path, c') \<and> full_fs c'"
  by (simp add: canonical_database_path_def mail_path_def or_storage_def syscall_def created_env_def
      calm_env_def full_profile_def empty_profile_def db_bind_def db_result_def db_return_def Let_def)

lemma full_preflight:
  assumes "full_fs c"
  shows "\<exists>c'. preflight_read_only_files created_env ''/profile'' ''mail.db'' c = (Inr full_ids, c') \<and> full_fs c'"
  using assms
  by (simp add: preflight_read_only_files_def restrictive_file_identity_def file_identity_at_def
      or_storage_def stat_path_def stat_directory_path_def syscall_def created_env_def calm_env_def
      full_profile_def empty_profile_def full_ids_def db_bind_def db_result_def db_return_def
      lookup_entry_def identity_from_metadata_def OWNER_ONLY_FILE_MODE_def Let_def)

lemma full_connect:
  assumes "full_fs c"
  shows "\<exists>c'. db_bind (open_read_only_connection created_env quiet mail_path) (\<lambda>_.
      db_bind (disable_and_verify_checkpoint_on_close created_env quiet) (\<lambda>_.
        opened_file_has_moved created_env quiet)) c = (Inr (), c')
    \<and> full_fs c' \<and> lw_conn (cn_db c') = cn_db (new_conn created)"
  using assms
  by (simp add: open_read_only_connection_def connect_def disable_and_verify_checkpoint_on_close_def
      opened_file_has_moved_def engine_says_def created_env_def calm_env_def db_bind_def
      db_return_def db_result_def)

lemma full_persist:
  assumes "full_fs c" and "lw_conn (cn_db c) = cn_db (new_conn created)"
  shows "\<exists>c'. on_connection (set_and_verify_persistent_wal quiet) c = (Inr (), c') \<and> full_fs c'
    \<and> lw_conn (cn_db c') = (cn_db (new_conn created))\<lparr>cc_persist_wal := 1\<rparr>"
  using assms
  by (simp add: on_connection_def set_and_verify_persistent_wal_def set_pragmas_def quiet_simps)

lemma created_wal: "im_journal_mode (cf_image created) = ''wal''"
  by code_simp

lemma full_configure:
  assumes "full_fs c" and "lw_conn (cn_db c) = (cn_db (new_conn created))\<lparr>cc_persist_wal := 1\<rparr>"
  shows "\<exists>c'. on_connection (configure_read_only quiet sample_account ''key'') c = (Inr (), c') \<and> full_fs c'"
proof -
  have "owned_by sample_account (cf_image created)"
    using open_Inr [OF empty_run sample_account_ok(1)] by (simp add: created_def)
  then have "\<exists>k. configure_read_only quiet sample_account ''key'' (conn_of c) = (Inr (), k)"
    using assms(2) empty_healthy created_key created_wal
    by (intro read_only_opens) (simp_all add: new_conn_def created_def)
  with assms(1) show ?thesis by (auto simp: on_connection_def)
qed

theorem read_only_open_never_writes_witness:
  "fst (open_read_only_steps created_env quiet sample_account mail_path ''key'' full_profile) = Inr ()
    \<and> (\<exists>f. f = cc_file (lw_conn (cn_db
        (snd (open_read_only_steps created_env quiet sample_account mail_path ''key'' full_profile))))
      \<and> f = created \<and> owned_by sample_account (cf_image f))"
proof -
  obtain c1 where c1: "canonical_database_path created_env mail_path full_profile = (Inr mail_path, c1)"
    "full_fs c1" using full_canonical by blast
  obtain c2 where c2: "preflight_read_only_files created_env ''/profile'' ''mail.db'' c1 = (Inr full_ids, c2)"
    "full_fs c2" using full_preflight c1 by blast
  obtain c3 where c3: "db_bind (open_read_only_connection created_env quiet mail_path) (\<lambda>_.
      db_bind (disable_and_verify_checkpoint_on_close created_env quiet) (\<lambda>_.
        opened_file_has_moved created_env quiet)) c2 = (Inr (), c3)"
    "full_fs c3" "lw_conn (cn_db c3) = cn_db (new_conn created)" using full_connect c2 by blast
  obtain c4 where c4: "verify_read_only_file_identities created_env ''/profile'' ''mail.db'' full_ids c3
      = (Inr (), c4)" "full_fs c4" "lw_conn (cn_db c4) = cn_db (new_conn created)"
    using full_verify c3 by metis
  obtain c5 where c5: "on_connection (set_and_verify_persistent_wal quiet) c4 = (Inr (), c5)" "full_fs c5"
    "lw_conn (cn_db c5) = (cn_db (new_conn created))\<lparr>cc_persist_wal := 1\<rparr>" using full_persist c4 by blast
  obtain c6 where c6: "on_connection (configure_read_only quiet sample_account ''key'') c5 = (Inr (), c6)"
    "full_fs c6" using full_configure c5 by blast
  obtain c7 where c7: "verify_read_only_file_identities created_env ''/profile'' ''mail.db'' full_ids c6
      = (Inr (), c7)" using full_verify c6 by blast
  have mail_path_parts: "ok_or OF_Storage (pa_parent mail_path) = Inr ''/profile''"
    "ok_or OF_Storage (pa_file_name mail_path) = Inr ''mail.db''"
    by (simp_all add: mail_path_def)
  obtain d1 d2 where c3a: "open_read_only_connection created_env quiet mail_path c2 = (Inr (), d1)"
    "disable_and_verify_checkpoint_on_close created_env quiet d1 = (Inr (), d2)"
    "opened_file_has_moved created_env quiet d2 = (Inr (), c3)"
    using c3(1) by (auto elim!: db_bind_Inr)
  have steps: "open_read_only_steps created_env quiet sample_account mail_path ''key'' full_profile = (Inr (), c7)"
    by (simp add: open_read_only_steps_def db_bind_def db_result_def c1(1) mail_path_parts c2(1) c3a
        c4(1) c5(1) c6(1) c7)
  from read_only_open_never_writes [OF steps] steps show ?thesis
    by (auto simp: created_env_def new_conn_def)
qed

end
