(* ===== verification/Root_Keys.thy ===== *)
theory Root_Keys
  imports App_Mailbox "HOL-Library.Word"
begin

text \<open>
  The installation root key (\<^verbatim>\<open>crates/keys/src/lib.rs\<close>): derivation of purpose-bound keys from
  length-framed inputs, and the passphrase-wrapped format. HKDF-SHA256, HMAC-SHA256, Argon2id
  and XChaCha20-Poly1305 are not code of the repository; they are the fields of \<open>crypto\<close>.
\<close>

section \<open>Constants, errors and primitives\<close>

definition KEY_LEN :: nat where "KEY_LEN = 32"
definition ROOT_SALT :: string where "ROOT_SALT = ''tersa/root-key/v1''"
definition ACCOUNT_PREFIX :: string where "ACCOUNT_PREFIX = ''tersa/hkdf-sha256/account/v1''"
definition INSTALLATION_PREFIX :: string where
  "INSTALLATION_PREFIX = ''tersa/hkdf-sha256/installation/v1''"
definition ACCOUNT_DATABASE_PURPOSE :: string where
  "ACCOUNT_DATABASE_PURPOSE = ''sqlcipher/account-database/v1''"
definition ACCOUNT_IDENTITY_PURPOSE :: string where "ACCOUNT_IDENTITY_PURPOSE = ''account-subject/v1''"
definition REGISTRY_DATABASE_PURPOSE :: string where
  "REGISTRY_DATABASE_PURPOSE = ''sqlcipher/registry/v1''"
definition REGISTRY_DEDUP_PURPOSE :: string where
  "REGISTRY_DEDUP_PURPOSE = ''registry-subject-dedup/v1''"

definition WRAP_MAGIC :: string where "WRAP_MAGIC = ''TRSKW1''"
definition WRAP_SALT_LEN :: nat where "WRAP_SALT_LEN = 16"
definition WRAP_NONCE_LEN :: nat where "WRAP_NONCE_LEN = 24"
definition WRAP_TAG_LEN :: nat where "WRAP_TAG_LEN = 16"
definition WRAP_HEADER_LEN :: nat where
  "WRAP_HEADER_LEN = length WRAP_MAGIC + 12 + WRAP_SALT_LEN + WRAP_NONCE_LEN"
definition WRAPPED_LEN :: nat where "WRAPPED_LEN = WRAP_HEADER_LEN + KEY_LEN + WRAP_TAG_LEN"

datatype key_error =
  KE_Entropy | KE_WrongPassphraseOrTampered | KE_Malformed | KE_InvalidParameters | KE_InputTooLong

fun key_error_text :: "key_error \<Rightarrow> string" where
  "key_error_text KE_Entropy = ''the system random source failed''"
| "key_error_text KE_WrongPassphraseOrTampered = ''wrong passphrase or altered key file''"
| "key_error_text KE_Malformed = ''the wrapped key is malformed''"
| "key_error_text KE_InvalidParameters = ''key-derivation parameters are out of range''"
| "key_error_text KE_InputTooLong = ''a key-derivation input is too long''"

record kdf_params =
  kp_memory_kib :: "32 word"
  kp_iterations :: "32 word"
  kp_parallelism :: "32 word"

text \<open>
  \<open>cr_expand salt ikm info\<close>; \<open>cr_argon2\<close> is \<open>None\<close> where its parameters are refused;
  \<open>cr_seal key nonce data message\<close> and \<open>cr_open\<close> authenticate \<open>data\<close> beside the message.
\<close>

record crypto =
  cr_expand :: "string \<Rightarrow> string \<Rightarrow> string \<Rightarrow> string option"
  cr_hmac :: "string \<Rightarrow> string \<Rightarrow> string"
  cr_params_ok :: "kdf_params \<Rightarrow> bool"
  cr_argon2 :: "kdf_params \<Rightarrow> string \<Rightarrow> string \<Rightarrow> string option"
  cr_seal :: "string \<Rightarrow> string \<Rightarrow> string \<Rightarrow> string \<Rightarrow> string option"
  cr_open :: "string \<Rightarrow> string \<Rightarrow> string \<Rightarrow> string \<Rightarrow> string option"

datatype root_key = RootKey (root_bytes: string)

text \<open>\<open>RootKey::generate\<close>: the random fill is the argument, absent when the source fails.\<close>

definition root_key_generate :: "string option \<Rightarrow> key_error + root_key" where
  "root_key_generate random = map_ok RootKey (ok_or KE_Entropy random)"

section \<open>Derivation\<close>

datatype account_key_purpose = SqlCipherDatabaseV1

datatype installation_key_purpose = RegistryDatabaseV1 | RegistrySubjectDedupV1

text \<open>\<open>u16::to_be_bytes\<close> of a length that fits.\<close>

definition be16 :: "nat \<Rightarrow> string" where
  "be16 n = [char_of (n div 256), char_of (n mod 256)]"

definition push_framed :: "string \<Rightarrow> string \<Rightarrow> key_error + string" where
  "push_framed buffer value =
     (if length value \<ge> 2 ^ 16 then Inl KE_InputTooLong
      else Inr (buffer @ be16 (length value) @ value))"

definition account_info :: "account_id \<Rightarrow> string \<Rightarrow> key_error + string" where
  "account_info account purpose =
     rbind (push_framed ACCOUNT_PREFIX (account_id_str account)) (\<lambda>info. push_framed info purpose)"

definition expand :: "crypto \<Rightarrow> root_key \<Rightarrow> string \<Rightarrow> key_error + string" where
  "expand cr root info = ok_or KE_InputTooLong (cr_expand cr ROOT_SALT (root_bytes root) info)"

fun account_purpose :: "account_key_purpose \<Rightarrow> string" where
  "account_purpose SqlCipherDatabaseV1 = ACCOUNT_DATABASE_PURPOSE"

definition derive_account_key ::
    "crypto \<Rightarrow> root_key \<Rightarrow> account_id \<Rightarrow> account_key_purpose \<Rightarrow> key_error + string" where
  "derive_account_key cr root account purpose =
     rbind (account_info account (account_purpose purpose)) (expand cr root)"

fun installation_purpose :: "installation_key_purpose \<Rightarrow> string" where
  "installation_purpose RegistryDatabaseV1 = REGISTRY_DATABASE_PURPOSE"
| "installation_purpose RegistrySubjectDedupV1 = REGISTRY_DEDUP_PURPOSE"

definition derive_installation_key ::
    "crypto \<Rightarrow> root_key \<Rightarrow> installation_key_purpose \<Rightarrow> key_error + string" where
  "derive_installation_key cr root purpose =
     rbind (push_framed INSTALLATION_PREFIX (installation_purpose purpose)) (expand cr root)"

definition account_identity_hash ::
    "crypto \<Rightarrow> root_key \<Rightarrow> account_id \<Rightarrow> string \<Rightarrow> key_error + string" where
  "account_identity_hash cr root account normalized_subject =
     rbind (account_info account ACCOUNT_IDENTITY_PURPOSE) (\<lambda>info.
       rbind (push_framed info normalized_subject) (expand cr root))"

definition registry_dedup_tag :: "crypto \<Rightarrow> root_key \<Rightarrow> string \<Rightarrow> key_error + string" where
  "registry_dedup_tag cr root subject =
     map_ok (\<lambda>key. cr_hmac cr key subject)
       (derive_installation_key cr root RegistrySubjectDedupV1)"

section \<open>Wrapping\<close>

text \<open>\<open>u32::to_be_bytes\<close> and \<open>from_be_bytes\<close>.\<close>

definition be32 :: "32 word \<Rightarrow> string" where
  "be32 w = map (\<lambda>i. char_of (unat (drop_bit i w) mod 256)) [24, 16, 8, 0]"

definition from_be32 :: "string \<Rightarrow> 32 word" where
  "from_be32 s = word_of_nat (foldl (\<lambda>n c. n * 256 + byte c) 0 s)"

definition MAX_MEMORY_KIB :: "32 word" where "MAX_MEMORY_KIB = 1024 * 1024"
definition MAX_ITERATIONS :: "32 word" where "MAX_ITERATIONS = 16"
definition MAX_PARALLELISM :: "32 word" where "MAX_PARALLELISM = 8"

definition default_params :: kdf_params where
  "default_params = \<lparr>kp_memory_kib = 64 * 1024, kp_iterations = 3, kp_parallelism = 1\<rparr>"

text \<open>The argon2 instance is its checked parameters.\<close>

definition to_argon2 :: "crypto \<Rightarrow> kdf_params \<Rightarrow> key_error + kdf_params" where
  "to_argon2 cr p =
     (if kp_memory_kib p > MAX_MEMORY_KIB \<or> kp_iterations p = 0 \<or> kp_iterations p > MAX_ITERATIONS
        \<or> kp_parallelism p = 0 \<or> kp_parallelism p > MAX_PARALLELISM
      then Inl KE_InvalidParameters
      else if cr_params_ok cr p then Inr p else Inl KE_InvalidParameters)"

definition stretch :: "crypto \<Rightarrow> kdf_params \<Rightarrow> string \<Rightarrow> string \<Rightarrow> key_error + string" where
  "stretch cr argon2 passphrase salt =
     ok_or KE_InvalidParameters (cr_argon2 cr argon2 passphrase salt)"

text \<open>The two random fills are the arguments \<open>salt\<close> and \<open>nonce\<close>, absent when the source fails.\<close>

definition wrap_root_key ::
    "crypto \<Rightarrow> string option \<Rightarrow> string option \<Rightarrow> root_key \<Rightarrow> string \<Rightarrow> kdf_params \<Rightarrow>
      key_error + string" where
  "wrap_root_key cr random_salt random_nonce root passphrase params =
     rbind (to_argon2 cr params) (\<lambda>argon2.
     rbind (ok_or KE_Entropy random_salt) (\<lambda>salt.
     rbind (ok_or KE_Entropy random_nonce) (\<lambda>nonce.
       let header = WRAP_MAGIC @ be32 (kp_memory_kib params) @ be32 (kp_iterations params)
             @ be32 (kp_parallelism params) @ salt @ nonce
       in rbind (stretch cr argon2 passphrase salt) (\<lambda>kek.
          map_ok (\<lambda>sealed. header @ sealed)
            (ok_or KE_InvalidParameters (cr_seal cr kek nonce header (root_bytes root)))))))"

definition wrapped_field :: "string \<Rightarrow> nat \<Rightarrow> 32 word" where
  "wrapped_field header index =
     from_be32 (take 4 (drop (length WRAP_MAGIC + index * 4) header))"

definition unwrap_root_key :: "crypto \<Rightarrow> string \<Rightarrow> string \<Rightarrow> key_error + root_key" where
  "unwrap_root_key cr wrapped passphrase =
     (if length wrapped \<noteq> WRAPPED_LEN \<or> \<not> prefix WRAP_MAGIC wrapped then Inl KE_Malformed
      else
        let header = take WRAP_HEADER_LEN wrapped; sealed = drop WRAP_HEADER_LEN wrapped;
            params = \<lparr>kp_memory_kib = wrapped_field header 0, kp_iterations = wrapped_field header 1,
              kp_parallelism = wrapped_field header 2\<rparr>
        in rbind (map_err (\<lambda>_. KE_Malformed) (to_argon2 cr params)) (\<lambda>argon2.
           let salt_start = length WRAP_MAGIC + 12;
               salt = take WRAP_SALT_LEN (drop salt_start header);
               nonce = drop (salt_start + WRAP_SALT_LEN) header
           in rbind (stretch cr argon2 passphrase salt) (\<lambda>kek.
              rbind (ok_or KE_WrongPassphraseOrTampered (cr_open cr kek nonce header sealed)) (\<lambda>opened.
              if length opened \<noteq> KEY_LEN then Inl KE_Malformed else Inr (RootKey opened)))))"

section \<open>Separation\<close>

text \<open>What is derived, and the input it is derived from.\<close>

datatype key_request =
    AccountKey account_id account_key_purpose
  | IdentityHashOf account_id string
  | InstallationKey installation_key_purpose

fun request_info :: "key_request \<Rightarrow> key_error + string" where
  "request_info (AccountKey account purpose) = account_info account (account_purpose purpose)"
| "request_info (IdentityHashOf account subject) =
     rbind (account_info account ACCOUNT_IDENTITY_PURPOSE) (\<lambda>info. push_framed info subject)"
| "request_info (InstallationKey purpose) =
     push_framed INSTALLATION_PREFIX (installation_purpose purpose)"

fun derive :: "crypto \<Rightarrow> root_key \<Rightarrow> key_request \<Rightarrow> key_error + string" where
  "derive cr root (AccountKey account purpose) = derive_account_key cr root account purpose"
| "derive cr root (IdentityHashOf account subject) = account_identity_hash cr root account subject"
| "derive cr root (InstallationKey purpose) = derive_installation_key cr root purpose"

lemma rbind_assoc: "rbind (rbind r f) g = rbind r (\<lambda>a. rbind (f a) g)"
  by (cases r) auto

lemma derive_from_info: "derive cr root q = rbind (request_info q) (expand cr root)"
  by (cases q)
    (auto simp: derive_account_key_def account_identity_hash_def derive_installation_key_def rbind_assoc)

lemma be16_inj: "m < 2 ^ 16 \<Longrightarrow> n < 2 ^ 16 \<Longrightarrow> be16 m = be16 n \<Longrightarrow> m = n"
proof -
  assume *: "m < 2 ^ 16" "n < 2 ^ 16" "be16 m = be16 n"
  have "byte (char_of (m div 256)) = byte (char_of (n div 256))"
    "byte (char_of (m mod 256)) = byte (char_of (n mod 256))"
    using *(3) by (simp_all add: be16_def)
  with *(1,2) have "m div 256 = n div 256" "m mod 256 = n mod 256" by simp_all
  then show "m = n" by (metis div_mult_mod_eq)
qed

lemma length_be16 [simp]: "length (be16 n) = 2"
  by (simp add: be16_def)

text \<open>A frame determines its value and what follows it.\<close>

lemma frame_inj:
  assumes "be16 (length v) @ v @ rest = be16 (length v') @ v' @ rest'"
    and "length v < 2 ^ 16" and "length v' < 2 ^ 16"
  shows "v = v' \<and> rest = rest'"
proof -
  from assms(1) have "be16 (length v) = be16 (length v')" and tail: "v @ rest = v' @ rest'"
    by (simp_all add: append_eq_append_conv)
  with assms(2,3) have "length v = length v'" by (blast intro: be16_inj)
  with tail show ?thesis by simp
qed

lemma account_info_Inr:
  "account_info account purpose = Inr info \<longleftrightarrow>
    length (account_id_str account) < 2 ^ 16 \<and> length purpose < 2 ^ 16
    \<and> info = ACCOUNT_PREFIX @ be16 (length (account_id_str account)) @ account_id_str account
        @ be16 (length purpose) @ purpose"
  by (auto simp: account_info_def push_framed_def)

lemma account_purpose_short: "length (account_purpose p) < 2 ^ 16"
  by (cases p) (simp add: ACCOUNT_DATABASE_PURPOSE_def)

lemma info_parts:
  assumes "request_info q = Inr info"
  obtains (account) a p rest where "info = ACCOUNT_PREFIX @ be16 (length (account_id_str a)) @ account_id_str a
      @ be16 (length p) @ p @ rest" "length (account_id_str a) < 2 ^ 16" "length p < 2 ^ 16"
      "q = AccountKey a SqlCipherDatabaseV1 \<and> p = ACCOUNT_DATABASE_PURPOSE \<and> rest = []
       \<or> (\<exists>s. q = IdentityHashOf a s \<and> p = ACCOUNT_IDENTITY_PURPOSE \<and> length s < 2 ^ 16
              \<and> rest = be16 (length s) @ s)"
  | (installation) p where "q = InstallationKey p"
      "info = INSTALLATION_PREFIX @ be16 (length (installation_purpose p)) @ installation_purpose p"
proof (cases q)
  case (AccountKey a p)
  with assms show ?thesis
    by (cases p) (auto intro!: account simp: account_info_Inr)
next
  case (IdentityHashOf a s)
  with assms show ?thesis
    by (intro account) (auto simp: rbind_Inr account_info_Inr push_framed_def split: if_splits)
next
  case (InstallationKey p)
  with assms show ?thesis
    by (intro installation) (auto simp: push_framed_def split: if_splits)
qed

lemma prefixes_differ: "ACCOUNT_PREFIX @ x \<noteq> INSTALLATION_PREFIX @ y"
  by (simp add: ACCOUNT_PREFIX_def INSTALLATION_PREFIX_def)

lemma request_info_inj:
  assumes "request_info q = Inr info" and "request_info q' = Inr info"
  shows "q = q'"
  using assms(1)
proof (cases rule: info_parts)
  case q: (account a p rest)
  show ?thesis
    using assms(2)
  proof (cases rule: info_parts)
    case q': (account a' p' rest')
    from q(1) q'(1) have "be16 (length (account_id_str a)) @ account_id_str a @ be16 (length p) @ p @ rest
        = be16 (length (account_id_str a')) @ account_id_str a' @ be16 (length p') @ p' @ rest'"
      by simp
    from frame_inj [OF this q(2) q'(2)] have a: "a = a'"
      and "be16 (length p) @ p @ rest = be16 (length p') @ p' @ rest'"
      by (simp_all add: account_id.expand)
    from frame_inj [OF this(2) q(3) q'(3)] have "p = p'" "rest = rest'" by simp_all
    note same = a this
    have framed: "s = s'" if "rest = be16 (length s) @ s" "rest' = be16 (length s') @ s'"
        "length s < 2 ^ 16" "length s' < 2 ^ 16" for s s'
      using frame_inj [of s "[]" s' "[]"] that same(3) by simp
    have "ACCOUNT_DATABASE_PURPOSE \<noteq> ACCOUNT_IDENTITY_PURPOSE"
      by (simp add: ACCOUNT_DATABASE_PURPOSE_def ACCOUNT_IDENTITY_PURPOSE_def)
    with q(4) q'(4) same show ?thesis using framed by metis
  qed (use q(1) prefixes_differ in metis)
next
  case q: (installation p)
  show ?thesis
    using assms(2)
  proof (cases rule: info_parts)
    case (installation p')
    with q show ?thesis
      by (cases p; cases p') (auto simp: REGISTRY_DATABASE_PURPOSE_def REGISTRY_DEDUP_PURPOSE_def)
  qed (use q(2) prefixes_differ in metis)
qed

text \<open>
  C33. Keys are separated by purpose and account. Two derivations from one root, whatever
  accounts, subjects and purposes they are for, give the same key only if they are the same
  derivation or the key exhibits a collision of HKDF itself under the root and its salt: the
  length framing never lets two different requests reach HKDF with the same input. Nothing is
  assumed of HKDF.
\<close>

theorem derivations_are_separated:
  assumes "derive cr root q = Inr key" and "derive cr root q' = Inr key"
  shows "q = q' \<or> (\<exists>i j. i \<noteq> j \<and> cr_expand cr ROOT_SALT (root_bytes root) i = Some key
    \<and> cr_expand cr ROOT_SALT (root_bytes root) j = Some key)"
proof -
  have opt: "ok_or e x = Inr k \<longleftrightarrow> x = Some k" for e :: key_error and x :: "string option" and k
    by (cases x) auto
  from assms obtain i j where i: "request_info q = Inr i" and j: "request_info q' = Inr j"
    and "expand cr root i = Inr key" "expand cr root j = Inr key"
    by (auto simp: derive_from_info rbind_Inr)
  then have "cr_expand cr ROOT_SALT (root_bytes root) i = Some key"
    "cr_expand cr ROOT_SALT (root_bytes root) j = Some key"
    by (simp_all add: expand_def opt)
  moreover have "q = q'" if "i = j"
    using i j that by (simp add: request_info_inj)
  ultimately show ?thesis by blast
qed

section \<open>Round trip of the wrapped key\<close>

lemma be32_bytes:
  "be32 w = [char_of (unat w div 2 ^ 24 mod 256), char_of (unat w div 2 ^ 16 mod 256),
     char_of (unat w div 2 ^ 8 mod 256), char_of (unat w mod 256)]"
  by (simp add: be32_def unat_drop_bit_eq drop_bit_eq_div unat_div_distrib)

lemma from_be32_be32: "from_be32 (be32 w) = w"
proof -
  let ?n = "unat w"
  have d: "?n div 2 ^ 16 = ?n div 256 div 256" "?n div 2 ^ 24 = ?n div 256 div 256 div 256"
    by (simp_all flip: div_mult2_eq)
  have "?n < 2 ^ 32" using unsigned_less [of w] by simp
  then have "?n div 256 div 256 div 256 mod 256 = ?n div 256 div 256 div 256"
    by (simp flip: div_mult2_eq)
  then have "foldl (\<lambda>n c. n * 256 + byte c) 0 (be32 w)
      = ((?n div 256 div 256 div 256 * 256 + ?n div 256 div 256 mod 256) * 256 + ?n div 256 mod 256) * 256
        + ?n mod 256"
    unfolding be32_bytes d by (simp only: foldl.simps of_char_of) simp
  also have "\<dots> = ?n" by (simp only: div_mult_mod_eq)
  finally show ?thesis by (simp add: from_be32_def)
qed

lemma length_be32 [simp]: "length (be32 w) = 4"
  by (simp add: be32_def)


lemma to_argon2_Inr: "to_argon2 cr p = Inr q \<Longrightarrow> q = p \<and> kp_memory_kib p \<le> MAX_MEMORY_KIB
    \<and> 0 < kp_iterations p \<and> kp_iterations p \<le> MAX_ITERATIONS
    \<and> 0 < kp_parallelism p \<and> kp_parallelism p \<le> MAX_PARALLELISM"
  by (auto simp: to_argon2_def word_neq_0_conv split: if_splits)

definition header_of :: "kdf_params \<Rightarrow> string \<Rightarrow> string \<Rightarrow> string" where
  "header_of params salt nonce =
     WRAP_MAGIC @ be32 (kp_memory_kib params) @ be32 (kp_iterations params)
       @ be32 (kp_parallelism params) @ salt @ nonce"

lemma wrap_Inr:
  assumes "wrap_root_key cr random_salt random_nonce root passphrase params = Inr wrapped"
  obtains salt nonce kek sealed where "random_salt = Some salt" "random_nonce = Some nonce"
    "to_argon2 cr params = Inr params" "stretch cr params passphrase salt = Inr kek"
    "cr_seal cr kek nonce (header_of params salt nonce) (root_bytes root) = Some sealed"
    "wrapped = header_of params salt nonce @ sealed"
proof -
  have opt: "ok_or e x = Inr k \<longleftrightarrow> x = Some k" for e :: key_error and x :: "string option" and k
    by (cases x) auto
  from assms obtain q salt nonce kek sealed where
    q: "to_argon2 cr params = Inr q" and
    rest: "random_salt = Some salt" "random_nonce = Some nonce" "stretch cr q passphrase salt = Inr kek"
      "cr_seal cr kek nonce (header_of params salt nonce) (root_bytes root) = Some sealed"
      "wrapped = header_of params salt nonce @ sealed"
    unfolding wrap_root_key_def Let_def header_of_def [symmetric]
    by (auto simp: rbind_Inr map_ok_Inr opt)
  from to_argon2_Inr [OF q] have "q = params" by simp
  with q rest show ?thesis by (intro that) simp_all
qed

lemma header_fields:
  fixes params :: kdf_params
  assumes "length salt = WRAP_SALT_LEN" and "length nonce = WRAP_NONCE_LEN"
  defines "h \<equiv> header_of params salt nonce"
  shows "length h = WRAP_HEADER_LEN" "prefix WRAP_MAGIC h"
    "wrapped_field h 0 = kp_memory_kib params" "wrapped_field h 1 = kp_iterations params"
    "wrapped_field h 2 = kp_parallelism params"
    "take WRAP_SALT_LEN (drop (length WRAP_MAGIC + 12) h) = salt"
    "drop (length WRAP_MAGIC + 12 + WRAP_SALT_LEN) h = nonce"
  using assms(1,2)
  by (simp_all add: h_def header_of_def wrapped_field_def WRAP_HEADER_LEN_def WRAP_MAGIC_def
      WRAP_SALT_LEN_def WRAP_NONCE_LEN_def from_be32_be32)

text \<open>What a blob asks for beyond the accepted cost.\<close>

definition outside_bounds :: "string \<Rightarrow> bool" where
  "outside_bounds blob \<longleftrightarrow> wrapped_field blob 0 > MAX_MEMORY_KIB
     \<or> wrapped_field blob 1 = 0 \<or> wrapped_field blob 1 > MAX_ITERATIONS
     \<or> wrapped_field blob 2 = 0 \<or> wrapped_field blob 2 > MAX_PARALLELISM"

lemma wrapped_field_header:
  "i \<le> 2 \<Longrightarrow> wrapped_field (take WRAP_HEADER_LEN blob) i = wrapped_field blob i"
  by (simp add: wrapped_field_def WRAP_HEADER_LEN_def WRAP_MAGIC_def WRAP_SALT_LEN_def
      WRAP_NONCE_LEN_def drop_take min_def)

lemma outside_bounds_malformed:
  "outside_bounds blob \<Longrightarrow> unwrap_root_key cr blob passphrase = Inl KE_Malformed"
  by (auto simp: unwrap_root_key_def Let_def to_argon2_def wrapped_field_header outside_bounds_def)

text \<open>
  A root key wrapped under a passphrase is recovered by that passphrase, from a blob of the
  exact fixed length, provided the random fills and the cipher have their documented lengths and the
  cipher opens what it sealed. And whatever the cipher, a blob that asks for more memory,
  passes or lanes than the accepted bounds, or for none, is refused as malformed without
  running the key stretching at all.
\<close>

theorem wrapped_key_round_trip:
  assumes "\<And>k n d m c. cr_seal cr k n d m = Some c \<Longrightarrow>
      length c = length m + WRAP_TAG_LEN \<and> cr_open cr k n d c = Some m"
    and "length salt = WRAP_SALT_LEN" and "length nonce = WRAP_NONCE_LEN"
    and "length (root_bytes root) = KEY_LEN"
    and "wrap_root_key cr (Some salt) (Some nonce) root passphrase params = Inr wrapped"
  shows "length wrapped = WRAPPED_LEN \<and> unwrap_root_key cr wrapped passphrase = Inr root
    \<and> (\<forall>cr' blob passphrase'. outside_bounds blob \<longrightarrow>
          unwrap_root_key cr' blob passphrase' = Inl KE_Malformed)"
proof (intro conjI allI impI)
  from assms(5) obtain kek sealed where
    argon2: "to_argon2 cr params = Inr params" and kek: "stretch cr params passphrase salt = Inr kek"
    and sealed: "cr_seal cr kek nonce (header_of params salt nonce) (root_bytes root) = Some sealed"
    and wrapped: "wrapped = header_of params salt nonce @ sealed"
    by (elim wrap_Inr) auto
  note h = header_fields [OF assms(2,3), of params]
  have same: "\<lparr>kp_memory_kib = kp_memory_kib params, kp_iterations = kp_iterations params,
      kp_parallelism = kp_parallelism params\<rparr> = params"
    by simp
  from assms(1) [OF sealed] assms(4) have len: "length sealed = KEY_LEN + WRAP_TAG_LEN"
    and opened: "cr_open cr kek nonce (header_of params salt nonce) sealed = Some (root_bytes root)"
    by simp_all
  show "length wrapped = WRAPPED_LEN"
    by (simp add: wrapped h(1) len WRAPPED_LEN_def)
  moreover have "prefix WRAP_MAGIC wrapped"
    unfolding wrapped using h(2) by (rule prefix_prefix)
  ultimately show "unwrap_root_key cr wrapped passphrase = Inr root"
    using argon2 kek opened assms(4)
    by (cases root) (simp add: unwrap_root_key_def wrapped h h(4) [unfolded One_nat_def] same Let_def)
next
  fix cr' :: crypto and blob passphrase'
  assume "outside_bounds blob"
  then show "unwrap_root_key cr' blob passphrase' = Inl KE_Malformed"
    by (rule outside_bounds_malformed)
qed


section \<open>Samples\<close>

text \<open>Concrete primitives of the documented shapes, for evaluation only.\<close>

definition sample_crypto :: crypto where
  "sample_crypto =
     \<lparr>cr_expand = (\<lambda>salt ikm info. Some (ikm @ info)), cr_hmac = (\<lambda>k m. k @ m),
      cr_params_ok = (\<lambda>p. kp_memory_kib p \<ge> 8 * kp_parallelism p),
      cr_argon2 = (\<lambda>p pass salt. Some (pass @ salt)),
      cr_seal = (\<lambda>k n d m. Some (m @ replicate 16 CHR ''t'')),
      cr_open = (\<lambda>k n d c. Some (take (length c - 16) c))\<rparr>"

definition sample_root :: root_key where
  "sample_root = RootKey (replicate 32 CHR ''r'')"

theorem derivations_are_separated_witness:
  "derive sample_crypto sample_root (AccountKey (AccountId ''a'') SqlCipherDatabaseV1)
    \<noteq> derive sample_crypto sample_root (IdentityHashOf (AccountId ''a'') ''s'')"
proof
  assume eq: "derive sample_crypto sample_root (AccountKey (AccountId ''a'') SqlCipherDatabaseV1)
    = derive sample_crypto sample_root (IdentityHashOf (AccountId ''a'') ''s'')"
  have "is_ok (derive sample_crypto sample_root (IdentityHashOf (AccountId ''a'') ''s''))"
    by code_simp
  then obtain key where "derive sample_crypto sample_root (IdentityHashOf (AccountId ''a'') ''s'') = Inr key"
    by (auto simp: is_ok_iff)
  with eq show False
    using derivations_are_separated [of sample_crypto sample_root
        "AccountKey (AccountId ''a'') SqlCipherDatabaseV1" key "IdentityHashOf (AccountId ''a'') ''s''"]
    by (auto simp del: derive.simps simp: sample_crypto_def)
qed

theorem wrapped_key_round_trip_witness:
  "\<exists>wrapped. wrap_root_key sample_crypto (Some (replicate 16 CHR ''s'')) (Some (replicate 24 CHR ''n''))
      sample_root ''pass'' default_params = Inr wrapped
    \<and> unwrap_root_key sample_crypto wrapped ''pass'' = Inr sample_root"
proof -
  have "is_ok (wrap_root_key sample_crypto (Some (replicate 16 CHR ''s'')) (Some (replicate 24 CHR ''n''))
      sample_root ''pass'' default_params)"
    by code_simp
  then obtain wrapped where w: "wrap_root_key sample_crypto (Some (replicate 16 CHR ''s''))
      (Some (replicate 24 CHR ''n'')) sample_root ''pass'' default_params = Inr wrapped"
    by (auto simp: is_ok_iff)
  have "unwrap_root_key sample_crypto wrapped ''pass'' = Inr sample_root"
    using wrapped_key_round_trip [of sample_crypto "replicate 16 CHR ''s''" "replicate 24 CHR ''n''"
        sample_root "''pass''" default_params wrapped] w
    by (simp add: sample_crypto_def sample_root_def WRAP_TAG_LEN_def WRAP_SALT_LEN_def
        WRAP_NONCE_LEN_def KEY_LEN_def)
  with w show ?thesis by blast
qed

end
