(* ===== verification/Broker_Store.thy ===== *)
theory Broker_Store
  imports Broker_Props
begin

text \<open>
  The refresh-token store that the broker relies on, as the contract of
  \<^verbatim>\<open>adapters/token-broker-core/src/ports.rs\<close>: an operation that fails has no effect on any
  stored credential, one that succeeds affects the slot of its subject alone, and a
  successful load returns what is stored. Under this contract the recorded calls of a broker
  operation determine what is stored after it.
\<close>

fun apply_event :: "(validated_subject \<Rightarrow> 'k) \<Rightarrow> broker_event \<Rightarrow> ('k \<rightharpoonup> string) \<Rightarrow> ('k \<rightharpoonup> string)" where
  "apply_event slot (EvStore s t ok) m = (if ok then m(slot s \<mapsto> t) else m)"
| "apply_event slot (EvDelete s ok) m = (if ok then m(slot s := None) else m)"
| "apply_event slot (EvLoad s a) m = m"
| "apply_event slot (EvRevoke t a) m = m"
| "apply_event slot (EvRefresh q x now) m = m"

definition replayed ::
    "('e \<Rightarrow> bool) \<Rightarrow> (validated_subject \<Rightarrow> 'k) \<Rightarrow> ('e \<Rightarrow> 'k \<rightharpoonup> string) \<Rightarrow> ('k \<rightharpoonup> string)
      \<Rightarrow> ('e \<times> broker_event list) bworld \<Rightarrow> bool" where
  "replayed sane slot held m w \<longleftrightarrow>
     sane (fst (bw_env w)) \<and> held (fst (bw_env w)) = fold (apply_event slot) (events w) m"

text \<open>No other operation of the installation runs while the provider is awaited.\<close>

definition quiet_awaits :: "('e \<Rightarrow> bool) \<Rightarrow> ('e \<Rightarrow> 'k \<rightharpoonup> string) \<Rightarrow> 'e broker_ports \<Rightarrow> bool" where
  "quiet_awaits sane held p \<longleftrightarrow>
     (\<forall>w. sane (bw_env w) \<longrightarrow>
        (\<forall>w'. w' \<in> range (\<lambda>q. snd (bp_exchange p q w)) \<union> range (\<lambda>q. snd (bp_refresh p q w))
              \<union> range (\<lambda>t. snd (bp_revoke p t w)) \<longrightarrow>
           sane (bw_env w') \<and> held (bw_env w') = held (bw_env w)))"

lemma replayed_registry [simp]:
  "replayed sane slot held m (w\<lparr>bw_registry := x\<rparr>) = replayed sane slot held m w"
  "replayed sane slot held m (w\<lparr>bw_permits := y\<rparr>) = replayed sane slot held m w"
  by (simp_all add: replayed_def)

text \<open>A broker whose credentials are kept by the given store.\<close>

definition served_by ::
    "(validated_subject \<Rightarrow> string \<Rightarrow> 'e \<Rightarrow> (refresh_token_store_error + unit) \<times> 'e)
      \<Rightarrow> (validated_subject \<Rightarrow> 'e \<Rightarrow> (refresh_token_store_error + string option) \<times> 'e)
      \<Rightarrow> (validated_subject \<Rightarrow> 'e \<Rightarrow> (refresh_token_store_error + unit) \<times> 'e) \<Rightarrow> 'e broker_ports \<Rightarrow> bool" where
  "served_by store load delete p \<longleftrightarrow> bp_store p = store \<and> bp_load p = load \<and> bp_delete p = delete"

text \<open>
  What a refresh may leave in a slot: the token that was there, or the one that an answer of the
  provider rotated it to; or nothing, once the provider refused the grant.
\<close>

definition rotated_by :: "'e broker_ports \<Rightarrow> string \<Rightarrow> bool" where
  "rotated_by p t \<longleftrightarrow> well_shaped_refresh t
     \<and> (\<exists>q v resp. fst (bp_refresh p q v) = Inr resp \<and> tr_rotated_refresh_token resp = Some t)"

definition refused_by :: "'e broker_ports \<Rightarrow> bool" where
  "refused_by p \<longleftrightarrow> (\<exists>q v. fst (bp_refresh p q v) = Inl TT_InvalidGrant)"

definition kept_or_rotated :: "'e broker_ports \<Rightarrow> 'k \<Rightarrow> ('k \<rightharpoonup> string) \<Rightarrow> ('k \<rightharpoonup> string) \<Rightarrow> bool" where
  "kept_or_rotated p k h h' \<longleftrightarrow> h' = h \<or> (\<exists>t. rotated_by p t \<and> h' = h(k \<mapsto> t))"

definition refresh_leaves ::
    "'e broker_ports \<Rightarrow> 'k \<Rightarrow> ('k \<rightharpoonup> string) \<Rightarrow> broker_error + broker_token \<Rightarrow> ('k \<rightharpoonup> string) \<Rightarrow> bool" where
  "refresh_leaves p k h r h' \<longleftrightarrow>
     (if r = Inl BE_ConsentRevoked then refused_by p \<and> h' = h(k := None) else kept_or_rotated p k h h')"

lemma after_answer_leaves:
  assumes "after_answer s client x now r evs" and "fst (bp_refresh p q v) = x"
  shows "refresh_leaves p (slot s) h r (fold (apply_event slot) evs h)
    \<and> (\<forall>token. r = Inr token \<longrightarrow> bt_subject token = validated_str s)"
proof -
  have rotation: "kept_or_rotated p (slot s) h (fold (apply_event slot) evs h)
      \<and> (outcome r \<or> r \<in> {Inl BE_PersistenceFailed, Inl BE_MalformedResponse})"
    if "rotation_first s (tr_rotated_refresh_token resp) outcome r evs" "x = Inr resp" for resp outcome
    using that assms(2)
    by (fastforce simp: rotation_first_def kept_or_rotated_def rotated_by_def split: option.splits if_splits)
  show ?thesis
  proof (cases x)
    case (Inl err)
    with assms show ?thesis
      by (auto simp: after_answer_def refresh_leaves_def refused_by_def kept_or_rotated_def split: if_splits)
  next
    case (Inr resp)
    have same: "kept_or_rotated p (slot s) h h" by (simp add: kept_or_rotated_def)
    from assms(1) Inr consider "evs = []" "\<exists>err. r = Inl err \<and> err \<noteq> BE_ConsentRevoked"
      | "rotation_first s (tr_rotated_refresh_token resp) (\<lambda>r. r = Inl BE_InsufficientScope) r evs"
      | "rotation_first s (tr_rotated_refresh_token resp) (refreshed s resp) r evs"
      by (auto simp: after_answer_def split: if_splits option.splits)
    then show ?thesis
    proof cases
      case 3
      from rotation [OF this Inr] show ?thesis
        by (auto simp: refresh_leaves_def refreshed_def split: sum.splits)
    qed (use rotation [OF _ Inr] same in \<open>auto simp: refresh_leaves_def\<close>)
  qed
qed

lemma refresh_trace_leaves:
  assumes "refresh_trace p cfg text r evs"
  shows "refresh_leaves p (slot (ValidatedSubject text)) h r (fold (apply_event slot) evs h)
    \<and> (\<forall>token. r = Inr token \<longrightarrow> bt_subject token = text)"
proof -
  let ?s = "ValidatedSubject text"
  from assms consider "fold (apply_event slot) evs h = h" "\<exists>err. r = Inl err \<and> err \<noteq> BE_ConsentRevoked"
    | old q x now rest v where "evs = EvLoad ?s (Inr (Some old)) # EvRefresh q x now # rest"
        "fst (bp_refresh p q v) = x" "after_answer ?s (bc_client_id cfg) x now r rest"
    by (auto simp: refresh_trace_def Let_def split: if_splits)
  then show ?thesis
  proof cases
    case 1
    then show ?thesis by (auto simp: refresh_leaves_def kept_or_rotated_def)
  next
    case 2
    from after_answer_leaves [OF 2(3,2), of slot h] 2(1) show ?thesis by simp
  qed
qed

locale token_store =
  fixes store :: "validated_subject \<Rightarrow> string \<Rightarrow> 'e \<Rightarrow> (refresh_token_store_error + unit) \<times> 'e"
    and load :: "validated_subject \<Rightarrow> 'e \<Rightarrow> (refresh_token_store_error + string option) \<times> 'e"
    and delete :: "validated_subject \<Rightarrow> 'e \<Rightarrow> (refresh_token_store_error + unit) \<times> 'e"
    and sane :: "'e \<Rightarrow> bool"
    and slot :: "validated_subject \<Rightarrow> 'k"
    and held :: "'e \<Rightarrow> 'k \<rightharpoonup> string"
  assumes store: "sane e \<Longrightarrow> store s t e = (r, e') \<Longrightarrow>
      sane e' \<and> held e' = (if is_ok r then (held e)(slot s \<mapsto> t) else held e)"
    and load: "sane e \<Longrightarrow> load s e = (a, e') \<Longrightarrow>
      sane e' \<and> held e' = held e \<and> (\<forall>v. a = Inr v \<longrightarrow> v = held e (slot s))"
    and delete: "sane e \<Longrightarrow> delete s e = (r, e') \<Longrightarrow>
      sane e' \<and> held e' = (if is_ok r then (held e)(slot s := None) else held e)"
begin

lemma replayed_store:
  assumes "served_by store load delete p" and "replayed sane slot held m w"
    and "on_env (bp_store (logged_ports p) s t) w = (r, w')"
  shows "replayed sane slot held m w'"
  using assms store [of "fst (bw_env w)" s t]
  by (auto simp: served_by_def logged_ports_def on_env_def logged_call_def replayed_def split: prod.splits)

lemma replayed_load:
  assumes "served_by store load delete p" and "replayed sane slot held m w"
    and "on_env (bp_load (logged_ports p) s) w = (a, w')"
  shows "replayed sane slot held m w'"
  using assms load [of "fst (bw_env w)" s]
  by (auto simp: served_by_def logged_ports_def on_env_def logged_call_def replayed_def split: prod.splits)

lemma replayed_delete:
  assumes "served_by store load delete p" and "replayed sane slot held m w"
    and "on_env (bp_delete (logged_ports p) s) w = (r, w')"
  shows "replayed sane slot held m w'"
  using assms delete [of "fst (bw_env w)" s]
  by (auto simp: served_by_def logged_ports_def on_env_def logged_call_def replayed_def split: prod.splits)

lemma replayed_await:
  assumes "quiet_awaits sane held p" and "replayed sane slot held m w"
  shows "bp_exchange (logged_ports p) q w = (x, w1) \<Longrightarrow> replayed sane slot held m w1"
    and "bp_refresh (logged_ports p) q' w = (x, w1) \<Longrightarrow> replayed sane slot held m w1"
    and "bp_revoke (logged_ports p) t w = (y, w1) \<Longrightarrow> replayed sane slot held m w1"
proof -
  have env: "bw_env (without_log w) = fst (bw_env w)" by (simp add: without_log_def)
  have quiet: "sane (bw_env w') \<and> held (bw_env w') = held (fst (bw_env w))"
    if "w' \<in> range (\<lambda>q. snd (bp_exchange p q (without_log w)))
      \<union> range (\<lambda>q. snd (bp_refresh p q (without_log w)))
      \<union> range (\<lambda>t. snd (bp_revoke p t (without_log w)))" for w'
    using assms env that unfolding quiet_awaits_def replayed_def by metis
  have go: "replayed sane slot held m (with_log (events w @ evs) w')"
    if "sane (bw_env w') \<and> held (bw_env w') = held (fst (bw_env w))"
      "fold (apply_event slot) evs = id" for w' evs
    using that assms(2) by (simp add: replayed_def with_log_def)
  { assume "bp_exchange (logged_ports p) q w = (x, w1)"
    then obtain w' where run: "bp_exchange p q (without_log w) = (x, w')"
        and w1: "w1 = with_log (events w @ []) w'"
      by (auto simp: logged_ports_def logged_await_def split: prod.splits)
    from run have "w' \<in> range (\<lambda>q. snd (bp_exchange p q (without_log w)))" by (metis rangeI snd_conv)
    then have "sane (bw_env w') \<and> held (bw_env w') = held (fst (bw_env w))" by (intro quiet) simp
    then show "replayed sane slot held m w1" unfolding w1 by (rule go) (simp add: fun_eq_iff) }
  { assume "bp_refresh (logged_ports p) q' w = (x, w1)"
    then obtain w' where run: "bp_refresh p q' (without_log w) = (x, w')"
        and w1: "w1 = with_log (events w @ [EvRefresh q' x (bp_clock p (bw_env w'))]) w'"
      by (auto simp: logged_ports_def logged_await_def split: prod.splits)
    from run have "w' \<in> range (\<lambda>q. snd (bp_refresh p q (without_log w)))" by (metis rangeI snd_conv)
    then have "sane (bw_env w') \<and> held (bw_env w') = held (fst (bw_env w))" by (intro quiet) simp
    then show "replayed sane slot held m w1" unfolding w1 by (rule go) (simp add: fun_eq_iff) }
  { assume "bp_revoke (logged_ports p) t w = (y, w1)"
    then obtain w' where run: "bp_revoke p t (without_log w) = (y, w')"
        and w1: "w1 = with_log (events w @ [EvRevoke t y]) w'"
      by (auto simp: logged_ports_def logged_await_def split: prod.splits)
    from run have "w' \<in> range (\<lambda>q. snd (bp_revoke p q (without_log w)))" by (metis rangeI snd_conv)
    then have "sane (bw_env w') \<and> held (bw_env w') = held (fst (bw_env w))" by (intro quiet) simp
    then show "replayed sane slot held m w1" unfolding w1 by (rule go) (simp add: fun_eq_iff) }
qed

text \<open>Every operation of the broker keeps the world in step with its recorded calls.\<close>

lemma replayed_stranded:
  assumes "quiet_awaits sane held p" and "replayed sane slot held m w"
    and "stranded (logged_ports p) snap success err w = (r, w')"
  shows "replayed sane slot held m w'"
proof -
  have "replayed sane slot held m (revoke_best_effort (logged_ports p) t w)" for t
    unfolding revoke_best_effort_def using replayed_await(3) [OF assms(1,2)] by (metis prod.collapse)
  with assms(2,3) show ?thesis
    by (auto simp: stranded_def revoke_stranded_grant_def split: option.splits if_splits)
qed

lemma replayed_complete_granted:
  assumes served: "served_by store load delete p" and quiet: "quiet_awaits sane held p"
    and w: "replayed sane slot held m w"
    and run: "complete_granted (logged_ports p) success s w = (r, w')"
  shows "replayed sane slot held m w'"
proof -
  obtain a w1 where load: "on_env (bp_load (logged_ports p) s) w = (a, w1)" by fastforce
  note w1 = replayed_load [OF served w load]
  note strand = replayed_stranded [OF quiet]
  have store: "replayed sane slot held m w2"
    if "on_env (bp_store (logged_ports p) s t) w1 = (st, w2)" for t st w2
    using replayed_store [OF served w1 that] .
  from run load w1 show ?thesis
    by (auto simp: complete_granted_def Let_def split: sum.splits option.splits if_splits prod.splits
        dest: store intro: strand)
qed

lemma replayed_permit:
  assumes "with_permit s body w = (r, w')" and "replayed sane slot held m w"
    and "\<And>v v' r. replayed sane slot held m v \<Longrightarrow> body v = (r, v') \<Longrightarrow> replayed sane slot held m v'"
  shows "replayed sane slot held m w'"
  using assms(1)
proof (cases rule: with_permit_cases)
  case (2 h w1)
  from assms(3) [OF _ 2(4)] assms(2) 2(5) show ?thesis by simp
qed (use assms(2) in simp)

lemma replayed_for_subject:
  assumes "for_subject text body w = (r, w')" and "replayed sane slot held m w"
    and "\<And>s v v' r. replayed sane slot held m v \<Longrightarrow> body s v = (r, v') \<Longrightarrow> replayed sane slot held m v'"
  shows "replayed sane slot held m w'"
  using assms(1)
proof (cases rule: for_subject_cases)
  case (2 h w1)
  from assms(3) [OF _ 2(4)] assms(2) 2(5) show ?thesis by simp
qed (use assms(2) in simp)

lemma replayed_complete_outcome:
  assumes "served_by store load delete p" and "quiet_awaits sane held p"
    and "replayed sane slot held m w" and "complete_outcome (logged_ports p) outcome w = (r, w')"
  shows "replayed sane slot held m w'"
proof (cases outcome)
  case (TokenGranted success)
  show ?thesis
  proof (cases "validated_subject_new (subject_str (ts_subject success))")
    case (Inr s)
    with assms(4) TokenGranted
    have "with_permit (validated_str s) (complete_granted (logged_ports p) success s) w = (r, w')"
      by (simp add: complete_outcome_def)
    from replayed_permit [OF this assms(3)] replayed_complete_granted [OF assms(1,2)] show ?thesis
      by blast
  qed (use assms TokenGranted in \<open>simp add: complete_outcome_def\<close>)
qed (use assms in \<open>simp add: complete_outcome_def\<close>)

lemma replayed_complete_authorization:
  assumes "served_by store load delete p" and "quiet_awaits sane held p"
    and "replayed sane slot held m w"
    and "complete_authorization (logged_ports p) cfg handle_text callback_url w = (r, w')"
  shows "replayed sane slot held m w'"
proof -
  note outcome = replayed_complete_outcome [OF assms(1,2)]
  have exchange: "bp_exchange (logged_ports p) q (w\<lparr>bw_registry := x\<rparr>) = (y, v) \<Longrightarrow>
      replayed sane slot held m v" for q x y v
    using replayed_await(1) [OF assms(2)] assms(3) by (metis replayed_registry(1))
  show ?thesis
    using assms(3,4)
    by (auto simp: complete_authorization_def exchange_grant_with_scope_outcome_def Let_def
        split: sum.splits prod.splits dest: exchange intro: outcome)
qed

lemma replayed_persist_rotation:
  assumes "served_by store load delete p" and "replayed sane slot held m w"
    and "persist_rotation (logged_ports p) s rotated w = (r, w')"
  shows "replayed sane slot held m w'"
proof -
  have store: "on_env (bp_store (logged_ports p) s t) w = (x, v) \<Longrightarrow> replayed sane slot held m v" for t x v
    by (rule replayed_store [OF assms(1,2)])
  from assms(2,3) show ?thesis
    by (auto simp: persist_rotation_def apfst_def map_prod_def
        split: option.splits if_splits prod.splits dest: store)
qed

lemma replayed_refresh_granted:
  assumes "served_by store load delete p" and "replayed sane slot held m w"
    and "refresh_granted (logged_ports p) s success w = (r, w')"
  shows "replayed sane slot held m w'"
  using assms replayed_persist_rotation [OF assms(1,2)]
  by (auto simp: refresh_granted_def split: if_splits sum.splits prod.splits)

lemma replayed_refresh_answer:
  assumes "served_by store load delete p" and "replayed sane slot held m w"
    and "refresh_answer (logged_ports p) s answer w = (r, w')"
  shows "replayed sane slot held m w'"
proof (cases answer)
  case (Inl err)
  obtain a w1 where d: "on_env (bp_delete (logged_ports p) s) w = (a, w1)" by fastforce
  from replayed_delete [OF assms(1,2) d] d Inl assms(2,3) show ?thesis
    by (cases err; cases a; simp add: refresh_answer_def)
next
  case (Inr outcome)
  with assms replayed_refresh_granted [OF assms(1,2)] replayed_persist_rotation [OF assms(1,2)]
  show ?thesis
    by (cases outcome) (auto simp: refresh_answer_def split: sum.splits prod.splits)
qed

lemma replayed_refresh:
  assumes "served_by store load delete p" and "quiet_awaits sane held p"
    and "replayed sane slot held m w" and "broker_refresh (logged_ports p) cfg text w = (r, w')"
  shows "replayed sane slot held m w'"
proof (rule replayed_for_subject [OF assms(4) [unfolded broker_refresh_def] assms(3)])
  fix s v v' r
  assume v: "replayed sane slot held m v" and run: "refresh_held (logged_ports p) cfg s v = (r, v')"
  obtain a w1 where load: "on_env (bp_load (logged_ports p) s) v = (a, w1)" by fastforce
  note w1 = replayed_load [OF assms(1) v load]
  have refresh: "bp_refresh (logged_ports p) q w1 = (y, v) \<Longrightarrow> replayed sane slot held m v" for q y v
    by (rule replayed_await(2) [OF assms(2) w1])
  from run load w1 show "replayed sane slot held m v'"
    by (auto simp: refresh_held_def refresh_access_token_with_scope_outcome_def
        split: sum.splits option.splits if_splits prod.splits
        dest: refresh intro: replayed_refresh_answer [OF assms(1)])
qed

lemma replayed_revoke:
  assumes "served_by store load delete p" and "quiet_awaits sane held p"
    and "replayed sane slot held m w" and "revoke_provider_grant (logged_ports p) text w = (r, w')"
  shows "replayed sane slot held m w'"
proof (rule replayed_for_subject [OF assms(4) [unfolded revoke_provider_grant_def] assms(3)])
  fix s v v' r
  assume v: "replayed sane slot held m v" and run: "revoke_held (logged_ports p) s v = (r, v')"
  obtain a w1 where load: "on_env (bp_load (logged_ports p) s) v = (a, w1)" by fastforce
  note w1 = replayed_load [OF assms(1) v load]
  have revoke: "replayed sane slot held m (snd (bp_revoke (logged_ports p) t x))"
    if "replayed sane slot held m x" for t x
    using replayed_await(3) [OF assms(2) that] by (metis prod.collapse)
  have "replayed sane slot held m w2"
    if "bp_revoke (logged_ports p) t w1 = (b, w2)" for t b w2
    using revoke [OF w1, of t] that by simp
  moreover have "replayed sane slot held m w3"
    if "bp_revoke (logged_ports p) t w1 = (b, w2)" "bp_revoke (logged_ports p) t w2 = (d, w3)" for t b w2 d w3
    using revoke [of w2 t] revoke [OF w1, of t] that by simp
  ultimately show "replayed sane slot held m v'"
    using run load w1
    by (auto simp: revoke_held_def split: sum.splits option.splits if_splits prod.splits)
qed

lemma replayed_delete_stored:
  assumes "served_by store load delete p"
    and "replayed sane slot held m w" and "delete_stored_tokens (logged_ports p) text w = (r, w')"
  shows "replayed sane slot held m w'"
proof (rule replayed_for_subject [OF assms(3) [unfolded delete_stored_tokens_def] assms(2)])
  fix s v v' r
  assume "replayed sane slot held m v"
    and run: "apfst (map_err (\<lambda>_. BE_PersistenceFailed)) (on_env (bp_delete (logged_ports p) s) v) = (r, v')"
  moreover obtain a v1 where "on_env (bp_delete (logged_ports p) s) v = (a, v1)" by fastforce
  ultimately show "replayed sane slot held m v'" using replayed_delete [OF assms(1)] by auto
qed

text \<open>What is stored afterwards, from the shape of the recorded calls.\<close>

lemma replayed_start:
  "sane (bw_env w) \<Longrightarrow> replayed sane slot held (held (bw_env w)) (with_log [] w)"
  by (simp add: replayed_def with_log_def)

lemma completion_effect:
  assumes "served_by store load delete p" and "quiet_awaits sane held p" and "sane (bw_env w)"
    and "complete_authorization (logged_ports p) cfg handle_text callback_url (with_log [] w) = (r, w')"
  shows "sane (fst (bw_env w')) \<and> (case r of
      Inr token \<Rightarrow> \<exists>t. well_shaped_refresh t \<and> held (fst (bw_env w'))
          = (held (bw_env w))(slot (ValidatedSubject (bt_subject token)) \<mapsto> t)
    | Inl _ \<Rightarrow> held (fst (bw_env w')) = held (bw_env w))"
proof -
  have "completion_trace r (events w')"
    using complete_authorization_trace [of p cfg handle_text callback_url w] assms(4) by simp
  moreover have "replayed sane slot held (held (bw_env w)) w'"
    using replayed_complete_authorization [OF assms(1,2) replayed_start [OF assms(3)] assms(4)] .
  ultimately show ?thesis
    by (cases r) (auto simp: replayed_def completion_trace_def clean_completion_def completed_def Let_def)
qed

lemma refresh_effect:
  assumes "served_by store load delete p" and "quiet_awaits sane held p" and "sane (bw_env w)"
    and "broker_refresh (logged_ports p) cfg text (with_log [] w) = (r, w')"
  shows "sane (fst (bw_env w'))
    \<and> refresh_leaves p (slot (ValidatedSubject text)) (held (bw_env w)) r (held (fst (bw_env w')))
    \<and> (\<forall>token. r = Inr token \<longrightarrow> bt_subject token = text)"
proof -
  have "refresh_trace p cfg text r (events w')"
    using broker_refresh_trace [of p cfg "text" w] assms(4) by simp
  moreover have "replayed sane slot held (held (bw_env w)) w'"
    using replayed_refresh [OF assms(1,2) replayed_start [OF assms(3)] assms(4)] .
  ultimately show ?thesis using refresh_trace_leaves [of p cfg "text" r] by (simp add: replayed_def)
qed

end

end
