(* ===== verification/Installation.thy ===== *)
theory Installation
  imports Root_Keys Store_Registry Open_Props Store_Reads Broker
begin

text \<open>
  One unlocked installation (\<^verbatim>\<open>adapters/sync-runtime/src/installation.rs\<close>): the account
  registry, one encrypted store per account in a directory named by a digest of the account
  identifier, and the refresh-token store that the token broker keeps its credentials in.
  The files below the data directory are the state, with the fills that the random source
  will give; the registry connection stays open. What else the system answers is the
  environment: backend and file-system failures by call number, directory metadata, and
  whether a failed call left a file behind. Opening a
  store runs the statements of \<open>Open_Validate\<close>; the checks on its directory entries, which
  \<open>Open_Files\<close> models, appear here as one call that may fail. The installation lock excludes
  other processes.
\<close>

datatype installation_error =
    IE_Directory
  | IE_Registry registry_error
  | IE_Store mailbox_store_error
  | IE_Key key_error
  | IE_UnknownAccount

fun installation_error_text :: "installation_error \<Rightarrow> string" where
  "installation_error_text IE_Directory = ''the data directory is unusable''"
| "installation_error_text (IE_Registry err) = registry_error_text err"
| "installation_error_text (IE_Store _) = ''the account database failed''"
| "installation_error_text (IE_Key err) = key_error_text err"
| "installation_error_text IE_UnknownAccount = ''no such account''"

record dir_meta =
  dm_is_dir :: bool
  dm_owner :: nat
  dm_mode :: nat

record installation =
  in_registry :: registry_db
  in_stores :: "string \<rightharpoonup> cipher_file"
  in_fills :: "string option list"

record inst_env =
  ie_root :: root_key
  ie_crypto :: crypto
  ie_sha256 :: "string \<Rightarrow> string"
  ie_faults :: faults
  ie_metadata :: "nat \<Rightarrow> dir_meta option"
  ie_euid :: nat
  ie_left_over :: "nat \<Rightarrow> bool"
  ie_conn :: cipher_conn

type_synonym 'a inst_op = "(installation, installation_error, 'a) db_op"

section \<open>Plumbing\<close>

definition db_map_err :: "('e \<Rightarrow> 'f) \<Rightarrow> ('d, 'e, 'a) db_op \<Rightarrow> ('d, 'f, 'a) db_op" where
  "db_map_err f m c = apfst (map_err f) (m c)"

text \<open>An operation on a part of the state; the calls are counted in one sequence.\<close>

definition on_part ::
    "('d \<Rightarrow> 'p) \<Rightarrow> ('p \<Rightarrow> 'd \<Rightarrow> 'd) \<Rightarrow> ('p, 'e, 'a) db_op \<Rightarrow> ('d, 'e, 'a) db_op" where
  "on_part look write m c =
     (case m \<lparr>cn_db = look (cn_db c), cn_calls = cn_calls c\<rparr> of
        (r, c') \<Rightarrow> (r, \<lparr>cn_db = write (cn_db c') (cn_db c), cn_calls = cn_calls c'\<rparr>))"

definition env_answer :: "'e \<Rightarrow> (nat \<Rightarrow> 'a option) \<Rightarrow> ('d, 'e, 'a) db_op" where
  "env_answer err answer c = (ok_or err (answer (cn_calls c)), tick c)"

definition on_registry :: "'a registry_op \<Rightarrow> 'a inst_op" where
  "on_registry m = db_map_err IE_Registry (on_part in_registry (\<lambda>db s. s\<lparr>in_registry := db\<rparr>) m)"

text \<open>The tables of an open store are those of its file.\<close>

definition store_tables :: "string \<Rightarrow> installation \<Rightarrow> db" where
  "store_tables directory s =
     (case in_stores s directory of Some f \<Rightarrow> im_tables (cf_image f) | None \<Rightarrow> empty_tables)"

definition set_store_tables :: "string \<Rightarrow> db \<Rightarrow> installation \<Rightarrow> installation" where
  "set_store_tables directory tables s =
     s\<lparr>in_stores := (in_stores s)(directory := map_option
       (\<lambda>f. f\<lparr>cf_image := (cf_image f)\<lparr>im_tables := tables\<rparr>\<rparr>) (in_stores s directory))\<rparr>"

definition on_store :: "string \<Rightarrow> (db, mailbox_store_error, 'a) db_op \<Rightarrow> 'a inst_op" where
  "on_store directory m =
     db_map_err IE_Store (on_part (store_tables directory) (set_store_tables directory) m)"

section \<open>Directories and identifiers\<close>

definition lower_hex_digit :: "nat \<Rightarrow> char" where
  "lower_hex_digit n = (if n < 10 then char_of (48 + n) else char_of (87 + n))"

definition hex :: "string \<Rightarrow> string" where
  "hex bytes = concat (map (\<lambda>b. [lower_hex_digit (byte b div 16), lower_hex_digit (byte b mod 16)]) bytes)"

definition ensure_private_dir :: "inst_env \<Rightarrow> unit inst_op" where
  "ensure_private_dir env =
     db_bind (backend_call (\<lambda>_. IE_Directory) (ie_faults env)) (\<lambda>_.
     db_bind (env_answer IE_Directory (ie_metadata env)) (\<lambda>metadata.
       if \<not> dm_is_dir metadata \<or> dm_owner metadata \<noteq> ie_euid env then db_result (Inl IE_Directory)
       else if dm_mode metadata mod 64 \<noteq> 0 then backend_call (\<lambda>_. IE_Directory) (ie_faults env)
       else db_return ()))"

text \<open>The directory's name below \<open>accounts\<close>.\<close>

definition account_dir :: "inst_env \<Rightarrow> account_id \<Rightarrow> string" where
  "account_dir env account = hex (ie_sha256 env (account_id_str account))"

definition account_of_bytes :: "string \<Rightarrow> installation_error + account_id" where
  "account_of_bytes bytes = map_err (\<lambda>_. IE_Directory) (account_id_new (''acct_'' @ hex bytes))"

text \<open>The next fill of the random source; it fails where there is none.\<close>

definition random_fill :: "string inst_op" where
  "random_fill c =
     (case in_fills (cn_db c) of
        Some bytes # rest \<Rightarrow> (Inr bytes, c\<lparr>cn_db := (cn_db c)\<lparr>in_fills := rest\<rparr>\<rparr>)
      | None # rest \<Rightarrow> (Inl (IE_Key KE_Entropy), c\<lparr>cn_db := (cn_db c)\<lparr>in_fills := rest\<rparr>\<rparr>)
      | [] \<Rightarrow> (Inl (IE_Key KE_Entropy), c))"

definition new_account_id :: "account_id inst_op" where
  "new_account_id = db_bind random_fill (\<lambda>bytes. db_result (account_of_bytes bytes))"

section \<open>Opening an account's store\<close>

text \<open>
  A store that did not exist and failed to open is removed again, unless the cleanup is
  itself prevented.
\<close>

definition open_account_file :: "inst_env \<Rightarrow> account_id \<Rightarrow> string \<Rightarrow> string \<Rightarrow> unit inst_op" where
  "open_account_file env account directory key c =
     (let found = in_stores (cn_db c) directory;
          conn = (ie_conn env)\<lparr>cc_file := (case found of Some f \<Rightarrow> f | None \<Rightarrow> empty_file)\<rparr>;
          keep = (\<lambda>f k. \<lparr>cn_db = (cn_db c)\<lparr>in_stores := (in_stores (cn_db c))(directory := f)\<rparr>,
            cn_calls = cn_calls k\<rparr>)
      in case open_database (ie_faults env) account key \<lparr>cn_db = conn, cn_calls = cn_calls c\<rparr> of
           (Inr _, k) \<Rightarrow> (Inr (), keep (Some (file_of k)) k)
         | (Inl err, k) \<Rightarrow> (Inl (IE_Store (mailbox_open_error err)),
             keep (if found = None \<and> \<not> ie_left_over env (cn_calls k) then None
                   else Some (file_of k)) k))"

definition open_store_unchecked :: "inst_env \<Rightarrow> account_id \<Rightarrow> unit inst_op" where
  "open_store_unchecked env account =
     db_bind (ensure_private_dir env) (\<lambda>_.
     db_bind (db_result (map_err IE_Key
         (derive_account_key (ie_crypto env) (ie_root env) account SqlCipherDatabaseV1))) (\<lambda>key.
     db_bind (backend_call (\<lambda>e. IE_Store (mailbox_open_error (classify_open e))) (ie_faults env))
       (\<lambda>_. open_account_file env account (account_dir env account) key)))"

section \<open>The operations of the installation\<close>

definition installation_accounts :: "inst_env \<Rightarrow> account_id list inst_op" where
  "installation_accounts env = on_registry (registry_accounts (ie_faults env))"

definition has_capacity :: "inst_env \<Rightarrow> bool inst_op" where
  "has_capacity env =
     db_bind (installation_accounts env) (\<lambda>accounts. db_return (length accounts < MAX_ACCOUNTS))"

definition subject_tag :: "inst_env \<Rightarrow> string \<Rightarrow> key_error + string" where
  "subject_tag env subject = registry_dedup_tag (ie_crypto env) (ie_root env) subject"

definition account_for_subject :: "inst_env \<Rightarrow> string \<Rightarrow> account_id option inst_op" where
  "account_for_subject env subject =
     db_bind (db_result (map_err IE_Key (subject_tag env subject))) (\<lambda>tag.
       on_registry (registry_find_by_tag (ie_faults env) tag))"

definition open_store :: "inst_env \<Rightarrow> account_id \<Rightarrow> unit inst_op" where
  "open_store env account =
     db_bind (installation_accounts env) (\<lambda>accounts.
       if account \<notin> set accounts then db_result (Inl IE_UnknownAccount)
       else open_store_unchecked env account)"

text \<open>
  \<open>fs::remove_dir_all\<close>: a directory that is already gone counts as removed; a failure may
  have deleted the database before it.
\<close>

definition remove_directory :: "inst_env \<Rightarrow> string \<Rightarrow> unit inst_op" where
  "remove_directory env directory c =
     (let gone = (\<lambda>k. k\<lparr>cn_db := (cn_db k)\<lparr>in_stores := (in_stores (cn_db k))(directory := None)\<rparr>\<rparr>)
      in case backend_call (\<lambda>_. IE_Directory) (ie_faults env) c of
           (Inl err, k) \<Rightarrow> (Inl err, if ie_left_over env (cn_calls c) then k else gone k)
         | (Inr _, k) \<Rightarrow> (Inr (), gone k))"

text \<open>A poisoned allocation lock is a failure of the call that takes it.\<close>

definition installation_remove_account :: "inst_env \<Rightarrow> account_id \<Rightarrow> unit inst_op" where
  "installation_remove_account env account =
     with_connection IE_Directory (ie_faults env)
       (db_bind (installation_accounts env) (\<lambda>accounts.
          if account \<notin> set accounts then db_result (Inl IE_UnknownAccount)
          else db_bind (remove_directory env (account_dir env account)) (\<lambda>_.
            db_bind (on_registry (registry_remove (ie_faults env) account)) (\<lambda>_. db_return ()))))"

text \<open>The registration of a subject that has no account yet.\<close>

definition register_subject :: "inst_env \<Rightarrow> validated_subject \<Rightarrow> string \<Rightarrow> account_id inst_op" where
  "register_subject env subject tag =
     db_bind (has_capacity env) (\<lambda>capacity.
     if \<not> capacity then db_result (Inl (IE_Registry RE_Full))
     else
       db_bind new_account_id (\<lambda>account.
       db_bind (open_store_unchecked env account) (\<lambda>_.
       db_bind (on_store (account_dir env account)
           (store_broker_subject (ie_faults env) account account (validated_str subject))) (\<lambda>_.
       db_bind (on_registry (registry_register (ie_faults env) account tag)) (\<lambda>_.
         db_return account)))))"

definition account_for_subject_or_register ::
    "inst_env \<Rightarrow> validated_subject \<Rightarrow> account_id inst_op" where
  "account_for_subject_or_register env subject =
     with_connection IE_Directory (ie_faults env)
       (db_bind (db_result (map_err IE_Key (subject_tag env (validated_str subject)))) (\<lambda>tag.
        db_bind (on_registry (registry_find_by_tag (ie_faults env) tag)) (\<lambda>found.
        case found of
          Some account \<Rightarrow> db_return account
        | None \<Rightarrow> register_subject env subject tag)))"

section \<open>The refresh-token store of the broker\<close>

definition tokens_store ::
    "inst_env \<Rightarrow> validated_subject \<Rightarrow> string \<Rightarrow> (installation, refresh_token_store_error, unit) db_op" where
  "tokens_store env subject token =
     db_map_err (\<lambda>_. RTS_Unavailable)
       (db_bind (account_for_subject_or_register env subject) (\<lambda>account.
        db_bind (open_store_unchecked env account) (\<lambda>_.
          on_store (account_dir env account)
            (store_refresh_token (ie_faults env) account account token))))"

definition tokens_load ::
    "inst_env \<Rightarrow> validated_subject \<Rightarrow> (installation, refresh_token_store_error, string option) db_op" where
  "tokens_load env subject =
     db_bind (db_map_err (\<lambda>_. RTS_Unavailable) (account_for_subject env (validated_str subject)))
       (\<lambda>found. case found of
          None \<Rightarrow> db_return None
        | Some account \<Rightarrow>
            db_bind (db_map_err (\<lambda>_. RTS_Unavailable) (open_store_unchecked env account)) (\<lambda>_.
              db_map_err (\<lambda>err. if err = IE_Store Corrupted then RTS_Invalid else RTS_Unavailable)
                (on_store (account_dir env account)
                  (load_refresh_token (ie_faults env) account account))))"

definition tokens_delete ::
    "inst_env \<Rightarrow> validated_subject \<Rightarrow> (installation, refresh_token_store_error, unit) db_op" where
  "tokens_delete env subject =
     db_map_err (\<lambda>_. RTS_Unavailable)
       (db_bind (account_for_subject env (validated_str subject)) (\<lambda>found. case found of
          None \<Rightarrow> db_return ()
        | Some account \<Rightarrow>
            db_bind (open_store_unchecked env account) (\<lambda>_.
              on_store (account_dir env account)
                (clear_refresh_token (ie_faults env) account account))))"

text \<open>The identity-gate hasher: \<open>HasherError::Unavailable\<close> is its only failure.\<close>

definition installation_hash :: "inst_env \<Rightarrow> account_id \<Rightarrow> string \<Rightarrow> hasher_error + identity_hash" where
  "installation_hash env account normalized =
     map_err (\<lambda>_. Unavailable) (map_ok IdentityHash
       (account_identity_hash (ie_crypto env) (ie_root env) account normalized))"

end
