(* ===== verification/Loopback.thy ===== *)
theory Loopback
  imports Tersa_Prelude
begin

text \<open>
  The loopback listener for the OAuth redirect (\<^verbatim>\<open>adapters/sync-runtime/src/loopback.rs\<close>): one
  request head is read within bounds, its target parsed, and only a request to the root path
  whose single \<open>state\<close> is the expected one ends the wait. What reaches the listener before the
  deadline is a list of accepts; a connection is its peer and the results of the reads that
  come within the read timeout, \<open>None\<close> where a read fails. The form decoder is the \<open>url\<close>
  crate's and a parameter.
\<close>

definition MAX_REQUEST_HEAD :: nat where "MAX_REQUEST_HEAD = 8 * 1024"
definition MAX_CONNECTIONS :: nat where "MAX_CONNECTIONS = 32"

definition CRLF :: string where "CRLF = [CHR 0x0D, CHR 0x0A]"

definition DONE_PAGE :: string where
  "DONE_PAGE = ''<!doctype html><meta charset=utf-8><title>tersa</title>''
     @ ''<p>Sign-in finished. You can close this tab and return to the terminal.</p>''"

datatype loopback_error = LB_Io string | LB_TimedOut | LB_TooManyConnections

fun loopback_error_text :: "loopback_error \<Rightarrow> string" where
  "loopback_error_text (LB_Io kind) = ''the local sign-in listener failed ('' @ kind @ '')''"
| "loopback_error_text LB_TimedOut = ''sign-in timed out''"
| "loopback_error_text LB_TooManyConnections =
     ''too many unexpected connections to the sign-in listener''"

record connection =
  cx_loopback :: bool
  cx_reads :: "string option list"

definition redirect_uri :: "nat \<Rightarrow> string" where
  "redirect_uri port = ''http://127.0.0.1:'' @ show_nat port @ ''/''"

definition parse_request_target :: "string \<Rightarrow> string option" where
  "parse_request_target head =
     (case find_str CRLF head of
        None \<Rightarrow> None
      | Some line_end \<Rightarrow>
          let line = take line_end head
          in if \<not> utf8_valid line then None
             else (case split_char CHR 0x20 line of
                 [method, target, version] \<Rightarrow>
                   if method \<noteq> ''GET'' \<or> \<not> prefix ''HTTP/1.'' version then None
                   else if \<not> prefix ''/'' target \<or> \<not> list_all is_ascii_graphic target then None
                   else Some target
               | _ \<Rightarrow> None))"

text \<open>The reads that do not come in time leave the list empty: the read timeout strikes.\<close>

fun read_request_target :: "string \<Rightarrow> string option list \<Rightarrow> string option" where
  "read_request_target head reads =
     (if contains_str (CRLF @ CRLF) head then parse_request_target head
      else if length head \<ge> MAX_REQUEST_HEAD then None
      else (case reads of
          Some chunk # rest \<Rightarrow>
            if chunk = [] then None else read_request_target (head @ chunk) rest
        | _ \<Rightarrow> None))"

declare read_request_target.simps [simp del]

definition is_matching_callback :: "(string \<Rightarrow> (string \<times> string) list) \<Rightarrow> string \<Rightarrow> string \<Rightarrow> bool" where
  "is_matching_callback form_parse target expected =
     (if \<not> prefix ''/?'' target then False
      else (case map snd (filter (\<lambda>(name, _). name = ''state'') (form_parse (drop 2 target))) of
          [state] \<Rightarrow> state = expected
        | _ \<Rightarrow> False))"

definition response :: "nat \<Rightarrow> string \<Rightarrow> string \<Rightarrow> string" where
  "response status reason body =
     ''HTTP/1.1 '' @ show_nat status @ '' '' @ reason @ CRLF
     @ ''Content-Type: text/html; charset=utf-8'' @ CRLF
     @ ''Content-Length: '' @ show_nat (length body) @ CRLF
     @ ''Cache-Control: no-store'' @ CRLF @ ''Connection: close'' @ CRLF @ CRLF @ body"

text \<open>The outcome, and what was written to the peers.\<close>

fun serve_connections ::
    "(string \<Rightarrow> (string \<times> string) list) \<Rightarrow> nat \<Rightarrow> string \<Rightarrow> nat \<Rightarrow> (string + connection) list
      \<Rightarrow> (loopback_error + string) \<times> string list" where
  "serve_connections form_parse port expected left [] =
     (Inl (if left = 0 then LB_TooManyConnections else LB_TimedOut), [])"
| "serve_connections form_parse port expected left (accept # rest) =
     (if left = 0 then (Inl LB_TooManyConnections, [])
      else (case accept of
          Inl kind \<Rightarrow> (Inl (LB_Io kind), [])
        | Inr c \<Rightarrow>
            if \<not> cx_loopback c then serve_connections form_parse port expected (left - 1) rest
            else (case read_request_target [] (cx_reads c) of
                None \<Rightarrow> apsnd (Cons (response 400 ''Bad Request'' []))
                  (serve_connections form_parse port expected (left - 1) rest)
              | Some target \<Rightarrow>
                  if is_matching_callback form_parse target expected
                  then (Inr (''http://127.0.0.1:'' @ show_nat port @ target),
                    [response 200 ''OK'' DONE_PAGE])
                  else apsnd (Cons (response 404 ''Not Found'' []))
                    (serve_connections form_parse port expected (left - 1) rest))))"

definition wait_for_callback ::
    "(string \<Rightarrow> (string \<times> string) list) \<Rightarrow> nat \<Rightarrow> string \<Rightarrow> (string + connection) list
      \<Rightarrow> (loopback_error + string) \<times> string list" where
  "wait_for_callback form_parse port expected = serve_connections form_parse port expected MAX_CONNECTIONS"

section \<open>Which callback ends the wait\<close>

definition callback_target :: "connection \<Rightarrow> string option" where
  "callback_target c = (if cx_loopback c then read_request_target [] (cx_reads c) else None)"

definition answers :: "(string \<Rightarrow> (string \<times> string) list) \<Rightarrow> string \<Rightarrow> string + connection \<Rightarrow> bool" where
  "answers form_parse expected accept =
     (case accept of Inl _ \<Rightarrow> False
      | Inr c \<Rightarrow> (case callback_target c of None \<Rightarrow> False
          | Some target \<Rightarrow> is_matching_callback form_parse target expected))"

lemma parse_request_target_graphic:
  "parse_request_target head = Some target \<Longrightarrow> list_all is_ascii_graphic target \<and> prefix ''/'' target"
  by (auto simp: parse_request_target_def Let_def split: option.splits list.splits if_splits)

lemma read_request_target_graphic:
  "read_request_target head reads = Some target \<Longrightarrow> list_all is_ascii_graphic target"
proof (induction head reads rule: read_request_target.induct)
  case (1 head reads)
  from "1.prems" show ?case
    by (subst (asm) read_request_target.simps)
      (auto split: if_splits list.splits option.splits dest: parse_request_target_graphic "1.IH")
qed

lemma serve_skips:
  assumes "\<not> answers form_parse expected (Inr c)"
    and "serve_connections form_parse port expected (Suc left) (Inr c # rest) = (r, written)"
  obtains ws where "serve_connections form_parse port expected left rest = (r, ws)"
    "set written \<subseteq> {response 400 ''Bad Request'' [], response 404 ''Not Found'' []} \<union> set ws"
    "set ws \<subseteq> set written"
proof (cases "serve_connections form_parse port expected left rest")
  case (Pair q ws)
  with assms show thesis
    by (intro that [of ws])
      (auto simp: answers_def callback_target_def split: if_splits option.splits)
qed

lemma serve_ends:
  "answers form_parse expected (Inr c) \<Longrightarrow> callback_target c = Some target \<Longrightarrow>
     serve_connections form_parse port expected (Suc left) (Inr c # rest)
       = (Inr (''http://127.0.0.1:'' @ show_nat port @ target), [response 200 ''OK'' DONE_PAGE])"
  by (auto simp: answers_def callback_target_def split: if_splits)

lemma serve_Inr:
  assumes "serve_connections form_parse port expected left accepts = (Inr url, written)"
  shows "\<exists>before c rest target. accepts = before @ Inr c # rest \<and> length before < left
    \<and> list_all (\<lambda>a. \<not> isl a \<and> \<not> answers form_parse expected a) before
    \<and> callback_target c = Some target \<and> is_matching_callback form_parse target expected
    \<and> url = ''http://127.0.0.1:'' @ show_nat port @ target"
  using assms
proof (induction left arbitrary: accepts written)
  case 0
  then show ?case by (cases accepts) auto
next
  case (Suc left)
  then obtain c rest where a: "accepts = Inr c # rest"
    by (cases accepts) (auto split: sum.splits)
  show ?case
  proof (cases "answers form_parse expected (Inr c)")
    case True
    then obtain target where "callback_target c = Some target" "is_matching_callback form_parse target expected"
      by (auto simp: answers_def split: option.splits)
    with Suc.prems a serve_ends [OF True this(1)] show ?thesis by (intro exI [of _ "[]"]) auto
  next
    case False
    from serve_skips [OF False Suc.prems [unfolded a]] obtain ws where
      "serve_connections form_parse port expected left rest = (Inr url, ws)" by blast
    from Suc.IH [OF this] obtain before c' rest' target where
      "rest = before @ Inr c' # rest' \<and> length before < left
        \<and> list_all (\<lambda>a. \<not> isl a \<and> \<not> answers form_parse expected a) before
        \<and> callback_target c' = Some target \<and> is_matching_callback form_parse target expected
        \<and> url = ''http://127.0.0.1:'' @ show_nat port @ target"
      by blast
    with a False show ?thesis by (intro exI [of _ "Inr c # before"]) auto
  qed
qed

lemma serve_reaches:
  assumes "list_all (\<lambda>a. \<not> isl a \<and> \<not> answers form_parse expected a) before" and "length before < left"
    and "callback_target c = Some target" and "is_matching_callback form_parse target expected"
  shows "fst (serve_connections form_parse port expected left (before @ Inr c # rest))
    = Inr (''http://127.0.0.1:'' @ show_nat port @ target)"
  using assms(1,2)
proof (induction before arbitrary: left)
  case Nil
  have "answers form_parse expected (Inr c)" using assms(3,4) by (simp add: answers_def)
  with Nil serve_ends [OF this assms(3)] show ?case by (cases left) auto
next
  case (Cons a before)
  then obtain d k where a: "a = Inr d" "left = Suc k" "\<not> answers form_parse expected (Inr d)"
    by (cases a; cases left) auto
  obtain r written where run:
    "serve_connections form_parse port expected (Suc k) (Inr d # before @ Inr c # rest) = (r, written)"
    by fastforce
  from serve_skips [OF a(3) run] obtain ws where
    "serve_connections form_parse port expected k (before @ Inr c # rest) = (r, ws)" by blast
  with Cons.IH [of k] Cons.prems a run show ?case by simp
qed

lemma serve_written:
  "set (snd (serve_connections form_parse port expected left accepts)) \<subseteq>
    {response 200 ''OK'' DONE_PAGE, response 400 ''Bad Request'' [], response 404 ''Not Found'' []}"
  by (induction form_parse port expected left accepts rule: serve_connections.induct)
    (auto split: option.splits sum.splits if_splits)

section \<open>The request that ends the wait, in its own terms\<close>

text \<open>
  The specification of the callback names none of the listener's functions. The reads deliver a
  head when they all succeed with bytes, the end of the head comes with the last of them, and
  every shorter head was below the bound; the head is a callback for a target when its first
  line is a \<open>GET\<close> of that target under HTTP/1, the target is printable ASCII and the root path
  with a query, and the query has the one \<open>state\<close>, the expected one.
\<close>

definition delivers :: "string option list \<Rightarrow> string \<Rightarrow> bool" where
  "delivers reads head \<longleftrightarrow> (\<exists>chunks rest. reads = map Some chunks @ rest \<and> [] \<notin> set chunks
     \<and> head = concat chunks \<and> sublist (CRLF @ CRLF) head
     \<and> (\<forall>k < length chunks. \<not> sublist (CRLF @ CRLF) (concat (take k chunks))
          \<and> length (concat (take k chunks)) < 8192))"

definition one_state :: "(string \<times> string) list \<Rightarrow> string \<Rightarrow> bool" where
  "one_state pairs expected \<longleftrightarrow> (\<exists>before after. pairs = before @ (''state'', expected) # after
     \<and> ''state'' \<notin> fst ` set (before @ after))"

definition callback_head ::
    "(string \<Rightarrow> (string \<times> string) list) \<Rightarrow> string \<Rightarrow> string \<Rightarrow> string \<Rightarrow> bool" where
  "callback_head form_parse expected target head \<longleftrightarrow> (\<exists>query version line rest.
     head = line @ CRLF @ rest \<and> line = ''GET '' @ target @ '' '' @ version
     \<and> \<not> sublist CRLF line \<and> utf8_valid line
     \<and> prefix ''HTTP/1.'' version \<and> CHR 0x20 \<notin> set version
     \<and> target = ''/?'' @ query \<and> (\<forall>c \<in> set target. 0x21 \<le> byte c \<and> byte c \<le> 0x7E)
     \<and> one_state (form_parse query) expected)"

definition calls_back ::
    "(string \<Rightarrow> (string \<times> string) list) \<Rightarrow> string \<Rightarrow> connection \<Rightarrow> string \<Rightarrow> bool" where
  "calls_back form_parse expected c target \<longleftrightarrow>
     cx_loopback c \<and> (\<exists>head. delivers (cx_reads c) head \<and> callback_head form_parse expected target head)"

lemma split_on_single: "split_on p s = [w] \<longleftrightarrow> s = w \<and> (\<forall>c \<in> set w. \<not> p c)"
proof (induction s arbitrary: w)
  case (Cons c s)
  have step: "split_on p (c # s) = [w] \<longleftrightarrow> \<not> p c \<and> (\<exists>v. w = c # v \<and> split_on p s = [v])"
    by (cases "split_on p s") auto
  show ?case unfolding step Cons.IH by (cases w) auto
qed auto

lemma split_on_Cons2:
  "split_on p s = w # v # ws \<longleftrightarrow>
     (\<exists>c r. s = w @ c # r \<and> p c \<and> (\<forall>d \<in> set w. \<not> p d) \<and> split_on p r = v # ws)"
proof (induction s arbitrary: w)
  case (Cons c s)
  show ?case
  proof (cases "p c")
    case True
    then show ?thesis by (cases w) auto
  next
    case False
    have "split_on p (c # s) = w # v # ws \<longleftrightarrow> (\<exists>w'. w = c # w' \<and> split_on p s = w' # v # ws)"
      using False by (auto split: list.splits)
    also have "\<dots> \<longleftrightarrow> (\<exists>w' d r. w = c # w' \<and> s = w' @ d # r \<and> p d \<and> (\<forall>e \<in> set w'. \<not> p e)
        \<and> split_on p r = v # ws)"
      by (simp add: Cons.IH)
    also have "\<dots> \<longleftrightarrow> (\<exists>d r. c # s = w @ d # r \<and> p d \<and> (\<forall>e \<in> set w. \<not> p e) \<and> split_on p r = v # ws)"
      using False by (cases w) auto
    finally show ?thesis .
  qed
qed auto

lemma split_char_three:
  "split_char d line = [m, t, v] \<longleftrightarrow> line = m @ d # t @ d # v \<and> d \<notin> set m \<and> d \<notin> set t \<and> d \<notin> set v"
  by (auto simp: split_char_def split_on_Cons2 split_on_single)

lemma find_str_first: "find_str pat s = Some i \<Longrightarrow> pat \<noteq> [] \<Longrightarrow> \<not> sublist pat (take i s)"
proof (induction s arbitrary: i)
  case (Cons c s)
  show ?case
  proof (cases "prefix pat (c # s)")
    case False
    with Cons.prems obtain j where j: "i = Suc j" "find_str pat s = Some j" by auto
    have "\<not> prefix pat (c # take j s)"
      using False prefix_order.trans [of pat "c # take j s" "c # s"] take_is_prefix [of j s] by auto
    with j Cons.IH [OF j(2) Cons.prems(2)] show ?thesis by (simp add: sublist_Cons_right)
  qed (use Cons.prems in auto)
qed auto

lemma find_CRLF:
  "find_str CRLF head = Some i \<longleftrightarrow>
     (\<exists>line rest. head = line @ CRLF @ rest \<and> length line = i \<and> \<not> sublist CRLF line)"
proof
  assume f: "find_str CRLF head = Some i"
  then obtain rest where "drop i head = CRLF @ rest" "i \<le> length head"
    using find_str_Some unfolding prefix_def by blast
  then have "head = take i head @ CRLF @ rest" by (metis append_take_drop_id)
  moreover have "\<not> sublist CRLF (take i head)" using find_str_first [OF f] by (simp add: CRLF_def)
  ultimately show "\<exists>line rest. head = line @ CRLF @ rest \<and> length line = i \<and> \<not> sublist CRLF line"
    using \<open>i \<le> length head\<close> by (intro exI [of _ "take i head"] exI [of _ rest]) simp
next
  have "find_str CRLF (line @ CRLF @ rest) = Some (length line)" if "\<not> sublist CRLF line" for line rest
    using that
  proof (induction line)
    case Nil
    then show ?case by (simp add: CRLF_def)
  next
    case (Cons c line)
    have "\<not> prefix CRLF (c # line @ CRLF @ rest)"
      using Cons.prems by (cases line) (auto simp: CRLF_def sublist_Cons_right)
    with Cons show ?case by (simp add: sublist_Cons_right)
  qed
  then show "\<exists>line rest. head = line @ CRLF @ rest \<and> length line = i \<and> \<not> sublist CRLF line \<Longrightarrow>
      find_str CRLF head = Some i" by blast
qed

lemma parse_request_target_iff:
  "parse_request_target head = Some target \<longleftrightarrow> (\<exists>version line rest.
     head = line @ CRLF @ rest \<and> line = ''GET '' @ target @ '' '' @ version
     \<and> \<not> sublist CRLF line \<and> utf8_valid line
     \<and> prefix ''HTTP/1.'' version \<and> CHR 0x20 \<notin> set version
     \<and> prefix ''/'' target \<and> list_all is_ascii_graphic target)"
  (is "_ \<longleftrightarrow> ?spec")
proof
  assume p: "parse_request_target head = Some target"
  then obtain i where i: "find_str CRLF head = Some i"
    by (auto simp: parse_request_target_def split: option.splits)
  then obtain line rest where l: "head = line @ CRLF @ rest" "length line = i" "\<not> sublist CRLF line"
    using find_CRLF by blast
  have "take i head = line" using l by simp
  with p i obtain m v where "split_char CHR 0x20 line = [m, target, v]" "m = ''GET''"
    "prefix ''HTTP/1.'' v" "utf8_valid line" "prefix ''/'' target" "list_all is_ascii_graphic target"
    by (auto simp: parse_request_target_def Let_def split: option.splits list.splits if_splits)
  with l show ?spec by (auto simp: split_char_three)
next
  assume ?spec
  then obtain version line rest where h: "head = line @ CRLF @ rest"
    and line: "line = ''GET'' @ CHR 0x20 # target @ CHR 0x20 # version"
    and ok: "\<not> sublist CRLF line" "utf8_valid line" "prefix ''HTTP/1.'' version"
      "CHR 0x20 \<notin> set version" "prefix ''/'' target" "list_all is_ascii_graphic target"
    by auto
  have "CHR 0x20 \<notin> set target" using ok(6) by (auto simp: list_all_iff is_ascii_graphic_def)
  then have "split_char CHR 0x20 line = [''GET'', target, version]"
    using ok(4) unfolding split_char_three line by simp
  moreover have "find_str CRLF head = Some (length line)" using h ok(1) find_CRLF by blast
  ultimately show "parse_request_target head = Some target"
    using h ok by (simp add: parse_request_target_def)
qed

lemma is_matching_callback_iff:
  "is_matching_callback form_parse target expected \<longleftrightarrow>
     (\<exists>query. target = ''/?'' @ query \<and> one_state (form_parse query) expected)"
proof -
  have one: "map snd (filter (\<lambda>(name, _). name = ''state'') pairs) = [x] \<longleftrightarrow> one_state pairs x" for pairs x
  proof
    assume "map snd (filter (\<lambda>(name, _). name = ''state'') pairs) = [x]"
    then have "filter (\<lambda>(name, _). name = ''state'') pairs = (''state'', x) # []"
      by (auto simp: map_eq_Cons_conv filter_eq_Cons_iff)
    then obtain us vs where "pairs = us @ (''state'', x) # vs" "\<forall>u \<in> set us. fst u \<noteq> ''state''"
      "\<forall>v \<in> set vs. fst v \<noteq> ''state''"
      unfolding filter_eq_Cons_iff by (auto simp: filter_empty_conv split_beta eq_commute [of "[]"])
    then show "one_state pairs x"
      unfolding one_state_def by (intro exI [of _ us] exI [of _ vs]) auto
  next
    assume "one_state pairs x"
    moreover have "filter (\<lambda>(name, _). name = ''state'') ps = []" if "''state'' \<notin> fst ` set ps"
      for ps :: "(string \<times> string) list"
      using that by (force simp: filter_empty_conv)
    ultimately show "map snd (filter (\<lambda>(name, _). name = ''state'') pairs) = [x]"
      by (auto simp: one_state_def image_Un)
  qed
  have "is_matching_callback form_parse target expected \<longleftrightarrow> prefix ''/?'' target
      \<and> map snd (filter (\<lambda>(name, _). name = ''state'') (form_parse (drop 2 target))) = [expected]"
    by (auto simp: is_matching_callback_def split: list.splits)
  then show ?thesis unfolding one by (auto simp: prefix_def)
qed

lemma read_request_target_iff:
  "read_request_target got reads = Some target \<longleftrightarrow> (\<exists>chunks rest. reads = map Some chunks @ rest
     \<and> [] \<notin> set chunks \<and> sublist (CRLF @ CRLF) (got @ concat chunks)
     \<and> (\<forall>k < length chunks. \<not> sublist (CRLF @ CRLF) (got @ concat (take k chunks))
          \<and> length (got @ concat (take k chunks)) < 8192)
     \<and> parse_request_target (got @ concat chunks) = Some target)"
  (is "_ \<longleftrightarrow> (\<exists>chunks rest. ?read got reads chunks rest)")
proof (induction got reads rule: read_request_target.induct)
  case (1 got reads)
  consider (whole) "sublist (CRLF @ CRLF) got"
    | (long) "\<not> sublist (CRLF @ CRLF) got" "length got \<ge> 8192"
    | (more) "\<not> sublist (CRLF @ CRLF) got" "length got < 8192" by linarith
  then show ?case
  proof cases
    case whole
    have "?read got reads chunks rest \<longleftrightarrow>
        chunks = [] \<and> rest = reads \<and> parse_request_target got = Some target" for chunks rest
      using whole by (cases chunks) auto
    then show ?thesis using whole
      by (subst read_request_target.simps) (simp add: contains_str_iff)
  next
    case long
    have "\<not> ?read got reads chunks rest" for chunks rest
      using long by (cases chunks) auto
    with long show ?thesis
      by (subst read_request_target.simps) (auto simp: contains_str_iff MAX_REQUEST_HEAD_def)
  next
    case more
    show ?thesis
    proof (cases "\<exists>chunk rest. reads = Some chunk # rest \<and> chunk \<noteq> []")
      case True
      then obtain chunk tail where r: "reads = Some chunk # tail" "chunk \<noteq> []" by blast
      have step: "read_request_target got reads = read_request_target (got @ chunk) tail"
        using more r by (subst read_request_target.simps) (simp add: contains_str_iff MAX_REQUEST_HEAD_def)
      have IH: "read_request_target (got @ chunk) tail = Some target \<longleftrightarrow>
          (\<exists>chunks rest. ?read (got @ chunk) tail chunks rest)"
        using more r by (intro "1.IH") (auto simp: contains_str_iff MAX_REQUEST_HEAD_def)
      have shift: "?read (got @ chunk) tail chunks rest \<longleftrightarrow> ?read got reads (chunk # chunks) rest"
        for chunks rest
        using more r by (auto simp: All_less_Suc2)
      have first: "\<exists>chunks'. chunks = chunk # chunks'" if "?read got reads chunks rest" for chunks rest
        using that more r by (cases chunks) auto
      show ?thesis unfolding step IH shift using first by blast
    next
      case False
      have "\<not> ?read got reads chunks rest" for chunks rest
        using more False by (cases chunks) auto
      moreover have "read_request_target got reads = None"
        using more False by (subst read_request_target.simps)
          (auto simp: contains_str_iff MAX_REQUEST_HEAD_def split: list.splits option.splits)
      ultimately show ?thesis by (simp only: option.distinct simp_thms)
    qed
  qed
qed

lemma calls_back_iff:
  "calls_back form_parse expected c target \<longleftrightarrow>
     callback_target c = Some target \<and> is_matching_callback form_parse target expected"
proof -
  have graphic: "list_all is_ascii_graphic t \<longleftrightarrow> (\<forall>c \<in> set t. 0x21 \<le> byte c \<and> byte c \<le> 0x7E)" for t
    by (simp add: list_all_iff is_ascii_graphic_def)
  have head: "callback_head form_parse expected target head \<longleftrightarrow>
      parse_request_target head = Some target \<and> is_matching_callback form_parse target expected" for head
    unfolding callback_head_def parse_request_target_iff is_matching_callback_iff graphic by auto
  have "read_request_target [] (cx_reads c) = Some target \<longleftrightarrow>
      (\<exists>head. delivers (cx_reads c) head \<and> parse_request_target head = Some target)"
    unfolding delivers_def read_request_target_iff [of "[]"] append_Nil by blast
  then show ?thesis unfolding calls_back_def head callback_target_def by auto
qed

lemma answers_iff:
  "answers form_parse expected accept \<longleftrightarrow> (\<exists>c target. accept = Inr c \<and> calls_back form_parse expected c target)"
  by (auto simp: answers_def calls_back_iff split: sum.splits option.splits)

text \<open>
  C30. The wait ends with a URL exactly when one of the first 32 accepted connections calls
  back, nothing before it having done so and no accept having failed: a loopback peer whose
  reads deliver a head within the bound, whose first line is a \<open>GET\<close> under HTTP/1 of the root
  path, with a query in which \<open>state\<close> occurs exactly once and is the expected one. So no forged,
  malformed or stray request consumes the session. The URL is the listener's own address
  followed by that target, and nothing written to any peer contains anything it sent. The
  conditions are written out over the bytes received, with no function of the listener.
\<close>

theorem loopback_answers_its_callback:
  assumes "wait_for_callback form_parse port expected accepts = (r, written)"
  shows "(r = Inr url \<longleftrightarrow> (\<exists>before c rest target. accepts = before @ Inr c # rest \<and> length before < 32
      \<and> (\<forall>a \<in> set before. \<exists>d. a = Inr d \<and> \<not> (\<exists>t. calls_back form_parse expected d t))
      \<and> calls_back form_parse expected c target
      \<and> url = ''http://127.0.0.1:'' @ show_nat port @ target))
    \<and> set written \<subseteq> {response 200 ''OK'' DONE_PAGE, response 400 ''Bad Request'' [],
        response 404 ''Not Found'' []}"
    (is "(_ \<longleftrightarrow> ?answered) \<and> _")
proof (intro conjI iffI)
  have run: "serve_connections form_parse port expected 32 accepts = (r, written)"
    using assms by (simp add: wait_for_callback_def MAX_CONNECTIONS_def)
  show "set written \<subseteq> {response 200 ''OK'' DONE_PAGE, response 400 ''Bad Request'' [],
      response 404 ''Not Found'' []}"
    using serve_written [of form_parse port expected 32 accepts] run by simp
  have quiet: "list_all (\<lambda>a. \<not> isl a \<and> \<not> answers form_parse expected a) before
      \<longleftrightarrow> (\<forall>a \<in> set before. \<exists>d. a = Inr d \<and> \<not> (\<exists>t. calls_back form_parse expected d t))" for before
    unfolding list_all_iff answers_iff by (intro ball_cong refl) (metis isl_def sum.exhaust sum.distinct(1) sum.inject(2))
  show ?answered if "r = Inr url"
    using serve_Inr [OF run [unfolded that]] unfolding quiet calls_back_iff by blast
  show "r = Inr url" if ?answered
  proof -
    from that obtain before c rest target where a: "accepts = before @ Inr c # rest"
      and b: "list_all (\<lambda>a. \<not> isl a \<and> \<not> answers form_parse expected a) before" "length before < 32"
        "callback_target c = Some target" "is_matching_callback form_parse target expected"
      and url: "url = ''http://127.0.0.1:'' @ show_nat port @ target"
      unfolding quiet calls_back_iff by blast
    from serve_reaches [OF b, of port rest] run show ?thesis unfolding a url by (simp only: fst_conv)
  qed
qed

definition sample_form :: "string \<Rightarrow> (string \<times> string) list" where
  "sample_form query = map (\<lambda>p. case split_char CHR ''='' p of [name, v] \<Rightarrow> (name, v) | _ \<Rightarrow> (p, []))
     (split_char CHR 0x26 query)"

definition sample_request :: "string \<Rightarrow> string + connection" where
  "sample_request target = Inr \<lparr>cx_loopback = True,
     cx_reads = [Some (''GET '' @ target @ '' HTTP/1.1'' @ CRLF), Some CRLF]\<rparr>"

lemma sample_wait:
  "wait_for_callback sample_form 4242 ''s'' [sample_request ''/?state=x'', sample_request ''/?state=s'']
    = (Inr ''http://127.0.0.1:4242/?state=s'', [response 404 ''Not Found'' [], response 200 ''OK'' DONE_PAGE])"
  by code_simp

theorem loopback_answers_its_callback_witness:
  "\<exists>before c rest target. [sample_request ''/?state=x'', sample_request ''/?state=s''] = before @ Inr c # rest
    \<and> calls_back sample_form ''s'' c target
    \<and> ''http://127.0.0.1:4242/?state=s'' = ''http://127.0.0.1:'' @ show_nat 4242 @ target"
  using loopback_answers_its_callback [OF sample_wait, THEN conjunct1, THEN iffD1, OF refl] by blast

end
