(* ===== verification/Gmail_Rest.thy ===== *)
theory Gmail_Rest
  imports Broker Sync_Core
begin

text \<open>
  The Gmail REST adapter (\<^verbatim>\<open>adapters/gmail-rest/src/lib.rs\<close>): bounded reads of a response, the
  mapping of statuses to errors, listing with hydration, fetching and decoding a message, and
  the token transport. The HTTP client, URL building, base64 and the JSON decoders that serde
  derives are not code of the repository; they are the fields of \<open>rest_port\<close>. An answer of the
  HTTP client is its status, the announced length and the chunks in order, \<open>None\<close> where
  reading fails.
\<close>

section \<open>Constants\<close>

definition BASE_URL :: string where "BASE_URL = ''https://gmail.googleapis.com/gmail/v1/users/me''"
definition JSON_LIMIT :: nat where "JSON_LIMIT = 2 * 1024 * 1024"
definition RAW_ENCODED_LIMIT :: nat where "RAW_ENCODED_LIMIT = (MAX_CONTENT_LEN + 2) div 3 * 4"
definition RAW_JSON_OVERHEAD :: nat where "RAW_JSON_OVERHEAD = 4 * 1024"
definition RAW_JSON_LIMIT :: nat where "RAW_JSON_LIMIT = RAW_ENCODED_LIMIT + RAW_JSON_OVERHEAD"
definition METADATA_FIELDS :: string where
  "METADATA_FIELDS = ''id,threadId,internalDate,labelIds,snippet,payload(headers)''"
definition RAW_FIELDS :: string where "RAW_FIELDS = ''id,threadId,raw''"
definition MAX_BEARER_TOKEN_LEN :: nat where "MAX_BEARER_TOKEN_LEN = 16 * 1024"
definition TOKEN_ENDPOINT :: string where "TOKEN_ENDPOINT = ''https://oauth2.googleapis.com/token''"
definition REVOKE_ENDPOINT :: string where "REVOKE_ENDPOINT = ''https://oauth2.googleapis.com/revoke''"
definition TOKEN_RESPONSE_LIMIT :: nat where "TOKEN_RESPONSE_LIMIT = 64 * 1024"

section \<open>What the provider answers\<close>

record listed_message =
  lm_id :: string
  lm_thread_id :: string

record gmail_list =
  gl_messages :: "listed_message list"
  gl_next_page_token :: "string option"

record gmail_header =
  gh_name :: string
  gh_value :: string

record gmail_metadata =
  gm_id :: string
  gm_thread_id :: string
  gm_internal_date :: string
  gm_label_ids :: "string list"
  gm_snippet :: string
  gm_headers :: "gmail_header list"

record gmail_raw =
  gr_id :: string
  gr_thread_id :: string
  gr_raw :: string

record token_response_body =
  tb_access_token :: string
  tb_expires_in :: nat
  tb_refresh_token :: "string option"
  tb_scope :: "string option"
  tb_id_token :: "string option"

datatype audience = AudienceOne string | AudienceMany "string list"

record id_token_payload =
  ip_sub :: string
  ip_aud :: audience
  ip_iss :: string
  ip_azp :: "string option"
  ip_iat :: nat
  ip_exp :: nat

record http_answer =
  ha_status :: nat
  ha_content_length :: "nat option"
  ha_chunks :: "string option list"

record 'w rest_port =
  rp_get :: "string \<Rightarrow> 'w \<Rightarrow> http_answer option \<times> 'w"
  rp_post :: "string \<Rightarrow> string \<Rightarrow> 'w \<Rightarrow> http_answer option \<times> 'w"
  rp_url :: "string \<Rightarrow> string list \<Rightarrow> (string \<times> string) list \<Rightarrow> string option"
  rp_form :: "(string \<times> string) list \<Rightarrow> string"
  rp_base64_no_pad :: "string \<Rightarrow> string option"
  rp_base64_padded :: "string \<Rightarrow> string option"
  rp_list :: "string \<Rightarrow> gmail_list option"
  rp_metadata :: "string \<Rightarrow> gmail_metadata option"
  rp_raw :: "string \<Rightarrow> gmail_raw option"
  rp_reasons :: "string \<Rightarrow> string list option"
  rp_token_body :: "string \<Rightarrow> token_response_body option"
  rp_id_token :: "string \<Rightarrow> id_token_payload option"
  rp_error :: "string \<Rightarrow> string option"

section \<open>Bounded reads\<close>

datatype transport_error = TR_Network | TR_InvalidResponse

fun into_mailbox_error :: "transport_error \<Rightarrow> remote_mailbox_error" where
  "into_mailbox_error TR_Network = Transport"
| "into_mailbox_error TR_InvalidResponse = InvalidResponse"

fun into_token_error :: "transport_error \<Rightarrow> token_transport_error" where
  "into_token_error TR_Network = TT_Transport"
| "into_token_error TR_InvalidResponse = TT_MalformedResponse"

record http_response =
  hr_status :: nat
  hr_body :: string

record bounded_body =
  bb_bytes :: string
  bb_limit :: nat

definition is_success :: "nat \<Rightarrow> bool" where
  "is_success status \<longleftrightarrow> 200 \<le> status \<and> status < 300"

definition body_limit :: "nat \<Rightarrow> nat \<Rightarrow> nat" where
  "body_limit status success_limit = (if is_success status then success_limit else JSON_LIMIT)"

definition reads_response_body :: "nat \<Rightarrow> bool" where
  "reads_response_body status \<longleftrightarrow> is_success status \<or> status = 403"

definition bounded_body_new :: "nat option \<Rightarrow> nat \<Rightarrow> transport_error + bounded_body" where
  "bounded_body_new content_length limit =
     (if (case content_length of Some n \<Rightarrow> n > limit | None \<Rightarrow> False)
      then Inl TR_InvalidResponse else Inr \<lparr>bb_bytes = [], bb_limit = limit\<rparr>)"

text \<open>\<open>checked_add\<close> on \<open>usize\<close>, then the limit.\<close>

definition bounded_push :: "string \<Rightarrow> bounded_body \<Rightarrow> transport_error + bounded_body" where
  "bounded_push chunk body =
     (let next = length (bb_bytes body) + length chunk
      in if next \<ge> 2 ^ 64 then Inl TR_InvalidResponse
         else if next > bb_limit body then Inl TR_InvalidResponse
         else Inr (body\<lparr>bb_bytes := bb_bytes body @ chunk\<rparr>))"

fun read_chunks :: "string option list \<Rightarrow> bounded_body \<Rightarrow> transport_error + bounded_body" where
  "read_chunks [] body = Inr body"
| "read_chunks (None # _) body = Inl TR_Network"
| "read_chunks (Some chunk # rest) body = rbind (bounded_push chunk body) (read_chunks rest)"

definition read_body :: "nat option \<Rightarrow> string option list \<Rightarrow> nat \<Rightarrow> transport_error + string" where
  "read_body content_length chunks limit =
     rbind (bounded_body_new content_length limit) (\<lambda>body. map_ok bb_bytes (read_chunks chunks body))"

definition transport_get ::
    "'w rest_port \<Rightarrow> string \<Rightarrow> nat \<Rightarrow> 'w \<Rightarrow> (transport_error + http_response) \<times> 'w" where
  "transport_get p url response_limit w =
     (case rp_get p url w of
        (None, w1) \<Rightarrow> (Inl TR_Network, w1)
      | (Some answer, w1) \<Rightarrow>
          let status = ha_status answer
          in (if \<not> reads_response_body status then Inr \<lparr>hr_status = status, hr_body = []\<rparr>
              else map_ok (\<lambda>body. \<lparr>hr_status = status, hr_body = body\<rparr>)
                (read_body (ha_content_length answer) (ha_chunks answer) (body_limit status response_limit)),
              w1))"

section \<open>Errors of the mailbox endpoint\<close>

definition error_reasons :: "'w rest_port \<Rightarrow> string \<Rightarrow> string list" where
  "error_reasons p bytes = (case rp_reasons p bytes of Some reasons \<Rightarrow> reasons | None \<Rightarrow> [])"

definition map_forbidden :: "'w rest_port \<Rightarrow> string \<Rightarrow> remote_mailbox_error" where
  "map_forbidden p bytes =
     (let reasons = error_reasons p bytes
      in if list_ex (\<lambda>reason. reason \<in> {''dailyLimitExceeded'', ''rateLimitExceeded'',
             ''userRateLimitExceeded'', ''quotaExceeded''}) reasons
         then RateLimited
         else if list_ex (\<lambda>reason. reason \<in> {''authError'', ''insufficientPermissions'',
             ''domainPolicy''}) reasons
         then AuthorizationRequired
         else InvalidResponse)"

definition map_status :: "'w rest_port \<Rightarrow> nat \<Rightarrow> string \<Rightarrow> remote_mailbox_error" where
  "map_status p status bytes =
     (if status = 401 then AuthorizationRequired
      else if status = 404 then NotFound
      else if status = 429 then RateLimited
      else if 500 \<le> status \<and> status \<le> 599 then Transport
      else if status = 403 then map_forbidden p bytes
      else InvalidResponse)"

section \<open>Requests\<close>

record request =
  rq_base :: string
  rq_segments :: "string list"
  rq_query :: "(string \<times> string) list"

definition list_request :: "page_size \<Rightarrow> page_token option \<Rightarrow> request" where
  "list_request limit token =
     \<lparr>rq_base = BASE_URL, rq_segments = [''messages''],
      rq_query = [(''maxResults'', show_nat (page_size_get limit)),
          (''fields'', ''messages(id,threadId),nextPageToken'')]
        @ (case token of Some t \<Rightarrow> [(''pageToken'', page_token_str t)] | None \<Rightarrow> [])\<rparr>"

datatype message_format = FormatMetadata | FormatRaw

fun format_query :: "message_format \<Rightarrow> (string \<times> string) list" where
  "format_query FormatMetadata =
     [(''format'', ''metadata''), (''metadataHeaders'', ''From''), (''metadataHeaders'', ''Subject''),
      (''fields'', METADATA_FIELDS)]"
| "format_query FormatRaw = [(''format'', ''raw''), (''fields'', RAW_FIELDS)]"

definition message_request :: "message_id \<Rightarrow> message_format \<Rightarrow> remote_mailbox_error + request" where
  "message_request i format =
     (if message_id_str i \<in> {''.'', ''..''} then Inl InvalidResponse
      else Inr \<lparr>rq_base = BASE_URL, rq_segments = [''messages'', message_id_str i],
        rq_query = format_query format\<rparr>)"

section \<open>The mailbox\<close>

definition validate_access_token :: "string \<Rightarrow> remote_mailbox_error + unit" where
  "validate_access_token token =
     (if token = [] \<or> length token > MAX_BEARER_TOKEN_LEN \<or> any_control token
      then Inl AuthorizationRequired else Inr ())"

text \<open>A mailbox is its account; the HTTP client that carries the token may fail to be built.\<close>

definition gmail_mailbox_new :: "bool \<Rightarrow> account_id \<Rightarrow> string \<Rightarrow> remote_mailbox_error + account_id" where
  "gmail_mailbox_new client_builds account token =
     rbind (validate_access_token token) (\<lambda>_.
       if client_builds then Inr account else Inl Transport)"

definition checked_mailbox_account :: "account_id \<Rightarrow> account_id \<Rightarrow> remote_mailbox_error + unit" where
  "checked_mailbox_account own account = (if own = account then Inr () else Inl AuthorizationRequired)"

definition request_json ::
    "'w rest_port \<Rightarrow> (string \<Rightarrow> 'a option) \<Rightarrow> remote_mailbox_error + request \<Rightarrow> nat \<Rightarrow> 'w
      \<Rightarrow> (remote_mailbox_error + 'a) \<times> 'w" where
  "request_json p decode req limit w =
     (case rbind req (\<lambda>r. ok_or InvalidResponse (rp_url p (rq_base r) (rq_segments r) (rq_query r))) of
        Inl err \<Rightarrow> (Inl err, w)
      | Inr url \<Rightarrow>
          (case transport_get p url limit w of
             (Inl err, w1) \<Rightarrow> (Inl (into_mailbox_error err), w1)
           | (Inr response, w1) \<Rightarrow>
               (if \<not> is_success (hr_status response)
                then Inl (map_status p (hr_status response) (hr_body response))
                else ok_or InvalidResponse (decode (hr_body response)), w1)))"

definition metadata ::
    "'w rest_port \<Rightarrow> message_id \<Rightarrow> 'w \<Rightarrow> (remote_mailbox_error + gmail_metadata) \<times> 'w" where
  "metadata p i = request_json p (rp_metadata p) (message_request i FormatMetadata) JSON_LIMIT"

text \<open>\<open>str::parse::<i64>\<close>: an optional sign, then one digit or more, within 64 bits.\<close>

definition digits_value :: "string \<Rightarrow> int" where
  "digits_value ds = foldl (\<lambda>n d. n * 10 + int (byte d - 48)) 0 ds"

definition parse_i64 :: "string \<Rightarrow> int option" where
  "parse_i64 s =
     (let (negative, ds) = (case s of c # rest \<Rightarrow>
            if c = CHR ''-'' then (True, rest) else if c = CHR ''+'' then (False, rest) else (False, s)
          | [] \<Rightarrow> (False, s));
          value = (if negative then - digits_value ds else digits_value ds)
      in if ds = [] \<or> \<not> list_all is_ascii_digit ds \<or> \<not> is_i64 value then None else Some value)"

fun read_headers ::
    "gmail_header list \<Rightarrow> string option \<Rightarrow> string option \<Rightarrow> remote_mailbox_error + (string option \<times> string option)" where
  "read_headers [] from subject = Inr (from, subject)"
| "read_headers (h # rest) from subject =
     (if eq_ignore_ascii_case (gh_name h) ''from'' then
        (if from \<noteq> None then Inl InvalidResponse else read_headers rest (Some (gh_value h)) subject)
      else if eq_ignore_ascii_case (gh_name h) ''subject'' then
        (if subject \<noteq> None then Inl InvalidResponse else read_headers rest from (Some (gh_value h)))
      else read_headers rest from subject)"

definition or_default :: "string option \<Rightarrow> string" where
  "or_default x = (case x of Some s \<Rightarrow> s | None \<Rightarrow> [])"

definition headers :: "gmail_header list \<Rightarrow> remote_mailbox_error + (string \<times> string)" where
  "headers hs = map_ok (map_prod or_default or_default) (read_headers hs None None)"

definition invalid :: "'e + 'a \<Rightarrow> remote_mailbox_error + 'a" where
  "invalid = map_err (\<lambda>_. InvalidResponse)"

definition envelope_from :: "gmail_metadata \<Rightarrow> message_id \<Rightarrow> remote_mailbox_error + message_envelope" where
  "envelope_from m expected_id =
     (if gm_id m \<noteq> message_id_str expected_id then Inl InvalidResponse
      else
        rbind (invalid (thread_id_new (gm_thread_id m))) (\<lambda>thread.
        rbind (rbind (ok_or InvalidResponse (parse_i64 (gm_internal_date m)))
            (\<lambda>value. invalid (unix_timestamp_new value))) (\<lambda>timestamp.
        rbind (headers (gm_headers m)) (\<lambda>(from, subject).
        rbind (invalid (header_text_new from)) (\<lambda>from.
        rbind (invalid (header_text_new subject)) (\<lambda>subject.
        rbind (invalid (header_text_new (gm_snippet m))) (\<lambda>preview.
          Inr \<lparr>env_message_id = expected_id, env_thread_id = thread, env_from = from,
            env_subject = subject, env_preview = preview, env_received_at = timestamp,
            env_unread = list_ex (\<lambda>label. label = ''UNREAD'') (gm_label_ids m)\<rparr>)))))))"

fun hydrate ::
    "'w rest_port \<Rightarrow> listed_message list \<Rightarrow> 'w \<Rightarrow> (remote_mailbox_error + message_envelope list) \<times> 'w" where
  "hydrate p [] w = (Inr [], w)"
| "hydrate p (listed # rest) w =
     (case rbind (invalid (message_id_new (lm_id listed))) (\<lambda>i.
           map_ok (\<lambda>thread. (i, thread)) (invalid (thread_id_new (lm_thread_id listed)))) of
        Inl err \<Rightarrow> (Inl err, w)
      | Inr (i, listed_thread) \<Rightarrow>
          (case metadata p i w of
             (Inl NotFound, w1) \<Rightarrow> hydrate p rest w1
           | (Inl err, w1) \<Rightarrow> (Inl err, w1)
           | (Inr m, w1) \<Rightarrow>
               (case envelope_from m i of
                  Inl err \<Rightarrow> (Inl err, w1)
                | Inr envelope \<Rightarrow>
                    if env_thread_id envelope \<noteq> listed_thread then (Inl InvalidResponse, w1)
                    else apfst (map_ok (\<lambda>envelopes. envelope # envelopes)) (hydrate p rest w1))))"

definition list_recent_envelopes :: "'w rest_port \<Rightarrow> account_id \<Rightarrow> 'w list_port" where
  "list_recent_envelopes p own w account limit page_token =
     (case checked_mailbox_account own account of
        Inl err \<Rightarrow> (Inl err, w)
      | Inr _ \<Rightarrow>
          (case request_json p (rp_list p) (Inr (list_request limit page_token)) JSON_LIMIT w of
             (Inl err, w1) \<Rightarrow> (Inl err, w1)
           | (Inr listing, w1) \<Rightarrow>
               if length (gl_messages listing) > page_size_get limit then (Inl InvalidResponse, w1)
               else
                 (case (case gl_next_page_token listing of
                     None \<Rightarrow> Inr None
                   | Some token \<Rightarrow> map_ok Some (invalid (page_token_new token))) of
                    Inl err \<Rightarrow> (Inl err, w1)
                  | Inr next \<Rightarrow>
                      apfst (map_ok (\<lambda>envelopes. Page envelopes next)) (hydrate p (gl_messages listing) w1))))"

definition decode_raw_with_limit :: "'w rest_port \<Rightarrow> string \<Rightarrow> nat \<Rightarrow> remote_mailbox_error + string" where
  "decode_raw_with_limit p encoded decoded_limit =
     (let encoded_limit = (decoded_limit + 2) div 3 * 4
      in if encoded_limit \<ge> 2 ^ 64 then Inl InvalidResponse
         else if length encoded > encoded_limit then Inl InvalidResponse
         else
           rbind (ok_or InvalidResponse (case rp_base64_no_pad p encoded of
               Some decoded \<Rightarrow> Some decoded | None \<Rightarrow> rp_base64_padded p encoded)) (\<lambda>decoded.
             if length decoded > decoded_limit then Inl InvalidResponse else Inr decoded))"

definition fetch_message :: "'w rest_port \<Rightarrow> account_id \<Rightarrow> 'w fetch_port" where
  "fetch_message p own w account i =
     (case checked_mailbox_account own account of
        Inl err \<Rightarrow> (Inl err, w)
      | Inr _ \<Rightarrow>
          (case metadata p i w of
             (Inl err, w1) \<Rightarrow> (Inl err, w1)
           | (Inr m, w1) \<Rightarrow>
               (case envelope_from m i of
                  Inl err \<Rightarrow> (Inl err, w1)
                | Inr envelope \<Rightarrow>
                    (case request_json p (rp_raw p) (message_request i FormatRaw) RAW_JSON_LIMIT w1 of
                       (Inl err, w2) \<Rightarrow> (Inl err, w2)
                     | (Inr raw, w2) \<Rightarrow>
                         (if gr_id raw \<noteq> message_id_str i
                             \<or> gr_thread_id raw \<noteq> thread_id_str (env_thread_id envelope)
                          then Inl InvalidResponse
                          else
                            rbind (decode_raw_with_limit p (gr_raw raw) MAX_CONTENT_LEN) (\<lambda>content.
                            map_ok (\<lambda>content. \<lparr>msg_envelope = envelope, msg_content = content\<rparr>)
                              (invalid (message_content_new content))), w2)))))"

section \<open>The token transport\<close>

definition transport_post ::
    "'w rest_port \<Rightarrow> string \<Rightarrow> string \<Rightarrow> 'w \<Rightarrow> (transport_error + http_response) \<times> 'w" where
  "transport_post p endpoint form w =
     (case rp_post p endpoint form w of
        (None, w1) \<Rightarrow> (Inl TR_Network, w1)
      | (Some answer, w1) \<Rightarrow>
          (map_ok (\<lambda>body. \<lparr>hr_status = ha_status answer, hr_body = body\<rparr>)
            (read_body (ha_content_length answer) (ha_chunks answer) TOKEN_RESPONSE_LIMIT), w1))"

definition decode_b64url_segment :: "'w rest_port \<Rightarrow> string \<Rightarrow> token_transport_error + string" where
  "decode_b64url_segment p segment =
     (if segment = [] then Inl TT_MalformedResponse
      else ok_or TT_MalformedResponse (rp_base64_no_pad p segment))"

fun audiences_of :: "audience \<Rightarrow> string list" where
  "audiences_of (AudienceOne a) = [a]"
| "audiences_of (AudienceMany as) = as"

definition parse_id_token_claims :: "'w rest_port \<Rightarrow> string \<Rightarrow> token_transport_error + id_token_claims" where
  "parse_id_token_claims p id_token =
     (case split_char CHR ''.'' id_token of
        [header, payload, signature] \<Rightarrow>
          rbind (decode_b64url_segment p header) (\<lambda>_.
          rbind (decode_b64url_segment p signature) (\<lambda>_.
          rbind (decode_b64url_segment p payload) (\<lambda>bytes.
          rbind (ok_or TT_MalformedResponse (rp_id_token p bytes)) (\<lambda>t.
            Inr \<lparr>ic_subject = ip_sub t, ic_audiences = audiences_of (ip_aud t), ic_issuer = ip_iss t,
              ic_authorized_party = ip_azp t, ic_issued_at = ip_iat t, ic_expires_at = ip_exp t\<rparr>))))
      | _ \<Rightarrow> Inl TT_MalformedResponse)"

definition parse_token_response :: "'w rest_port \<Rightarrow> string \<Rightarrow> token_transport_error + token_response" where
  "parse_token_response p bytes =
     rbind (ok_or TT_MalformedResponse (rp_token_body p bytes)) (\<lambda>parsed.
       let gmail_read_granted = (case tb_scope parsed of None \<Rightarrow> True | Some scope \<Rightarrow>
             list_ex (\<lambda>granted. granted = GMAIL_READONLY_SCOPE) (split_ascii_whitespace scope))
       in rbind (case tb_id_token parsed of
             Some id_token \<Rightarrow>
               if gmail_read_granted then map_ok Some (parse_id_token_claims p id_token) else Inr None
           | None \<Rightarrow> Inr None) (\<lambda>claims.
         Inr \<lparr>tr_access_token = tb_access_token parsed,
           tr_expires_in = tb_expires_in parsed * NANOS_PER_SEC,
           tr_rotated_refresh_token = tb_refresh_token parsed, tr_id_token_claims = claims,
           tr_gmail_read_granted = gmail_read_granted\<rparr>))"

definition map_error_response :: "'w rest_port \<Rightarrow> string \<Rightarrow> token_transport_error" where
  "map_error_response p bytes =
     (case rp_error p bytes of
        Some err \<Rightarrow> if err = ''invalid_grant'' then TT_InvalidGrant else TT_ProviderRejected
      | None \<Rightarrow> TT_MalformedResponse)"

definition map_revoke_error_response :: "'w rest_port \<Rightarrow> string \<Rightarrow> token_transport_error" where
  "map_revoke_error_response p bytes =
     (case rp_error p bytes of
        Some err \<Rightarrow>
          if err = ''invalid_token'' then TT_InvalidToken
          else if err = ''invalid_grant'' then TT_InvalidGrant
          else TT_ProviderRejected
      | None \<Rightarrow> TT_MalformedResponse)"

definition post_token ::
    "'w rest_port \<Rightarrow> (string \<times> string) list \<Rightarrow> 'w \<Rightarrow> (token_transport_error + token_response) \<times> 'w" where
  "post_token p parameters w =
     (case transport_post p TOKEN_ENDPOINT (rp_form p parameters) w of
        (Inl err, w1) \<Rightarrow> (Inl (into_token_error err), w1)
      | (Inr response, w1) \<Rightarrow>
          (if hr_status response = 200 then parse_token_response p (hr_body response)
           else Inl (map_error_response p (hr_body response)), w1))"

definition gmail_exchange :: "'w rest_port \<Rightarrow> ('w, exchange_request) token_port" where
  "gmail_exchange p r = post_token p (exchange_parameters r)"

definition gmail_refresh :: "'w rest_port \<Rightarrow> ('w, refresh_request) token_port" where
  "gmail_refresh p r = post_token p (refresh_parameters r)"

definition gmail_revoke :: "'w rest_port \<Rightarrow> string \<Rightarrow> 'w \<Rightarrow> (token_transport_error + unit) \<times> 'w" where
  "gmail_revoke p token w =
     (case transport_post p REVOKE_ENDPOINT (rp_form p [(''token'', token)]) w of
        (Inl err, w1) \<Rightarrow> (Inl (into_token_error err), w1)
      | (Inr response, w1) \<Rightarrow>
          (if hr_status response = 200 then Inr ()
           else Inl (map_revoke_error_response p (hr_body response)), w1))"

end
