(* ===== verification/Flows.thy ===== *)
theory Flows
  imports Installation Loopback Gmail_Rest Sync_Gate
begin

text \<open>
  The account flows of one unlocked installation (\<^verbatim>\<open>adapters/sync-runtime/src/flows.rs\<close>,
  \<^verbatim>\<open>session.rs\<close>): adding an account by browser sign-in, synchronising it, and removing it. This
  is where the broker, the installation's stores, the Gmail adapter, the identity gate and the
  loopback listener meet. The world is the broker's, its environment the installation. What
  remains outside is in \<open>flow_ports\<close>: binding the listener, what reaches it before
  the deadline, the browser, and the HTTP exchanges.
\<close>

section \<open>Errors\<close>

datatype gmail_session_error = GS_Subject broker_subject_error | GS_Mailbox remote_mailbox_error

fun gmail_session_error_text :: "gmail_session_error \<Rightarrow> string" where
  "gmail_session_error_text (GS_Subject _) = ''the account subject is unusable''"
| "gmail_session_error_text (GS_Mailbox _) = ''the mailbox surface could not be built''"

fun gated_sync_error_text :: "gated_sync_error \<Rightarrow> string" where
  "gated_sync_error_text (GatedGate _) = ''the account-identity gate blocked the sync''"
| "gated_sync_error_text (GatedSync _) = ''the bounded sync failed''"

datatype flow_error =
    FE_Configuration
  | FE_AccountLimit
  | FE_Loopback loopback_error
  | FE_Token broker_error
  | FE_UnknownAccount
  | FE_Installation installation_error
  | FE_Session gmail_session_error
  | FE_Sync gated_sync_error

fun flow_error_text :: "flow_error \<Rightarrow> string" where
  "flow_error_text FE_Configuration =
     ''the Google OAuth client is not configured correctly (see `tersa doctor`)''"
| "flow_error_text FE_AccountLimit = ''the maximum number of accounts is reached''"
| "flow_error_text (FE_Loopback err) = loopback_error_text err"
| "flow_error_text (FE_Token err) =
     (if err \<in> {BE_ConsentRevoked, BE_MissingRefreshToken}
      then ''access was revoked; remove and add the account again''
      else broker_error_text err)"
| "flow_error_text FE_UnknownAccount = ''no such account''"
| "flow_error_text (FE_Installation err) = installation_error_text err"
| "flow_error_text (FE_Session err) = gmail_session_error_text err"
| "flow_error_text (FE_Sync err) = gated_sync_error_text err"

datatype revocation = Confirmed | Unconfirmed

record added_account =
  ad_account :: account_id
  ad_already_present :: bool
  ad_first_sync :: "flow_error + sync_report"

section \<open>The runtime\<close>

definition SESSION_TTL :: duration where "SESSION_TTL = 10 * 60 * NANOS_PER_SEC"

type_synonym inst_world = "installation conn bworld"
type_synonym ('e, 'a) inst_flow = "inst_world \<Rightarrow> ('e + 'a) \<times> inst_world"

record flow_ports =
  fp_bind :: "(loopback_error, nat) inst_flow"
  fp_accepts :: "nat \<Rightarrow> inst_world \<Rightarrow> (string + connection) list \<times> inst_world"
  fp_form_parse :: "string \<Rightarrow> (string \<times> string) list"
  fp_open_browser :: "string \<Rightarrow> inst_world \<Rightarrow> inst_world"
  fp_client_builds :: bool
  fp_post :: "inst_world rest_port"
  fp_rest :: "string \<Rightarrow> inst_world rest_port"

text \<open>
  The broker's ports in a runtime: the token transport is Gmail's, the token store the
  installation's; clocks, randomness, hashing and URL functions are left as given.
\<close>

definition runtime_ports ::
    "inst_env \<Rightarrow> flow_ports \<Rightarrow> installation conn broker_ports \<Rightarrow> installation conn broker_ports" where
  "runtime_ports env fp p =
     p\<lparr>bp_exchange := gmail_exchange (fp_post fp), bp_refresh := gmail_refresh (fp_post fp),
       bp_revoke := gmail_revoke (fp_post fp), bp_store := tokens_store env,
       bp_load := tokens_load env, bp_delete := tokens_delete env\<rparr>"

definition runtime_new :: "bool \<Rightarrow> string \<Rightarrow> string option \<Rightarrow> flow_error + broker_config" where
  "runtime_new transport_builds client_id client_secret =
     (if \<not> transport_builds then Inl FE_Configuration
      else map_err (\<lambda>_. FE_Configuration) (broker_new client_id client_secret SESSION_TTL))"

definition flow_bind ::
    "('e, 'a) inst_flow \<Rightarrow> ('a \<Rightarrow> ('e, 'b) inst_flow) \<Rightarrow> ('e, 'b) inst_flow" where
  "flow_bind m f w = (case m w of (Inl err, w1) \<Rightarrow> (Inl err, w1) | (Inr a, w1) \<Rightarrow> f a w1)"

definition flow_result :: "'e + 'a \<Rightarrow> ('e, 'a) inst_flow" where
  "flow_result r w = (r, w)"

definition flow_err :: "('e \<Rightarrow> 'f) \<Rightarrow> ('e, 'a) inst_flow \<Rightarrow> ('f, 'a) inst_flow" where
  "flow_err g m w = apfst (map_err g) (m w)"

text \<open>A call of the installation, its error converted by \<open>From\<close>.\<close>

definition inst_call :: "'a inst_op \<Rightarrow> (flow_error, 'a) inst_flow" where
  "inst_call m = flow_err FE_Installation (on_env m)"

text \<open>A call of the account's open store.\<close>

definition store_call ::
    "inst_env \<Rightarrow> account_id \<Rightarrow> 'a store_op \<Rightarrow> (mailbox_store_error, 'a) inst_flow" where
  "store_call env account m =
     on_env (on_part (store_tables (account_dir env account)) (set_store_tables (account_dir env account)) m)"

section \<open>Synchronising with a token\<close>

text \<open>\<open>GmailSession::new\<close>: the subject and the mailbox of one reply.\<close>

definition gmail_session_new ::
    "bool \<Rightarrow> account_id \<Rightarrow> string \<Rightarrow> string \<Rightarrow> gmail_session_error + (account_id \<times> account_subject)" where
  "gmail_session_new client_builds account token subject =
     rbind (map_err GS_Subject (from_broker_validated subject)) (\<lambda>subject.
     rbind (map_err GS_Mailbox (gmail_mailbox_new client_builds account token)) (\<lambda>mailbox.
       Inr (mailbox, subject)))"

text \<open>
  Four pages of 25, 100 envelopes kept, 25 bodies; the constructors cannot refuse these, as
  \<open>default_sync_policy_valid\<close> shows.
\<close>

definition default_sync_policy :: sync_policy where
  "default_sync_policy = \<lparr>sp_page_size = PageSize 25, sp_max_pages = 4,
     sp_keep_limit = StoreLimit 100, sp_full_body_limit = StoreLimit 25\<rparr>"

lemma default_sync_policy_valid:
  "rbind (map_err (\<lambda>_. ()) (page_size_new 25)) (\<lambda>page_size.
   rbind (map_err (\<lambda>_. ()) (store_limit_new 100)) (\<lambda>keep.
   rbind (map_err (\<lambda>_. ()) (store_limit_new 25)) (\<lambda>bodies.
     map_err (\<lambda>_. ()) (sync_policy_new page_size 4 keep bodies)))) = Inr default_sync_policy"
  by code_simp

definition installation_sync ::
    "inst_env \<Rightarrow> inst_world rest_port \<Rightarrow> account_id \<Rightarrow> account_subject \<Rightarrow> account_id
      \<Rightarrow> (gated_sync_error, sync_report) inst_flow" where
  "installation_sync env rest mailbox subject account =
     (let fault = ie_faults env
      in gated_sync
           (\<lambda>w a. store_call env account (store_load_identity fault account a) w)
           (\<lambda>w a fresh action expected.
              store_call env account (store_reconcile_identity fault account a fresh action expected) w)
           (installation_hash env)
           (list_recent_envelopes rest mailbox) (fetch_message rest mailbox)
           (\<lambda>w a envelopes keep fence.
              store_call env account (store_reconcile_recent fault account a envelopes keep fence) w)
           (\<lambda>w a message fence.
              store_call env account (store_cache_message fault account a message fence) w)
           account (subject_str subject) default_sync_policy)"

definition sync_with_token ::
    "inst_env \<Rightarrow> flow_ports \<Rightarrow> account_id \<Rightarrow> broker_token \<Rightarrow> (flow_error, sync_report) inst_flow" where
  "sync_with_token env fp account token =
     flow_bind (flow_result (map_err FE_Session (gmail_session_new (fp_client_builds fp) account
         (bt_access_token token) (bt_subject token)))) (\<lambda>(mailbox, subject).
     flow_bind (inst_call (open_store env account)) (\<lambda>_.
       flow_err FE_Sync
         (installation_sync env (fp_rest fp (bt_access_token token)) mailbox subject account)))"

section \<open>The flows\<close>

definition subject_of :: "inst_env \<Rightarrow> account_id \<Rightarrow> (flow_error, string) inst_flow" where
  "subject_of env account =
     flow_bind (flow_err (\<lambda>err. if err = IE_UnknownAccount then FE_UnknownAccount else FE_Installation err)
         (on_env (open_store env account))) (\<lambda>_.
     flow_bind (flow_err (\<lambda>err. FE_Installation (IE_Store err))
         (store_call env account (load_broker_subject (ie_faults env) account account))) (\<lambda>found.
       flow_result (ok_or FE_UnknownAccount found)))"

text \<open>
  The part of \<open>add_account\<close> that waits for the user: the session handle and the callback.
\<close>

definition await_callback ::
    "flow_ports \<Rightarrow> installation conn broker_ports \<Rightarrow> broker_config
      \<Rightarrow> (flow_error, string \<times> string) inst_flow" where
  "await_callback fp p cfg =
     flow_bind (flow_err FE_Loopback (fp_bind fp)) (\<lambda>port.
     flow_bind (flow_err FE_Token (begin_authorization p cfg (redirect_uri port))) (\<lambda>pending.
     flow_bind (flow_result (ok_or FE_Configuration
         (map_of (url_pairs (pa_authorization_url pending)) ''state''))) (\<lambda>expected_state w.
       case fp_accepts fp port
           (fp_open_browser fp (url_text (pa_authorization_url pending)) w) of
         (accepts, w1) \<Rightarrow>
           (map_ok (\<lambda>callback. (handle_str (pa_session_handle pending), callback))
             (map_err FE_Loopback
               (fst (wait_for_callback (fp_form_parse fp) port expected_state accepts))), w1))))"

definition signed_in_account ::
    "inst_env \<Rightarrow> account_id list \<Rightarrow> broker_token \<Rightarrow> (flow_error, account_id \<times> bool \<times> broker_token) inst_flow" where
  "signed_in_account env earlier token =
     flow_bind (inst_call (account_for_subject env (bt_subject token))) (\<lambda>found.
     flow_bind (flow_result (ok_or FE_UnknownAccount found)) (\<lambda>account.
       flow_result (Inr (account, account \<in> set earlier, token))))"

text \<open>The sign-in of \<open>add_account\<close>: the account, whether it was there, and its token.\<close>

definition sign_in ::
    "inst_env \<Rightarrow> flow_ports \<Rightarrow> installation conn broker_ports \<Rightarrow> broker_config
      \<Rightarrow> (flow_error, account_id \<times> bool \<times> broker_token) inst_flow" where
  "sign_in env fp p cfg =
     flow_bind (inst_call (has_capacity env)) (\<lambda>capacity.
     if \<not> capacity then flow_result (Inl FE_AccountLimit)
     else
       flow_bind (inst_call (installation_accounts env)) (\<lambda>earlier.
       flow_bind (await_callback fp p cfg) (\<lambda>(handle, callback).
       flow_bind (flow_err FE_Token (complete_authorization p cfg handle callback))
         (signed_in_account env earlier))))"

definition add_account ::
    "inst_env \<Rightarrow> flow_ports \<Rightarrow> installation conn broker_ports \<Rightarrow> broker_config
      \<Rightarrow> (flow_error, added_account) inst_flow" where
  "add_account env fp p cfg =
     flow_bind (sign_in env fp p cfg) (\<lambda>(account, already_present, token) w.
       case sync_with_token env fp account token w of
         (first_sync, w1) \<Rightarrow> (Inr \<lparr>ad_account = account, ad_already_present = already_present,
           ad_first_sync = first_sync\<rparr>, w1))"

definition sync_account ::
    "inst_env \<Rightarrow> flow_ports \<Rightarrow> installation conn broker_ports \<Rightarrow> broker_config \<Rightarrow> account_id
      \<Rightarrow> (flow_error, sync_report) inst_flow" where
  "sync_account env fp p cfg account =
     flow_bind (subject_of env account) (\<lambda>subject.
     flow_bind (flow_err FE_Token (broker_refresh p cfg subject)) (\<lambda>token.
       sync_with_token env fp account token))"

text \<open>The outcomes of the revocation and of the deletion do not stop a removal.\<close>

definition remove_account ::
    "inst_env \<Rightarrow> installation conn broker_ports \<Rightarrow> account_id \<Rightarrow> (flow_error, revocation) inst_flow" where
  "remove_account env p account =
     flow_bind (subject_of env account) (\<lambda>subject w.
       case revoke_provider_grant p subject w of
         (revoked, w1) \<Rightarrow>
           (case delete_stored_tokens p subject w1 of
              (_, w2) \<Rightarrow>
                flow_bind (inst_call (installation_remove_account env account)) (\<lambda>_.
                  flow_result (Inr (if is_ok revoked then Confirmed else Unconfirmed))) w2))"

end
