(* ===== verification/Gmail_Props.thy ===== *)
theory Gmail_Props
  imports Gmail_Rest
begin

text \<open>
  What the Gmail REST adapter guarantees whatever the provider answers: bodies never exceed
  their limit, the values it hands to the sync engine satisfy the invariants of the domain
  types, and the envelopes of a page are those the listing named, in its order. The only
  assumption is that the strings a JSON decoder produces are UTF-8, as the type \<open>String\<close> is.
\<close>

definition rest_text_ok :: "'w rest_port \<Rightarrow> bool" where
  "rest_text_ok p \<longleftrightarrow> (\<forall>bytes m. rp_metadata p bytes = Some m \<longrightarrow>
     utf8_valid (gm_snippet m) \<and> (\<forall>h\<in>set (gm_headers m). utf8_valid (gh_value h)))"

text \<open>
  What a run of the adapter asked, in terms of the transport alone: each URL of a list is
  requested once, in the order of the list, each request in the world the one before it left.
\<close>

fun ask_each :: "'w rest_port \<Rightarrow> string list \<Rightarrow> 'w \<Rightarrow> http_answer option list \<times> 'w" where
  "ask_each p [] w = ([], w)"
| "ask_each p (url # urls) w =
     (let (answer, w1) = rp_get p url w; (answers, w2) = ask_each p urls w1
      in (answer # answers, w2))"

abbreviation answer_body :: "http_answer \<Rightarrow> string" where
  "answer_body a \<equiv> concat (map the (ha_chunks a))"

definition message_url :: "'w rest_port \<Rightarrow> string \<Rightarrow> message_format \<Rightarrow> string option" where
  "message_url p i format =
     rp_url p ''https://gmail.googleapis.com/gmail/v1/users/me'' [''messages'', i] (format_query format)"

text \<open>An envelope says what the metadata of a successful answer says.\<close>

definition told_by :: "'w rest_port \<Rightarrow> message_envelope \<Rightarrow> http_answer \<Rightarrow> bool" where
  "told_by p e a \<longleftrightarrow> 200 \<le> ha_status a \<and> ha_status a < 300
     \<and> (\<exists>m. rp_metadata p (answer_body a) = Some m
          \<and> gm_id m = message_id_str (env_message_id e)
          \<and> gm_thread_id m = thread_id_str (env_thread_id e)
          \<and> env_preview e = HeaderText (gm_snippet m)
          \<and> (env_unread e \<longleftrightarrow> ''UNREAD'' \<in> set (gm_label_ids m)))"

section \<open>Bounded bodies\<close>

lemma bounded_push_Inr:
  "bounded_push c b = Inr b' \<longleftrightarrow>
     length (bb_bytes b) + length c < 2 ^ 64 \<and> length (bb_bytes b) + length c \<le> bb_limit b
     \<and> b' = b\<lparr>bb_bytes := bb_bytes b @ c\<rparr>"
  by (auto simp: bounded_push_def Let_def)

lemma read_chunks_Inr:
  assumes "read_chunks cs b = Inr b'" and "length (bb_bytes b) \<le> bb_limit b"
  shows "bb_limit b' = bb_limit b \<and> length (bb_bytes b') \<le> bb_limit b
    \<and> None \<notin> set cs \<and> bb_bytes b' = bb_bytes b @ concat (map the cs)"
  using assms
proof (induction cs b rule: read_chunks.induct)
  case (3 c rest b)
  then obtain b1 where "bounded_push c b = Inr b1" "read_chunks rest b1 = Inr b'"
    by (auto simp: result_simps)
  then have step: "length (bb_bytes b) + length c \<le> bb_limit b" "b1 = b\<lparr>bb_bytes := bb_bytes b @ c\<rparr>"
    by (auto simp: bounded_push_Inr)
  have "length (bb_bytes b1) \<le> bb_limit b1" using step by simp
  from "3.IH" [OF \<open>read_chunks rest b1 = Inr b'\<close> this] show ?case
    using step by (elim conjE, intro conjI) simp_all
qed auto

lemma read_chunks_prefix:
  "read_chunks cs b = Inr b' \<Longrightarrow> \<exists>b1. read_chunks (take k cs) b = Inr b1"
proof (induction cs b arbitrary: k rule: read_chunks.induct)
  case (3 c rest b)
  then obtain b1 where b1: "bounded_push c b = Inr b1" "read_chunks rest b1 = Inr b'"
    by (auto simp: result_simps)
  then show ?case using 3 by (cases k) auto
qed auto

lemma read_body_Inr:
  assumes "read_body content_length chunks limit = Inr body"
  shows "length body \<le> limit \<and> None \<notin> set chunks \<and> body = concat (map the chunks)
    \<and> (\<forall>n. content_length = Some n \<longrightarrow> n \<le> limit)"
proof -
  obtain b0 b where b: "bounded_body_new content_length limit = Inr b0" "read_chunks chunks b0 = Inr b"
    "body = bb_bytes b"
    using assms by (auto simp: read_body_def result_simps)
  then have "b0 = \<lparr>bb_bytes = [], bb_limit = limit\<rparr>" and "\<forall>n. content_length = Some n \<longrightarrow> n \<le> limit"
    by (auto simp: bounded_body_new_def split: if_splits option.splits)
  then show ?thesis using b read_chunks_Inr [of chunks b0 b] by auto
qed

lemma read_chunks_all:
  assumes "None \<notin> set cs" and "length (bb_bytes b) + length (concat (map the cs)) \<le> bb_limit b"
    and "bb_limit b < 2 ^ 64"
  shows "read_chunks cs b = Inr (b\<lparr>bb_bytes := bb_bytes b @ concat (map the cs)\<rparr>)"
  using assms
proof (induction cs b rule: read_chunks.induct)
  case (3 c rest b)
  let ?b1 = "b\<lparr>bb_bytes := bb_bytes b @ c\<rparr>"
  have "bounded_push c b = Inr ?b1" using "3.prems" by (auto simp: bounded_push_Inr)
  with "3.IH" [of ?b1] "3.prems" show ?case by simp
qed auto

lemma read_body_iff:
  assumes "limit < 2 ^ 64"
  shows "read_body content_length chunks limit = Inr body \<longleftrightarrow>
    (\<forall>n. content_length = Some n \<longrightarrow> n \<le> limit) \<and> None \<notin> set chunks
    \<and> body = concat (map the chunks) \<and> length body \<le> limit"
proof
  assume b: "(\<forall>n. content_length = Some n \<longrightarrow> n \<le> limit) \<and> None \<notin> set chunks
    \<and> body = concat (map the chunks) \<and> length body \<le> limit"
  let ?b = "\<lparr>bb_bytes = [], bb_limit = limit\<rparr>"
  have "bounded_body_new content_length limit = Inr ?b"
    using b by (auto simp: bounded_body_new_def split: option.splits)
  moreover have "length (bb_bytes ?b) + length (concat (map the chunks)) \<le> bb_limit ?b"
    using b by auto
  then have "read_chunks chunks ?b = Inr (?b\<lparr>bb_bytes := bb_bytes ?b @ concat (map the chunks)\<rparr>)"
    using b assms by (intro read_chunks_all) simp_all
  ultimately show "read_body content_length chunks limit = Inr body"
    using b by (simp add: read_body_def)
qed (use read_body_Inr in blast)

lemma decode_raw_bound:
  "decode_raw_with_limit p encoded limit = Inr decoded \<Longrightarrow>
     length decoded \<le> limit \<and> length encoded \<le> (limit + 2) div 3 * 4"
  by (auto simp: decode_raw_with_limit_def Let_def result_simps split: if_splits)

lemma transport_get_Inr:
  assumes "transport_get p url limit w = (Inr response, w')"
  shows "length (hr_body response) \<le> body_limit (hr_status response) limit
    \<and> (\<not> reads_response_body (hr_status response) \<longrightarrow> hr_body response = [])
    \<and> (\<exists>answer. rp_get p url w = (Some answer, w') \<and> hr_status response = ha_status answer
        \<and> (reads_response_body (hr_status response) \<longrightarrow> hr_body response = answer_body answer))"
proof -
  obtain answer where a: "rp_get p url w = (Some answer, w')"
    using assms by (auto simp: transport_get_def Let_def split: prod.splits option.splits)
  show ?thesis
  proof (cases "reads_response_body (ha_status answer)")
    case True
    then show ?thesis using assms a
      by (auto simp: transport_get_def Let_def result_simps dest: read_body_Inr)
  next
    case False
    then show ?thesis using assms a by (auto simp: transport_get_def Let_def)
  qed
qed

lemma transport_post_Inr:
  "transport_post p endpoint form w = (Inr response, w') \<Longrightarrow>
     length (hr_body response) \<le> TOKEN_RESPONSE_LIMIT"
  by (auto simp: transport_post_def result_simps dest: read_body_Inr split: prod.splits option.splits)

section \<open>Envelopes\<close>

lemma read_headers_values:
  assumes "read_headers hs from subject = Inr (f, s)"
    and "\<forall>h\<in>set hs. utf8_valid (gh_value h)"
    and "\<forall>v. from = Some v \<longrightarrow> utf8_valid v" and "\<forall>v. subject = Some v \<longrightarrow> utf8_valid v"
  shows "(\<forall>v. f = Some v \<longrightarrow> utf8_valid v) \<and> (\<forall>v. s = Some v \<longrightarrow> utf8_valid v)"
  using assms
  by (induction hs "from" subject rule: read_headers.induct) (auto split: if_splits)

lemma utf8_valid_Nil [simp]: "utf8_valid []"
  by (rule utf8_valid_ascii) simp

lemma headers_valid:
  assumes "headers hs = Inr (f, s)" and "\<forall>h\<in>set hs. utf8_valid (gh_value h)"
  shows "utf8_valid f \<and> utf8_valid s"
proof -
  obtain x y where "read_headers hs None None = Inr (x, y)" "f = or_default x" "s = or_default y"
    using assms(1) by (auto simp: headers_def result_simps)
  then show ?thesis using read_headers_values [of hs None None x y] assms(2)
    by (auto simp: or_default_def split: option.splits)
qed

lemma parse_i64_range: "parse_i64 s = Some v \<Longrightarrow> is_i64 v"
  by (auto simp: parse_i64_def Let_def split: if_splits prod.splits)

lemma invalid_Inr [simp]: "invalid r = Inr a \<longleftrightarrow> r = Inr a"
  by (simp add: invalid_def)

lemma ok_or_Inr [simp]: "ok_or e x = Inr a \<longleftrightarrow> x = Some a"
  by (cases x) auto

lemma ok_or_Inl: "ok_or e x = Inl d \<longleftrightarrow> x = None \<and> d = e"
  by (cases x) auto

lemma envelope_from_Inr:
  assumes "envelope_from m i = Inr envelope" and "message_id_ok i"
    and "utf8_valid (gm_snippet m)" and "\<forall>h\<in>set (gm_headers m). utf8_valid (gh_value h)"
  shows "envelope_ok envelope \<and> env_message_id envelope = i
    \<and> gm_id m = message_id_str i \<and> thread_id_str (env_thread_id envelope) = gm_thread_id m
    \<and> env_preview envelope = HeaderText (gm_snippet m)
    \<and> (env_unread envelope \<longleftrightarrow> ''UNREAD'' \<in> set (gm_label_ids m))"
proof -
  obtain v f s where p: "gm_id m = message_id_str i" "thread_id_ok (ThreadId (gm_thread_id m))"
      "parse_i64 (gm_internal_date m) = Some v" "0 \<le> v" "headers (gm_headers m) = Inr (f, s)"
    and h: "header_text_new f = Inr (HeaderText f)" "header_text_new s = Inr (HeaderText s)"
      "header_text_new (gm_snippet m) = Inr (HeaderText (gm_snippet m))"
    and e: "envelope = \<lparr>env_message_id = i, env_thread_id = ThreadId (gm_thread_id m),
      env_from = HeaderText f, env_subject = HeaderText s, env_preview = HeaderText (gm_snippet m),
      env_received_at = UnixTimestampMillis v,
      env_unread = list_ex (\<lambda>label. label = ''UNREAD'') (gm_label_ids m)\<rparr>"
    using assms(1) by (auto simp: envelope_from_def result_simps split: if_splits)
  have "header_ok (HeaderText f)" "header_ok (HeaderText s)" "header_ok (HeaderText (gm_snippet m))"
    using h headers_valid [OF p(5) assms(4)] assms(3) by (auto simp: header_ok_def)
  then show ?thesis using p e assms(2) parse_i64_range [OF p(3)]
    by (auto simp: envelope_ok_def timestamp_ok_def list_ex_iff)
qed

lemma request_json_Inr:
  assumes "request_json p decode req limit w = (Inr a, w')"
  shows "\<exists>body. length body \<le> limit \<and> decode body = Some a"
proof -
  obtain url response where t: "transport_get p url limit w = (Inr response, w')"
      and s: "is_success (hr_status response)" "decode (hr_body response) = Some a"
    using assms
    by (auto simp: request_json_def split: sum.splits prod.splits if_splits)
  then show ?thesis using transport_get_Inr [OF t] by (auto simp: body_limit_def)
qed

text \<open>A request answered, or answered with 404: it was sent once, and this is its answer.\<close>

lemma request_json_sent:
  assumes "request_json p decode req limit w = (r, w')" and "r = Inr a \<or> r = Inl NotFound"
    and "req = Inr q \<or> req = Inl InvalidResponse"
  shows "\<exists>url answer. req = Inr q \<and> rp_url p (rq_base q) (rq_segments q) (rq_query q) = Some url
    \<and> rp_get p url w = (Some answer, w')
    \<and> (if r = Inl NotFound then ha_status answer = 404
       else is_success (ha_status answer) \<and> decode (answer_body answer) = Some a
         \<and> length (answer_body answer) \<le> limit)"
proof -
  obtain url where req: "req = Inr q" "rp_url p (rq_base q) (rq_segments q) (rq_query q) = Some url"
    using assms
    by (cases "rp_url p (rq_base q) (rq_segments q) (rq_query q)") (auto simp: request_json_def)
  obtain t w1 where t: "transport_get p url limit w = (t, w1)" by fastforce
  then obtain response where response: "t = Inr response"
    using assms req by (cases t) (auto simp: request_json_def elim: into_mailbox_error.elims)
  note get = transport_get_Inr [OF t [unfolded response]]
  then obtain answer where answer: "rp_get p url w = (Some answer, w1)" "hr_status response = ha_status answer"
      "reads_response_body (hr_status response) \<longrightarrow> hr_body response = answer_body answer" by blast
  have r: "r = (if \<not> is_success (hr_status response)
        then Inl (map_status p (hr_status response) (hr_body response))
        else ok_or InvalidResponse (decode (hr_body response)))" "w' = w1"
    using assms(1) req t response by (auto simp: request_json_def)
  have "map_status p (hr_status response) (hr_body response) = NotFound \<Longrightarrow> ha_status answer = 404"
    using answer(2) by (auto simp: map_status_def map_forbidden_def Let_def split: if_splits)
  then show ?thesis
    using r req answer assms(2) get
    by (auto simp: ok_or_Inl reads_response_body_def body_limit_def split: if_splits)
qed

section \<open>Pages\<close>

abbreviation listed_pair :: "listed_message \<Rightarrow> string \<times> string" where
  "listed_pair l \<equiv> (lm_id l, lm_thread_id l)"

abbreviation envelope_pair :: "message_envelope \<Rightarrow> string \<times> string" where
  "envelope_pair e \<equiv> (message_id_str (env_message_id e), thread_id_str (env_thread_id e))"

lemma message_request_cases:
  "message_request i format = Inr \<lparr>rq_base = BASE_URL, rq_segments = [''messages'', message_id_str i],
      rq_query = format_query format\<rparr> \<or> message_request i format = Inl InvalidResponse"
  by (simp add: message_request_def)

lemma metadata_sent:
  assumes "metadata p i w = (r, w')" and "r = Inr m \<or> r = Inl NotFound"
  shows "\<exists>url answer. message_url p (message_id_str i) FormatMetadata = Some url
    \<and> rp_get p url w = (Some answer, w')
    \<and> (if r = Inl NotFound then ha_status answer = 404
       else is_success (ha_status answer) \<and> rp_metadata p (answer_body answer) = Some m)"
  using request_json_sent [OF assms(1) [unfolded metadata_def] assms(2) message_request_cases]
  by (auto simp: message_url_def BASE_URL_def split: if_splits)

lemma metadata_text:
  assumes "rest_text_ok p" and "metadata p i w = (Inr m, w')"
  shows "utf8_valid (gm_snippet m)" and "\<forall>h\<in>set (gm_headers m). utf8_valid (gh_value h)"
  using request_json_Inr [OF assms(2) [unfolded metadata_def]] assms(1) by (auto simp: rest_text_ok_def)

lemma hydrate_Inr:
  assumes "hydrate p ls w = (Inr es, w')" and "rest_text_ok p"
  shows "list_all envelope_ok es \<and> (\<exists>urls answers.
    map (\<lambda>l. message_url p (lm_id l) FormatMetadata) ls = map Some urls
    \<and> ask_each p urls w = (map Some answers, w')
    \<and> map envelope_pair es = map (\<lambda>(l, a). listed_pair l) (filter (\<lambda>(l, a). ha_status a \<noteq> 404) (zip ls answers))
    \<and> list_all2 (told_by p) es (filter (\<lambda>a. ha_status a \<noteq> 404) answers))"
  using assms(1)
proof (induction ls arbitrary: w es)
  case Nil
  then show ?case by simp
next
  case (Cons l ls)
  let ?r = "rbind (invalid (message_id_new (lm_id l))) (\<lambda>i.
    map_ok (\<lambda>thread. (i, thread)) (invalid (thread_id_new (lm_thread_id l))))"
  obtain i thread where r: "?r = Inr (i, thread)"
    using Cons.prems by (cases ?r) auto
  then have i: "message_id_ok i" "i = MessageId (lm_id l)" "thread = ThreadId (lm_thread_id l)"
    by (auto simp: result_simps)
  obtain x w1 where m: "metadata p i w = (x, w1)" by fastforce
  show ?case
  proof (cases x)
    case (Inl err)
    then have rest: "err = NotFound" "hydrate p ls w1 = (Inr es, w')"
      using Cons.prems r m by (auto split: remote_mailbox_error.splits)
    obtain url answer where "message_url p (lm_id l) FormatMetadata = Some url"
        "rp_get p url w = (Some answer, w1)" "ha_status answer = 404"
      using metadata_sent [OF m] Inl rest i by auto
    moreover from Cons.IH [OF rest(2)] obtain urls answers where
      "map (\<lambda>l. message_url p (lm_id l) FormatMetadata) ls = map Some urls"
      "ask_each p urls w1 = (map Some answers, w')"
      "map envelope_pair es = map (\<lambda>(l, a). listed_pair l) (filter (\<lambda>(l, a). ha_status a \<noteq> 404) (zip ls answers))"
      "list_all2 (told_by p) es (filter (\<lambda>a. ha_status a \<noteq> 404) answers)" "list_all envelope_ok es" by blast
    ultimately show ?thesis
      by (intro conjI exI [of _ "url # urls"] exI [of _ "answer # answers"]) simp_all
  next
    case (Inr g)
    obtain e es' where e: "envelope_from g i = Inr e" "env_thread_id e = thread"
        "hydrate p ls w1 = (Inr es', w')" "es = e # es'"
      using Cons.prems r m Inr
      by (auto simp: result_simps apfst_def map_prod_def split: sum.splits if_splits prod.splits)
    note e_ok = envelope_from_Inr [OF e(1) i(1) metadata_text [OF assms(2) m [unfolded Inr]]]
    obtain url answer where answer: "message_url p (lm_id l) FormatMetadata = Some url"
        "rp_get p url w = (Some answer, w1)" "is_success (ha_status answer)"
        "rp_metadata p (answer_body answer) = Some g"
      using metadata_sent [OF m, of g] Inr i by auto
    moreover have "told_by p e answer" "ha_status answer \<noteq> 404"
      using answer e_ok by (auto simp: told_by_def is_success_def)
    moreover from Cons.IH [OF e(3)] obtain urls answers where
      "map (\<lambda>l. message_url p (lm_id l) FormatMetadata) ls = map Some urls"
      "ask_each p urls w1 = (map Some answers, w')"
      "map envelope_pair es' = map (\<lambda>(l, a). listed_pair l) (filter (\<lambda>(l, a). ha_status a \<noteq> 404) (zip ls answers))"
      "list_all2 (told_by p) es' (filter (\<lambda>a. ha_status a \<noteq> 404) answers)" "list_all envelope_ok es'" by blast
    ultimately show ?thesis using e_ok e i
      by (intro conjI exI [of _ "url # urls"] exI [of _ "answer # answers"]) simp_all
  qed
qed

lemma list_recent_envelopes_Inr:
  assumes "list_recent_envelopes p own w account limit token = (Inr pg, w')" and "rest_text_ok p"
  shows "account = own \<and> list_all envelope_ok (page_items pg) \<and>
    (\<exists>listed_at first w1 listing urls answers.
      rp_url p BASE_URL [''messages''] (rq_query (list_request limit token)) = Some listed_at
      \<and> rp_get p listed_at w = (Some first, w1) \<and> rp_list p (answer_body first) = Some listing
      \<and> length (gl_messages listing) \<le> page_size_get limit
      \<and> map_option page_token_str (page_next_token pg) = gl_next_page_token listing
      \<and> map (\<lambda>l. message_url p (lm_id l) FormatMetadata) (gl_messages listing) = map Some urls
      \<and> ask_each p urls w1 = (map Some answers, w')
      \<and> map envelope_pair (page_items pg)
          = map (\<lambda>(l, a). listed_pair l)
              (filter (\<lambda>(l, a). ha_status a \<noteq> 404) (zip (gl_messages listing) answers))
      \<and> list_all2 (told_by p) (page_items pg) (filter (\<lambda>a. ha_status a \<noteq> 404) answers))"
proof -
  obtain listing w1 "next" es where own: "account = own"
    and l: "request_json p (rp_list p) (Inr (list_request limit token)) JSON_LIMIT w = (Inr listing, w1)"
    and n: "length (gl_messages listing) \<le> page_size_get limit"
    and t: "(case gl_next_page_token listing of None \<Rightarrow> Inr None
        | Some token \<Rightarrow> map_ok Some (invalid (page_token_new token))) = Inr next"
    and h: "hydrate p (gl_messages listing) w1 = (Inr es, w')" and pg: "pg = Page es next"
    using assms(1)
    by (auto simp: list_recent_envelopes_def checked_mailbox_account_def apfst_def map_prod_def
        result_simps split: if_splits sum.splits prod.splits)
  have "map_option page_token_str next = gl_next_page_token listing"
    using t by (auto simp: result_simps page_token_new_def split: option.splits if_splits)
  moreover obtain url first where
    "rp_url p BASE_URL [''messages''] (rq_query (list_request limit token)) = Some url"
    "rp_get p url w = (Some first, w1)" "rp_list p (answer_body first) = Some listing"
    using request_json_sent [OF l, of listing "list_request limit token"]
    by (auto simp: list_request_def)
  ultimately show ?thesis
    using own n pg hydrate_Inr [OF h assms(2)] by auto
qed

lemma fetch_message_Inr:
  assumes "fetch_message p own w account i = (Inr m, w')" and "rest_text_ok p" and "message_id_ok i"
  shows "account = own \<and> message_ok m \<and> env_message_id (msg_envelope m) = i \<and>
    (\<exists>url1 url2 first second raw. message_url p (message_id_str i) FormatMetadata = Some url1
      \<and> message_url p (message_id_str i) FormatRaw = Some url2
      \<and> ask_each p [url1, url2] w = ([Some first, Some second], w')
      \<and> told_by p (msg_envelope m) first
      \<and> rp_raw p (answer_body second) = Some raw \<and> length (answer_body second) \<le> RAW_JSON_LIMIT
      \<and> gr_id raw = message_id_str i
      \<and> gr_thread_id raw = thread_id_str (env_thread_id (msg_envelope m))
      \<and> decode_raw_with_limit p (gr_raw raw) MAX_CONTENT_LEN = Inr (content_bytes (msg_content m)))"
proof -
  obtain g w1 e raw content where own: "account = own" and g: "metadata p i w = (Inr g, w1)"
    and e: "envelope_from g i = Inr e"
    and raw: "request_json p (rp_raw p) (message_request i FormatRaw) RAW_JSON_LIMIT w1 = (Inr raw, w')"
    and same: "gr_id raw = message_id_str i" "gr_thread_id raw = thread_id_str (env_thread_id e)"
    and c: "decode_raw_with_limit p (gr_raw raw) MAX_CONTENT_LEN = Inr content"
      "content_ok (MessageContent content)"
    and m: "m = \<lparr>msg_envelope = e, msg_content = MessageContent content\<rparr>"
    using assms(1)
    by (auto simp: fetch_message_def checked_mailbox_account_def result_simps
        split: if_splits sum.splits prod.splits)
  note e_ok = envelope_from_Inr [OF e assms(3) metadata_text [OF assms(2) g]]
  obtain url1 first where one: "message_url p (message_id_str i) FormatMetadata = Some url1"
      "rp_get p url1 w = (Some first, w1)" "is_success (ha_status first)"
      "rp_metadata p (answer_body first) = Some g"
    using metadata_sent [OF g, of g] by auto
  obtain url2 second where two: "message_url p (message_id_str i) FormatRaw = Some url2"
      "rp_get p url2 w1 = (Some second, w')" "rp_raw p (answer_body second) = Some raw"
      "length (answer_body second) \<le> RAW_JSON_LIMIT"
    using request_json_sent [OF raw _ message_request_cases, of raw]
    by (auto simp: message_url_def BASE_URL_def)
  have "told_by p e first" using e_ok one by (auto simp: told_by_def is_success_def)
  moreover have "ask_each p [url1, url2] w = ([Some first, Some second], w')" using one two by simp
  moreover have "message_ok m" using c m e_ok by (auto simp: message_ok_def)
  ultimately show ?thesis using own same c m e_ok one two by auto
qed

section \<open>Claims\<close>

text \<open>
  C36. Whatever the provider answers, a page that is returned comes from one listing request and
  then one metadata request for each listed message, in the order of the listing, none left out
  and none repeated: its envelopes are, in that order, the (message, thread) pairs of exactly
  those messages whose request was not answered with 404, each well formed and with what a
  successful answer said of it. The listing is no longer than the requested page size and the
  next token is the listed one. A fetched message comes from one metadata and one raw request,
  is well formed, carries the requested identifier, and its content is the decoded raw field of
  an answer that names the same message and thread. A request for an account other than the
  mailbox's own is refused before anything is sent.
\<close>

theorem gmail_results_are_well_formed:
  assumes "rest_text_ok p" and "message_id_ok i"
  shows "(\<forall>pg w'. list_recent_envelopes p own w account limit token = (Inr pg, w') \<longrightarrow>
      list_all envelope_ok (page_items pg) \<and>
      (\<exists>listed_at first w1 listing urls answers.
        rp_url p BASE_URL [''messages''] (rq_query (list_request limit token)) = Some listed_at
        \<and> rp_get p listed_at w = (Some first, w1) \<and> rp_list p (answer_body first) = Some listing
        \<and> length (gl_messages listing) \<le> page_size_get limit
        \<and> map_option page_token_str (page_next_token pg) = gl_next_page_token listing
        \<and> map (\<lambda>l. message_url p (lm_id l) FormatMetadata) (gl_messages listing) = map Some urls
        \<and> ask_each p urls w1 = (map Some answers, w')
        \<and> map envelope_pair (page_items pg)
            = map (\<lambda>(l, a). listed_pair l)
                (filter (\<lambda>(l, a). ha_status a \<noteq> 404) (zip (gl_messages listing) answers))
        \<and> list_all2 (told_by p) (page_items pg) (filter (\<lambda>a. ha_status a \<noteq> 404) answers))) \<and>
    (\<forall>m w'. fetch_message p own w account i = (Inr m, w') \<longrightarrow>
      message_ok m \<and> env_message_id (msg_envelope m) = i \<and>
      (\<exists>url1 url2 first second raw. message_url p (message_id_str i) FormatMetadata = Some url1
        \<and> message_url p (message_id_str i) FormatRaw = Some url2
        \<and> ask_each p [url1, url2] w = ([Some first, Some second], w')
        \<and> told_by p (msg_envelope m) first
        \<and> rp_raw p (answer_body second) = Some raw \<and> length (answer_body second) \<le> RAW_JSON_LIMIT
        \<and> gr_id raw = message_id_str i
        \<and> gr_thread_id raw = thread_id_str (env_thread_id (msg_envelope m))
        \<and> decode_raw_with_limit p (gr_raw raw) MAX_CONTENT_LEN = Inr (content_bytes (msg_content m)))) \<and>
    (account \<noteq> own \<longrightarrow>
      list_recent_envelopes p own w account limit token = (Inl AuthorizationRequired, w) \<and>
      fetch_message p own w account i = (Inl AuthorizationRequired, w))"
  by (intro conjI [of "\<forall>pg. _ pg"] conjI [of "\<forall>m. _ m"] allI impI)
    (erule list_recent_envelopes_Inr [OF _ assms(1), THEN conjunct2]
      fetch_message_Inr [OF _ assms, THEN conjunct2]
    | simp add: list_recent_envelopes_def fetch_message_def checked_mailbox_account_def)+

definition sample_rest :: "unit rest_port" where
  "sample_rest = \<lparr>
     rp_get = (\<lambda>url w. (Some \<lparr>ha_status = (if url = ''m2'' then 404 else 200),
       ha_content_length = None, ha_chunks = [Some url]\<rparr>, w)),
     rp_post = (\<lambda>_ _ w. (None, w)),
     rp_url = (\<lambda>_ segments _. Some (concat (rev (take 1 (rev segments))))),
     rp_form = (\<lambda>_. []),
     rp_base64_no_pad = (\<lambda>_. Some ''hi''),
     rp_base64_padded = (\<lambda>_. None),
     rp_list = (\<lambda>_. Some \<lparr>gl_messages = [\<lparr>lm_id = ''m1'', lm_thread_id = ''t''\<rparr>,
       \<lparr>lm_id = ''m2'', lm_thread_id = ''t''\<rparr>], gl_next_page_token = Some ''n''\<rparr>),
     rp_metadata = (\<lambda>body. Some \<lparr>gm_id = body, gm_thread_id = ''t'', gm_internal_date = ''42'',
       gm_label_ids = [''UNREAD''], gm_snippet = [], gm_headers = [\<lparr>gh_name = ''FROM'', gh_value = []\<rparr>]\<rparr>),
     rp_raw = (\<lambda>body. Some \<lparr>gr_id = body, gr_thread_id = ''t'', gr_raw = ''aGk''\<rparr>),
     rp_reasons = (\<lambda>_. None),
     rp_token_body = (\<lambda>_. None),
     rp_id_token = (\<lambda>_. None),
     rp_error = (\<lambda>_. None)\<rparr>"

definition sample_listed_envelope :: message_envelope where
  "sample_listed_envelope = \<lparr>env_message_id = MessageId ''m1'', env_thread_id = ThreadId ''t'',
     env_from = HeaderText [], env_subject = HeaderText [], env_preview = HeaderText [],
     env_received_at = UnixTimestampMillis 42, env_unread = True\<rparr>"

theorem gmail_results_are_well_formed_witness:
  "\<exists>m. list_recent_envelopes sample_rest (AccountId ''a'') () (AccountId ''a'') (PageSize 2) None
      = (Inr (Page [sample_listed_envelope] (Some (PageToken ''n''))), ())
    \<and> envelope_ok sample_listed_envelope
    \<and> fetch_message sample_rest (AccountId ''a'') () (AccountId ''a'') (MessageId ''m1'') = (Inr m, ())
    \<and> message_ok m"
proof -
  have ok: "rest_text_ok sample_rest" "message_id_ok (MessageId ''m1'')"
    by (auto simp: rest_text_ok_def sample_rest_def) (code_simp)
  have l: "list_recent_envelopes sample_rest (AccountId ''a'') () (AccountId ''a'') (PageSize 2) None
      = (Inr (Page [sample_listed_envelope] (Some (PageToken ''n''))), ())"
    by code_simp
  have f: "fetch_message sample_rest (AccountId ''a'') () (AccountId ''a'') (MessageId ''m1'')
      = (Inr \<lparr>msg_envelope = sample_listed_envelope, msg_content = MessageContent ''hi''\<rparr>, ())"
    by code_simp
  note claim = gmail_results_are_well_formed [OF ok, of "AccountId ''a''" "()" "AccountId ''a''"
      "PageSize 2" None]
  from claim l f show ?thesis by auto
qed

text \<open>
  A body is read exactly when its announced length and its chunks together fit the limit
  and no read fails, it is then all the chunks and nothing else, and no prefix of the chunks ever
  accumulates more than the limit; an answer whose status carries no body for the adapter is never
  read, an error answer is read within \<open>JSON_LIMIT\<close>, a token answer within
  \<open>TOKEN_RESPONSE_LIMIT\<close>, and a decoded message never exceeds the content limit.
\<close>

theorem gmail_bodies_stay_bounded:
  assumes "limit < 2 ^ 64"
  shows "(read_body content_length chunks limit = Inr body \<longleftrightarrow>
      (\<forall>n. content_length = Some n \<longrightarrow> n \<le> limit) \<and> None \<notin> set chunks
      \<and> body = concat (map the chunks) \<and> length body \<le> limit) \<and>
    (\<forall>k held. read_chunks (take k chunks) \<lparr>bb_bytes = [], bb_limit = limit\<rparr> = Inr held \<longrightarrow>
      length (bb_bytes held) \<le> limit) \<and>
    (\<forall>r w'. transport_get p url limit w = (Inr r, w') \<longrightarrow>
      length (hr_body r) \<le> (if is_success (hr_status r) then limit else JSON_LIMIT)
      \<and> (\<not> is_success (hr_status r) \<and> hr_status r \<noteq> 403 \<longrightarrow> hr_body r = [])) \<and>
    (\<forall>r w'. transport_post p endpoint form w = (Inr r, w') \<longrightarrow>
      length (hr_body r) \<le> TOKEN_RESPONSE_LIMIT) \<and>
    (\<forall>decoded. decode_raw_with_limit p encoded limit = Inr decoded \<longrightarrow> length decoded \<le> limit)"
proof (intro conjI allI impI)
  show "read_body content_length chunks limit = Inr body \<longleftrightarrow>
      (\<forall>n. content_length = Some n \<longrightarrow> n \<le> limit) \<and> None \<notin> set chunks
      \<and> body = concat (map the chunks) \<and> length body \<le> limit"
    by (rule read_body_iff [OF assms])
next
  fix k held
  assume "read_chunks (take k chunks) \<lparr>bb_bytes = [], bb_limit = limit\<rparr> = Inr held"
  then show "length (bb_bytes held) \<le> limit" by (rule read_chunks_Inr [THEN conjunct2, THEN conjunct1, elim_format]) simp_all
next
  fix r w' assume "transport_get p url limit w = (Inr r, w')"
  note get = transport_get_Inr [OF this]
  show "length (hr_body r) \<le> (if is_success (hr_status r) then limit else JSON_LIMIT)"
    using get by (auto simp: body_limit_def)
  assume "\<not> is_success (hr_status r) \<and> hr_status r \<noteq> 403"
  then show "hr_body r = []" using get by (auto simp: reads_response_body_def)
qed (auto dest: transport_post_Inr decode_raw_bound)

theorem gmail_bodies_stay_bounded_witness:
  "read_body (Some 3) [Some ''ab'', Some ''c''] 3 = Inr ''abc''
    \<and> read_body None [Some ''ab'', Some ''cd''] 3 \<noteq> Inr ''abcd''"
  using gmail_bodies_stay_bounded [of 3 "Some 3" "[Some ''ab'', Some ''c'']" "''abc''", THEN conjunct1]
    gmail_bodies_stay_bounded [of 3 None "[Some ''ab'', Some ''cd'']" "''abcd''", THEN conjunct1]
  by simp

end
