(* ===== verification/Flow_Samples.thy ===== *)
theory Flow_Samples
  imports Flows Gmail_Props
begin

text \<open>
  A concrete installation without accounts and a provider that grants one sign-in: the inputs
  on which the properties of the flows are evaluated.
\<close>

definition sample_env :: inst_env where
  "sample_env = \<lparr>ie_root = sample_root,
     ie_crypto = sample_crypto\<lparr>cr_hmac := (\<lambda>k m. take 32 (m @ replicate 32 CHR ''h'')),
       cr_expand := (\<lambda>_ _ info. Some (take 32 (rev info @ replicate 32 CHR ''k'')))\<rparr>,
     ie_sha256 = id, ie_faults = quiet,
     ie_metadata = (\<lambda>_. Some \<lparr>dm_is_dir = True, dm_owner = 501, dm_mode = 448\<rparr>), ie_euid = 501,
     ie_left_over = (\<lambda>_. False), ie_conn = cn_db (new_conn empty_file)\<rparr>"

definition sample_installation :: installation where
  "sample_installation = \<lparr>in_registry = [], in_stores = Map.empty,
     in_fills = [Some (replicate 16 CHR ''f'')]\<rparr>"

definition sample_world :: inst_world where
  "sample_world = \<lparr>bw_registry = Healthy [], bw_permits = Healthy {},
     bw_env = \<lparr>cn_db = sample_installation, cn_calls = 0\<rparr>\<rparr>"

definition sample_provider :: "inst_world rest_port" where
  "sample_provider = \<lparr>
     rp_get = (\<lambda>url w. (Some \<lparr>ha_status = 200, ha_content_length = None, ha_chunks = []\<rparr>, w)),
     rp_post = (\<lambda>_ _ w. (Some \<lparr>ha_status = 200, ha_content_length = None, ha_chunks = []\<rparr>, w)),
     rp_url = (\<lambda>_ _ _. Some []), rp_form = (\<lambda>_. []),
     rp_base64_no_pad = (\<lambda>s. Some s), rp_base64_padded = (\<lambda>_. None),
     rp_list = (\<lambda>_. Some \<lparr>gl_messages = [], gl_next_page_token = None\<rparr>),
     rp_metadata = (\<lambda>_. None), rp_raw = (\<lambda>_. None), rp_reasons = (\<lambda>_. None),
     rp_token_body = (\<lambda>_. Some \<lparr>tb_access_token = ''at'', tb_expires_in = 3600,
       tb_refresh_token = Some ''rt'', tb_scope = None, tb_id_token = Some ''h.p.s''\<rparr>),
     rp_id_token = (\<lambda>_. Some \<lparr>ip_sub = ''1001'', ip_aud = AudienceOne ''cid'',
       ip_iss = ''accounts.google.com'', ip_azp = None, ip_iat = 0, ip_exp = 1000\<rparr>),
     rp_error = (\<lambda>_. None)\<rparr>"

definition sample_state :: string where "sample_state = replicate 32 CHR ''s''"

definition sample_flow_ports :: flow_ports where
  "sample_flow_ports = \<lparr>fp_bind = (\<lambda>w. (Inr 2000, w)),
     fp_accepts = (\<lambda>_ w. ([sample_request (''/?state='' @ sample_state)], w)),
     fp_form_parse = sample_form, fp_open_browser = (\<lambda>_ w. w), fp_client_builds = True,
     fp_post = sample_provider, fp_rest = (\<lambda>_. sample_provider)\<rparr>"

definition sample_ports :: "installation conn broker_ports" where
  "sample_ports = \<lparr>bp_exchange = (\<lambda>_ w. (Inl TT_Transport, w)), bp_refresh = (\<lambda>_ w. (Inl TT_Transport, w)),
     bp_revoke = (\<lambda>_ w. (Inl TT_Transport, w)), bp_store = (\<lambda>_ _ e. (Inl RTS_Unavailable, e)),
     bp_load = (\<lambda>_ e. (Inl RTS_Unavailable, e)), bp_delete = (\<lambda>_ e. (Inl RTS_Unavailable, e)),
     bp_clock = (\<lambda>_. 0), bp_wall = (\<lambda>_. 100),
     bp_handle_bytes = (\<lambda>e. (Inr (replicate 16 CHR ''b''), e)),
     bp_random = (\<lambda>n e. (Some (replicate n CHR ''s''), e)),
     bp_parse_url = (\<lambda>t. Some (if CHR ''?'' \<in> set t then sample_callback sample_state else sample_redirect)),
     bp_encode = (\<lambda>b. if length b = 16 then replicate 22 CHR ''h'' else b), bp_sha256 = id,
     bp_build_url = (\<lambda>_ pairs. sample_redirect\<lparr>url_pairs := pairs\<rparr>)\<rparr>"

definition sample_config :: broker_config where
  "sample_config = \<lparr>bc_client_id = ''cid'', bc_client_secret = None, bc_session_ttl = SESSION_TTL\<rparr>"

definition sample_add :: "(flow_error + added_account) \<times> inst_world" where
  "sample_add = add_account sample_env sample_flow_ports
     (runtime_ports sample_env sample_flow_ports sample_ports) sample_config sample_world"

end
