(* ===== verification/Broker_Erase.thy ===== *)
theory Broker_Erase
  imports Broker_Store
begin

text \<open>
  Recording the calls changes nothing: an operation of the broker over the recording ports is
  the operation itself with a list of events beside it. What the recorded runs were shown to do
  to the stored credentials therefore holds of the operations as they are; the laws of
  \<open>token_store\<close> are stated again without the record.
\<close>

definition erases :: "(('e \<times> broker_event list) bworld \<Rightarrow> 'a \<times> ('e \<times> broker_event list) bworld)
    \<Rightarrow> ('e bworld \<Rightarrow> 'a \<times> 'e bworld) \<Rightarrow> bool" where
  "erases f g \<longleftrightarrow> (\<forall>w. g (without_log w) = apsnd without_log (f w))"

lemma without_log_simps [simp]:
  "bw_registry (without_log w) = bw_registry w" "bw_permits (without_log w) = bw_permits w"
  "bw_env (without_log w) = fst (bw_env w)"
  "(without_log w)\<lparr>bw_registry := x\<rparr> = without_log (w\<lparr>bw_registry := x\<rparr>)"
  "(without_log w)\<lparr>bw_permits := y\<rparr> = without_log (w\<lparr>bw_permits := y\<rparr>)"
  "without_log (with_log es v) = v"
  by (simp_all add: without_log_def with_log_def)

lemma erasesD: "erases f g \<Longrightarrow> f w = (r, w') \<Longrightarrow> g (without_log w) = (r, without_log w')"
  by (simp add: erases_def)

lemma erases_run:
  assumes "erases f g" and "g w = (r, w')"
  shows "\<exists>v. f (with_log [] w) = (r, v) \<and> fst (bw_env v) = bw_env w'"
proof -
  obtain r' v where f: "f (with_log [] w) = (r', v)" by fastforce
  from erasesD [OF assms(1) f] assms(2) have "r' = r" "w' = without_log v" by simp_all
  with f show ?thesis by simp
qed

lemma erases_await: "erases (logged_await event f) f"
  by (auto simp: erases_def logged_await_def split: prod.splits)

lemma erases_call: "erases (on_env (logged_call event f)) (on_env f)"
  by (auto simp: erases_def on_env_def logged_call_def without_log_def split: prod.splits)

lemma erases_ports [simp]:
  "erases (bp_exchange (logged_ports p) q) (bp_exchange p q)"
  "erases (bp_refresh (logged_ports p) q') (bp_refresh p q')"
  "erases (bp_revoke (logged_ports p) t) (bp_revoke p t)"
  "erases (on_env (bp_store (logged_ports p) s t)) (on_env (bp_store p s t))"
  "erases (on_env (bp_load (logged_ports p) s)) (on_env (bp_load p s))"
  "erases (on_env (bp_delete (logged_ports p) s)) (on_env (bp_delete p s))"
  by (simp_all add: logged_ports_def erases_await erases_call)

lemma logged_pure [simp]:
  "bp_clock (logged_ports p) e = bp_clock p (fst e)" "bp_wall (logged_ports p) e = bp_wall p (fst e)"
  "bp_parse_url (logged_ports p) = bp_parse_url p"
  by (simp_all add: logged_ports_def)

lemma erasesE: "erases f g \<Longrightarrow> g (without_log w) = apsnd without_log (f w)"
  by (simp add: erases_def)

lemmas erased_ports = erases_ports [THEN erasesE]

lemma erases_permit: "erases f g \<Longrightarrow> erases (with_permit s f) (with_permit s g)"
  by (simp add: erases_def with_permit_def case_prod_beta split: sum.split)

lemma erases_subject:
  "(\<And>s. erases (f s) (g s)) \<Longrightarrow> erases (for_subject name f) (for_subject name g)"
  using erases_permit [of "f _" "g _"] by (simp add: erases_def for_subject_def split: sum.split)

section \<open>The operations\<close>

lemma erases_stranded:
  "erases (stranded (logged_ports p) snap success err) (stranded p snap success err)"
  by (simp add: erases_def stranded_def revoke_stranded_grant_def revoke_best_effort_def erased_ports
      split: option.split)

lemma erases_complete_granted:
  "erases (complete_granted (logged_ports p) success s) (complete_granted p success s)"
  by (simp add: erases_def complete_granted_def erased_ports erases_stranded [THEN erasesE]
      case_prod_beta Let_def split: sum.split option.split)

lemma erases_complete_outcome:
  "erases (complete_outcome (logged_ports p) outcome) (complete_outcome p outcome)"
  by (simp add: erases_def complete_outcome_def
      erases_permit [OF erases_complete_granted, THEN erasesE] case_prod_beta
      split: token_scope_outcome.split sum.split)

lemma finish_callback_logged [simp]:
  "finish_callback (logged_ports p) cfg callback_url session now
    = finish_callback p cfg callback_url session now"
  by (simp add: finish_callback_def cong: if_cong)

lemma erases_complete_authorization:
  "erases (complete_authorization (logged_ports p) cfg handle_text callback_url)
    (complete_authorization p cfg handle_text callback_url)"
  by (simp add: erases_def complete_authorization_def exchange_grant_with_scope_outcome_def erased_ports
      erases_complete_outcome [THEN erasesE] case_prod_beta Let_def split: sum.split)

lemma erases_persist:
  "erases (persist_rotation (logged_ports p) s rotated) (persist_rotation p s rotated)"
  by (simp add: erases_def persist_rotation_def erased_ports apfst_def apsnd_def map_prod_def
      case_prod_beta split: option.split)

lemma erases_refresh_granted:
  "erases (refresh_granted (logged_ports p) s success) (refresh_granted p s success)"
  by (simp add: erases_def refresh_granted_def erases_persist [THEN erasesE] case_prod_beta
      split: sum.split)

lemma erases_refresh_answer:
  "erases (refresh_answer (logged_ports p) s answer) (refresh_answer p s answer)"
  by (simp add: erases_def refresh_answer_def erases_persist [THEN erasesE] erased_ports
      erases_refresh_granted [THEN erasesE] case_prod_beta
      split: sum.split token_error.split token_scope_outcome.split)

lemma erases_refresh:
  "erases (broker_refresh (logged_ports p) cfg name) (broker_refresh p cfg name)"
  unfolding broker_refresh_def
  by (rule erases_subject)
    (simp add: erases_def refresh_held_def refresh_client_config_def
      refresh_access_token_with_scope_outcome_def erased_ports
      erases_refresh_answer [THEN erasesE] case_prod_beta split: sum.split option.split)

lemma erases_revoke:
  "erases (revoke_provider_grant (logged_ports p) name) (revoke_provider_grant p name)"
  unfolding revoke_provider_grant_def
  by (rule erases_subject)
    (simp add: erases_def revoke_held_def erased_ports case_prod_beta split: sum.split option.split)

lemma erases_delete:
  "erases (delete_stored_tokens (logged_ports p) name) (delete_stored_tokens p name)"
  unfolding delete_stored_tokens_def
  by (rule erases_subject)
    (simp add: erases_def erased_ports apfst_def apsnd_def map_prod_def case_prod_beta)

section \<open>The laws without the record\<close>

context token_store
begin

lemma completion_stores:
  assumes "served_by store load delete p" and "quiet_awaits sane held p" and "sane (bw_env w)"
    and "complete_authorization p cfg handle_text callback_url w = (r, w')"
  shows "sane (bw_env w') \<and> (case r of
      Inr token \<Rightarrow> \<exists>t. well_shaped_refresh t \<and> held (bw_env w')
          = (held (bw_env w))(slot (ValidatedSubject (bt_subject token)) \<mapsto> t)
    | Inl _ \<Rightarrow> held (bw_env w') = held (bw_env w))"
proof -
  from erases_run [OF erases_complete_authorization assms(4)] obtain v where
    v: "complete_authorization (logged_ports p) cfg handle_text callback_url (with_log [] w) = (r, v)"
      "fst (bw_env v) = bw_env w'"
    by blast
  from completion_effect [OF assms(1-3) v(1)] show ?thesis unfolding v(2) .
qed

lemma refresh_stores:
  assumes "served_by store load delete p" and "quiet_awaits sane held p" and "sane (bw_env w)"
    and "broker_refresh p cfg name w = (r, w')"
  shows "sane (bw_env w')
    \<and> refresh_leaves p (slot (ValidatedSubject name)) (held (bw_env w)) r (held (bw_env w'))
    \<and> (\<forall>token. r = Inr token \<longrightarrow> bt_subject token = name)"
proof -
  from erases_run [OF erases_refresh assms(4)] obtain v where
    v: "broker_refresh (logged_ports p) cfg name (with_log [] w) = (r, v)" "fst (bw_env v) = bw_env w'"
    by blast
  from refresh_effect [OF assms(1-3) v(1)] show ?thesis unfolding v(2) .
qed

text \<open>A provider revocation and a deletion, step by step.\<close>

lemma load_steps:
  assumes "served_by store load delete p" and "sane (bw_env w)" and "on_env (bp_load p s) w = (r, w')"
  shows "sane (bw_env w') \<and> held (bw_env w') = held (bw_env w)"
  using assms load by (auto simp: served_by_def on_env_def split: prod.splits)

lemma revoke_steps:
  assumes "quiet_awaits sane held p" and "sane (bw_env w)" and "bp_revoke p t w = (r, w')"
  shows "sane (bw_env w') \<and> held (bw_env w') = held (bw_env w)"
proof -
  have "w' \<in> range (\<lambda>t. snd (bp_revoke p t w))" using assms(3) by (metis rangeI snd_conv)
  with assms(1) [unfolded quiet_awaits_def, rule_format, OF assms(2), of w'] show ?thesis by blast
qed

lemma revocation_keeps:
  assumes "served_by store load delete p" and "quiet_awaits sane held p" and "sane (bw_env w)"
    and "revoke_provider_grant p name w = (r, w')"
  shows "sane (bw_env w') \<and> held (bw_env w') = held (bw_env w)"
proof -
  have held_run: "sane (bw_env v') \<and> held (bw_env v') = held (bw_env v)"
    if v: "sane (bw_env v)" and run: "revoke_held p s v = (q, v')" for s v q v'
  proof -
    obtain a w1 where l: "on_env (bp_load p s) v = (a, w1)" by fastforce
    note w1 = load_steps [OF assms(1) v l]
    have w2: "sane (bw_env w2) \<and> held (bw_env w2) = held (bw_env v)"
      if "bp_revoke p t w1 = (b, w2)" for t b w2
      using revoke_steps [OF assms(2) _ that] w1 by simp
    have w3: "sane (bw_env w3) \<and> held (bw_env w3) = held (bw_env v)"
      if "bp_revoke p t w1 = (b, w2)" "bp_revoke p t w2 = (d, w3)" for t b w2 d w3
      using revoke_steps [OF assms(2) _ that(2)] w2 [OF that(1)] by simp
    show ?thesis
      using run l w1 by (auto simp: revoke_held_def split: sum.splits option.splits if_splits prod.splits
          dest: w2 w3)
  qed
  from assms(4) [unfolded revoke_provider_grant_def] show ?thesis
  proof (cases rule: for_subject_cases)
    case (2 permits w1)
    with held_run [OF _ 2(4)] assms(3) show ?thesis by simp
  qed (use assms(3) in simp)
qed

lemma deletion_steps:
  assumes "served_by store load delete p" and "sane (bw_env w)"
    and "delete_stored_tokens p name w = (r, w')"
  shows "sane (bw_env w') \<and> (held (bw_env w') = held (bw_env w)
    \<or> held (bw_env w') = (held (bw_env w))(slot (ValidatedSubject name) := None))"
proof -
  have del: "sane (bw_env v') \<and> held (bw_env v') \<in> {held (bw_env v), (held (bw_env v))(slot s := None)}"
    if "sane (bw_env v)" "on_env (bp_delete p s) v = (q, v')" for s v q v'
    using that assms(1) delete by (auto simp: served_by_def on_env_def split: prod.splits if_splits)
  from assms(3) [unfolded delete_stored_tokens_def] show ?thesis
  proof (cases rule: for_subject_cases)
    case (2 permits w1)
    from 2(4) obtain q where
      "on_env (bp_delete p (ValidatedSubject name)) (w\<lparr>bw_permits := Healthy (insert name permits)\<rparr>) = (q, w1)"
      by (auto simp: apfst_def map_prod_def split: prod.splits)
    from del [OF _ this] 2(5) assms(2) show ?thesis by simp
  qed (use assms(2) in simp)
qed

end

end
