(* ===== verification/Installation_Props.thy ===== *)
theory Installation_Props
  imports Installation Broker_Erase
begin

text \<open>
  What an installation keeps: the refresh-token store of the broker satisfies the contract
  \<open>token_store\<close>, whatever fails, so a sign-in and a refresh leave exactly the credential
  they report. What a removal takes away is in \<open>Flow_Removal\<close>.
\<close>

section \<open>Success of the plumbing\<close>

lemma db_map_err_Inr [simp]: "db_map_err f m c = (Inr a, c') \<longleftrightarrow> m c = (Inr a, c')"
  by (cases "m c") (auto simp: db_map_err_def)

lemma db_map_err_cases:
  assumes "db_map_err f m c = (r, c')"
  obtains r' where "m c = (r', c')" "r = map_err f r'"
  using assms by (cases "m c") (auto simp: db_map_err_def)

lemma on_part_run:
  assumes "on_part look write m c = (r, c')"
  obtains p where "m \<lparr>cn_db = look (cn_db c), cn_calls = cn_calls c\<rparr> = (r, p)"
    "cn_db c' = write (cn_db p) (cn_db c)"
  using assms by (auto simp: on_part_def split: prod.splits)

section \<open>The registry under failures\<close>

text \<open>A read that succeeds returns what it returns when nothing fails.\<close>

lemma read_accounts_Inr:
  "read_accounts fault rows c = (Inr accounts, c') \<Longrightarrow>
    cn_db c' = cn_db c \<and> fst (read_accounts quiet rows d) = Inr accounts"
proof (induction rows arbitrary: accounts c c' d)
  case Nil
  then have "accounts = []" "cn_db c' = cn_db c"
    by (auto elim!: db_bind_Inr dest: backend_call_db)
  then show ?case by (simp add: quiet_simps)
next
  case (Cons r rows)
  then obtain t account rest c1 where
    q: "query_row registry_classify fault (\<lambda>_. get_string (rg_account_id r)) c = (Inr t, c1)" and
    a: "account_id_new t = Inr account" and
    rows: "read_accounts fault rows c1 = (Inr rest, c')" and
    accounts: "accounts = account # rest"
    by (auto simp: db_bind_Inr_iff simp del: account_id_new_Inr)
  note q' = query_row_Inr [OF q]
  from Cons.IH [OF rows, of "tick d"] obtain d' where
    d': "read_accounts quiet rows (tick d) = (Inr rest, d')" and same: "cn_db c' = cn_db c1"
    by (metis prod.collapse)
  from q' a d' have "fst (read_accounts quiet (r # rows) d) = Inr accounts"
    by (simp add: quiet_simps accounts db_result_def del: account_id_new_Inr)
  with q' same show ?case by simp
qed

lemma registry_accounts_Inr:
  assumes "registry_accounts fault c = (Inr accounts, c')" and "registry_wf (cn_db c)"
  shows "cn_db c' = cn_db c \<and> accounts = map fst (registry_entries (cn_db c))"
proof -
  from assms(1) obtain u c1 c2 c3 rows where
    "cn_db c1 = cn_db c" and b: "backend_call registry_classify fault c1 = (Inr u, c2)" and
    q: "query_row registry_classify fault (\<lambda>db. Inr (sort_by by_position db)) c2 = (Inr rows, c3)" and
    r: "read_accounts fault rows c3 = (Inr accounts, c')"
    unfolding registry_accounts_def by (elim with_connection_Inr db_bind_Inr) blast
  with backend_call_db [OF b] query_row_Inr [OF q] have rows: "rows = sort_by by_position (cn_db c)"
      and same: "cn_db c3 = cn_db c" by auto
  have "fst (registry_accounts quiet c) = Inr accounts"
    using read_accounts_Inr [OF r, of "tick (tick (tick c))"]
    by (simp add: registry_accounts_def quiet_simps rows)
  with registry_accounts_quiet [OF assms(2)] read_accounts_Inr [OF r] same show ?thesis by simp
qed

lemma registry_find_Inr:
  assumes "registry_find_by_tag fault tag c = (Inr found, c')" and "registry_wf (cn_db c)"
  shows "cn_db c' = cn_db c \<and> found = map_of (map prod.swap (registry_entries (cn_db c))) tag"
proof -
  let ?read = "\<lambda>db. case filter (tagged tag) db of [] \<Rightarrow> Inr None
      | r # _ \<Rightarrow> map_ok Some (get_string (rg_account_id r))"
  let ?judge = "\<lambda>value. case value of None \<Rightarrow> Inr None
      | Some text \<Rightarrow> map_ok Some (map_err (\<lambda>_. RE_Corrupted) (account_id_new text))"
  from assms(1) obtain c1 c2 v where
    c1: "cn_db c1 = cn_db c" and q: "query_row registry_classify fault ?read c1 = (Inr v, c2)" and
    j: "?judge v = Inr found" "c' = c2"
    unfolding registry_find_by_tag_def by (elim with_connection_Inr db_bind_Inr) auto
  note q' = query_row_Inr [OF q]
  have "fst (registry_find_by_tag quiet tag c) = ?judge v"
    using q' c1 by (simp add: registry_find_by_tag_def quiet_simps db_result_def)
  with j registry_find_quiet [OF assms(2), of tag] q' c1 show ?thesis by simp
qed

lemma registry_read_only: "read_only_op (registry_find_by_tag fault tag)" "read_only_op (registry_accounts fault)"
proof -
  have rows: "read_only_op (read_accounts fault rows)" for rows
    by (induction rows) (auto intro!: op_rules)
  show "read_only_op (registry_accounts fault)"
    unfolding registry_accounts_def by (intro read_only_with read_only_bind op_rules rows)
  show "read_only_op (registry_find_by_tag fault tag)"
    unfolding registry_find_by_tag_def by (intro read_only_with read_only_bind op_rules)
qed

section \<open>Opening an account's store\<close>

lemma keepsD: "keeps P m \<Longrightarrow> m c = (r, c') \<Longrightarrow> P (cn_db c) \<Longrightarrow> P (cn_db c')"
  unfolding keeps_def by (metis snd_conv)

text \<open>Creating a store leaves its rows or replaces them by the freshly migrated ones.\<close>

lemma image_execute_keeps:
  assumes "\<And>k. P k \<Longrightarrow> P (write_image f k)"
  shows "keeps P (image_execute fault f)"
  unfolding image_execute_def
  by (rule keeps_bind, rule keeps_read_only, rule read_only_image) (simp add: keeps_def assms)

lemma migrate_keeps:
  assumes "\<And>k. im_tables (cf_image (cc_file k)) = migrated_tables account \<Longrightarrow> P k"
  shows "keeps P (migrate_fresh fault account)"
  unfolding keeps_def
proof (intro allI impI)
  fix c :: "cipher_conn conn" assume c: "P (cn_db c)"
  obtain r c' where run: "migrate_fresh fault account c = (r, c')" by fastforce
  have "P (cn_db c')"
  proof (cases r)
    case (Inl err)
    with run have "cn_db c' = cn_db c"
      unfolding migrate_fresh_def unchecked_transaction_def
      by (auto split: prod.splits sum.splits dest: backend_call_db)
    with c show ?thesis by simp
  next
    case (Inr u)
    with run have "im_tables (image_of c') = migrated_tables account"
      unfolding migrate_fresh_def
      by (auto elim!: unchecked_transaction_Inr db_bind_Inr dest!: image_execute_Inr
          simp: write_image_def run_migration_def insert_binding_def empty_tables_def migrated_tables_def)
    then show ?thesis by (rule assms)
  qed
  with run show "P (cn_db (snd (migrate_fresh fault account c)))" by simp
qed

lemma same_rows_keeps:
  "op_within same_rows m \<Longrightarrow>
    keeps (\<lambda>k. im_tables (cf_image (cc_file k)) \<in> T) m"
  unfolding op_within_def keeps_def same_rows_def same_contents_def by metis

lemma same_file_keeps:
  "op_within same_file m \<Longrightarrow> keeps (\<lambda>k. im_tables (cf_image (cc_file k)) \<in> T) m"
  unfolding op_within_def keeps_def same_file_def by metis

lemma open_tables:
  assumes "open_database fault account key c = (r, c')"
  shows "im_tables (image_of c') \<in> {im_tables (image_of c), migrated_tables account}"
proof -
  let ?P = "\<lambda>k. im_tables (cf_image (cc_file k)) \<in> {im_tables (image_of c), migrated_tables account}"
  have create: "keeps ?P (materialize_fresh_wal fault)"
    unfolding materialize_fresh_wal_def by (rule image_execute_keeps) (simp add: write_image_def)
  have "keeps ?P (open_database fault account key)"
    unfolding open_database_steps configure_storage_steps
    by (intro keeps_bind same_file_keeps [OF identify_same_file] same_rows_keeps [OF owned_storage_same_rows]
        same_rows_keeps [OF settle_same_rows] keeps_read_only [OF read_only_return])
      (auto intro!: keeps_bind create [simplified] migrate_keeps keeps_read_only [OF read_only_return])
  from keepsD [OF this assms] show ?thesis by simp
qed

lemma token_of_migrated [simp]: "token_of (migrated_tables account) = None"
  by (simp add: token_of_def migrated_tables_def)

lemma token_of_empty [simp]: "token_of empty_tables = None"
  by (simp add: token_of_def empty_tables_def)

text \<open>A blank file holds no token, and opening keeps it that way and every token in place.\<close>

definition sound_file :: "cipher_file \<Rightarrow> bool" where
  "sound_file f \<longleftrightarrow> (blank (cf_image f) \<longrightarrow> token_of (im_tables (cf_image f)) = None)"

lemma blank_same: "same_contents im im' \<Longrightarrow> blank im' = blank im"
  by (simp add: same_contents_def blank_def schema_def)

lemma open_token:
  assumes "open_database fault account key c = (r, c')" and "sound_file (file_of c)"
  shows "sound_file (file_of c')
    \<and> token_of (im_tables (image_of c')) = token_of (im_tables (image_of c))"
proof (cases "blank (image_of c)")
  case True
  with assms(2) open_tables [OF assms(1)] show ?thesis
    by (auto simp: sound_file_def)
next
  case False
  then have same: "same_contents (image_of c) (image_of c')" using open_any [OF assms(1)] by simp
  from blank_same [OF this] False have "\<not> blank (image_of c')" by simp
  with same show ?thesis by (simp add: sound_file_def same_contents_def)
qed

section \<open>The state of an installation\<close>

definition dir_token :: "installation \<Rightarrow> string \<Rightarrow> string option" where
  "dir_token s directory =
     (case in_stores s directory of None \<Rightarrow> None | Some f \<Rightarrow> token_of (im_tables (cf_image f)))"

definition sound_files :: "installation \<Rightarrow> bool" where
  "sound_files s \<longleftrightarrow> (\<forall>d f. in_stores s d = Some f \<longrightarrow> sound_file f)"

definition registered_accounts :: "installation \<Rightarrow> account_id list" where
  "registered_accounts s = map fst (registry_entries (in_registry s))"

text \<open>The accounts that the remaining fills of the random source give.\<close>

definition supplied :: "installation \<Rightarrow> account_id list" where
  "supplied s = concat (map (\<lambda>fill. case fill of None \<Rightarrow> []
     | Some bytes \<Rightarrow> (case account_of_bytes bytes of Inl _ \<Rightarrow> [] | Inr account \<Rightarrow> [account])) (in_fills s))"

text \<open>
  A well-formed installation, with the accounts \<open>pending\<close> that are being created: directories
  do not collide, the accounts still to be drawn have none, and blank files hold no token.
\<close>

definition inst_wf :: "inst_env \<Rightarrow> account_id list \<Rightarrow> installation \<Rightarrow> bool" where
  "inst_wf env pending s \<longleftrightarrow>
     registry_wf (in_registry s) \<and> sound_files s
     \<and> distinct (map (account_dir env) (registered_accounts s @ pending @ supplied s))
     \<and> (\<forall>a\<in>set (supplied s). in_stores s (account_dir env a) = None)"

text \<open>The credential under a dedup tag.\<close>

definition subject_account :: "installation \<Rightarrow> key_error + string \<Rightarrow> account_id option" where
  "subject_account s slot =
     (case slot of Inl _ \<Rightarrow> None
      | Inr tag \<Rightarrow> map_of (map prod.swap (registry_entries (in_registry s))) tag)"

definition credential :: "inst_env \<Rightarrow> installation \<Rightarrow> key_error + string \<Rightarrow> string option" where
  "credential env s slot =
     (case subject_account s slot of None \<Rightarrow> None | Some a \<Rightarrow> dir_token s (account_dir env a))"

section \<open>Steps that keep every credential\<close>

definition steady :: "string \<Rightarrow> installation \<Rightarrow> installation \<Rightarrow> bool" where
  "steady d s s' \<longleftrightarrow>
     in_registry s' = in_registry s \<and> in_fills s' = in_fills s
     \<and> (\<forall>d'. d' \<noteq> d \<longrightarrow> in_stores s' d' = in_stores s d')
     \<and> (sound_files s \<longrightarrow> sound_files s' \<and> dir_token s' d = dir_token s d)"

interpretation std: movement "steady d" for d
  by unfold_locales (auto simp: steady_def)

lemma steady_tokens: "steady d s s' \<Longrightarrow> sound_files s \<Longrightarrow> dir_token s' = dir_token s"
  by (rule ext) (metis dir_token_def steady_def)

lemma steady_credential: "steady d s s' \<Longrightarrow> sound_files s \<Longrightarrow> credential env s' = credential env s"
proof -
  assume "steady d s s'" and "sound_files s"
  then have "in_registry s' = in_registry s" "dir_token s' = dir_token s"
    by (simp_all add: steady_tokens) (simp add: steady_def)
  then show ?thesis by (simp add: fun_eq_iff credential_def subject_account_def split: sum.split option.split)
qed

lemma steady_wf:
  assumes "steady (account_dir env a) s s'" and "inst_wf env pending s"
    and "a \<in> set (registered_accounts s @ pending)"
  shows "inst_wf env pending s'"
proof -
  have same: "registered_accounts s' = registered_accounts s" "supplied s' = supplied s"
    using assms(1) by (simp_all add: steady_def registered_accounts_def supplied_def)
  have "account_dir env b \<noteq> account_dir env a" if "b \<in> set (supplied s)" for b
    using assms(2,3) that by (auto simp: inst_wf_def image_iff)
  then show ?thesis
    using assms(1,2) same by (simp add: inst_wf_def steady_def)
qed

lemma fun_upd_absorb: "x = f d \<Longrightarrow> f(d := x) = f"
  by simp

lemma sound_files_upd:
  "sound_files s \<Longrightarrow> sound_file f \<Longrightarrow> sound_files (s\<lparr>in_stores := (in_stores s)(d \<mapsto> f)\<rparr>)"
  by (simp add: sound_files_def)

lemma sound_empty_file: "sound_file empty_file"
  by (simp add: sound_file_def empty_file_def)

lemma open_account_file_steady: "op_within (steady d) (open_account_file env a d key)"
  unfolding op_within_def
proof
  fix c :: "installation conn"
  define f where "f = (case in_stores (cn_db c) d of Some f \<Rightarrow> f | None \<Rightarrow> empty_file)"
  define k0 where "k0 = \<lparr>cn_db = (ie_conn env)\<lparr>cc_file := f\<rparr>, cn_calls = cn_calls c\<rparr>"
  obtain r k where run: "open_database (ie_faults env) a key k0 = (r, k)" by fastforce
  have f: "sound_file f \<and> token_of (im_tables (cf_image f)) = dir_token (cn_db c) d"
    if "sound_files (cn_db c)"
    using that sound_empty_file
    by (auto simp: f_def sound_files_def dir_token_def empty_file_def split: option.split)
  have open_f: "sound_file (file_of k) \<and> token_of (im_tables (image_of k)) = dir_token (cn_db c) d"
    if "sound_files (cn_db c)"
    using open_token [OF run] f [OF that] by (simp add: k0_def)
  have none: "dir_token (cn_db c) d = None" if "in_stores (cn_db c) d = None"
    using that by (simp add: dir_token_def)
  have "steady d (cn_db c) ((cn_db c)\<lparr>in_stores := (in_stores (cn_db c))(d \<mapsto> file_of k)\<rparr>)"
    using open_f by (auto simp: steady_def dir_token_def sound_files_def)
  moreover have "steady d (cn_db c) ((cn_db c)\<lparr>in_stores := (in_stores (cn_db c))(d := None)\<rparr>)"
    if "in_stores (cn_db c) d = None"
    using that by (simp add: steady_def dir_token_def fun_upd_absorb)
  ultimately show "steady d (cn_db c) (cn_db (snd (open_account_file env a d key c)))"
    using run
    by (cases r) (auto simp: open_account_file_def Let_def f_def [symmetric] k0_def [symmetric])
qed

lemma read_only_ensure: "read_only_op (ensure_private_dir env)"
proof -
  have "read_only_op (env_answer e answer)" for e :: installation_error and answer :: "nat \<Rightarrow> dir_meta option"
    by (simp add: read_only_op_def env_answer_def)
  then show ?thesis
    unfolding ensure_private_dir_def by (intro read_only_bind op_rules read_only_if)
qed

lemma open_store_steady: "op_within (steady (account_dir env a)) (open_store_unchecked env a)"
  unfolding open_store_unchecked_def
  by (intro std.within_bind std.within_read_only read_only_ensure op_rules open_account_file_steady)

lemma open_account_file_Inr:
  assumes "open_account_file env a d key c = (Inr u, c')" and "account_id_ok a"
  shows "\<exists>f. in_stores (cn_db c') d = Some f \<and> owned_by a (cf_image f) \<and> cf_key f = Some key"
  using assms open_Inr [OF _ assms(2)]
  by (auto simp: open_account_file_def Let_def split: prod.splits sum.splits)

lemma open_store_Inr:
  assumes "open_store_unchecked env a c = (Inr u, c')" and "account_id_ok a"
  shows "\<exists>f. in_stores (cn_db c') (account_dir env a) = Some f \<and> owned_by a (cf_image f)"
  using assms open_account_file_Inr [OF _ assms(2)]
  by (fastforce simp: open_store_unchecked_def elim!: db_bind_Inr)

section \<open>Operations on an open store\<close>

lemma set_store_tables_same: "set_store_tables d (store_tables d s) s = s"
proof -
  have "map_option (\<lambda>f. f\<lparr>cf_image := (cf_image f)\<lparr>im_tables := store_tables d s\<rparr>\<rparr>) (in_stores s d)
      = in_stores s d"
    by (cases "in_stores s d") (simp_all add: store_tables_def)
  then show ?thesis by (simp add: set_store_tables_def)
qed

lemma on_store_run:
  assumes "on_store d m c = (r, c')"
  obtains r' p where "m \<lparr>cn_db = store_tables d (cn_db c), cn_calls = cn_calls c\<rparr> = (r', p)"
    "r = map_err IE_Store r'" "cn_db c' = set_store_tables d (cn_db p) (cn_db c)"
  using assms unfolding on_store_def by (elim db_map_err_cases on_part_run) auto

lemma on_store_same:
  assumes "on_store d m c = (r, c')" and "read_only_op m \<or> atomic_op m \<and> \<not> is_ok r"
  shows "cn_db c' = cn_db c"
  using assms(1)
proof (rule on_store_run)
  fix r' p
  assume m: "m \<lparr>cn_db = store_tables d (cn_db c), cn_calls = cn_calls c\<rparr> = (r', p)"
    and r: "r = map_err IE_Store r'" and c': "cn_db c' = set_store_tables d (cn_db p) (cn_db c)"
  from assms(2) have "cn_db p = store_tables d (cn_db c)"
  proof
    assume "read_only_op m"
    with m show ?thesis unfolding read_only_op_def by (metis conn.select_convs(1) snd_conv)
  next
    assume "atomic_op m \<and> \<not> is_ok r"
    moreover from this r obtain err where "r' = Inl err" by (cases r') auto
    ultimately show ?thesis using m unfolding atomic_op_def by fastforce
  qed
  with c' show ?thesis by (simp add: set_store_tables_same)
qed

text \<open>Writing the tables of a store that has an owner.\<close>

lemma set_store_tables_wf:
  assumes "inst_wf env pending s" and "in_stores s d = Some f" and "owned_by a (cf_image f)"
  shows "inst_wf env pending (set_store_tables d t s)"
    and "dir_token (set_store_tables d t s) = (dir_token s)(d := token_of t)"
proof -
  let ?f = "f\<lparr>cf_image := (cf_image f)\<lparr>im_tables := t\<rparr>\<rparr>"
  have eq: "set_store_tables d t s = s\<lparr>in_stores := (in_stores s)(d \<mapsto> ?f)\<rparr>"
    using assms(2) by (simp add: set_store_tables_def)
  have "im_application_id (cf_image ?f) \<noteq> 0"
    using assms(3) by (simp add: owned_by_def STORE_APPLICATION_ID_def)
  then have "sound_file ?f" by (simp add: sound_file_def blank_def)
  then have "sound_files (set_store_tables d t s)"
    using assms(1) unfolding eq by (intro sound_files_upd) (simp_all add: inst_wf_def)
  moreover have "registered_accounts (set_store_tables d t s) = registered_accounts s"
    "supplied (set_store_tables d t s) = supplied s"
    by (simp_all add: eq registered_accounts_def supplied_def)
  moreover have "account_dir env b \<noteq> d" if "b \<in> set (supplied s)" for b
    using assms(1,2) that by (auto simp: inst_wf_def)
  ultimately show "inst_wf env pending (set_store_tables d t s)"
    using assms(1) by (auto simp: inst_wf_def eq)
  show "dir_token (set_store_tables d t s) = (dir_token s)(d := token_of t)"
    by (rule ext) (simp add: eq dir_token_def)
qed

lemma set_store_tables_subject [simp]:
  "subject_account (set_store_tables d t s) = subject_account s"
  by (simp add: fun_eq_iff subject_account_def set_store_tables_def split: sum.split)

lemma on_store_Inr:
  assumes "on_store d m c = (Inr a, c')"
  shows "\<exists>p. m \<lparr>cn_db = store_tables d (cn_db c), cn_calls = cn_calls c\<rparr> = (Inr a, p)
    \<and> cn_db c' = set_store_tables d (cn_db p) (cn_db c)"
  using assms by (rule on_store_run) (auto dest: sym)

section \<open>Finding and registering the account of a subject\<close>

lemma on_registry_read:
  assumes "on_registry m c = (r, c')" and "read_only_op m"
  shows "cn_db c' = cn_db c"
  using assms(1) unfolding on_registry_def
proof (elim db_map_err_cases on_part_run)
  fix r' p
  assume m: "m \<lparr>cn_db = in_registry (cn_db c), cn_calls = cn_calls c\<rparr> = (r', p)"
    and c': "cn_db c' = (cn_db c)\<lparr>in_registry := cn_db p\<rparr>"
  from m assms(2) have "cn_db p = in_registry (cn_db c)"
    unfolding read_only_op_def by (metis conn.select_convs(1) snd_conv)
  with c' show ?thesis by simp
qed

lemma on_registry_Inr:
  assumes "on_registry m c = (Inr a, c')"
  shows "\<exists>p. m \<lparr>cn_db = in_registry (cn_db c), cn_calls = cn_calls c\<rparr> = (Inr a, p)
    \<and> cn_db c' = (cn_db c)\<lparr>in_registry := cn_db p\<rparr>"
  using assms unfolding on_registry_def by (auto elim: on_part_run)

lemma account_for_subject_same:
  "account_for_subject env subject c = (r, c') \<Longrightarrow> cn_db c' = cn_db c"
  unfolding account_for_subject_def
  by (cases "map_err IE_Key (subject_tag env subject)")
    (auto simp: db_bind_def db_result_def dest: on_registry_read [OF _ registry_read_only(1)])

lemma find_Inr:
  assumes "on_registry (registry_find_by_tag fault tag) c = (Inr found, c')"
    and "registry_wf (in_registry (cn_db c))"
  shows "found = subject_account (cn_db c) (Inr tag)"
  using on_registry_Inr [OF assms(1)] assms(2) registry_find_Inr
  by (fastforce simp: subject_account_def)

lemma account_for_subject_Inr:
  assumes "account_for_subject env subject c = (Inr found, c')" and "registry_wf (in_registry (cn_db c))"
  shows "found = subject_account (cn_db c) (subject_tag env subject)"
proof -
  from assms(1) obtain tag where tag: "subject_tag env subject = Inr tag"
    and "on_registry (registry_find_by_tag (ie_faults env) tag) c = (Inr found, c')"
    by (auto simp: account_for_subject_def db_bind_Inr_iff)
  with find_Inr assms(2) show ?thesis by auto
qed

lemma subject_account_ok:
  assumes "registry_wf (in_registry s)" and "subject_account s slot = Some a"
  shows "account_id_ok a \<and> a \<in> set (registered_accounts s)"
proof -
  from assms(2) obtain tag where "map_of (map prod.swap (registry_entries (in_registry s))) tag = Some a"
    by (auto simp: subject_account_def split: sum.splits)
  then have "(tag, a) \<in> set (map prod.swap (registry_entries (in_registry s)))" by (rule map_of_SomeD)
  then have in_entries: "(a, tag) \<in> set (registry_entries (in_registry s))" by auto
  then have "a \<in> set (registered_accounts s)" by (force simp: registered_accounts_def)
  moreover from in_entries obtain r where r: "r \<in> set (in_registry s)" "entry_of r = (a, tag)"
    using assms(1) by (auto simp: registry_entries_wf)
  with assms(1) have "registry_row_ok r" by (auto simp: registry_wf_def list_all_iff)
  with r have "account_id_ok a" by (auto elim: registry_row_okE)
  ultimately show ?thesis by simp
qed

lemma pending_dropped: "inst_wf env [a] s \<Longrightarrow> inst_wf env [] s"
  by (auto simp: inst_wf_def)

lemma new_account_id_run:
  assumes "new_account_id c = (r, c')" and "inst_wf env [] (cn_db c)"
  shows "in_registry (cn_db c') = in_registry (cn_db c) \<and> in_stores (cn_db c') = in_stores (cn_db c)
    \<and> (case r of
          Inr a \<Rightarrow> account_id_ok a \<and> inst_wf env [a] (cn_db c') \<and> in_stores (cn_db c') (account_dir env a) = None
        | Inl _ \<Rightarrow> inst_wf env [] (cn_db c'))"
proof (cases "in_fills (cn_db c)")
  case Nil
  with assms show ?thesis by (auto simp: new_account_id_def random_fill_def db_bind_def)
next
  case (Cons fill rest)
  define s' where "s' = (cn_db c)\<lparr>in_fills := rest\<rparr>"
  have same: "in_registry s' = in_registry (cn_db c)" "in_stores s' = in_stores (cn_db c)"
    "registered_accounts s' = registered_accounts (cn_db c)" "sound_files s' = sound_files (cn_db c)"
    by (simp_all add: s'_def registered_accounts_def sound_files_def)
  show ?thesis
  proof (cases fill)
    case None
    with Cons have "supplied s' = supplied (cn_db c)" by (simp add: s'_def supplied_def)
    with assms(2) same have "inst_wf env [] s'" by (simp add: inst_wf_def)
    with assms(1) Cons None same show ?thesis
      by (auto simp: new_account_id_def random_fill_def db_bind_def s'_def)
  next
    case (Some bytes)
    have c': "cn_db c' = s'" "r = account_of_bytes bytes"
      using assms(1) Cons Some by (auto simp: new_account_id_def random_fill_def db_bind_def db_result_def s'_def)
    show ?thesis
    proof (cases r)
      case (Inl err)
      then have "account_of_bytes bytes = Inl err" using c'(2) by simp
      with Cons Some have "supplied s' = supplied (cn_db c)" by (simp add: s'_def supplied_def)
      with assms(2) same have "inst_wf env [] s'" by (simp add: inst_wf_def)
      with same Inl show ?thesis by (simp add: c'(1))
    next
      case (Inr a)
      then have "account_of_bytes bytes = Inr a" using c'(2) by simp
      with Cons Some have "supplied (cn_db c) = a # supplied s'" by (simp add: s'_def supplied_def)
      with assms(2) same have "inst_wf env [a] s'" "in_stores s' (account_dir env a) = None"
        by (simp_all add: inst_wf_def)
      moreover have "account_id_ok a"
        using Inr c'(2) unfolding account_of_bytes_def by (simp add: account_id_new_Inr)
      ultimately show ?thesis using same Inr by (simp add: c'(1))
    qed
  qed
qed

lemma broker_subject_token:
  assumes "store_broker_subject flt own account subject c = (Inr u, c')"
  shows "token_of (cn_db c') = token_of (cn_db c)"
proof -
  from assms have "cn_db c' = fst (update_binding account (\<lambda>b. b\<lparr>bd_broker_subject := SText subject\<rparr>) (cn_db c))"
    unfolding store_broker_subject_def
    by (auto simp: db_bind_Inr_iff checked_account_def elim!: with_connection_Inr dest!: execute_Inr
        split: if_splits)
  then show ?thesis
    by (auto simp: token_of_def update_binding_def split: option.split)
qed

lemma broker_subject_atomic: "atomic_op (store_broker_subject flt own account subject)"
  using writes_atomic by blast

lemma create_store_run:
  assumes "db_bind (open_store_unchecked env a) (\<lambda>_. on_store (account_dir env a)
      (store_broker_subject flt a a subject)) c = (r, c')"
    and "inst_wf env [a] (cn_db c)" and "account_id_ok a"
  shows "inst_wf env [a] (cn_db c') \<and> in_registry (cn_db c') = in_registry (cn_db c)
    \<and> dir_token (cn_db c') = dir_token (cn_db c)"
proof -
  obtain r1 c1 where run: "open_store_unchecked env a c = (r1, c1)" by fastforce
  note s1 = withinD [OF open_store_steady run]
  have wf1: "inst_wf env [a] (cn_db c1)" by (rule steady_wf [OF s1 assms(2)]) simp
  have t1: "dir_token (cn_db c1) = dir_token (cn_db c)" "in_registry (cn_db c1) = in_registry (cn_db c)"
    using steady_tokens [OF s1] assms(2) s1 by (simp_all add: inst_wf_def steady_def)
  show ?thesis
  proof (cases r1)
    case (Inl err)
    with assms(1) run wf1 t1 show ?thesis by (simp add: db_bind_def)
  next
    case (Inr u)
    from open_store_Inr [OF run [unfolded Inr] assms(3)] obtain f where
      f: "in_stores (cn_db c1) (account_dir env a) = Some f" "owned_by a (cf_image f)" by blast
    from assms(1) run Inr have m: "on_store (account_dir env a) (store_broker_subject flt a a subject) c1 = (r, c')"
      by (simp add: db_bind_def)
    show ?thesis
    proof (cases "is_ok r")
      case False
      with on_store_same [OF m] broker_subject_atomic wf1 t1 show ?thesis by simp
    next
      case True
      then obtain p where
        p: "store_broker_subject flt a a subject
            \<lparr>cn_db = store_tables (account_dir env a) (cn_db c1), cn_calls = cn_calls c1\<rparr> = (Inr (), p)"
        and c': "cn_db c' = set_store_tables (account_dir env a) (cn_db p) (cn_db c1)"
        using on_store_Inr m by (fastforce simp: is_ok_iff)
      have "token_of (cn_db p) = dir_token (cn_db c1) (account_dir env a)"
        using broker_subject_token [OF p] f(1) by (simp add: store_tables_def dir_token_def)
      then have "dir_token (cn_db c') = dir_token (cn_db c1)"
        using set_store_tables_wf(2) [OF wf1 f] by (simp add: c')
      moreover have "inst_wf env [a] (cn_db c')"
        using set_store_tables_wf(1) [OF wf1 f] by (simp add: c')
      ultimately show ?thesis using t1 by (simp add: c' set_store_tables_def)
    qed
  qed
qed

lemma registry_register_entries:
  assumes "registry_register fault account tag c = (Inr u, c')" and "registry_wf (cn_db c)"
    and "account_id_ok account" and "length tag = DEDUP_TAG_LEN"
  shows "registry_wf (cn_db c') \<and> registry_entries (cn_db c') = registry_entries (cn_db c) @ [(account, tag)]"
  using assms(1)
proof (rule registry_register_Inr)
  fix n
  assume n: "next_position (cn_db c) = Inr n" "length (cn_db c) < MAX_ACCOUNTS"
    "\<not> list_ex (registered account tag) (cn_db c)"
    and c': "cn_db c' = cn_db c @ [\<lparr>rg_account_id = SText (account_id_str account),
       rg_dedup_tag = SBlob tag, rg_position = n\<rparr>]"
  from registry_wf_append [OF assms(2) n assms(3,4)] show ?thesis
    by (simp add: c' registry_entries_wf assms(2))
qed

lemma credential_cong:
  "in_registry s' = in_registry s \<Longrightarrow> dir_token s' = dir_token s \<Longrightarrow> credential env s' = credential env s"
  by (simp add: fun_eq_iff credential_def subject_account_def split: sum.split option.split)

lemma registration_state:
  assumes "inst_wf env [a] s" and "registry_wf db" and "account_id_ok a"
    and "registry_entries db = registry_entries (in_registry s) @ [(a, tag)]"
    and "subject_account s (Inr tag) = None" and "dir_token s (account_dir env a) = None"
  defines "s' \<equiv> s\<lparr>in_registry := db\<rparr>"
  shows "inst_wf env [] s'" and "credential env s' = credential env s"
    and "subject_account s' (Inr tag) = Some a"
proof -
  have "registered_accounts s' = registered_accounts s @ [a]"
    by (simp add: registered_accounts_def s'_def assms(4))
  moreover have "supplied s' = supplied s" "sound_files s' = sound_files s" "in_stores s' = in_stores s"
    by (simp_all add: s'_def supplied_def sound_files_def)
  ultimately show "inst_wf env [] s'"
    using assms(1,2) by (simp add: inst_wf_def s'_def)
  have subj: "subject_account s' slot = (if slot = Inr tag then Some a else subject_account s slot)" for slot
    using assms(5)
    by (cases slot) (auto simp: subject_account_def s'_def assms(4) map_add_def split: option.split)
  then show "subject_account s' (Inr tag) = Some a" by simp
  have "dir_token s' = dir_token s" by (simp add: fun_eq_iff dir_token_def s'_def)
  then show "credential env s' = credential env s"
    using assms(5,6) by (simp add: fun_eq_iff credential_def subj split: option.split)
qed

lemma read_only_capacity: "read_only_op (has_capacity env)"
proof -
  have "read_only_op (installation_accounts env)"
    unfolding read_only_op_def installation_accounts_def
    using on_registry_read [OF _ registry_read_only(2)] by (metis prod.collapse)
  then show ?thesis unfolding has_capacity_def by (intro read_only_bind op_rules)
qed

text \<open>
  Registering a subject: every credential stays, the installation stays well-formed, and a
  success has found or made the subject's account.
\<close>

definition tags_ok :: "inst_env \<Rightarrow> bool" where
  "tags_ok env \<longleftrightarrow> (\<forall>k m. length (cr_hmac (ie_crypto env) k m) = DEDUP_TAG_LEN)"

lemma subject_tag_length: "tags_ok env \<Longrightarrow> subject_tag env subject = Inr tag \<Longrightarrow> length tag = DEDUP_TAG_LEN"
  by (auto simp: tags_ok_def subject_tag_def registry_dedup_tag_def map_ok_Inr)

lemma register_subject_run:
  assumes "register_subject env subject tag c = (r, c')" and "inst_wf env [] (cn_db c)"
    and "subject_account (cn_db c) (Inr tag) = None" and "length tag = DEDUP_TAG_LEN"
  shows "inst_wf env [] (cn_db c') \<and> credential env (cn_db c') = credential env (cn_db c)
    \<and> (\<forall>a. r = Inr a \<longrightarrow> subject_account (cn_db c') (Inr tag) = Some a)"
proof -
  obtain r1 c1 where cap: "has_capacity env c = (r1, c1)" by fastforce
  with read_only_capacity have c1: "cn_db c1 = cn_db c" unfolding read_only_op_def by (metis snd_conv)
  show ?thesis
  proof (cases "r1 = Inr True")
    case False
    with assms(1) cap have "\<exists>e. r = Inl e" "c' = c1"
      by (auto simp: register_subject_def db_bind_def db_result_def split: sum.splits)
    with c1 assms(2) show ?thesis by auto
  next
    case True
    obtain r2 c2 where new: "new_account_id c1 = (r2, c2)" by fastforce
    note n = new_account_id_run [OF new, of env] assms(2) c1
    have cred2: "credential env (cn_db c2) = credential env (cn_db c)"
      using n by (intro credential_cong) (auto simp: dir_token_def fun_eq_iff)
    show ?thesis
    proof (cases r2)
      case (Inl err)
      with assms(1) cap True new have "r = Inl err" "c' = c2"
        by (simp_all add: register_subject_def db_bind_def)
      with n Inl cred2 show ?thesis by simp
    next
      case (Inr a)
      have "inst_wf env [] (cn_db c1)" using assms(2) c1 by simp
      note n' = new_account_id_run [OF new [unfolded Inr] this, unfolded sum.case c1]
      then have a: "account_id_ok a" "inst_wf env [a] (cn_db c2)" "in_stores (cn_db c2) (account_dir env a) = None"
        "in_registry (cn_db c2) = in_registry (cn_db c)"
        by blast+
      then have fresh: "dir_token (cn_db c2) (account_dir env a) = None" by (simp add: dir_token_def)
      let ?create = "db_bind (open_store_unchecked env a) (\<lambda>_. on_store (account_dir env a)
          (store_broker_subject (ie_faults env) a a (validated_str subject)))"
      obtain r3 c3 where create: "?create c2 = (r3, c3)" by fastforce
      note k = create_store_run [OF create a(2,1)]
      have cred3: "credential env (cn_db c3) = credential env (cn_db c)"
        using k cred2 credential_cong by metis
      have run: "db_bind ?create (\<lambda>_. db_bind (on_registry (registry_register (ie_faults env) a tag))
          (\<lambda>_. db_return a)) c2 = (r, c')"
        using assms(1) cap True new Inr by (simp add: register_subject_def db_bind_assoc) (simp add: db_bind_def)
      show ?thesis
      proof (cases r3)
        case (Inl err)
        with run create have "r = Inl err" "c' = c3" by (simp_all add: db_bind_def)
        with k cred3 pending_dropped [of env a "cn_db c3"] show ?thesis by simp
      next
        case (Inr u)
        obtain r4 c4 where reg: "on_registry (registry_register (ie_faults env) a tag) c3 = (r4, c4)" by fastforce
        show ?thesis
        proof (cases r4)
          case (Inl err)
          from reg obtain q p where q: "registry_register (ie_faults env) a tag
              \<lparr>cn_db = in_registry (cn_db c3), cn_calls = cn_calls c3\<rparr> = (q, p)"
            "r4 = map_err IE_Registry q" "cn_db c4 = (cn_db c3)\<lparr>in_registry := cn_db p\<rparr>"
            unfolding on_registry_def by (elim db_map_err_cases on_part_run) auto
          with Inl obtain e where "q = Inl e" by (cases q) auto
          with q registry_register_atomic have "cn_db p = in_registry (cn_db c3)"
            unfolding atomic_op_def by (metis conn.select_convs(1))
          with q have "cn_db c4 = cn_db c3" by simp
          moreover from run create Inr reg Inl have "r = Inl err" "c' = c4"
            unfolding \<open>r3 = Inr u\<close> by (simp_all add: db_bind_def)
          ultimately show ?thesis using k cred3 pending_dropped [of env a "cn_db c3"] by simp
        next
          case (Inr v)
          have ok: "r = Inr a" "c' = c4"
            using run create reg Inr unfolding \<open>r3 = Inr u\<close> by (simp_all add: db_bind_def db_return_def)
          from on_registry_Inr [OF reg [unfolded Inr]] obtain p where
            p: "registry_register (ie_faults env) a tag
                \<lparr>cn_db = in_registry (cn_db c3), cn_calls = cn_calls c3\<rparr> = (Inr v, p)"
              "cn_db c4 = (cn_db c3)\<lparr>in_registry := cn_db p\<rparr>" by blast
          have wf3: "registry_wf (in_registry (cn_db c3))" using k unfolding inst_wf_def by blast
          from registry_register_entries [OF p(1)] wf3 a(1) assms(4)
          have "registry_wf (cn_db p)" "registry_entries (cn_db p) = registry_entries (in_registry (cn_db c3)) @ [(a, tag)]"
            by simp_all
          moreover have "subject_account (cn_db c3) (Inr tag) = None" "dir_token (cn_db c3) (account_dir env a) = None"
            using assms(3) k a fresh by (simp_all add: subject_account_def)
          ultimately show ?thesis
            using registration_state [of env a "cn_db c3" "cn_db p" tag] k a(1) cred3 ok p(2) by simp
        qed
      qed
    qed
  qed
qed

lemma find_or_register_run:
  assumes "account_for_subject_or_register env subject c = (r, c')"
    and "inst_wf env [] (cn_db c)" and "tags_ok env"
  shows "inst_wf env [] (cn_db c') \<and> credential env (cn_db c') = credential env (cn_db c)
    \<and> (\<forall>a. r = Inr a \<longrightarrow> subject_account (cn_db c') (subject_tag env (validated_str subject)) = Some a)"
proof -
  obtain q c1 where lock: "backend_call (\<lambda>_. IE_Directory) (ie_faults env) c = (q, c1)" by fastforce
  have c1: "cn_db c1 = cn_db c" using backend_call_db [OF lock] .
  note run = assms(1) [unfolded account_for_subject_or_register_def with_connection_def]
  show ?thesis
  proof (cases "\<exists>u tag. q = Inr u \<and> subject_tag env (validated_str subject) = Inr tag")
    case False
    with run lock have "\<exists>e. r = Inl e" "c' = c1"
      by (auto simp: db_bind_def db_result_def split: sum.splits prod.splits)
    with c1 assms(2) show ?thesis by auto
  next
    case True
    then obtain tag where tag: "subject_tag env (validated_str subject) = Inr tag" and q: "q = Inr ()" by auto
    obtain r2 c2 where look: "on_registry (registry_find_by_tag (ie_faults env) tag) c1 = (r2, c2)" by fastforce
    have c2: "cn_db c2 = cn_db c" using on_registry_read [OF look registry_read_only(1)] c1 by simp
    show ?thesis
    proof (cases r2)
      case (Inl err)
      with run lock q tag look have "r = Inl err" "c' = c2" by (simp_all add: db_bind_def db_result_def)
      with c2 assms(2) show ?thesis by simp
    next
      case (Inr found)
      with find_Inr [of "ie_faults env" tag c1] look c1 assms(2)
      have found: "found = subject_account (cn_db c) (Inr tag)" by (simp add: inst_wf_def)
      show ?thesis
      proof (cases found)
        case None
        with run lock q tag look Inr have "register_subject env subject tag c2 = (r, c')"
          by (simp add: db_bind_def db_result_def)
        from register_subject_run [OF this] None found c2 assms(2) subject_tag_length [OF assms(3) tag] tag
        show ?thesis by simp
      next
        case (Some a)
        with run lock q tag look Inr have "r = Inr a" "c' = c2" by (simp_all add: db_bind_def db_result_def db_return_def)
        with Some found c2 assms(2) tag show ?thesis by simp
      qed
    qed
  qed
qed

section \<open>The contract of the refresh-token store\<close>

lemma write_credential:
  assumes "inst_wf env [] s" and "subject_account s slot = Some a"
    and "in_registry s' = in_registry s" and "dir_token s' = (dir_token s)(account_dir env a := v)"
  shows "credential env s' = (credential env s)(slot := v)"
proof
  fix k
  have wf: "registry_wf (in_registry s)" and dirs: "distinct (map (account_dir env) (registered_accounts s))"
    using assms(1) by (simp_all add: inst_wf_def)
  have same: "subject_account s' = subject_account s"
    using assms(3) by (simp add: fun_eq_iff subject_account_def split: sum.split)
  have other: "k = slot" if "subject_account s k = Some b" "account_dir env b = account_dir env a" for b
  proof -
    have "b \<in> set (registered_accounts s)" "a \<in> set (registered_accounts s)"
      using subject_account_ok [OF wf] that(1) assms(2) by blast+
    with that(2) dirs have ab: "b = a" by (metis distinct_map inj_onD)
    from that(1) assms(2) obtain t t' where t: "k = Inr t" "slot = Inr t'"
      "map_of (map prod.swap (registry_entries (in_registry s))) t = Some b"
      "map_of (map prod.swap (registry_entries (in_registry s))) t' = Some a"
      by (auto simp: subject_account_def split: sum.splits)
    from map_of_SomeD [OF t(3)] map_of_SomeD [OF t(4)]
    have entries: "(a, t) \<in> set (registry_entries (in_registry s))" "(a, t') \<in> set (registry_entries (in_registry s))"
      unfolding ab by auto
    have "distinct (map fst (registry_entries (in_registry s)))"
      using distinct_mapD1 [OF dirs] by (simp add: registered_accounts_def)
    from eq_key_imp_eq_value [OF this entries] show "k = slot" unfolding t(1,2) by simp
  qed
  show "credential env s' k = ((credential env s)(slot := v)) k"
  proof (cases "k = slot")
    case True
    with assms(2) show ?thesis by (simp add: credential_def same assms(4))
  next
    case False
    show ?thesis
    proof (cases "subject_account s k")
      case (Some b)
      with other False have "account_dir env b \<noteq> account_dir env a" by blast
      with Some False show ?thesis by (simp add: credential_def same assms(4))
    qed (use False in \<open>simp add: credential_def same\<close>)
  qed
qed

lemma open_for_subject:
  assumes "open_store_unchecked env a c = (r, c')" and "inst_wf env [] (cn_db c)"
    and "subject_account (cn_db c) slot = Some a"
  shows "inst_wf env [] (cn_db c') \<and> in_registry (cn_db c') = in_registry (cn_db c)
    \<and> dir_token (cn_db c') = dir_token (cn_db c) \<and> credential env (cn_db c') = credential env (cn_db c)
    \<and> subject_account (cn_db c') = subject_account (cn_db c)
    \<and> (\<forall>u. r = Inr u \<longrightarrow> (\<exists>f. in_stores (cn_db c') (account_dir env a) = Some f \<and> owned_by a (cf_image f)))"
proof -
  note s = withinD [OF open_store_steady assms(1)]
  have wf: "registry_wf (in_registry (cn_db c))" "sound_files (cn_db c)" using assms(2) by (simp_all add: inst_wf_def)
  note a = subject_account_ok [OF wf(1) assms(3)]
  have reg: "in_registry (cn_db c') = in_registry (cn_db c)" using s by (simp add: steady_def)
  then have "subject_account (cn_db c') = subject_account (cn_db c)"
    by (simp add: fun_eq_iff subject_account_def split: sum.split)
  then show ?thesis
    using reg a steady_wf [OF s assms(2)] steady_tokens [OF s wf(2)] steady_credential [OF s wf(2)]
      open_store_Inr assms(1) by auto
qed

lemma write_on_store:
  assumes "on_store (account_dir env a) m c = (r, c')" and "atomic_op m"
    and "inst_wf env [] (cn_db c)" and "subject_account (cn_db c) slot = Some a"
    and "in_stores (cn_db c) (account_dir env a) = Some f" and "owned_by a (cf_image f)"
    and "\<And>d u d'. m d = (Inr u, d') \<Longrightarrow> token_of (cn_db d') = v"
  shows "inst_wf env [] (cn_db c')
    \<and> credential env (cn_db c') = (if is_ok r then (credential env (cn_db c))(slot := v) else credential env (cn_db c))"
proof (cases "is_ok r")
  case False
  with on_store_same [OF assms(1)] assms(2,3) show ?thesis by simp
next
  case True
  then obtain u where r: "r = Inr u" by (auto simp: is_ok_iff)
  from on_store_Inr [OF assms(1) [unfolded r]] obtain p where
    p: "m \<lparr>cn_db = store_tables (account_dir env a) (cn_db c), cn_calls = cn_calls c\<rparr> = (Inr u, p)"
    and c': "cn_db c' = set_store_tables (account_dir env a) (cn_db p) (cn_db c)" by blast
  have "dir_token (cn_db c') = (dir_token (cn_db c))(account_dir env a := v)"
    using set_store_tables_wf(2) [OF assms(3,5,6)] assms(7) [OF p] by (simp add: c')
  from write_credential [OF assms(3,4) _ this] True set_store_tables_wf(1) [OF assms(3,5,6)]
  show ?thesis by (simp add: c' set_store_tables_def)
qed

lemma tokens_store_law:
  assumes "inst_wf env [] (cn_db c)" and "tags_ok env" and "tokens_store env subject token c = (r, c')"
  shows "inst_wf env [] (cn_db c') \<and> credential env (cn_db c') =
    (if is_ok r then (credential env (cn_db c))(subject_tag env (validated_str subject) \<mapsto> token)
     else credential env (cn_db c))"
proof -
  let ?put = "\<lambda>a. on_store (account_dir env a) (store_refresh_token (ie_faults env) a a token)"
  from assms(3) obtain q where
    run: "db_bind (account_for_subject_or_register env subject) (\<lambda>a.
        db_bind (open_store_unchecked env a) (\<lambda>_. ?put a)) c = (q, c')"
    and r: "r = map_err (\<lambda>_. RTS_Unavailable) q"
    unfolding tokens_store_def by (elim db_map_err_cases) auto
  have ok: "is_ok r = is_ok q" by (cases q) (simp_all add: r)
  obtain q1 c1 where find: "account_for_subject_or_register env subject c = (q1, c1)" by fastforce
  note k1 = find_or_register_run [OF find assms(1,2)]
  show ?thesis
  proof (cases q1)
    case (Inl err)
    with run find k1 ok show ?thesis by (auto simp: db_bind_def)
  next
    case (Inr a)
    obtain q2 c2 where opn: "open_store_unchecked env a c1 = (q2, c2)" by fastforce
    from k1 Inr have subj: "subject_account (cn_db c1) (subject_tag env (validated_str subject)) = Some a" by simp
    note k2 = open_for_subject [OF opn _ subj]
    show ?thesis
    proof (cases q2)
      case (Inl err)
      with run find opn k1 k2 ok \<open>q1 = Inr a\<close> show ?thesis by (auto simp: db_bind_def)
    next
      case (Inr u)
      with k1 k2 obtain f where f: "in_stores (cn_db c2) (account_dir env a) = Some f" "owned_by a (cf_image f)"
        by blast
      from run find opn Inr \<open>q1 = Inr a\<close> have w: "?put a c2 = (q, c')" by (simp add: db_bind_def)
      have "atomic_op (store_refresh_token (ie_faults env) a a token)" using writes_atomic by blast
      from write_on_store [OF w this, of "subject_tag env (validated_str subject)" f "Some token"]
        f k1 k2 subj store_token_Inr ok
      show ?thesis by force
    qed
  qed
qed

lemma tokens_delete_law:
  assumes "inst_wf env [] (cn_db c)" and "tokens_delete env subject c = (r, c')"
  shows "inst_wf env [] (cn_db c') \<and> credential env (cn_db c') =
    (if is_ok r then (credential env (cn_db c))(subject_tag env (validated_str subject) := None)
     else credential env (cn_db c))"
proof -
  let ?slot = "subject_tag env (validated_str subject)"
  let ?put = "\<lambda>a. on_store (account_dir env a) (clear_refresh_token (ie_faults env) a a)"
  from assms(2) obtain q where
    run: "db_bind (account_for_subject env (validated_str subject)) (\<lambda>found. case found of
          None \<Rightarrow> db_return ()
        | Some a \<Rightarrow> db_bind (open_store_unchecked env a) (\<lambda>_. ?put a)) c = (q, c')"
    and r: "r = map_err (\<lambda>_. RTS_Unavailable) q"
    unfolding tokens_delete_def by (elim db_map_err_cases) auto
  have ok: "is_ok r = is_ok q" by (cases q) (simp_all add: r)
  obtain q1 c1 where find: "account_for_subject env (validated_str subject) c = (q1, c1)" by fastforce
  note c1 = account_for_subject_same [OF find]
  show ?thesis
  proof (cases q1)
    case (Inl err)
    with run find c1 ok assms(1) show ?thesis by (auto simp: db_bind_def)
  next
    case (Inr found)
    with account_for_subject_Inr [of env _ c] find assms(1)
    have found: "found = subject_account (cn_db c) ?slot" by (simp add: inst_wf_def)
    show ?thesis
    proof (cases found)
      case None
      then have "credential env (cn_db c) ?slot = None" using found by (simp add: credential_def)
      with run find Inr None c1 ok assms(1) show ?thesis
        by (auto simp: db_bind_def db_return_def)
    next
      case (Some a)
      obtain q2 c2 where opn: "open_store_unchecked env a c1 = (q2, c2)" by fastforce
      from Some found c1 have subj: "subject_account (cn_db c1) ?slot = Some a" by simp
      have wf1: "inst_wf env [] (cn_db c1)" using assms(1) c1 by simp
      note k2 = open_for_subject [OF opn wf1 subj]
      show ?thesis
      proof (cases q2)
        case (Inl err)
        with run find opn k2 ok c1 Some \<open>q1 = Inr found\<close> show ?thesis by (auto simp: db_bind_def)
      next
        case (Inr u)
        with k2 obtain f where f: "in_stores (cn_db c2) (account_dir env a) = Some f" "owned_by a (cf_image f)"
          by blast
        from run find opn Inr Some \<open>q1 = Inr found\<close> have w: "?put a c2 = (q, c')" by (simp add: db_bind_def)
        have "atomic_op (clear_refresh_token (ie_faults env) a a)" using writes_atomic by blast
        from write_on_store [OF w this, of ?slot f None] f k2 c1 subj clear_token_Inr ok
        show ?thesis by force
      qed
    qed
  qed
qed

lemma tokens_load_law:
  assumes "inst_wf env [] (cn_db c)" and "tokens_load env subject c = (r, c')"
  shows "inst_wf env [] (cn_db c') \<and> credential env (cn_db c') = credential env (cn_db c)
    \<and> (\<forall>v. r = Inr v \<longrightarrow> v = credential env (cn_db c) (subject_tag env (validated_str subject)))"
proof -
  let ?slot = "subject_tag env (validated_str subject)"
  let ?U = "\<lambda>_. RTS_Unavailable"
  let ?judge = "\<lambda>err. if err = IE_Store Corrupted then RTS_Invalid else RTS_Unavailable"
  let ?read = "\<lambda>a. on_store (account_dir env a) (load_refresh_token (ie_faults env) a a)"
  obtain q1 c1 where find: "account_for_subject env (validated_str subject) c = (q1, c1)" by fastforce
  note c1 = account_for_subject_same [OF find]
  note run = assms(2) [unfolded tokens_load_def]
  show ?thesis
  proof (cases q1)
    case (Inl err)
    with run find c1 assms(1) show ?thesis by (auto simp: db_bind_def db_map_err_def)
  next
    case (Inr found)
    with account_for_subject_Inr [of env _ c] find assms(1)
    have found: "found = subject_account (cn_db c) ?slot" by (simp add: inst_wf_def)
    show ?thesis
    proof (cases found)
      case None
      then have "credential env (cn_db c) ?slot = None" using found by (simp add: credential_def)
      with run find Inr None c1 assms(1) show ?thesis
        by (auto simp: db_bind_def db_map_err_def db_return_def)
    next
      case (Some a)
      obtain q2 c2 where opn: "open_store_unchecked env a c1 = (q2, c2)" by fastforce
      from Some found c1 have subj: "subject_account (cn_db c1) ?slot = Some a" by simp
      have wf1: "inst_wf env [] (cn_db c1)" using assms(1) c1 by simp
      note k2 = open_for_subject [OF opn wf1 subj]
      show ?thesis
      proof (cases q2)
        case (Inl err)
        with run find opn k2 c1 Some \<open>q1 = Inr found\<close> show ?thesis
          by (auto simp: db_bind_def db_map_err_def)
      next
        case (Inr u)
        with k2 obtain f where f: "in_stores (cn_db c2) (account_dir env a) = Some f" "owned_by a (cf_image f)"
          by blast
        obtain q3 where w: "?read a c2 = (q3, c')" and r: "r = map_err ?judge q3"
          using run find opn Inr Some \<open>q1 = Inr found\<close>
          by (cases "?read a c2") (auto simp: db_bind_def db_map_err_def)
        have ro: "read_only_op (load_refresh_token (ie_faults env) a a)"
          unfolding load_refresh_token_def by (intro read_only_bind op_rules)
        have c': "cn_db c' = cn_db c2" using on_store_same [OF w] ro by blast
        have "v = credential env (cn_db c) ?slot" if "r = Inr v" for v
        proof -
          from that r have q3: "q3 = Inr v" by (cases q3) simp_all
          from on_store_Inr [OF w [unfolded q3]] obtain p where
            "load_refresh_token (ie_faults env) a a
               \<lparr>cn_db = store_tables (account_dir env a) (cn_db c2), cn_calls = cn_calls c2\<rparr> = (Inr v, p)"
            by blast
          from load_token_Inr [OF this] f have "v = dir_token (cn_db c2) (account_dir env a)"
            by (simp add: store_tables_def dir_token_def)
          with k2 c1 Some found show ?thesis by (simp add: credential_def)
        qed
        with c' k2 c1 show ?thesis by simp
      qed
    qed
  qed
qed

interpretation tokens: token_store "tokens_store env" "tokens_load env" "tokens_delete env"
  "\<lambda>c. inst_wf env [] (cn_db c) \<and> tags_ok env" "\<lambda>s. subject_tag env (validated_str s)"
  "\<lambda>c. credential env (cn_db c)" for env
  by unfold_locales (use tokens_store_law tokens_load_law tokens_delete_law in blast)+

end
