(* ===== verification/Flows_Props.thy ===== *)
theory Flows_Props
  imports Flow_Samples Installation_Props
begin

text \<open>
  The flows over one installation: what a sign-in, a synchronisation and a removal leave of the
  registered accounts, their stores and their credentials, whatever fails on the way. The
  broker's part comes from the locale \<open>token_store\<close> at the installation's token store, the
  synchronisation's from an invariant that every port keeps.
\<close>

section \<open>An invariant that every port keeps\<close>

definition port_keeps :: "('w \<Rightarrow> bool) \<Rightarrow> ('w \<Rightarrow> 'a \<times> 'w) \<Rightarrow> bool" where
  "port_keeps I m \<longleftrightarrow> (\<forall>w. I w \<longrightarrow> I (snd (m w)))"

lemma port_keepsD: "port_keeps I m \<Longrightarrow> m w = (r, w') \<Longrightarrow> I w \<Longrightarrow> I w'"
  unfolding port_keeps_def by (metis snd_conv)

lemma gate_attempts_keeps:
  assumes "\<And>a. port_keeps I (\<lambda>w. load w a)" and "\<And>a f k e. port_keeps I (\<lambda>w. commit w a f k e)"
    and "gate_attempts load commit account fresh left w = (r, w')" and "I w"
  shows "I w'"
  using assms(3,4)
proof (induction left arbitrary: w)
  case (Suc left)
  obtain q w1 where l: "load w account = (q, w1)" by fastforce
  then have w1: "I w1" using port_keepsD [OF assms(1) l] Suc.prems(2) by simp
  have w2: "I v" if "commit w1 account fresh action stored = (x, v)" for action stored x v
    using port_keepsD [OF assms(2) that] w1 by simp
  from Suc.prems(1) l w1 w2 Suc.IH show ?case
    by (auto split: sum.splits identity_decision.splits prod.splits if_splits)
qed simp

lemma collect_pages_keeps:
  assumes "\<And>a s t. port_keeps I (\<lambda>w. list_recent w a s t)"
    and "collect_pages list_recent account policy left token sn w = (r, w')" and "I w"
  shows "I w'"
  using assms(2,3)
proof (induction left arbitrary: w token sn)
  case (Suc left)
  obtain q w1 where l: "list_recent w account (sp_page_size policy) token = (q, w1)" by fastforce
  then have "I w1" using port_keepsD [OF assms(1) l] Suc.prems(2) by simp
  with Suc.prems(1) l Suc.IH show ?case
    by (auto split: sum.splits flow.splits prod.splits)
qed simp

lemma fetch_bodies_keeps:
  assumes "\<And>a i. port_keeps I (\<lambda>w. fetch w a i)" and "\<And>a m f. port_keeps I (\<lambda>w. cache w a m f)"
    and "fetch_bodies fetch cache account fence ids progress w = (r, w')" and "I w"
  shows "I w'"
  using assms(3,4)
proof (induction ids arbitrary: w progress)
  case (Cons i ids)
  obtain q w1 where f: "fetch w account i = (q, w1)" by fastforce
  then have w1: "I w1" using port_keepsD [OF assms(1) f] Cons.prems(2) by simp
  have w2: "I v" if "cache w1 account m fence = (x, v)" for m x v
    using port_keepsD [OF assms(2) that] w1 by simp
  from Cons.prems(1) f w1 w2 Cons.IH show ?case
    by (auto simp: Let_def split: sum.splits if_splits prod.splits)
qed simp

lemma gated_sync_keeps:
  assumes "\<And>a. port_keeps I (\<lambda>w. load w a)" and "\<And>a f k e. port_keeps I (\<lambda>w. commit w a f k e)"
    and "\<And>a s t. port_keeps I (\<lambda>w. list_recent w a s t)" and "\<And>a i. port_keeps I (\<lambda>w. fetch w a i)"
    and "\<And>a es k f. port_keeps I (\<lambda>w. recon w a es k f)" and "\<And>a m f. port_keeps I (\<lambda>w. cache w a m f)"
  shows "port_keeps I (gated_sync load commit hasher list_recent fetch recon cache account subject policy)"
  unfolding port_keeps_def
proof (intro allI impI)
  fix w assume w: "I w"
  obtain g w1 where g: "run_identity_gate load commit hasher account subject w = (g, w1)" by fastforce
  then have w1: "I w1" using w gate_attempts_keeps [OF assms(1,2)]
    by (auto simp: run_identity_gate_def split: sum.splits)
  obtain p w2 where p: "collect_pages list_recent account policy (sp_max_pages policy) None snapshot_empty w1
      = (p, w2)" by fastforce
  note w2 = collect_pages_keeps [OF assms(3) p w1]
  have w3: "I v" if "recon w2 a es k f = (x, v)" for a es k f x v
    using port_keepsD [OF assms(5) that] w2 by simp
  have w4: "I u" if "recon w2 a es k f = (x, v)" "fetch_bodies fetch cache account h ids pr v = (y, u)"
    for a es k f x v h ids pr y u
    using fetch_bodies_keeps [OF assms(4,6) that(2) w3 [OF that(1)]] .
  show "I (snd (gated_sync load commit hasher list_recent fetch recon cache account subject policy w))"
    using g w1 p w2 w3 w4
    by (auto simp: gated_sync_cycle sync_with_flight_def split: sum.splits prod.splits)
qed

section \<open>The synchronisation keeps what the account is bound to\<close>

abbreviation bound_as :: "binding_row option \<Rightarrow> db \<Rightarrow> bool" where
  "bound_as b d \<equiv> db_binding d = b"

lemma bound_as_execute:
  "(\<And>d. db_binding (fst (stmt d)) = db_binding d) \<Longrightarrow> keeps (bound_as b) (execute classify fault stmt)"
  by (rule keeps_execute) simp

lemma bound_as_write: "keeps (bound_as b) (write_envelopes fault es)"
  by (rule keeps_write_envelopes) simp

lemma sync_operations_keep_binding:
  "keeps (bound_as b) (store_load_identity fault own account)"
  "keeps (bound_as b) (store_reconcile_identity fault own account fresh action expected)"
  "keeps (bound_as b) (store_reconcile_recent fault own account es k fence)"
  "keeps (bound_as b) (store_cache_message fault own account m fence)"
proof -
  show "keeps (bound_as b) (store_load_identity fault own account)"
    unfolding store_load_identity_def for_account_def read_identity_hash_def
    by (intro keeps_read_only op_rules)
  show "keeps (bound_as b) (store_reconcile_identity fault own account fresh action expected)"
    unfolding store_reconcile_identity_def write_identity_hash_def
    by (intro keep_rules keeps_if bound_as_execute) (simp_all add: forget_last_sync_def)
  show "keeps (bound_as b) (store_reconcile_recent fault own account es k fence)"
    unfolding store_reconcile_recent_def reconcile_def reconcile_body_def
    by (intro keep_rules keeps_if bound_as_write bound_as_execute) simp_all
  show "keeps (bound_as b) (store_cache_message fault own account m fence)"
    unfolding store_cache_message_def cache_if_present_def cache_body_def
    by (intro keep_rules keeps_if bound_as_execute) simp_all
qed

lemma token_of_binding: "db_binding d' = db_binding d \<Longrightarrow> token_of d' = token_of d"
  by (simp add: token_of_def)

text \<open>
  An installation whose registry and credentials are as given, with a store of the account.
\<close>

definition settled ::
    "inst_env \<Rightarrow> account_id \<Rightarrow> registry_db \<Rightarrow> (key_error + string \<rightharpoonup> string) \<Rightarrow> inst_world \<Rightarrow> bool" where
  "settled env a registry held w \<longleftrightarrow>
     (let s = cn_db (bw_env w)
      in inst_wf env [] s \<and> in_registry s = registry \<and> credential env s = held
         \<and> (\<exists>f. in_stores s (account_dir env a) = Some f \<and> owned_by a (cf_image f)))"

lemma set_store_tables_file:
  "in_stores s d = Some f \<Longrightarrow>
     in_stores (set_store_tables d t s) d = Some (f\<lparr>cf_image := (cf_image f)\<lparr>im_tables := t\<rparr>\<rparr>)"
  by (simp add: set_store_tables_def)

lemma store_call_settled:
  assumes "\<And>b. keeps (bound_as b) m"
  shows "port_keeps (settled env a registry held) (store_call env a m)"
  unfolding port_keeps_def
proof (intro allI impI)
  fix w assume w: "settled env a registry held w"
  let ?d = "account_dir env a" and ?c = "bw_env w"
  obtain f where wf: "inst_wf env [] (cn_db ?c)" "in_stores (cn_db ?c) ?d = Some f" "owned_by a (cf_image f)"
    using w by (auto simp: settled_def Let_def)
  obtain r p where m: "m \<lparr>cn_db = store_tables ?d (cn_db ?c), cn_calls = cn_calls ?c\<rparr> = (r, p)" by fastforce
  let ?s = "set_store_tables ?d (cn_db p) (cn_db ?c)"
  have binding: "db_binding (cn_db p) = db_binding (store_tables ?d (cn_db ?c))"
    using keepsD [OF assms m] by simp
  then have owned: "owned_by a ((cf_image f)\<lparr>im_tables := cn_db p\<rparr>)"
    using wf(2,3) by (simp add: owned_by_def schema_def owner_of_def store_tables_def)
  from binding
  have "token_of (cn_db p) = dir_token (cn_db ?c) ?d"
    using wf by (simp add: token_of_binding [of "cn_db p" "store_tables ?d (cn_db ?c)"] store_tables_def dir_token_def)
  then have "dir_token ?s = dir_token (cn_db ?c)"
    using set_store_tables_wf(2) [OF wf, of "cn_db p"] by (simp add: fun_eq_iff)
  then have "credential env ?s = credential env (cn_db ?c)"
    by (intro credential_cong) (simp_all add: set_store_tables_def)
  moreover have "inst_wf env [] ?s" by (rule set_store_tables_wf(1) [OF wf])
  moreover have "in_registry ?s = in_registry (cn_db ?c)" by (simp add: set_store_tables_def)
  ultimately have "settled env a registry held (w\<lparr>bw_env := \<lparr>cn_db = ?s, cn_calls = cn_calls p\<rparr>\<rparr>)"
    using w wf owned by (simp add: settled_def Let_def set_store_tables_file)
  then show "settled env a registry held (snd (store_call env a m w))"
    using m by (simp add: store_call_def on_env_def on_part_def)
qed

text \<open>
  Nothing but the flow itself changes the installation while it runs: the listener, the
  browser, the HTTP exchanges and the random source leave its files as they are.
\<close>

definition leaves_files :: "(inst_world \<Rightarrow> 'a \<times> inst_world) \<Rightarrow> bool" where
  "leaves_files m \<longleftrightarrow> (\<forall>w. cn_db (bw_env (snd (m w))) = cn_db (bw_env w))"

definition quiet_rest :: "inst_world rest_port \<Rightarrow> bool" where
  "quiet_rest rest \<longleftrightarrow> (\<forall>url. leaves_files (rp_get rest url))
     \<and> (\<forall>endpoint form. leaves_files (rp_post rest endpoint form))"

definition quiet_outside :: "flow_ports \<Rightarrow> installation conn broker_ports \<Rightarrow> bool" where
  "quiet_outside fp p \<longleftrightarrow> leaves_files (fp_bind fp) \<and> (\<forall>port. leaves_files (fp_accepts fp port))
     \<and> (\<forall>url w. cn_db (bw_env (fp_open_browser fp url w)) = cn_db (bw_env w))
     \<and> quiet_rest (fp_post fp) \<and> (\<forall>token. quiet_rest (fp_rest fp token))
     \<and> (\<forall>n e. cn_db (snd (bp_random p n e)) = cn_db e)
     \<and> (\<forall>e. cn_db (snd (bp_handle_bytes p e)) = cn_db e)"

lemma leaves_filesD: "leaves_files m \<Longrightarrow> m w = (r, w') \<Longrightarrow> cn_db (bw_env w') = cn_db (bw_env w)"
  unfolding leaves_files_def by (metis snd_conv)

lemma leaves_settled: "leaves_files m \<Longrightarrow> port_keeps (settled env a registry held) m"
  by (simp add: port_keeps_def leaves_files_def settled_def)

lemma transport_get_leaves: "quiet_rest rest \<Longrightarrow> leaves_files (transport_get rest url limit)"
  unfolding leaves_files_def
proof
  fix w assume q: "quiet_rest rest"
  obtain x w1 where g: "rp_get rest url w = (x, w1)" by fastforce
  with q have "cn_db (bw_env w1) = cn_db (bw_env w)" by (auto simp: quiet_rest_def dest: leaves_filesD)
  with g show "cn_db (bw_env (snd (transport_get rest url limit w))) = cn_db (bw_env w)"
    by (cases x) (simp_all add: transport_get_def Let_def)
qed

lemma request_json_leaves: "quiet_rest rest \<Longrightarrow> leaves_files (request_json rest decode req limit)"
  unfolding leaves_files_def
proof
  fix w assume q: "quiet_rest rest"
  show "cn_db (bw_env (snd (request_json rest decode req limit w))) = cn_db (bw_env w)"
    using leaves_filesD [OF transport_get_leaves [OF q]]
    by (auto simp: request_json_def split: sum.split prod.split)
qed

lemma metadata_leaves: "quiet_rest rest \<Longrightarrow> metadata rest i w = (m, w1) \<Longrightarrow>
    cn_db (bw_env w1) = cn_db (bw_env w)"
  unfolding metadata_def by (rule leaves_filesD [OF request_json_leaves])

lemma hydrate_leaves:
  "quiet_rest rest \<Longrightarrow> hydrate rest ls w = (r, w') \<Longrightarrow> cn_db (bw_env w') = cn_db (bw_env w)"
proof (induction ls arbitrary: w r w')
  case (Cons l ls)
  let ?r = "rbind (invalid (message_id_new (lm_id l))) (\<lambda>i.
    map_ok (\<lambda>thread. (i, thread)) (invalid (thread_id_new (lm_thread_id l))))"
  show ?case
  proof (cases ?r)
    case (Inl err)
    with Cons.prems(2) show ?thesis by simp
  next
    case (Inr p)
    obtain i thread where p: "p = (i, thread)" by fastforce
    obtain m w1 where m: "metadata rest i w = (m, w1)" by fastforce
    note w1 = metadata_leaves [OF Cons.prems(1) m]
    have IH: "cn_db (bw_env v) = cn_db (bw_env w)" if "hydrate rest ls w1 = (q, v)" for q v
      using Cons.IH [OF Cons.prems(1) that] w1 by simp
    show ?thesis
      using Cons.prems(2) m w1 IH Inr p
      by (auto simp: apfst_def map_prod_def
          split: sum.splits remote_mailbox_error.splits if_splits prod.splits)
  qed
qed simp

lemma list_recent_leaves:
  assumes "quiet_rest rest" shows "leaves_files (\<lambda>w. list_recent_envelopes rest own w a n t)"
  unfolding leaves_files_def
proof
  fix w
  obtain listing w1 where l: "request_json rest (rp_list rest) (Inr (list_request n t)) JSON_LIMIT w
      = (listing, w1)" by fastforce
  note w1 = leaves_filesD [OF request_json_leaves [OF assms] l]
  have w2: "cn_db (bw_env (snd (hydrate rest ls w1))) = cn_db (bw_env w)" for ls
    using hydrate_leaves [OF assms, of ls w1] w1 by (metis prod.collapse)
  show "cn_db (bw_env (snd (list_recent_envelopes rest own w a n t))) = cn_db (bw_env w)"
    using l w1 w2 by (simp add: list_recent_envelopes_def split: sum.split)
qed

lemma fetch_message_leaves:
  assumes "quiet_rest rest" shows "leaves_files (\<lambda>w. fetch_message rest own w a i)"
  unfolding leaves_files_def
proof
  fix w
  obtain m w1 where m: "metadata rest i w = (m, w1)" by fastforce
  note w1 = metadata_leaves [OF assms m]
  obtain raw w2 where raw: "request_json rest (rp_raw rest) (message_request i FormatRaw) RAW_JSON_LIMIT w1
      = (raw, w2)" by fastforce
  note w2 = leaves_filesD [OF request_json_leaves [OF assms] raw]
  show "cn_db (bw_env (snd (fetch_message rest own w a i))) = cn_db (bw_env w)"
    using m w1 raw w2 by (simp add: fetch_message_def split: sum.split)
qed

lemma installation_sync_settled:
  assumes "quiet_rest rest"
  shows "port_keeps (settled env a registry held) (installation_sync env rest mailbox subject a)"
  unfolding installation_sync_def Let_def
  by (intro gated_sync_keeps store_call_settled sync_operations_keep_binding leaves_settled
      list_recent_leaves fetch_message_leaves assms)

section \<open>Signing in\<close>

lemma flow_bind_run:
  assumes "flow_bind m f w = (r, w')"
  obtains err where "m w = (Inl err, w')" "r = Inl err"
  | a w1 where "m w = (Inr a, w1)" "f a w1 = (r, w')"
  using assms by (auto simp: flow_bind_def split: prod.splits sum.splits)

lemma flow_err_run:
  assumes "flow_err g m w = (r, w')" obtains q where "m w = (q, w')" "r = map_err g q"
  using assms by (auto simp: flow_err_def apfst_def map_prod_def split: prod.splits)

lemma on_env_run:
  assumes "on_env m w = (r, w')"
  obtains c where "m (bw_env w) = (r, c)" "w' = w\<lparr>bw_env := c\<rparr>"
  using assms by (auto simp: on_env_def split: prod.splits)

lemma inst_call_run:
  assumes "inst_call m w = (r, w')"
  obtains q c where "m (bw_env w) = (q, c)" "w' = w\<lparr>bw_env := c\<rparr>" "r = map_err FE_Installation q"
  using assms unfolding inst_call_def by (elim flow_err_run on_env_run) auto

text \<open>The broker of a runtime is served by the installation, and its awaits are quiet.\<close>

lemma runtime_served: "served_by (tokens_store env) (tokens_load env) (tokens_delete env) (runtime_ports env fp p)"
  by (simp add: served_by_def runtime_ports_def)

lemma post_leaves:
  assumes "quiet_rest rest"
  shows "cn_db (bw_env (snd (gmail_exchange rest q w))) = cn_db (bw_env w)"
    and "cn_db (bw_env (snd (gmail_refresh rest q' w))) = cn_db (bw_env w)"
    and "cn_db (bw_env (snd (gmail_revoke rest t w))) = cn_db (bw_env w)"
proof -
  have post: "cn_db (bw_env (snd (transport_post rest endpoint form v))) = cn_db (bw_env v)" for endpoint form v
    using assms leaves_filesD [of "rp_post rest endpoint form" v]
    by (auto simp: transport_post_def quiet_rest_def split: prod.split option.split)
  have token: "cn_db (bw_env (snd (post_token rest ps v))) = cn_db (bw_env v)" for ps v
    using post [of TOKEN_ENDPOINT "rp_form rest ps" v]
    by (auto simp: post_token_def split: prod.split sum.split)
  show "cn_db (bw_env (snd (gmail_exchange rest q w))) = cn_db (bw_env w)"
    "cn_db (bw_env (snd (gmail_refresh rest q' w))) = cn_db (bw_env w)"
    by (simp_all add: gmail_exchange_def gmail_refresh_def token)
  show "cn_db (bw_env (snd (gmail_revoke rest t w))) = cn_db (bw_env w)"
    using post [of REVOKE_ENDPOINT "rp_form rest [(''token'', t)]" w]
    by (auto simp: gmail_revoke_def split: prod.split sum.split)
qed

abbreviation sane_inst :: "inst_env \<Rightarrow> installation conn \<Rightarrow> bool" where
  "sane_inst env c \<equiv> inst_wf env [] (cn_db c) \<and> tags_ok env"

lemma runtime_quiet:
  assumes "quiet_outside fp p"
  shows "quiet_awaits (sane_inst env) (\<lambda>c. credential env (cn_db c)) (runtime_ports env fp p)"
proof -
  have "quiet_rest (fp_post fp)" using assms by (simp add: quiet_outside_def)
  from post_leaves [OF this] show ?thesis by (auto simp: quiet_awaits_def runtime_ports_def)
qed

lemma allocate_files:
  assumes "\<And>e. cn_db (snd (handle_bytes e)) = cn_db e"
  shows "cn_db (snd (snd (allocate encode handle_bytes session left sessions e))) = cn_db e"
proof (induction left arbitrary: e)
  case (Suc left)
  obtain h e1 where g: "handle_bytes e = (h, e1)" by fastforce
  with assms [of e] have "cn_db e1 = cn_db e" by simp
  with g Suc.IH [of e1] show ?case by (cases h) (simp_all add: handle_generate_def)
qed simp

lemma begin_authorization_files:
  assumes "quiet_outside fp p" and "begin_authorization (runtime_ports env fp p) cfg uri w = (r, w')"
  shows "cn_db (bw_env w') = cn_db (bw_env w)"
proof -
  let ?p = "runtime_ports env fp p"
  have random: "cn_db (snd (bp_random ?p n e)) = cn_db e" "cn_db (snd (bp_handle_bytes ?p e)) = cn_db e" for n e
    using assms(1) by (simp_all add: quiet_outside_def runtime_ports_def)
  have prepare: "cn_db e1 = cn_db e"
    if "prepare_authorization (bp_encode ?p) (bp_sha256 ?p) (bp_build_url ?p) (bp_random ?p) (bp_clock ?p) config e
      = (x, e1)" for config e x e1
    using that random(1)
    by (auto simp: prepare_authorization_def split: prod.splits option.splits) (metis snd_conv)+
  have insert: "cn_db e1 = cn_db e"
    if "registry_insert (bp_encode ?p) (bp_handle_bytes ?p) (bp_clock ?p) session reg e = (x, reg', e1)"
    for session reg e x reg' e1
    using that allocate_files [OF random(2)]
    by (auto simp: registry_insert_def Let_def split: prod.splits sum.splits if_splits) (metis snd_conv)+
  show ?thesis
    using assms(2) prepare insert
    by (auto simp: begin_authorization_def on_env_def split: sum.splits prod.splits)
qed

lemma read_only_files: "read_only_op m \<Longrightarrow> m c = (r, c') \<Longrightarrow> cn_db c' = cn_db c"
  unfolding read_only_op_def by (metis snd_conv)

lemma installation_accounts_files:
  "installation_accounts env c = (r, c') \<Longrightarrow> cn_db c' = cn_db c"
  unfolding installation_accounts_def by (rule on_registry_read [OF _ registry_read_only(2)])

lemma installation_accounts_Inr:
  assumes "installation_accounts env c = (Inr as, c')" and "registry_wf (in_registry (cn_db c))"
  shows "as = registered_accounts (cn_db c)"
  using on_registry_Inr [OF assms(1) [unfolded installation_accounts_def]] assms(2) registry_accounts_Inr
  by (fastforce simp: registered_accounts_def)

lemma inst_call_files:
  assumes "inst_call m w = (r, w')" and "\<And>q c. m (bw_env w) = (q, c) \<Longrightarrow> cn_db c = cn_db (bw_env w)"
  shows "cn_db (bw_env w') = cn_db (bw_env w)"
  using assms(1) by (rule inst_call_run) (use assms(2) in auto)

text \<open>
  The credential that a completed sign-in has stored: under the tag of the subject for which the
  broker reported success.
\<close>

definition completed_for ::
    "installation conn broker_ports \<Rightarrow> broker_config \<Rightarrow> inst_world \<Rightarrow> broker_token \<Rightarrow> bool" where
  "completed_for p cfg w token \<longleftrightarrow>
     (\<exists>handle callback v. cn_db (bw_env v) = cn_db (bw_env w)
        \<and> fst (complete_authorization p cfg handle callback v) = Inr token)"

definition lookup_failed :: "flow_error \<Rightarrow> bool" where
  "lookup_failed err \<longleftrightarrow> err = FE_UnknownAccount \<or> (\<exists>e. err = FE_Installation e)"

definition signed_in ::
    "inst_env \<Rightarrow> (broker_token \<Rightarrow> bool) \<Rightarrow> installation
      \<Rightarrow> flow_error + account_id \<times> bool \<times> broker_token \<Rightarrow> installation \<Rightarrow> bool" where
  "signed_in env granted s r s' \<longleftrightarrow> inst_wf env [] s' \<and> (case r of
      Inr (account, present, token) \<Rightarrow>
        present = (account \<in> set (registered_accounts s)) \<and> granted token
        \<and> subject_account s' (subject_tag env (bt_subject token)) = Some account
        \<and> (\<exists>t. well_shaped_refresh t \<and>
             credential env s' = (credential env s)(subject_tag env (bt_subject token) \<mapsto> t))
    | Inl err \<Rightarrow> credential env s' = credential env s
        \<or> (\<exists>token t. granted token \<and> lookup_failed err \<and> well_shaped_refresh t
             \<and> credential env s' = (credential env s)(subject_tag env (bt_subject token) \<mapsto> t)))"

lemma signed_in_refused:
  "inst_wf env [] s \<Longrightarrow> s' = s \<Longrightarrow> signed_in env granted s (Inl err) s'"
  by (simp add: signed_in_def)

lemma signed_in_completed:
  assumes "quiet_outside fp p" and "sane_inst env (bw_env w)"
    and "flow_bind (flow_err FE_Token (complete_authorization (runtime_ports env fp p) cfg handle callback))
      (signed_in_account env before) w = (r, w')"
    and "before = registered_accounts (cn_db (bw_env w))"
  shows "signed_in env (completed_for (runtime_ports env fp p) cfg w) (cn_db (bw_env w)) r (cn_db (bw_env w'))"
  using assms(3)
proof (rule flow_bind_run)
  fix err
  assume e: "flow_err FE_Token (complete_authorization (runtime_ports env fp p) cfg handle callback) w = (Inl err, w')"
    and r: "r = Inl err"
  from e obtain q where "complete_authorization (runtime_ports env fp p) cfg handle callback w = (Inl q, w')"
    by (elim flow_err_run) (metis map_err_Inl)
  from tokens.completion_stores [OF runtime_served runtime_quiet [OF assms(1)] assms(2) this]
  show ?thesis by (simp add: signed_in_def r)
next
  fix token w1
  assume e: "flow_err FE_Token (complete_authorization (runtime_ports env fp p) cfg handle callback) w = (Inr token, w1)"
    and rest: "signed_in_account env before token w1 = (r, w')"
  let ?slot = "subject_tag env (bt_subject token)"
  from e have "complete_authorization (runtime_ports env fp p) cfg handle callback w = (Inr token, w1)"
    by (elim flow_err_run) (auto dest: sym)
  note run = this
  then have granted: "completed_for (runtime_ports env fp p) cfg w token"
    unfolding completed_for_def by (metis fst_conv)
  from tokens.completion_stores [OF runtime_served runtime_quiet [OF assms(1)] assms(2) run]
  obtain t where w1: "inst_wf env [] (cn_db (bw_env w1))" "well_shaped_refresh t"
    "credential env (cn_db (bw_env w1)) = (credential env (cn_db (bw_env w)))(?slot \<mapsto> t)"
    by auto
  obtain f w2 where f: "inst_call (account_for_subject env (bt_subject token)) w1 = (f, w2)" by fastforce
  have files: "cn_db (bw_env w2) = cn_db (bw_env w1)"
    using f account_for_subject_same by (rule inst_call_files)
  have found: "found = subject_account (cn_db (bw_env w1)) ?slot" if "f = Inr found" for found
    using f that w1(1) account_for_subject_Inr by (elim inst_call_run) (auto simp: inst_wf_def dest: sym)
  have w': "w' = w2" using rest f
    by (auto simp: signed_in_account_def flow_bind_def flow_result_def split: sum.splits)
  show ?thesis
  proof (cases r)
    case (Inl err)
    then have "lookup_failed err"
      using rest f
      by (auto simp: signed_in_account_def flow_bind_def flow_result_def lookup_failed_def ok_or_Inl
          inst_call_def flow_err_def map_err_Inl apfst_def map_prod_def split: sum.splits prod.splits)
    with Inl w1 files w' granted show ?thesis by (auto simp: signed_in_def)
  next
    case (Inr x)
    then obtain account where "f = Inr (Some account)" "x = (account, account \<in> set before, token)"
      using rest f by (auto simp: signed_in_account_def flow_bind_def flow_result_def split: sum.splits)
    with found [of "Some account"] w1 files w' Inr assms(4) granted show ?thesis by (auto simp: signed_in_def)
  qed
qed

lemma leaves_intros:
  "leaves_files (flow_result r)"
  "leaves_files m \<Longrightarrow> leaves_files (flow_err g m)"
  "(\<And>c q c'. m' c = (q, c') \<Longrightarrow> cn_db c' = cn_db c) \<Longrightarrow> leaves_files (inst_call m')"
  unfolding leaves_files_def
  by (auto simp: flow_result_def flow_err_def) (metis inst_call_files prod.collapse)

lemma leaves_bind:
  assumes "leaves_files m" and "\<And>a. leaves_files (f a)" shows "leaves_files (flow_bind m f)"
  unfolding leaves_files_def
proof
  fix w
  obtain q w1 where m: "m w = (q, w1)" by fastforce
  note w1 = leaves_filesD [OF assms(1) m]
  have "cn_db (bw_env (snd (f a w1))) = cn_db (bw_env w1)" for a
    using assms(2) by (simp add: leaves_files_def)
  with m w1 show "cn_db (bw_env (snd (flow_bind m f w))) = cn_db (bw_env w)"
    by (simp add: flow_bind_def split: sum.split)
qed

lemma await_callback_leaves:
  assumes "quiet_outside fp p" shows "leaves_files (await_callback fp (runtime_ports env fp p) cfg)"
proof -
  have start: "leaves_files (begin_authorization (runtime_ports env fp p) cfg uri)" for uri
    unfolding leaves_files_def using begin_authorization_files [OF assms] by (metis prod.collapse)
  have wait: "leaves_files (\<lambda>w. case fp_accepts fp port (fp_open_browser fp url w) of (x, w1) \<Rightarrow> (g x, w1))"
    for port url and g :: "(string + connection) list \<Rightarrow> flow_error + string \<times> string"
    using assms by (simp add: leaves_files_def quiet_outside_def case_prod_beta)
  show ?thesis
    unfolding await_callback_def
    by (intro leaves_bind leaves_intros start wait) (use assms in \<open>simp add: quiet_outside_def\<close>)
qed

lemma signed_in_after:
  assumes "leaves_files m" and "inst_wf env [] (cn_db (bw_env w))" and "flow_bind m f w = (r, w')"
    and "\<And>a w1. m w = (Inr a, w1) \<Longrightarrow> cn_db (bw_env w1) = cn_db (bw_env w) \<Longrightarrow> f a w1 = (r, w')
      \<Longrightarrow> signed_in env granted (cn_db (bw_env w1)) r (cn_db (bw_env w'))"
  shows "signed_in env granted (cn_db (bw_env w)) r (cn_db (bw_env w'))"
  using assms(3)
proof (rule flow_bind_run)
  fix err assume "m w = (Inl err, w')" "r = Inl err"
  with leaves_filesD [OF assms(1) this(1)] assms(2) show ?thesis by (simp add: signed_in_refused)
next
  fix a w1 assume "m w = (Inr a, w1)" "f a w1 = (r, w')"
  with assms(4) leaves_filesD [OF assms(1) this(1)] show ?thesis by metis
qed

lemma accounts_before:
  assumes "inst_call (installation_accounts env) w = (Inr before, w')" and "inst_wf env [] (cn_db (bw_env w))"
  shows "before = registered_accounts (cn_db (bw_env w))"
  using assms(1)
proof (rule inst_call_run)
  fix q c assume "installation_accounts env (bw_env w) = (q, c)" "Inr before = map_err FE_Installation q"
  then have "installation_accounts env (bw_env w) = (Inr before, c)" by (metis map_err_Inr)
  with assms(2) show ?thesis by (intro installation_accounts_Inr) (simp_all add: inst_wf_def)
qed

lemma completed_for_same:
  "cn_db (bw_env w') = cn_db (bw_env w) \<Longrightarrow> completed_for p cfg w' = completed_for p cfg w"
  by (simp add: fun_eq_iff completed_for_def)

lemma sign_in_effect:
  assumes quiet: "quiet_outside fp p" and sane: "sane_inst env (bw_env w)"
    and run: "sign_in env fp (runtime_ports env fp p) cfg w = (r, w')"
  shows "signed_in env (completed_for (runtime_ports env fp p) cfg w) (cn_db (bw_env w)) r (cn_db (bw_env w'))"
  using _ _ run [unfolded sign_in_def]
proof (rule signed_in_after)
  show "leaves_files (inst_call (has_capacity env))"
    by (intro leaves_intros) (rule read_only_files [OF read_only_capacity])
  show "inst_wf env [] (cn_db (bw_env w))" using sane by simp
next
  let ?wait = "await_callback fp (runtime_ports env fp p) cfg"
  let ?complete = "\<lambda>handle callback. flow_err FE_Token
    (complete_authorization (runtime_ports env fp p) cfg handle callback)"
  let ?go = "flow_bind (inst_call (installation_accounts env)) (\<lambda>before. flow_bind ?wait
    (\<lambda>(handle, callback). flow_bind (?complete handle callback) (signed_in_account env before)))"
  fix room w1
  assume w1: "cn_db (bw_env w1) = cn_db (bw_env w)"
    and rest: "(if \<not> room then flow_result (Inl FE_AccountLimit) else ?go) w1 = (r, w')"
  show "signed_in env (completed_for (runtime_ports env fp p) cfg w) (cn_db (bw_env w1)) r (cn_db (bw_env w'))"
  proof (cases room)
    case False
    with rest w1 sane show ?thesis by (auto simp: flow_result_def intro!: signed_in_refused)
  next
    case True
    with rest have "?go w1 = (r, w')" by simp
    with _ _ show ?thesis
    proof (rule signed_in_after)
      show "leaves_files (inst_call (installation_accounts env))"
        by (intro leaves_intros) (rule installation_accounts_files)
      show wf1: "inst_wf env [] (cn_db (bw_env w1))" using sane w1 by simp
      fix before w2
      assume acc: "inst_call (installation_accounts env) w1 = (Inr before, w2)"
        and w2: "cn_db (bw_env w2) = cn_db (bw_env w1)"
        and rest2: "flow_bind ?wait (\<lambda>(handle, callback).
          flow_bind (?complete handle callback) (signed_in_account env before)) w2 = (r, w')"
      note before = accounts_before [OF acc wf1]
      show "signed_in env (completed_for (runtime_ports env fp p) cfg w) (cn_db (bw_env w2)) r (cn_db (bw_env w'))"
        using await_callback_leaves [OF quiet] _ rest2
      proof (rule signed_in_after)
        show "inst_wf env [] (cn_db (bw_env w2))" using sane w1 w2 by simp
        fix hc w3
        assume w3: "cn_db (bw_env w3) = cn_db (bw_env w2)"
          and rest3: "(case hc of (handle, callback) \<Rightarrow>
            flow_bind (?complete handle callback) (signed_in_account env before)) w3 = (r, w')"
        obtain handle callback where hc: "hc = (handle, callback)" by fastforce
        show "signed_in env (completed_for (runtime_ports env fp p) cfg w) (cn_db (bw_env w3)) r (cn_db (bw_env w'))"
          unfolding completed_for_same [OF trans [OF w3 trans [OF w2 w1]], symmetric]
          by (rule signed_in_completed [OF quiet _ rest3 [unfolded hc prod.case]])
            (use sane w1 w2 w3 before in auto)
      qed
    qed
  qed
qed

section \<open>Synchronising\<close>

abbreviation same_credentials :: "inst_env \<Rightarrow> installation \<Rightarrow> installation \<Rightarrow> bool" where
  "same_credentials env s s' \<equiv> inst_wf env [] s' \<and> in_registry s' = in_registry s
     \<and> credential env s' = credential env s"

lemma registered_account_ok:
  assumes "registry_wf (in_registry s)" and "a \<in> set (registered_accounts s)"
  shows "account_id_ok a"
proof -
  from assms obtain r where r: "r \<in> set (in_registry s)" "fst (entry_of r) = a"
    by (auto simp: registered_accounts_def registry_entries_wf)
  with assms(1) have "registry_row_ok r" by (auto simp: registry_wf_def list_all_iff)
  with r(2) show ?thesis by (auto elim: registry_row_okE)
qed

lemma open_store_keeps:
  assumes "open_store env a c = (r, c')" and "inst_wf env [] (cn_db c)"
  shows "same_credentials env (cn_db c) (cn_db c') \<and> (\<forall>u. r = Inr u \<longrightarrow> a \<in> set (registered_accounts (cn_db c))
    \<and> (\<exists>f. in_stores (cn_db c') (account_dir env a) = Some f \<and> owned_by a (cf_image f)))"
proof -
  obtain q c1 where acc: "installation_accounts env c = (q, c1)" by fastforce
  note c1 = installation_accounts_files [OF acc]
  show ?thesis
  proof (cases q)
    case (Inl err)
    with assms acc c1 show ?thesis by (auto simp: open_store_def db_bind_def)
  next
    case (Inr as)
    from assms(2) have "registry_wf (in_registry (cn_db c))" by (simp add: inst_wf_def)
    note ok = registered_account_ok [OF this] and as = installation_accounts_Inr [OF acc [unfolded Inr] this]
    show ?thesis
    proof (cases "a \<in> set as")
      case False
      with assms acc c1 Inr show ?thesis by (auto simp: open_store_def db_bind_def db_result_def)
    next
      case True
      with assms(1) acc Inr have opn: "open_store_unchecked env a c1 = (r, c')"
        by (simp add: open_store_def db_bind_def)
      note s = withinD [OF open_store_steady opn]
      have "steady (account_dir env a) (cn_db c) (cn_db c')" using s c1 by simp
      then have "inst_wf env [] (cn_db c')" "credential env (cn_db c') = credential env (cn_db c)"
        "in_registry (cn_db c') = in_registry (cn_db c)"
        using steady_wf [OF _ assms(2)] steady_credential True as assms(2)
        by (auto simp: inst_wf_def steady_def)
      with True as open_store_Inr [of env a c1] opn ok show ?thesis by auto
    qed
  qed
qed

lemma sync_with_token_effect:
  assumes quiet: "quiet_outside fp p" and wf: "inst_wf env [] (cn_db (bw_env w))"
    and run: "sync_with_token env fp account token w = (r, w')"
  shows "same_credentials env (cn_db (bw_env w)) (cn_db (bw_env w'))"
  using run unfolding sync_with_token_def
proof (rule flow_bind_run)
  fix x w1
  assume x: "flow_result (map_err FE_Session (gmail_session_new (fp_client_builds fp) account
      (bt_access_token token) (bt_subject token))) w = (Inr x, w1)"
    and rest: "(case x of (mailbox, subject) \<Rightarrow> flow_bind (inst_call (open_store env account)) (\<lambda>_.
      flow_err FE_Sync (installation_sync env (fp_rest fp (bt_access_token token)) mailbox subject account))) w1
      = (r, w')"
  obtain mailbox subject where ms: "x = (mailbox, subject)" by fastforce
  from x have w1: "w1 = w" by (simp add: flow_result_def)
  from rest [unfolded ms prod.case w1] show ?thesis
  proof (rule flow_bind_run)
    fix err assume "inst_call (open_store env account) w = (Inl err, w')"
    then show ?thesis by (rule inst_call_run) (use open_store_keeps wf in auto)
  next
    fix u w2
    assume o: "inst_call (open_store env account) w = (Inr u, w2)"
      and s: "flow_err FE_Sync (installation_sync env (fp_rest fp (bt_access_token token)) mailbox subject
        account) w2 = (r, w')"
    from o obtain c where "open_store env account (bw_env w) = (Inr u, c)" "w2 = w\<lparr>bw_env := c\<rparr>"
      by (rule inst_call_run) (auto dest: sym)
    with open_store_keeps [OF _ wf] have "settled env account (in_registry (cn_db (bw_env w)))
        (credential env (cn_db (bw_env w))) w2"
      by (auto simp: settled_def Let_def)
    moreover have "quiet_rest (fp_rest fp (bt_access_token token))" using quiet by (simp add: quiet_outside_def)
    ultimately have "settled env account (in_registry (cn_db (bw_env w)))
        (credential env (cn_db (bw_env w))) w'"
      using s by (elim flow_err_run) (rule port_keepsD [OF installation_sync_settled])
    then show ?thesis by (simp add: settled_def Let_def)
  qed
qed (use wf in \<open>simp add: flow_result_def\<close>)

lemma subject_of_effect:
  assumes wf: "inst_wf env [] (cn_db (bw_env w))" and run: "subject_of env account w = (r, w')"
  shows "same_credentials env (cn_db (bw_env w)) (cn_db (bw_env w'))"
proof -
  obtain q c where o: "open_store env account (bw_env w) = (q, c)" by fastforce
  note c = open_store_keeps [OF o wf]
  show ?thesis
  proof (cases q)
    case (Inl err)
    with run o c show ?thesis
      by (auto simp: subject_of_def flow_bind_def flow_err_def on_env_def)
  next
    case (Inr u)
    with run o obtain y where y: "store_call env account (load_broker_subject (ie_faults env) account account)
      (w\<lparr>bw_env := c\<rparr>) = (y, w')"
      by (auto simp: subject_of_def flow_bind_def flow_err_def on_env_def flow_result_def apfst_def map_prod_def
          split: prod.splits sum.splits)
    have "settled env account (in_registry (cn_db (bw_env w))) (credential env (cn_db (bw_env w))) (w\<lparr>bw_env := c\<rparr>)"
      using c Inr by (auto simp: settled_def Let_def)
    moreover have "keeps (bound_as b) (load_broker_subject (ie_faults env) account account)" for b
      unfolding load_broker_subject_def by (intro keeps_read_only op_rules)
    ultimately have "settled env account (in_registry (cn_db (bw_env w))) (credential env (cn_db (bw_env w))) w'"
      using port_keepsD [OF store_call_settled y] by blast
    then show ?thesis by (simp add: settled_def Let_def)
  qed
qed

section \<open>Adding and synchronising an account\<close>

lemma signed_in_mono:
  assumes "signed_in env granted s (Inr (account, present, token)) s1" and "same_credentials env s1 s'"
  shows "signed_in env granted s (Inr (account, present, token)) s'"
proof -
  have "subject_account s' = subject_account s1"
    using assms(2) by (simp add: fun_eq_iff subject_account_def split: sum.split)
  then show ?thesis using assms by (simp add: signed_in_def)
qed

lemma add_account_effect:
  assumes quiet: "quiet_outside fp p" and sane: "sane_inst env (bw_env w)"
    and run: "add_account env fp (runtime_ports env fp p) cfg w = (r, w')"
  shows "case r of
      Inr added \<Rightarrow> \<exists>token. signed_in env (completed_for (runtime_ports env fp p) cfg w) (cn_db (bw_env w))
        (Inr (ad_account added, ad_already_present added, token)) (cn_db (bw_env w'))
    | Inl err \<Rightarrow> signed_in env (completed_for (runtime_ports env fp p) cfg w) (cn_db (bw_env w)) (Inl err)
        (cn_db (bw_env w'))"
  using run unfolding add_account_def
proof (rule flow_bind_run)
  fix err assume "sign_in env fp (runtime_ports env fp p) cfg w = (Inl err, w')" "r = Inl err"
  with sign_in_effect [OF quiet sane this(1)] show ?thesis by simp
next
  fix x w1
  assume x: "sign_in env fp (runtime_ports env fp p) cfg w = (Inr x, w1)"
    and rest: "(case x of (account, already_present, token) \<Rightarrow> \<lambda>w.
      case sync_with_token env fp account token w of (first_sync, w1) \<Rightarrow>
        (Inr \<lparr>ad_account = account, ad_already_present = already_present, ad_first_sync = first_sync\<rparr>, w1)) w1
      = (r, w')"
  obtain account present token where p: "x = (account, present, token)" by (cases x)
  obtain q where s: "sync_with_token env fp account token w1 = (q, w')"
    and r: "r = Inr \<lparr>ad_account = account, ad_already_present = present, ad_first_sync = q\<rparr>"
    using rest by (auto simp: p split: prod.splits)
  note first = sign_in_effect [OF quiet sane x [unfolded p]]
  then have "inst_wf env [] (cn_db (bw_env w1))" by (simp add: signed_in_def)
  from signed_in_mono [OF first sync_with_token_effect [OF quiet this s]] show ?thesis by (auto simp: r)
qed

lemma subject_of_error:
  "subject_of env account w = (Inl err, w') \<Longrightarrow> err \<noteq> FE_Token e"
  by (auto simp: subject_of_def flow_bind_def flow_err_def flow_result_def apfst_def map_prod_def
      map_err_Inl ok_or_Inl split: prod.splits sum.splits if_splits)

lemma sync_with_token_error:
  "sync_with_token env fp account token w = (Inl err, w') \<Longrightarrow> err \<noteq> FE_Token e"
  by (auto simp: sync_with_token_def inst_call_def flow_bind_def flow_err_def flow_result_def apfst_def
      map_prod_def map_err_Inl split: prod.splits sum.splits)

text \<open>
  What a synchronisation leaves of the credentials: those of other subjects always, and its own
  subject's too unless an answer of the provider rotated it, or refused the grant.
\<close>

definition synced ::
    "inst_env \<Rightarrow> installation conn broker_ports \<Rightarrow> flow_error + string
      \<Rightarrow> (key_error + string \<rightharpoonup> string) \<Rightarrow> flow_error + sync_report
      \<Rightarrow> (key_error + string \<rightharpoonup> string) \<Rightarrow> bool" where
  "synced env p subject held r held' \<longleftrightarrow>
     (case subject of
        Inl _ \<Rightarrow> held' = held \<and> \<not> is_ok r
      | Inr name \<Rightarrow>
          if r = Inl (FE_Token BE_ConsentRevoked)
          then refused_by p \<and> held' = held(subject_tag env name := None)
          else kept_or_rotated p (subject_tag env name) held held')"

lemma sync_account_effect:
  assumes quiet: "quiet_outside fp p" and sane: "sane_inst env (bw_env w)"
    and run: "sync_account env fp (runtime_ports env fp p) cfg account w = (r, w')"
  defines "held \<equiv> credential env (cn_db (bw_env w))" and "held' \<equiv> credential env (cn_db (bw_env w'))"
  shows "inst_wf env [] (cn_db (bw_env w'))
    \<and> synced env (runtime_ports env fp p) (fst (subject_of env account w)) held r held'"
  using run unfolding sync_account_def
proof (rule flow_bind_run)
  fix err assume e: "subject_of env account w = (Inl err, w')" and r: "r = Inl err"
  from subject_of_effect [OF _ e] sane r e show ?thesis by (simp add: held_def held'_def synced_def)
next
  fix subject w1
  assume subj: "subject_of env account w = (Inr subject, w1)"
    and rest: "flow_bind (flow_err FE_Token (broker_refresh (runtime_ports env fp p) cfg subject))
      (sync_with_token env fp account) w1 = (r, w')"
  have w1: "inst_wf env [] (cn_db (bw_env w1))" "credential env (cn_db (bw_env w1)) = held"
    using subject_of_effect [OF _ subj] sane by (simp_all add: held_def)
  obtain q w2 where q: "broker_refresh (runtime_ports env fp p) cfg subject w1 = (q, w2)" by fastforce
  have "sane_inst env (bw_env w1)" using w1 sane by simp
  note w2 = tokens.refresh_stores [OF runtime_served runtime_quiet [OF quiet] this q, unfolded w1 validated_subject.sel]
  show ?thesis
  proof (cases q)
    case (Inl err)
    with rest q have "w' = w2" "r = Inl (FE_Token err)" by (simp_all add: flow_bind_def flow_err_def)
    with w2 Inl subj show ?thesis by (simp add: held'_def synced_def refresh_leaves_def)
  next
    case (Inr token)
    with rest q have s: "sync_with_token env fp account token w2 = (r, w')"
      by (simp add: flow_bind_def flow_err_def)
    have "inst_wf env [] (cn_db (bw_env w2))" using w2 by simp
    note w' = sync_with_token_effect [OF quiet this s]
    have "r \<noteq> Inl (FE_Token BE_ConsentRevoked)" using sync_with_token_error s by blast
    with w2 w' Inr subj show ?thesis by (simp add: held'_def synced_def refresh_leaves_def)
  qed
qed


lemma sample_world_ok:
  "quiet_outside sample_flow_ports sample_ports" "inst_wf sample_env [] (cn_db (bw_env sample_world))"
  "tags_ok sample_env"
proof -
  show "quiet_outside sample_flow_ports sample_ports"
    by (simp add: quiet_outside_def quiet_rest_def leaves_files_def sample_flow_ports_def
        sample_provider_def sample_ports_def)
  have "account_of_bytes (replicate 16 CHR ''f'') = Inr (AccountId (''acct_'' @ hex (replicate 16 CHR ''f'')))"
    by code_simp
  then show "inst_wf sample_env [] (cn_db (bw_env sample_world))"
    by (simp add: inst_wf_def sample_world_def sample_installation_def registry_wf_def sound_files_def
        registered_accounts_def supplied_def registry_entries_def)
  show "tags_ok sample_env" by (auto simp: tags_ok_def sample_env_def DEDUP_TAG_LEN_def min_def)
qed


end
