(* ===== verification/Flow_Removal.thy ===== *)
theory Flow_Removal
  imports Flows_Props
begin

text \<open>
  Removing an account: what a removal takes away and what it leaves, in success and after a
  failure at any call, and what a later removal can do after a failure half-way.
\<close>

section \<open>Which directories are touched\<close>

definition touches :: "string set \<Rightarrow> installation \<Rightarrow> installation \<Rightarrow> bool" where
  "touches ds s s' \<longleftrightarrow> in_registry s' = in_registry s \<and> in_fills s' = in_fills s
     \<and> (\<forall>d. d \<notin> ds \<longrightarrow> in_stores s' d = in_stores s d)"

interpretation touch: movement "touches ds" for ds
  by unfold_locales (auto simp: touches_def)

lemma steady_touches: "steady d s s' \<Longrightarrow> touches {d} s s'"
  by (auto simp: steady_def touches_def)

lemma touches_mono: "touches ds s s' \<Longrightarrow> ds \<subseteq> es \<Longrightarrow> touches es s s'"
  by (auto simp: touches_def)

lemma touches_subject: "touches ds s s' \<Longrightarrow> subject_account s' = subject_account s"
  by (simp add: fun_eq_iff touches_def subject_account_def split: sum.split)

lemma set_store_tables_touches: "touches {d} s (set_store_tables d t s)"
  by (simp add: touches_def set_store_tables_def)

lemma open_unchecked_touches: "op_within (touches {account_dir env a}) (open_store_unchecked env a)"
  using open_store_steady steady_touches by (simp add: op_within_def)

lemma on_store_touches: "op_within (touches {d}) (on_store d m)"
  unfolding op_within_def by (metis on_store_run set_store_tables_touches surjective_pairing)

lemma db_map_err_within: "op_within R m \<Longrightarrow> op_within R (db_map_err f m)"
  by (simp add: op_within_def db_map_err_def)

text \<open>The token store touches the directory of the subject's account only.\<close>

definition subject_dirs :: "inst_env \<Rightarrow> installation \<Rightarrow> validated_subject \<Rightarrow> string set" where
  "subject_dirs env s subject =
     {account_dir env a | a. subject_account s (subject_tag env (validated_str subject)) = Some a}"

lemma for_subject_account_touches:
  assumes "db_bind (db_map_err g (account_for_subject env (validated_str subject))) f c = (r, c')"
    and "registry_wf (in_registry (cn_db c))"
    and "\<And>q. op_within (touches {}) (f None)" and "\<And>a. op_within (touches {account_dir env a}) (f (Some a))"
  shows "touches (subject_dirs env (cn_db c) subject) (cn_db c) (cn_db c')"
proof -
  obtain q c1 where q: "account_for_subject env (validated_str subject) c = (q, c1)" by fastforce
  note c1 = account_for_subject_same [OF q]
  show ?thesis
  proof (cases q)
    case (Inl err)
    with assms(1) q c1 show ?thesis by (simp add: db_bind_def db_map_err_def touch.stay)
  next
    case (Inr found)
    with assms(1) q have f: "f found c1 = (r, c')" by (simp add: db_bind_def db_map_err_def)
    have found: "found = subject_account (cn_db c) (subject_tag env (validated_str subject))"
      using account_for_subject_Inr q Inr assms(2) by blast
    show ?thesis
    proof (cases found)
      case None
      with withinD [OF assms(3) f [unfolded None]] c1 show ?thesis by (auto intro: touches_mono)
    next
      case (Some a)
      with found have "{account_dir env a} \<subseteq> subject_dirs env (cn_db c) subject" by (auto simp: subject_dirs_def)
      moreover have "touches {account_dir env a} (cn_db c) (cn_db c')"
        using withinD [OF assms(4) f [unfolded Some]] c1 by simp
      ultimately show ?thesis by (rule touches_mono [rotated])
    qed
  qed
qed

lemma tokens_load_touches:
  assumes "tokens_load env subject c = (r, c')" and "registry_wf (in_registry (cn_db c))"
  shows "touches (subject_dirs env (cn_db c) subject) (cn_db c) (cn_db c')"
  using assms(1) unfolding tokens_load_def
  by (rule for_subject_account_touches [OF _ assms(2)])
    (simp_all add: touch.within_read_only op_rules touch.within_bind db_map_err_within
      open_unchecked_touches on_store_touches)

lemma tokens_delete_touches:
  assumes "tokens_delete env subject c = (r, c')" and "registry_wf (in_registry (cn_db c))"
  shows "touches (subject_dirs env (cn_db c) subject) (cn_db c) (cn_db c')"
proof -
  from assms(1) obtain q where
    "db_bind (db_map_err id (account_for_subject env (validated_str subject))) (\<lambda>found. case found of
          None \<Rightarrow> db_return ()
        | Some account \<Rightarrow>
            db_bind (open_store_unchecked env account) (\<lambda>_.
              on_store (account_dir env account)
                (clear_refresh_token (ie_faults env) account account))) c = (q, c')"
    unfolding tokens_delete_def
    by (elim db_map_err_cases) (simp add: db_bind_def db_map_err_def split: prod.splits sum.splits)
  then show ?thesis
    by (rule for_subject_account_touches [OF _ assms(2)])
      (simp_all add: touch.within_read_only op_rules touch.within_bind open_unchecked_touches on_store_touches)
qed

lemma revocation_touches:
  assumes "quiet_outside fp p" and "registry_wf (in_registry (cn_db (bw_env w)))"
    and "revoke_provider_grant (runtime_ports env fp p) name w = (r, w')"
  shows "touches (subject_dirs env (cn_db (bw_env w)) (ValidatedSubject name))
    (cn_db (bw_env w)) (cn_db (bw_env w'))"
  using assms(3) unfolding revoke_provider_grant_def
proof (cases rule: for_subject_cases)
  case (2 permits w1)
  let ?s = "ValidatedSubject name" and ?v = "w\<lparr>bw_permits := Healthy (insert name permits)\<rparr>"
  obtain q c where load: "tokens_load env ?s (bw_env w) = (q, c)" by fastforce
  then have on: "on_env (bp_load (runtime_ports env fp p) ?s) ?v = (q, ?v\<lparr>bw_env := c\<rparr>)"
    by (simp add: on_env_def runtime_ports_def)
  have rest: "quiet_rest (fp_post fp)" using assms(1) by (simp add: quiet_outside_def)
  have revoke: "cn_db (bw_env v') = cn_db (bw_env v)"
    if "bp_revoke (runtime_ports env fp p) t v = (x, v')" for t v x v'
    using post_leaves(3) [OF rest, of t v] that by (simp add: runtime_ports_def)
  have "cn_db (bw_env w1) = cn_db c"
    using 2(4) on revoke
    by (auto simp: revoke_held_def split: sum.splits option.splits if_splits prod.splits)
  with tokens_load_touches [OF load assms(2)] 2(5) show ?thesis by simp
qed (simp add: touch.stay)

lemma deletion_touches:
  assumes "registry_wf (in_registry (cn_db (bw_env w)))"
    and "delete_stored_tokens (runtime_ports env fp p) name w = (r, w')"
  shows "touches (subject_dirs env (cn_db (bw_env w)) (ValidatedSubject name))
    (cn_db (bw_env w)) (cn_db (bw_env w'))"
  using assms(2) unfolding delete_stored_tokens_def
proof (cases rule: for_subject_cases)
  case (2 permits w1)
  obtain q c where del: "tokens_delete env (ValidatedSubject name) (bw_env w) = (q, c)" by fastforce
  with 2(4) have "bw_env w1 = c" by (auto simp: on_env_def runtime_ports_def)
  with tokens_delete_touches [OF del assms(1)] 2(5) show ?thesis by simp
qed (simp add: touch.stay)

lemma open_store_touches: "op_within (touches {account_dir env a}) (open_store env a)"
proof -
  have "read_only_op (installation_accounts env)"
    unfolding read_only_op_def using installation_accounts_files by (metis prod.collapse)
  then show ?thesis
    unfolding open_store_def
    by (rule touch.within_bind [OF touch.within_read_only])
      (simp add: open_unchecked_touches touch.within_read_only op_rules)
qed

lemma subject_of_touches:
  assumes "subject_of env account w = (r, w')"
  shows "touches {account_dir env account} (cn_db (bw_env w)) (cn_db (bw_env w'))"
proof -
  obtain q c where o: "open_store env account (bw_env w) = (q, c)" by fastforce
  note c = withinD [OF open_store_touches o]
  obtain y v where y: "store_call env account (load_broker_subject (ie_faults env) account account)
      (w\<lparr>bw_env := c\<rparr>) = (y, v)" by fastforce
  then have "touches {account_dir env account} (cn_db c) (cn_db (bw_env v))"
    by (auto simp: store_call_def on_env_def on_part_def set_store_tables_touches split: prod.splits)
  moreover have "w' = (case q of Inl _ \<Rightarrow> w\<lparr>bw_env := c\<rparr> | Inr _ \<Rightarrow> v)"
    using assms o y by (cases q; cases y)
      (simp_all add: subject_of_def flow_bind_def flow_err_def on_env_def flow_result_def)
  ultimately show ?thesis using c touch.go_on by (cases q) auto
qed

section \<open>The removal\<close>

definition without :: "account_id \<Rightarrow> registry_db \<Rightarrow> registry_db" where
  "without account = filter (\<lambda>r. rg_account_id r \<noteq> SText (account_id_str account))"

text \<open>What the removal of the local data leaves: all but the account's directory and entry.\<close>

definition removed :: "inst_env \<Rightarrow> account_id \<Rightarrow> 'e + unit \<Rightarrow> installation \<Rightarrow> installation \<Rightarrow> bool" where
  "removed env account r s s' \<longleftrightarrow> in_fills s' = in_fills s
     \<and> (\<forall>d. d \<noteq> account_dir env account \<longrightarrow> in_stores s' d = in_stores s d)
     \<and> in_stores s' (account_dir env account) \<in> {in_stores s (account_dir env account), None}
     \<and> (case r of
          Inr _ \<Rightarrow> account \<in> set (registered_accounts s) \<and> in_stores s' (account_dir env account) = None
            \<and> in_registry s' = without account (in_registry s)
        | Inl _ \<Rightarrow> in_registry s' = in_registry s)"

lemma remove_directory_run:
  assumes "remove_directory env d c = (r, c')"
  shows "in_registry (cn_db c') = in_registry (cn_db c) \<and> in_fills (cn_db c') = in_fills (cn_db c)
    \<and> (\<forall>d'. d' \<noteq> d \<longrightarrow> in_stores (cn_db c') d' = in_stores (cn_db c) d')
    \<and> in_stores (cn_db c') d \<in> {in_stores (cn_db c) d, None}
    \<and> (r = Inr () \<longrightarrow> in_stores (cn_db c') d = None)"
  using assms by (auto simp: remove_directory_def Let_def dest: backend_call_db
      split: prod.splits sum.splits if_splits)

lemma on_registry_remove:
  assumes "on_registry (registry_remove fault account) c = (r, c')"
  shows "(\<exists>err. r = Inl err) \<and> cn_db c' = cn_db c
    \<or> (\<exists>b. r = Inr b) \<and> cn_db c' = (cn_db c)\<lparr>in_registry := without account (in_registry (cn_db c))\<rparr>"
  using assms unfolding on_registry_def
proof (elim db_map_err_cases on_part_run)
  fix q p
  assume run: "registry_remove fault account \<lparr>cn_db = in_registry (cn_db c), cn_calls = cn_calls c\<rparr> = (q, p)"
    and r: "r = map_err IE_Registry q" and c': "cn_db c' = (cn_db c)\<lparr>in_registry := cn_db p\<rparr>"
  from registry_remove_cases [OF run] r c' show ?thesis by (auto simp: without_def)
qed

lemma removed_nothing: "s' = s \<Longrightarrow> removed env account (Inl err) s s'"
  by (simp add: removed_def)

lemma installation_remove_run:
  assumes "installation_remove_account env account c = (r, c')"
    and wf: "registry_wf (in_registry (cn_db c))"
  shows "removed env account r (cn_db c) (cn_db c')"
proof -
  let ?d = "account_dir env account" and ?fault = "ie_faults env"
  obtain q0 c0 where lock: "backend_call (\<lambda>_. IE_Directory) ?fault c = (q0, c0)" by fastforce
  obtain q1 c1 where acc: "installation_accounts env c0 = (q1, c1)" by fastforce
  obtain q2 c2 where dir: "remove_directory env ?d c1 = (q2, c2)" by fastforce
  obtain q3 c3 where reg: "on_registry (registry_remove ?fault account) c2 = (q3, c3)" by fastforce
  have c1: "cn_db c0 = cn_db c" "cn_db c1 = cn_db c"
    using backend_call_db [OF lock] installation_accounts_files [OF acc] by simp_all
  note run = assms(1) [unfolded installation_remove_account_def with_connection_def]
  show ?thesis
  proof (cases "\<exists>u as. q0 = Inr u \<and> q1 = Inr as \<and> account \<in> set as")
    case False
    with run lock acc c1 have "c' = c0 \<or> c' = c1" "\<exists>err. r = Inl err"
      by (auto simp: db_bind_def db_result_def split: sum.splits if_splits)
    with c1 show ?thesis by (auto intro: removed_nothing)
  next
    case True
    then obtain u as where ok: "q0 = Inr u" "q1 = Inr as" "account \<in> set as" by blast
    with installation_accounts_Inr [of env c0] acc c1 wf have mem: "account \<in> set (registered_accounts (cn_db c))"
      by auto
    note d = remove_directory_run [OF dir, unfolded c1]
    show ?thesis
    proof (cases q2)
      case (Inl err)
      with run lock acc dir ok have "c' = c2" "r = Inl err" by (simp_all add: db_bind_def)
      with d show ?thesis by (simp add: removed_def)
    next
      case (Inr v)
      with run lock acc dir reg ok have "c' = c3" and r: "r = map_ok (\<lambda>_. ()) q3"
        by (cases q3; simp add: db_bind_def db_return_def)+
      with on_registry_remove [OF reg] d Inr mem show ?thesis by (auto simp: removed_def)
    qed
  qed
qed

lemma without_entries:
  "list_all registry_row_ok db \<Longrightarrow>
     map (fst \<circ> entry_of) (without account db) = filter (\<lambda>a. a \<noteq> account) (map (fst \<circ> entry_of) db)"
proof (induction db)
  case (Cons r db)
  then have "registry_row_ok r" by simp
  then obtain a t where "rg_account_id r = SText a" "entry_of r = (AccountId a, t)"
    by (rule registry_row_okE)
  with Cons show ?case by (cases account) (auto simp: without_def)
qed (simp add: without_def)

lemma without_accounts:
  assumes "registry_wf (in_registry s)" and "in_registry s' = without account (in_registry s)"
  shows "registered_accounts s' = filter (\<lambda>a. a \<noteq> account) (registered_accounts s)"
proof -
  have "registry_wf (in_registry s')" using assms by (simp add: without_def registry_wf_filter)
  moreover have "list_all registry_row_ok (in_registry s)" using assms(1) by (simp add: registry_wf_def)
  ultimately show ?thesis
    using assms without_entries [of "in_registry s" account]
    by (simp add: registered_accounts_def registry_entries_wf)
qed

lemma removed_wf:
  assumes "removed env account r s s'" and "inst_wf env [] s"
  shows "inst_wf env [] s'"
proof -
  have reg: "in_registry s' \<in> {in_registry s, without account (in_registry s)}"
    using assms(1) by (cases r) (simp_all add: removed_def)
  then have wf: "registry_wf (in_registry s')"
    using assms(2) by (auto simp: inst_wf_def without_def registry_wf_filter)
  have accounts: "\<exists>P. registered_accounts s' = filter P (registered_accounts s)"
  proof (cases "in_registry s' = in_registry s")
    case True
    then show ?thesis by (intro exI [of _ "\<lambda>_. True"]) (simp add: registered_accounts_def)
  next
    case False
    with reg without_accounts [of s s' account] assms(2) show ?thesis
      by (auto simp: inst_wf_def)
  qed
  have stores: "in_stores s' d \<in> {in_stores s d, None}" for d
    using assms(1) by (cases "d = account_dir env account") (auto simp: removed_def)
  have same: "supplied s' = supplied s" using assms(1) by (simp add: removed_def supplied_def)
  from accounts obtain P where P: "registered_accounts s' = filter P (registered_accounts s)" by blast
  have "distinct (map (account_dir env) (registered_accounts s @ [] @ supplied s))"
    using assms(2) by (simp add: inst_wf_def)
  then have "distinct (map (account_dir env) (registered_accounts s' @ [] @ supplied s'))"
    unfolding P same by (auto simp: distinct_map_filter)
  moreover have "sound_files s'"
    unfolding sound_files_def
  proof (intro allI impI)
    fix d f assume "in_stores s' d = Some f"
    with stores [of d] have "in_stores s d = Some f" by auto
    with assms(2) show "sound_file f" by (auto simp: inst_wf_def sound_files_def)
  qed
  moreover have "in_stores s' (account_dir env a) = None" if "a \<in> set (supplied s')" for a
    using stores [of "account_dir env a"] that assms(2) same by (auto simp: inst_wf_def)
  ultimately show ?thesis using wf by (simp add: inst_wf_def)
qed

text \<open>
  The directories that a removal does not touch: not the account's own, and not the directory of
  the account that is registered under the subject named in the removed store, whose credential
  the broker deletes. Registration leaves that account to be the removed one.
\<close>

definition spared :: "inst_env \<Rightarrow> account_id \<Rightarrow> inst_world \<Rightarrow> string \<Rightarrow> bool" where
  "spared env account w d \<longleftrightarrow> d \<noteq> account_dir env account
     \<and> (\<forall>subject b. fst (subject_of env account w) = Inr subject \<longrightarrow>
          subject_account (cn_db (bw_env w)) (subject_tag env subject) = Some b \<longrightarrow> d \<noteq> account_dir env b)"

lemma subject_dirs_same: "subject_account s' = subject_account s \<Longrightarrow> subject_dirs env s' n = subject_dirs env s n"
  by (simp add: subject_dirs_def)

lemma remove_account_run:
  assumes quiet: "quiet_outside fp p" and sane: "sane_inst env (bw_env w)"
    and run: "remove_account env (runtime_ports env fp p) account w = (r, w')"
  obtains v :: "installation conn" and q :: "installation_error + unit"
  where "removed env account q (cn_db v) (cn_db (bw_env w'))" "is_ok q = is_ok r"
    "inst_wf env [] (cn_db v)" "in_registry (cn_db v) = in_registry (cn_db (bw_env w))"
    "\<And>d. spared env account w d \<Longrightarrow> in_stores (cn_db v) d = in_stores (cn_db (bw_env w)) d"
proof -
  let ?p = "runtime_ports env fp p" and ?d = "account_dir env account"
  obtain q1 w1 where subj: "subject_of env account w = (q1, w1)" by fastforce
  note t1 = subject_of_touches [OF subj]
  have wf1: "inst_wf env [] (cn_db (bw_env w1))" using subject_of_effect [OF _ subj] sane by simp
  show thesis
  proof (cases q1)
    case (Inl err)
    with run subj have r: "r = Inl err" "w' = w1" by (simp_all add: remove_account_def flow_bind_def)
    show thesis
      by (rule that [of "Inl IE_Directory" "bw_env w1"])
        (use r t1 wf1 in \<open>auto simp: removed_nothing touches_def spared_def\<close>)
  next
    case (Inr name)
    let ?n = "ValidatedSubject name"
    let ?ds = "insert ?d (subject_dirs env (cn_db (bw_env w)) ?n)"
    obtain q2 w2 where rev: "revoke_provider_grant ?p name w1 = (q2, w2)" by fastforce
    obtain q3 w3 where del: "delete_stored_tokens ?p name w2 = (q3, w3)" by fastforce
    obtain q4 c where rem: "installation_remove_account env account (bw_env w3) = (q4, c)" by fastforce
    have reg1: "registry_wf (in_registry (cn_db (bw_env w1)))" using wf1 by (simp add: inst_wf_def)
    note t2 = revocation_touches [OF quiet reg1 rev]
    have sane1: "sane_inst env (bw_env w1)" using wf1 sane by simp
    note k2 = tokens.revocation_keeps [OF runtime_served runtime_quiet [OF quiet] sane1 rev]
    have reg2: "registry_wf (in_registry (cn_db (bw_env w2)))" using k2 by (simp add: inst_wf_def)
    note t3 = deletion_touches [OF reg2 del]
    have sane2: "sane_inst env (bw_env w2)" using k2 by simp
    have wf3: "inst_wf env [] (cn_db (bw_env w3))"
      using tokens.deletion_steps [OF runtime_served sane2 del] by simp
    have d1: "subject_dirs env (cn_db (bw_env w1)) ?n = subject_dirs env (cn_db (bw_env w)) ?n"
      using touches_subject [OF t1] by (rule subject_dirs_same)
    have d2: "subject_dirs env (cn_db (bw_env w2)) ?n = subject_dirs env (cn_db (bw_env w)) ?n"
      using touches_subject [OF t2] d1 subject_dirs_same by metis
    have "touches ?ds (cn_db (bw_env w)) (cn_db (bw_env w1))" by (rule touches_mono [OF t1]) simp
    moreover have "touches ?ds (cn_db (bw_env w1)) (cn_db (bw_env w2))"
      by (rule touches_mono [OF t2]) (auto simp: d1)
    moreover have "touches ?ds (cn_db (bw_env w2)) (cn_db (bw_env w3))"
      by (rule touches_mono [OF t3]) (auto simp: d2)
    ultimately have t: "touches ?ds (cn_db (bw_env w)) (cn_db (bw_env w3))" using touch.go_on by blast
    have others: "in_stores (cn_db (bw_env w3)) d = in_stores (cn_db (bw_env w)) d"
      if "spared env account w d" for d
    proof -
      have "d \<notin> ?ds" using that subj Inr by (auto simp: spared_def subject_dirs_def)
      with t show ?thesis by (simp add: touches_def)
    qed
    have "remove_account env ?p account w = flow_bind (inst_call (installation_remove_account env account))
        (\<lambda>_. flow_result (Inr (if is_ok q2 then Confirmed else Unconfirmed))) w3"
      by (simp add: remove_account_def flow_bind_def [of "subject_of env account"] subj Inr rev del)
    with run have "flow_bind (inst_call (installation_remove_account env account))
        (\<lambda>_. flow_result (Inr (if is_ok q2 then Confirmed else Unconfirmed))) w3 = (r, w')" by simp
    then have "w' = w3\<lparr>bw_env := c\<rparr>" "is_ok q4 = is_ok r"
      using rem by (cases q4; auto simp: flow_bind_def inst_call_def flow_err_def on_env_def flow_result_def)+
    moreover have "registry_wf (in_registry (cn_db (bw_env w3)))" using wf3 by (simp add: inst_wf_def)
    moreover have "in_registry (cn_db (bw_env w3)) = in_registry (cn_db (bw_env w))"
      using t by (simp add: touches_def)
    ultimately show thesis
      using installation_remove_run [OF rem] wf3 others by (intro that [of q4 "bw_env w3"]) simp_all
  qed
qed

text \<open>
  C8. Removing an account takes away exactly that account or nothing from the registry: after
  a success it was registered, its directory is gone and the registry is what it was without
  it; after any failure every account is still registered. Every other directory is left as it
  was, with one exception, which the statement spells out: where the removed store names a
  subject under whose tag another account is registered, that account's store may be opened and
  loses its credential. A registration binds the two together, so where the store names the
  subject that its own account is registered under, there is no exception. The installation
  stays well-formed.
\<close>

theorem removal_takes_exactly_the_account:
  assumes "quiet_outside fp p" and "inst_wf env [] (cn_db (bw_env w))" and "tags_ok env"
    and "remove_account env (runtime_ports env fp p) account w = (r, w')"
  defines "s \<equiv> cn_db (bw_env w)" and "s' \<equiv> cn_db (bw_env w')"
  shows "inst_wf env [] s'
    \<and> (case r of
        Inr _ \<Rightarrow> account \<in> set (registered_accounts s) \<and> in_stores s' (account_dir env account) = None
          \<and> registered_accounts s' = filter (\<lambda>a. a \<noteq> account) (registered_accounts s)
      | Inl _ \<Rightarrow> registered_accounts s' = registered_accounts s)
    \<and> (\<forall>d. d \<noteq> account_dir env account \<longrightarrow>
        (\<forall>subject b. fst (subject_of env account w) = Inr subject \<longrightarrow>
           subject_account s (subject_tag env subject) = Some b \<longrightarrow> d \<noteq> account_dir env b) \<longrightarrow>
        in_stores s' d = in_stores s d)
    \<and> ((\<forall>subject. fst (subject_of env account w) = Inr subject \<longrightarrow>
           subject_account s (subject_tag env subject) \<in> {None, Some account}) \<longrightarrow>
        (\<forall>d. d \<noteq> account_dir env account \<longrightarrow> in_stores s' d = in_stores s d))"
proof -
  have sane: "sane_inst env (bw_env w)" using assms(2,3) by simp
  from assms(1) sane assms(4) obtain v :: "installation conn" and q :: "installation_error + unit" where rem: "removed env account q (cn_db v) s'" "is_ok q = is_ok r"
    and v: "inst_wf env [] (cn_db v)" "in_registry (cn_db v) = in_registry s"
    and others: "\<And>d. spared env account w d \<Longrightarrow> in_stores (cn_db v) d = in_stores s d"
    unfolding s_def s'_def by (rule remove_account_run) blast
  have "registered_accounts (cn_db v) = registered_accounts s" using v(2) by (simp add: registered_accounts_def)
  moreover have "registry_wf (in_registry s)" using assms(2) by (simp add: s_def inst_wf_def)
  ultimately have "case r of
        Inr _ \<Rightarrow> account \<in> set (registered_accounts s) \<and> in_stores s' (account_dir env account) = None
          \<and> registered_accounts s' = filter (\<lambda>a. a \<noteq> account) (registered_accounts s)
      | Inl _ \<Rightarrow> registered_accounts s' = registered_accounts s"
    using rem v(2) without_accounts [of s s' account]
    by (cases r; cases q) (auto simp: removed_def registered_accounts_def)
  moreover have left: "in_stores s' d = in_stores s d" if "spared env account w d" for d
    using rem(1) others [OF that] that by (simp add: removed_def spared_def)
  moreover have "spared env account w d" if "d \<noteq> account_dir env account"
      "\<forall>subject. fst (subject_of env account w) = Inr subject \<longrightarrow>
        subject_account s (subject_tag env subject) \<in> {None, Some account}" for d
    using that by (force simp: spared_def s_def)
  ultimately show ?thesis using removed_wf [OF rem(1) v(1)]
    by (intro conjI allI impI) (simp_all add: spared_def s_def)
qed

text \<open>The account just added by the sample sign-in, removed again.\<close>

theorem removal_takes_exactly_the_account_witness:
  "case remove_account sample_env (runtime_ports sample_env sample_flow_ports sample_ports)
      (AccountId (''acct_'' @ hex (replicate 16 CHR ''f''))) (snd sample_add) of
    (r, w') \<Rightarrow> inst_wf sample_env [] (cn_db (bw_env w'))
      \<and> (case r of Inr _ \<Rightarrow> length (registered_accounts (cn_db (bw_env w')))
            < length (registered_accounts (cn_db (bw_env (snd sample_add))))
          | Inl _ \<Rightarrow> registered_accounts (cn_db (bw_env w'))
            = registered_accounts (cn_db (bw_env (snd sample_add))))"
proof -
  let ?a = "AccountId (''acct_'' @ hex (replicate 16 CHR ''f''))"
  obtain q v where add: "sample_add = (q, v)" by fastforce
  have "inst_wf sample_env [] (cn_db (bw_env v))"
    using add_account_effect [OF sample_world_ok(1) _ add [unfolded sample_add_def]]
      sample_world_ok(2,3) by (cases q) (auto simp: signed_in_def)
  then have wf: "inst_wf sample_env [] (cn_db (bw_env (snd sample_add)))" by (simp add: add)
  obtain r w' where run: "remove_account sample_env (runtime_ports sample_env sample_flow_ports sample_ports)
      ?a (snd sample_add) = (r, w')" by fastforce
  from removal_takes_exactly_the_account [OF sample_world_ok(1) wf sample_world_ok(3) run]
  show ?thesis
    unfolding run prod.case
    by (cases r) (auto intro!: length_filter_less)
qed

section \<open>A removal cut short\<close>

text \<open>
  The state a removal leaves when the directory went and the registry statement failed: the
  account is registered, and its store is gone, or has been created again without a subject.
\<close>

definition nameless :: "inst_env \<Rightarrow> account_id \<Rightarrow> installation \<Rightarrow> bool" where
  "nameless env account s \<longleftrightarrow>
     (case in_stores s (account_dir env account) of None \<Rightarrow> True
      | Some f \<Rightarrow> im_tables (cf_image f) \<in> {empty_tables, migrated_tables account})"

lemma nameless_open:
  assumes "open_store env account c = (r, c')" and "nameless env account (cn_db c)"
  shows "nameless env account (cn_db c')"
proof -
  let ?d = "account_dir env account"
  have read: "read_only_op (installation_accounts env)"
    unfolding read_only_op_def using installation_accounts_files by (metis prod.collapse)
  have create: "keeps (nameless env account) (open_account_file env account ?d key)" for key
    unfolding keeps_def
  proof (intro allI impI)
    fix k :: "installation conn" assume n: "nameless env account (cn_db k)"
    define f where "f = (case in_stores (cn_db k) ?d of Some f \<Rightarrow> f | None \<Rightarrow> empty_file)"
    define k0 where "k0 = \<lparr>cn_db = (ie_conn env)\<lparr>cc_file := f\<rparr>, cn_calls = cn_calls k\<rparr>"
    obtain q k1 where run: "open_database (ie_faults env) account key k0 = (q, k1)" by fastforce
    have "im_tables (cf_image f) \<in> {empty_tables, migrated_tables account}"
      using n by (auto simp: f_def nameless_def empty_file_def split: option.splits)
    then have "im_tables (image_of k1) \<in> {empty_tables, migrated_tables account}"
      using open_tables [OF run] by (auto simp: k0_def)
    then show "nameless env account (cn_db (snd (open_account_file env account ?d key k)))"
      using run by (cases q)
        (auto simp: open_account_file_def Let_def f_def [symmetric] k0_def [symmetric] nameless_def)
  qed
  have "keeps (nameless env account) (open_store env account)"
    unfolding open_store_def open_store_unchecked_def
    by (auto intro!: keeps_bind keep_rules create keeps_read_only [OF read] keeps_read_only [OF read_only_ensure]
        simp: keeps_return)
  from keepsD [OF this assms] show ?thesis .
qed

lemma load_subject_unbound:
  assumes "load_broker_subject fault own account c = (Inr found, c')"
    and "cn_db c \<in> {empty_tables, migrated_tables own}"
  shows "found = None"
proof -
  from assms(1) obtain c1 row c2 where "cn_db c1 = cn_db c"
    "query_row binding_error fault (read_binding_column bd_broker_subject) c1 = (Inr row, c2)"
    "judge_binding_column is_valid_broker_subject account row = Inr found"
    unfolding load_broker_subject_def
    by (auto simp: db_bind_Inr_iff db_result_def elim!: with_connection_Inr)
  with query_row_Inr [OF this(2)] assms(2) show ?thesis
    by (auto simp: empty_tables_def migrated_tables_def read_binding_column_def judge_binding_column_def
        result_simps split: if_splits)
qed

lemma subject_of_nameless:
  assumes "nameless env account (cn_db (bw_env w))"
  shows "\<exists>err w1. subject_of env account w = (Inl err, w1) \<and> nameless env account (cn_db (bw_env w1))
    \<and> in_registry (cn_db (bw_env w1)) = in_registry (cn_db (bw_env w))"
proof -
  let ?d = "account_dir env account" and ?load = "load_broker_subject (ie_faults env) account account"
  obtain q c where o: "open_store env account (bw_env w) = (q, c)" by fastforce
  note c = nameless_open [OF o assms] withinD [OF open_store_touches o]
  obtain y v where y: "?load \<lparr>cn_db = store_tables ?d (cn_db c), cn_calls = cn_calls c\<rparr> = (y, v)" by fastforce
  have "read_only_op ?load" unfolding load_broker_subject_def by (intro op_rules)
  from read_only_files [OF this, of "\<lparr>cn_db = store_tables ?d (cn_db c), cn_calls = cn_calls c\<rparr>"] y
  have v: "cn_db v = store_tables ?d (cn_db c)" by simp
  have tables: "store_tables ?d (cn_db c) \<in> {empty_tables, migrated_tables account}"
    using c(1) by (auto simp: store_tables_def nameless_def split: option.splits)
  have none: "found = None" if "y = Inr found" for found
    using load_subject_unbound [OF y [unfolded that]] tables by simp
  have call: "store_call env account ?load (w\<lparr>bw_env := c\<rparr>)
      = (y, w\<lparr>bw_env := \<lparr>cn_db = cn_db c, cn_calls = cn_calls v\<rparr>\<rparr>)"
    using y v by (simp add: store_call_def on_env_def on_part_def set_store_tables_same)
  have "\<exists>err. subject_of env account w = (Inl err, w\<lparr>bw_env := c\<rparr>)
      \<or> subject_of env account w = (Inl err, w\<lparr>bw_env := \<lparr>cn_db = cn_db c, cn_calls = cn_calls v\<rparr>\<rparr>)"
    using o call none
    by (cases q; cases y) (auto simp: subject_of_def flow_bind_def flow_err_def on_env_def flow_result_def)
  then obtain err c1 where "subject_of env account w = (Inl err, w\<lparr>bw_env := c1\<rparr>)" "cn_db c1 = cn_db c"
    by (metis conn.select_convs(1))
  with c show ?thesis by (auto simp: touches_def)
qed

text \<open>
  What may be tried later, in any environment that names the directories alike: removing the
  account again, synchronising it, and anything else that leaves its directory and its entry
  alone.
\<close>

datatype later =
    LaterRemove inst_env "installation conn broker_ports"
  | LaterSync inst_env flow_ports "installation conn broker_ports" broker_config
  | LaterOther "inst_world \<Rightarrow> inst_world"

fun later_step :: "account_id \<Rightarrow> later \<Rightarrow> inst_world \<Rightarrow> bool \<times> inst_world" where
  "later_step account (LaterRemove env p) w = apfst is_ok (remove_account env p account w)"
| "later_step account (LaterSync env fp p cfg) w = apfst is_ok (sync_account env fp p cfg account w)"
| "later_step account (LaterOther f) w = (False, f w)"

text \<open>Whether any of the removals and synchronisations succeeded, and the world afterwards.\<close>

fun later_steps :: "account_id \<Rightarrow> later list \<Rightarrow> inst_world \<Rightarrow> bool \<times> inst_world" where
  "later_steps account [] w = (False, w)"
| "later_steps account (t # ts) w =
     (let (r, w1) = later_step account t w; (rs, w2) = later_steps account ts w1 in (r \<or> rs, w2))"

fun later_ok :: "inst_env \<Rightarrow> account_id \<Rightarrow> later \<Rightarrow> bool" where
  "later_ok env account (LaterRemove e _) \<longleftrightarrow> ie_sha256 e = ie_sha256 env"
| "later_ok env account (LaterSync e _ _ _) \<longleftrightarrow> ie_sha256 e = ie_sha256 env"
| "later_ok env account (LaterOther f) \<longleftrightarrow> (\<forall>w.
     in_stores (cn_db (bw_env (f w))) (account_dir env account)
       = in_stores (cn_db (bw_env w)) (account_dir env account)
     \<and> (account \<in> set (registered_accounts (cn_db (bw_env w))) \<longrightarrow>
          account \<in> set (registered_accounts (cn_db (bw_env (f w))))))"

definition stuck :: "inst_env \<Rightarrow> account_id \<Rightarrow> inst_world \<Rightarrow> bool" where
  "stuck env account w \<longleftrightarrow> nameless env account (cn_db (bw_env w))
     \<and> account \<in> set (registered_accounts (cn_db (bw_env w)))"

lemma stuck_step:
  assumes "stuck env account w" and "later_ok env account t" and "later_step account t w = (r, w')"
  shows "\<not> r \<and> stuck env account w'"
proof -
  have fails: "\<exists>err w1. subject_of e account w = (Inl err, w1) \<and> stuck env account w1"
    if "ie_sha256 e = ie_sha256 env" for e
  proof -
    have same: "nameless e account s = nameless env account s" for s
      using that by (simp add: nameless_def account_dir_def)
    from subject_of_nameless [of e account w] assms(1) show ?thesis
      unfolding same stuck_def by (fastforce simp: registered_accounts_def)
  qed
  show ?thesis
  proof (cases t)
    case (LaterRemove e p)
    with assms fails [of e] show ?thesis by (auto simp: remove_account_def flow_bind_def)
  next
    case (LaterSync e fp p cfg)
    with assms fails [of e] show ?thesis by (auto simp: sync_account_def flow_bind_def)
  next
    case (LaterOther f)
    with assms show ?thesis by (auto simp: stuck_def nameless_def)
  qed
qed

lemma stuck_steps:
  "stuck env account w \<Longrightarrow> list_all (later_ok env account) ts \<Longrightarrow> later_steps account ts w = (r, w') \<Longrightarrow>
     \<not> r \<and> stuck env account w'"
proof (induction ts arbitrary: w r w')
  case (Cons t ts)
  obtain q w1 where t: "later_step account t w = (q, w1)" by fastforce
  obtain rs w2 where ts: "later_steps account ts w1 = (rs, w2)" by fastforce
  have "\<not> q \<and> stuck env account w1" using stuck_step [OF Cons.prems(1) _ t] Cons.prems(2) by simp
  with Cons.IH [OF _ _ ts] Cons.prems t ts show ?case by auto
qed simp


section \<open>A removal that succeeds, and its cut\<close>

text \<open>When nothing fails, a removal of an account with a sound store succeeds.\<close>

definition calm :: "inst_env \<Rightarrow> bool" where
  "calm env \<longleftrightarrow> ie_faults env = quiet \<and> cc_cipher_version (ie_conn env) \<noteq> []
     \<and> (\<forall>n. \<exists>m. ie_metadata env n = Some m \<and> dm_is_dir m \<and> dm_owner m = ie_euid env \<and> dm_mode m mod 64 = 0)"

definition sound_store :: "inst_env \<Rightarrow> account_id \<Rightarrow> string \<Rightarrow> cipher_file \<Rightarrow> bool" where
  "sound_store env account subject f \<longleftrightarrow>
     (\<exists>key. derive_account_key (ie_crypto env) (ie_root env) account SqlCipherDatabaseV1 = Inr key
        \<and> cf_key f = Some key)
     \<and> owned_by account (cf_image f) \<and> healthy (cf_image f) \<and> is_valid_broker_subject subject
     \<and> (\<exists>b. db_binding (im_tables (cf_image f)) = Some b
          \<and> bd_account_id b = SText (account_id_str account) \<and> bd_broker_subject b = SText subject)"

lemma installation_accounts_quiet:
  assumes "ie_faults env = quiet" and "registry_wf (in_registry (cn_db c))"
  shows "\<exists>c'. installation_accounts env c = (Inr (registered_accounts (cn_db c)), c') \<and> cn_db c' = cn_db c"
proof -
  obtain r c' where run: "installation_accounts env c = (r, c')" by fastforce
  have "r = Inr (registered_accounts (cn_db c))"
    using run registry_accounts_quiet [of "\<lparr>cn_db = in_registry (cn_db c), cn_calls = cn_calls c\<rparr>"] assms
    by (auto simp: installation_accounts_def on_registry_def db_map_err_def on_part_def registered_accounts_def
        apfst_def map_prod_def split: prod.splits)
  with run installation_accounts_files [OF run] show ?thesis by simp
qed

lemma open_store_quiet:
  assumes calm: "calm env" and wf: "registry_wf (in_registry (cn_db c))"
    and reg: "account \<in> set (registered_accounts (cn_db c))" and ok: "account_id_ok account"
    and f: "in_stores (cn_db c) (account_dir env account) = Some f" "sound_store env account subject f"
  shows "\<exists>c' f'. open_store env account c = (Inr (), c') \<and> in_registry (cn_db c') = in_registry (cn_db c)
    \<and> in_stores (cn_db c') (account_dir env account) = Some f' \<and> im_tables (cf_image f') = im_tables (cf_image f)"
proof -
  let ?d = "account_dir env account"
  have quiet: "ie_faults env = quiet" using calm by (simp add: calm_def)
  obtain key where key: "derive_account_key (ie_crypto env) (ie_root env) account SqlCipherDatabaseV1 = Inr key"
    "cf_key f = Some key" and im: "owned_by account (cf_image f)" "healthy (cf_image f)"
    using f(2) by (auto simp: sound_store_def)
  obtain c1 where acc: "installation_accounts env c = (Inr (registered_accounts (cn_db c)), c1)"
    and c1: "cn_db c1 = cn_db c" using installation_accounts_quiet [OF quiet wf] by blast
  have "\<forall>n. \<exists>m. ie_metadata env n = Some m \<and> dm_is_dir m \<and> dm_owner m = ie_euid env \<and> dm_mode m mod 64 = 0"
    using calm unfolding calm_def by (elim conjE)
  then obtain m where "ie_metadata env (Suc (cn_calls c1)) = Some m" "dm_is_dir m" "dm_owner m = ie_euid env"
    "dm_mode m mod 64 = 0" by meson
  then have dir: "ensure_private_dir env c1 = (Inr (), tick (tick c1))"
    by (simp add: ensure_private_dir_def db_bind_def quiet env_answer_def db_return_def tick_def)
  define k0 where "k0 = \<lparr>cn_db = (ie_conn env)\<lparr>cc_file := f\<rparr>, cn_calls = cn_calls (tick (tick (tick c1)))\<rparr>"
  have "fst (open_database quiet account key k0) = Inr ()"
    by (rule owned_opens) (use key im calm in \<open>simp_all add: k0_def calm_def\<close>)
  then obtain k where k: "open_database quiet account key k0 = (Inr (), k)" by (metis prod.collapse)
  from open_Inr [OF k ok] im(1) have tables: "im_tables (image_of k) = im_tables (cf_image f)"
    using blank_not_owned by (auto simp: k0_def)
  have "open_store env account c = open_account_file env account ?d key (tick (tick (tick c1)))"
    using acc reg dir key by (simp add: open_store_def db_bind_def open_store_unchecked_def db_result_def quiet)
  moreover have "in_stores (cn_db (tick (tick (tick c1)))) ?d = Some f" using f c1 by simp
  ultimately have "open_store env account c
      = (Inr (), \<lparr>cn_db = (cn_db c)\<lparr>in_stores := (in_stores (cn_db c))(?d \<mapsto> file_of k)\<rparr>, cn_calls = cn_calls k\<rparr>)"
    using k c1 by (simp add: open_account_file_def k0_def quiet)
  with tables show ?thesis by simp
qed

lemma subject_of_quiet:
  assumes calm: "calm env" and wf: "registry_wf (in_registry (cn_db (bw_env w)))"
    and reg: "account \<in> set (registered_accounts (cn_db (bw_env w)))" and ok: "account_id_ok account"
    and f: "in_stores (cn_db (bw_env w)) (account_dir env account) = Some f" "sound_store env account subject f"
  shows "fst (subject_of env account w) = Inr subject"
proof -
  obtain c f' where o: "open_store env account (bw_env w) = (Inr (), c)"
    and f': "in_stores (cn_db c) (account_dir env account) = Some f'" "im_tables (cf_image f') = im_tables (cf_image f)"
    using open_store_quiet [OF calm wf reg ok f] by blast
  have quiet: "ie_faults env = quiet" using calm by (simp add: calm_def)
  have "list_all (\<lambda>c. byte c < 128) subject"
    using f(2) by (fastforce simp: sound_store_def is_valid_broker_subject_def list_all_iff)
  then have utf8: "utf8_valid subject" "utf8_valid (account_id_str account)"
    using ok by (simp_all add: utf8_valid_ascii account_text_utf8)
  have "fst (load_broker_subject quiet account account
      \<lparr>cn_db = im_tables (cf_image f'), cn_calls = cn_calls c\<rparr>) = Inr (Some subject)"
    using f f'(2) utf8
    by (auto simp: sound_store_def load_broker_subject_def checked_account_def quiet_simps db_result_def
        read_binding_column_def judge_binding_column_def get_option_def get_string_def only_text_def)
  then obtain p where "load_broker_subject quiet account account
      \<lparr>cn_db = im_tables (cf_image f'), cn_calls = cn_calls c\<rparr> = (Inr (Some subject), p)"
    by (metis prod.collapse)
  then show ?thesis
    using o f'(1) quiet
    by (simp add: subject_of_def flow_bind_def flow_err_def on_env_def flow_result_def store_call_def
        on_part_def store_tables_def)
qed

lemma installation_remove_quiet:
  assumes "ie_faults env = quiet" and "registry_wf (in_registry (cn_db c))"
    and "account \<in> set (registered_accounts (cn_db c))"
  shows "is_ok (fst (installation_remove_account env account c))"
proof -
  obtain c1 where acc: "installation_accounts env (tick c) = (Inr (registered_accounts (cn_db c)), c1)"
    using installation_accounts_quiet [of env "tick c"] assms by auto
  obtain c2 where dir: "remove_directory env (account_dir env account) c1 = (Inr (), c2)"
    using assms(1) by (simp add: remove_directory_def)
  have "\<exists>b c3. on_registry (registry_remove quiet account) c2 = (Inr b, c3)"
    by (simp add: on_registry_def db_map_err_def on_part_def registry_remove_def quiet_simps split: prod.splits)
  then show ?thesis
    using acc dir assms by (auto simp: installation_remove_account_def db_bind_def db_return_def)
qed

lemma removal_succeeds:
  assumes "calm env" and "quiet_outside fp p" and "inst_wf env [] (cn_db (bw_env w))"
    and "account \<in> set (registered_accounts (cn_db (bw_env w)))" and "account_id_ok account"
    and "in_stores (cn_db (bw_env w)) (account_dir env account) = Some f" "sound_store env account subject f"
  shows "is_ok (fst (remove_account env (runtime_ports env fp p) account w))"
proof -
  let ?p = "runtime_ports env fp p"
  have wf: "registry_wf (in_registry (cn_db (bw_env w)))" using assms(3) by (simp add: inst_wf_def)
  obtain w1 where subj: "subject_of env account w = (Inr subject, w1)"
    using subject_of_quiet [OF assms(1) wf assms(4-7)] by (metis prod.collapse)
  obtain q2 w2 where rev: "revoke_provider_grant ?p subject w1 = (q2, w2)" by fastforce
  obtain q3 w3 where del: "delete_stored_tokens ?p subject w2 = (q3, w3)" by fastforce
  have reg1: "in_registry (cn_db (bw_env w1)) = in_registry (cn_db (bw_env w))"
    using subject_of_touches [OF subj] by (simp add: touches_def)
  have reg2: "in_registry (cn_db (bw_env w2)) = in_registry (cn_db (bw_env w))"
    using revocation_touches [OF assms(2) _ rev] reg1 wf by (simp add: touches_def)
  have reg3: "in_registry (cn_db (bw_env w3)) = in_registry (cn_db (bw_env w))"
    using deletion_touches [OF _ del] reg2 wf by (simp add: touches_def)
  have "is_ok (fst (installation_remove_account env account (bw_env w3)))"
    using assms(1,4) wf reg3
    by (intro installation_remove_quiet) (simp_all add: calm_def registered_accounts_def)
  then show ?thesis
    using subj rev del
    by (auto simp: remove_account_def flow_bind_def inst_call_def flow_err_def on_env_def flow_result_def
        apfst_def map_prod_def map_err_Inl split: prod.splits sum.splits)
qed

text \<open>An installation whose one account could be removed, and the removal cut at one statement.\<close>

definition cut_file :: cipher_file where
  "cut_file = \<lparr>cf_key = (case derive_account_key (ie_crypto sample_env) (ie_root sample_env) sample_account
       SqlCipherDatabaseV1 of Inr key \<Rightarrow> Some key | Inl _ \<Rightarrow> None),
     cf_image = (cf_image empty_file)\<lparr>im_application_id := STORE_APPLICATION_ID,
       im_user_version := STORE_VERSION, im_schema := migration_schema,
       im_tables := (migrated_tables sample_account)\<lparr>db_binding := Some
         \<lparr>bd_account_id = SText (account_id_str sample_account), bd_broker_subject = SText ''1001'',
          bd_refresh_token = SText ''rt''\<rparr>\<rparr>\<rparr>\<rparr>"

definition cut_start :: "cipher_file \<Rightarrow> installation conn" where
  "cut_start f = \<lparr>cn_db = \<lparr>in_registry = [\<lparr>rg_account_id = SText (account_id_str sample_account),
       rg_dedup_tag = SBlob (replicate 32 CHR ''t''), rg_position = 0\<rparr>],
     in_stores = [account_dir sample_env sample_account \<mapsto> f], in_fills = []\<rparr>, cn_calls = 0\<rparr>"

definition cut_env :: inst_env where
  "cut_env = sample_env\<lparr>ie_faults := (\<lambda>n. if n = 8 then Some InvalidColumnType else None)\<rparr>"

abbreviation cut_world :: "installation conn \<Rightarrow> inst_world" where
  "cut_world c \<equiv> \<lparr>bw_registry = Healthy [], bw_permits = Healthy {}, bw_env = c\<rparr>"

lemma cut_file_sound: "sound_store sample_env sample_account ''1001'' cut_file"
proof -
  let ?im = "cf_image empty_file"
  let ?migrated = "?im\<lparr>im_application_id := STORE_APPLICATION_ID, im_user_version := STORE_VERSION,
    im_schema := migration_schema, im_tables := migrated_tables sample_account\<rparr>"
  have "blank ?im" by (simp add: blank_def empty_file_def schema_def)
  from migrated_owned [OF this sample_account_ok(1), of ?migrated]
  have "owned_by sample_account ?migrated" by (simp add: empty_file_def)
  then have "owned_by sample_account (cf_image cut_file)"
    by (simp add: owned_by_def schema_def owner_of_def cut_file_def migrated_tables_def)
  moreover have "\<exists>key. derive_account_key (ie_crypto sample_env) (ie_root sample_env) sample_account
      SqlCipherDatabaseV1 = Inr key \<and> cf_key cut_file = Some key"
  proof -
    have "is_ok (derive_account_key (ie_crypto sample_env) (ie_root sample_env) sample_account SqlCipherDatabaseV1)"
      by code_simp
    then show ?thesis by (auto simp: cut_file_def is_ok_iff)
  qed
  moreover have "is_valid_broker_subject ''1001''" by code_simp
  ultimately show ?thesis
    by (simp add: sound_store_def cut_file_def healthy_def empty_file_def)
qed

lemma cut_start_ok:
  "registry_wf (in_registry (cn_db (cut_start f)))"
  "registered_accounts (cn_db (cut_start f)) = [sample_account]"
  "inst_wf sample_env [] (cn_db (cut_start cut_file))"
proof -
  show wf: "registry_wf (in_registry (cn_db (cut_start f)))" for f
    by (simp add: cut_start_def) (code_simp)
  show reg: "registered_accounts (cn_db (cut_start f)) = [sample_account]" for f
    by (simp add: cut_start_def registered_accounts_def) (code_simp)
  have "sound_file cut_file"
    using cut_file_sound blank_not_owned by (auto simp: sound_store_def sound_file_def)
  then show "inst_wf sample_env [] (cn_db (cut_start cut_file))"
    using wf [of cut_file] reg [of cut_file]
    by (simp add: inst_wf_def supplied_def sound_files_def) (simp add: cut_start_def)
qed

lemma cut_run:
  "\<exists>c err. installation_remove_account cut_env sample_account (cut_start f) = (Inl err, c)
    \<and> in_stores (cn_db c) (account_dir cut_env sample_account) = None"
proof -
  have "\<not> is_ok (fst (installation_remove_account cut_env sample_account (cut_start f)))" by code_simp
  moreover have "in_stores (cn_db (snd (installation_remove_account cut_env sample_account (cut_start f))))
      (account_dir cut_env sample_account) = None" by code_simp
  ultimately show ?thesis
    by (cases "installation_remove_account cut_env sample_account (cut_start f)";
        cases "fst (installation_remove_account cut_env sample_account (cut_start f))") auto
qed


end
