(* ===== verification/Vault.thy ===== *)
theory Vault
  imports Root_Keys
begin

text \<open>
  The root-key vault (\<^verbatim>\<open>adapters/vault/src/lib.rs\<close>): the installation root key in one slot,
  plain or wrapped under a passphrase. The slot is the operating system's keyring or an
  owner-only file. The keyring is not code of the repository: it is one secret and a failure
  for each call, as its documentation describes. Every system call on the key file may fail,
  and a failed write may leave any part of its bytes; other processes stay away from both
  files, which is what the installation lock is for. Zeroising and redacted Debug impls are
  left out.
\<close>

section \<open>Errors and constants\<close>

text \<open>An \<open>io::ErrorKind\<close>: the one the code distinguishes, or any other with its text.\<close>

datatype io_kind = IoNotFound | IoKind string

datatype vault_error =
    VE_KeyringUnavailable
  | VE_Keyring
  | VE_File io_kind
  | VE_UnsafeFile
  | VE_Malformed
  | VE_PassphraseRequired
  | VE_WrongPassphrase
  | VE_PassphraseMandatory
  | VE_AlreadyInitialized
  | VE_NotInitialized
  | VE_Key key_error

fun io_kind_text :: "io_kind \<Rightarrow> string" where
  "io_kind_text IoNotFound = ''entity not found''"
| "io_kind_text (IoKind name) = name"

fun vault_error_text :: "vault_error \<Rightarrow> string" where
  "vault_error_text VE_KeyringUnavailable = ''no system keyring is available''"
| "vault_error_text VE_Keyring = ''the system keyring refused access''"
| "vault_error_text (VE_File kind) = ''the key file could not be accessed ('' @ io_kind_text kind @ '')''"
| "vault_error_text VE_UnsafeFile = ''the key file must be an owner-only regular file''"
| "vault_error_text VE_Malformed = ''the stored key is malformed''"
| "vault_error_text VE_PassphraseRequired = ''a passphrase is required''"
| "vault_error_text VE_WrongPassphrase = ''wrong passphrase or altered key''"
| "vault_error_text VE_PassphraseMandatory = ''a passphrase is required when no keyring is available''"
| "vault_error_text VE_AlreadyInitialized = ''a root key already exists''"
| "vault_error_text VE_NotInitialized = ''no root key exists yet''"
| "vault_error_text (VE_Key err) = key_error_text err"

fun vault_key_error :: "key_error \<Rightarrow> vault_error" where
  "vault_key_error KE_WrongPassphraseOrTampered = VE_WrongPassphrase"
| "vault_key_error KE_Malformed = VE_Malformed"
| "vault_key_error other = VE_Key other"

definition TAG_PLAIN :: char where "TAG_PLAIN = CHR ''P''"
definition TAG_WRAPPED :: char where "TAG_WRAPPED = CHR ''W''"
definition SLOT_LIMIT :: nat where "SLOT_LIMIT = 4096"

datatype slot_kind = SlotKeyring | SlotFile
datatype backend_choice = BackendAuto | BackendKeyring | BackendFile
datatype vault_state = VaultEmpty | VaultUnprotected | VaultPassphraseProtected

section \<open>The vault over any slot\<close>

type_synonym ('w, 'e, 'a) step_op = "'w \<Rightarrow> ('e + 'a) \<times> 'w"

definition st_bind :: "('w, 'e, 'a) step_op \<Rightarrow> ('a \<Rightarrow> ('w, 'e, 'b) step_op) \<Rightarrow> ('w, 'e, 'b) step_op" where
  "st_bind m f w = (case m w of (Inl err, w1) \<Rightarrow> (Inl err, w1) | (Inr a, w1) \<Rightarrow> f a w1)"

definition st_result :: "'e + 'a \<Rightarrow> ('w, 'e, 'a) step_op" where
  "st_result r w = (r, w)"

definition st_err :: "('e \<Rightarrow> 'f) \<Rightarrow> ('w, 'e, 'a) step_op \<Rightarrow> ('w, 'f, 'a) step_op" where
  "st_err g m w = apfst (map_err g) (m w)"

record 'w secret_slot =
  ss_read :: "('w, vault_error, string option) step_op"
  ss_write :: "string \<Rightarrow> ('w, vault_error, unit) step_op"
  ss_erase :: "('w, vault_error, unit) step_op"

record 'w vault =
  vt_slot :: "'w secret_slot"
  vt_kind :: slot_kind
  vt_params :: kdf_params

definition judge_content :: "string \<Rightarrow> vault_error + vault_state" where
  "judge_content content =
     (case content of
        tag # rest \<Rightarrow>
          if tag = TAG_PLAIN \<and> length content = 1 + KEY_LEN then Inr VaultUnprotected
          else if tag = TAG_WRAPPED \<and> length content = 1 + WRAPPED_LEN then Inr VaultPassphraseProtected
          else Inl VE_Malformed
      | [] \<Rightarrow> Inl VE_Malformed)"

definition vault_state_of :: "'w vault \<Rightarrow> ('w, vault_error, vault_state) step_op" where
  "vault_state_of v =
     st_bind (ss_read (vt_slot v)) (\<lambda>found. st_result (case found of
        None \<Rightarrow> Inr VaultEmpty | Some content \<Rightarrow> judge_content content))"

text \<open>What a slot's content opens to.\<close>

definition open_content :: "crypto \<Rightarrow> string option \<Rightarrow> string \<Rightarrow> vault_error + root_key" where
  "open_content cr passphrase content =
     (case content of
        tag # rest \<Rightarrow>
          if tag = TAG_PLAIN \<and> length rest = KEY_LEN then Inr (RootKey rest)
          else if tag = TAG_WRAPPED then
            (case passphrase of
               None \<Rightarrow> Inl VE_PassphraseRequired
             | Some secret \<Rightarrow> map_err vault_key_error (unwrap_root_key cr rest secret))
          else Inl VE_Malformed
      | [] \<Rightarrow> Inl VE_Malformed)"

definition vault_unlock :: "crypto \<Rightarrow> 'w vault \<Rightarrow> string option \<Rightarrow> ('w, vault_error, root_key) step_op" where
  "vault_unlock cr v passphrase =
     st_bind (ss_read (vt_slot v)) (\<lambda>found. st_result (case found of
        None \<Rightarrow> Inl VE_NotInitialized | Some content \<Rightarrow> open_content cr passphrase content))"

text \<open>The random fills of one call: the new key's, the salt and the nonce of a wrapping.\<close>

record fills =
  fl_root :: "string option"
  fl_salt :: "string option"
  fl_nonce :: "string option"

definition vault_encode ::
    "crypto \<Rightarrow> 'w vault \<Rightarrow> fills \<Rightarrow> root_key \<Rightarrow> string option \<Rightarrow> vault_error + string" where
  "vault_encode cr v fl root passphrase =
     (case passphrase of
        Some secret \<Rightarrow> map_err vault_key_error (map_ok (\<lambda>wrapped. TAG_WRAPPED # wrapped)
          (wrap_root_key cr (fl_salt fl) (fl_nonce fl) root secret (vt_params v)))
      | None \<Rightarrow> Inr (TAG_PLAIN # root_bytes root))"

definition vault_create ::
    "crypto \<Rightarrow> 'w vault \<Rightarrow> fills \<Rightarrow> string option \<Rightarrow> ('w, vault_error, root_key) step_op" where
  "vault_create cr v fl passphrase =
     st_bind (vault_state_of v) (\<lambda>state.
     if state \<noteq> VaultEmpty then st_result (Inl VE_AlreadyInitialized)
     else if vt_kind v = SlotFile \<and> passphrase = None then st_result (Inl VE_PassphraseMandatory)
     else
       st_bind (st_result (map_err vault_key_error (root_key_generate (fl_root fl)))) (\<lambda>root.
       st_bind (st_result (vault_encode cr v fl root passphrase)) (\<lambda>content.
       st_bind (ss_write (vt_slot v) content) (\<lambda>_.
       st_bind (vault_unlock cr v passphrase) (\<lambda>reopened.
         if root_bytes reopened \<noteq> root_bytes root then st_result (Inl VE_Malformed)
         else st_result (Inr root))))))"

definition vault_reprotect ::
    "crypto \<Rightarrow> 'w vault \<Rightarrow> fills \<Rightarrow> root_key \<Rightarrow> string option \<Rightarrow> ('w, vault_error, unit) step_op" where
  "vault_reprotect cr v fl root passphrase =
     (if vt_kind v = SlotFile \<and> passphrase = None then st_result (Inl VE_PassphraseMandatory)
      else st_bind (st_result (vault_encode cr v fl root passphrase)) (ss_write (vt_slot v)))"

definition vault_destroy :: "'w vault \<Rightarrow> ('w, vault_error, unit) step_op" where
  "vault_destroy v = ss_erase (vt_slot v)"

section \<open>The two slots\<close>

datatype keyring_failure = NoStorageAccess | OtherKeyringFailure
datatype keyring_error = NoEntry | KeyringFailure keyring_failure

record key_file =
  kf_regular :: bool
  kf_symlink :: bool
  kf_owner :: nat
  kf_mode :: nat
  kf_content :: string

record vault_world =
  vw_secret :: "string option"
  vw_file :: "key_file option"
  vw_temporary :: "key_file option"
  vw_calls :: nat

text \<open>
  The environment: failures of the keyring and of the file system by call number, what a new
  file of the process looks like once its mode was set to \<open>0600\<close>, and how much of a failed
  write reached the file.
\<close>

record vault_env =
  ve_keyring_fault :: "nat \<Rightarrow> keyring_failure option"
  ve_io_fault :: "nat \<Rightarrow> string option"
  ve_euid :: nat
  ve_file_owner :: nat
  ve_file_mode :: nat
  ve_written :: "nat \<Rightarrow> nat"

definition next_call :: "vault_world \<Rightarrow> vault_world" where
  "next_call w = w\<lparr>vw_calls := vw_calls w + 1\<rparr>"

text \<open>A call of the keyring: building the entry, or an operation on it.\<close>

definition keyring_call :: "vault_env \<Rightarrow> (vault_world, keyring_error, unit) step_op" where
  "keyring_call env w =
     (case ve_keyring_fault env (vw_calls w) of Some failure \<Rightarrow> Inl (KeyringFailure failure)
      | None \<Rightarrow> Inr (), next_call w)"

definition keyring_entry :: "vault_env \<Rightarrow> (vault_world, vault_error, unit) step_op" where
  "keyring_entry env = st_err (\<lambda>_. VE_Keyring) (keyring_call env)"

text \<open>\<open>get_secret\<close>, \<open>set_secret\<close> and \<open>delete_credential\<close> of the keyring.\<close>

definition get_secret :: "vault_env \<Rightarrow> (vault_world, keyring_error, string) step_op" where
  "get_secret env =
     st_bind (keyring_call env) (\<lambda>_ w. (ok_or NoEntry (vw_secret w), w))"

definition set_secret :: "vault_env \<Rightarrow> string \<Rightarrow> (vault_world, keyring_error, unit) step_op" where
  "set_secret env content =
     st_bind (keyring_call env) (\<lambda>_ w. (Inr (), w\<lparr>vw_secret := Some content\<rparr>))"

definition delete_credential :: "vault_env \<Rightarrow> (vault_world, keyring_error, unit) step_op" where
  "delete_credential env =
     st_bind (keyring_call env) (\<lambda>_ w.
       if vw_secret w = None then (Inl NoEntry, w) else (Inr (), w\<lparr>vw_secret := None\<rparr>))"

definition keyring_read :: "vault_env \<Rightarrow> (vault_world, vault_error, string option) step_op" where
  "keyring_read env =
     st_bind (keyring_entry env) (\<lambda>_ w.
       case get_secret env w of
         (Inr secret, w1) \<Rightarrow> (Inr (Some secret), w1)
       | (Inl NoEntry, w1) \<Rightarrow> (Inr None, w1)
       | (Inl (KeyringFailure NoStorageAccess), w1) \<Rightarrow> (Inl VE_KeyringUnavailable, w1)
       | (Inl (KeyringFailure OtherKeyringFailure), w1) \<Rightarrow> (Inl VE_Keyring, w1))"

definition keyring_write :: "vault_env \<Rightarrow> string \<Rightarrow> (vault_world, vault_error, unit) step_op" where
  "keyring_write env content =
     st_bind (keyring_entry env) (\<lambda>_. st_err (\<lambda>_. VE_Keyring) (set_secret env content))"

definition keyring_erase :: "vault_env \<Rightarrow> (vault_world, vault_error, unit) step_op" where
  "keyring_erase env =
     st_bind (keyring_entry env) (\<lambda>_ w.
       case delete_credential env w of
         (Inr _, w1) \<Rightarrow> (Inr (), w1)
       | (Inl NoEntry, w1) \<Rightarrow> (Inr (), w1)
       | (Inl _, w1) \<Rightarrow> (Inl VE_Keyring, w1))"

definition keyring_slot :: "vault_env \<Rightarrow> vault_world secret_slot" where
  "keyring_slot env = \<lparr>ss_read = keyring_read env, ss_write = keyring_write env, ss_erase = keyring_erase env\<rparr>"

text \<open>A system call on the key file that can only fail.\<close>

definition io_call :: "vault_env \<Rightarrow> (vault_world, vault_error, unit) step_op" where
  "io_call env w =
     (case ve_io_fault env (vw_calls w) of
        Some name \<Rightarrow> Inl (VE_File (IoKind name)) | None \<Rightarrow> Inr (), next_call w)"

definition require_owner_only :: "vault_env \<Rightarrow> key_file \<Rightarrow> vault_error + unit" where
  "require_owner_only env f =
     (if \<not> kf_regular f \<or> kf_mode f mod 64 \<noteq> 0 \<or> kf_owner f \<noteq> ve_euid env then Inl VE_UnsafeFile
      else Inr ())"

text \<open>Opening without following a symbolic link: the loop error, or the file if there is one.\<close>

definition open_key_file :: "vault_env \<Rightarrow> (vault_world, vault_error, key_file option) step_op" where
  "open_key_file env =
     st_bind (io_call env) (\<lambda>_ w.
       (case vw_file w of
          None \<Rightarrow> Inr None
        | Some f \<Rightarrow>
            if kf_symlink f then Inl (VE_File (IoKind ''filesystem loop or indirection limit (e.g. symlink loop)''))
            else Inr (Some f), w))"

definition file_read :: "vault_env \<Rightarrow> (vault_world, vault_error, string option) step_op" where
  "file_read env =
     st_bind (open_key_file env) (\<lambda>found.
       case found of
         None \<Rightarrow> st_result (Inr None)
       | Some f \<Rightarrow>
           st_bind (io_call env) (\<lambda>_.
           st_bind (st_result (require_owner_only env f)) (\<lambda>_.
           st_bind (io_call env) (\<lambda>_.
             st_result (Inr (Some (take SLOT_LIMIT (kf_content f))))))))"

definition set_temporary :: "key_file option \<Rightarrow> (vault_world, vault_error, unit) step_op" where
  "set_temporary f w = (Inr (), w\<lparr>vw_temporary := f\<rparr>)"

text \<open>The bytes go to the temporary file; a failed write leaves the first of them.\<close>

definition write_all :: "vault_env \<Rightarrow> key_file \<Rightarrow> string \<Rightarrow> (vault_world, vault_error, unit) step_op" where
  "write_all env f content w =
     (case io_call env w of
        (Inr _, w1) \<Rightarrow> (Inr (), w1\<lparr>vw_temporary := Some (f\<lparr>kf_content := content\<rparr>)\<rparr>)
      | (Inl err, w1) \<Rightarrow>
          (Inl err, w1\<lparr>vw_temporary := Some (f\<lparr>kf_content := take (ve_written env (vw_calls w)) content\<rparr>)\<rparr>))"

definition rename_temporary :: "(vault_world, vault_error, unit) step_op" where
  "rename_temporary w = (Inr (), w\<lparr>vw_file := vw_temporary w, vw_temporary := None\<rparr>)"

text \<open>
  Creating the directory, removing a left-over temporary file, creating it anew, setting and
  confirming its mode, writing, syncing, renaming, and syncing the directory.
\<close>

definition file_write :: "vault_env \<Rightarrow> string \<Rightarrow> (vault_world, vault_error, unit) step_op" where
  "file_write env content =
     (if take 1 content \<noteq> [TAG_WRAPPED] then st_result (Inl VE_PassphraseMandatory)
      else
        let f = \<lparr>kf_regular = True, kf_symlink = False, kf_owner = ve_file_owner env,
                 kf_mode = ve_file_mode env, kf_content = []\<rparr>
        in st_bind (io_call env) (\<lambda>_.
           st_bind (io_call env) (\<lambda>_.
           st_bind (set_temporary None) (\<lambda>_.
           st_bind (io_call env) (\<lambda>_.
           st_bind (set_temporary (Some f)) (\<lambda>_.
           st_bind (io_call env) (\<lambda>_.
           st_bind (io_call env) (\<lambda>_.
           st_bind (st_result (require_owner_only env f)) (\<lambda>_.
           if kf_mode f mod 512 \<noteq> 384 then st_result (Inl VE_UnsafeFile)
           else
             st_bind (write_all env f content) (\<lambda>_.
             st_bind (io_call env) (\<lambda>_.
             st_bind (io_call env) (\<lambda>_.
             st_bind rename_temporary (\<lambda>_.
               io_call env)))))))))))))"

definition file_erase :: "vault_env \<Rightarrow> (vault_world, vault_error, unit) step_op" where
  "file_erase env = st_bind (io_call env) (\<lambda>_ w. (Inr (), w\<lparr>vw_file := None\<rparr>))"

definition file_slot :: "vault_env \<Rightarrow> vault_world secret_slot" where
  "file_slot env = \<lparr>ss_read = file_read env, ss_write = file_write env, ss_erase = file_erase env\<rparr>"

definition system_slot :: "vault_env \<Rightarrow> slot_kind \<Rightarrow> vault_world secret_slot" where
  "system_slot env kind = (case kind of SlotKeyring \<Rightarrow> keyring_slot env | SlotFile \<Rightarrow> file_slot env)"

definition vault_with_slot :: "'w secret_slot \<Rightarrow> slot_kind \<Rightarrow> kdf_params \<Rightarrow> 'w vault" where
  "vault_with_slot slot kind params = \<lparr>vt_slot = slot, vt_kind = kind, vt_params = params\<rparr>"

text \<open>\<open>reachable\<close>: whether the system's credential store opens.\<close>

definition vault_open :: "vault_env \<Rightarrow> bool \<Rightarrow> backend_choice \<Rightarrow> vault_error + vault_world vault" where
  "vault_open env reachable choice =
     rbind (case choice of
        BackendKeyring \<Rightarrow> if reachable then Inr SlotKeyring else Inl VE_KeyringUnavailable
      | BackendFile \<Rightarrow> Inr SlotFile
      | BackendAuto \<Rightarrow> Inr (if reachable then SlotKeyring else SlotFile))
       (\<lambda>kind. Inr (vault_with_slot (system_slot env kind) kind default_params))"

end
