(* ===== verification/Vault_Props.thy ===== *)
theory Vault_Props
  imports Vault
begin

text \<open>
  What the vault promises over either slot: a key that is there is never replaced by a new one,
  a created key is the key the slot opens to, the key file is replaced as a whole or not at
  all, and a protection is replaced without looking at the stored key. The contract that the
  vault relies on is the locale \<open>root_slot\<close>; the keyring and the key file are its instances.
\<close>

section \<open>Steps\<close>

lemma st_result_iff [simp]: "st_result r w = (q, w') \<longleftrightarrow> r = q \<and> w' = w"
  by (auto simp: st_result_def)

lemma st_bind_cases:
  assumes "st_bind m f w = (r, w')"
  obtains (first) err where "m w = (Inl err, w')" "r = Inl err"
  | (second) a w1 where "m w = (Inr a, w1)" "f a w1 = (r, w')"
  using assms by (cases "m w") (auto simp: st_bind_def split: sum.splits)

lemma st_err_iff: "st_err g m w = (r, w') \<longleftrightarrow> (\<exists>q. m w = (q, w') \<and> r = map_err g q)"
  by (cases "m w") (auto simp: st_err_def)

text \<open>A step that leaves something of the world as it is.\<close>

definition leaves :: "('w \<Rightarrow> 'b) \<Rightarrow> ('w, 'e, 'a) step_op \<Rightarrow> bool" where
  "leaves look m \<longleftrightarrow> (\<forall>w. look (snd (m w)) = look w)"

lemma leavesD: "leaves look m \<Longrightarrow> m w = (r, w') \<Longrightarrow> look w' = look w"
  unfolding leaves_def by (metis snd_conv)

lemma step_leaves_bind:
  assumes "leaves look m" "\<And>a. leaves look (f a)"
  shows "leaves look (st_bind m f)"
  unfolding leaves_def
proof
  fix w
  obtain r w' where run: "st_bind m f w = (r, w')" by fastforce
  then have "look w' = look w"
    by (rule st_bind_cases) (metis assms leavesD)+
  with run show "look (snd (st_bind m f w)) = look w" by simp
qed

lemma step_leaves_result: "leaves look (st_result r)"
  by (simp add: leaves_def st_result_def)

lemma step_leaves_err: "leaves look m \<Longrightarrow> leaves look (st_err g m)"
  by (simp add: leaves_def st_err_def)

section \<open>The contract of a slot\<close>

text \<open>
  A read returns what the slot holds and changes nothing; a write that fails leaves the old
  content or the new one, never a part of either. A slot \<open>takes\<close> some contents only, and what is
  \<open>kept\<close> of one is what a read returns.
\<close>

locale root_slot =
  fixes slot :: "'w secret_slot" and holds :: "'w \<Rightarrow> string option" and takes :: "string \<Rightarrow> bool"
    and kept :: "string \<Rightarrow> string"
  assumes read_ok: "ss_read slot w = (Inr found, w') \<Longrightarrow> found = holds w"
    and read_keeps: "leaves holds (ss_read slot)"
    and write_ok: "ss_write slot content w = (Inr u, w') \<Longrightarrow> takes content \<and> holds w' = Some (kept content)"
    and write_fails: "ss_write slot content w = (Inl err, w') \<Longrightarrow>
          holds w' = holds w \<or> takes content \<and> holds w' = Some (kept content)"
    and erase_ok: "ss_erase slot w = (Inr u, w') \<Longrightarrow> holds w' = None"
begin

lemma unlock_run:
  assumes "vault_unlock cr (vault_with_slot slot kind params) passphrase w = (r, w')"
  shows "holds w' = holds w"
    and "r = Inr root \<Longrightarrow> \<exists>content. holds w = Some content \<and> open_content cr passphrase content = Inr root"
    and "holds w = Some content \<Longrightarrow> open_content cr passphrase content = Inr root \<Longrightarrow>
      r = Inr root \<or> (\<exists>err. ss_read slot w = (Inl err, w') \<and> r = Inl err)"
  using assms unfolding vault_unlock_def vault_with_slot_def
  by (auto elim!: st_bind_cases dest: leavesD [OF read_keeps] read_ok split: option.splits)

lemma state_run:
  assumes "vault_state_of (vault_with_slot slot kind params) w = (r, w')"
  shows "holds w' = holds w" and "r = Inr VaultEmpty \<Longrightarrow> holds w = None"
proof -
  obtain found where read: "ss_read slot w = (found, w')"
    and r: "r = Inr VaultEmpty \<Longrightarrow> found = Inr None"
  proof (rule st_bind_cases [OF assms [unfolded vault_state_of_def vault_with_slot_def]], goal_cases)
    case (1 err)
    then show ?case using that by simp
  next
    case (2 found w1)
    moreover have "judge_content c \<noteq> Inr VaultEmpty" for c
      by (auto simp: judge_content_def split: list.splits)
    ultimately show ?case using that by (auto split: option.splits)
  qed
  then show "holds w' = holds w" "r = Inr VaultEmpty \<Longrightarrow> holds w = None"
    using leavesD [OF read_keeps read] read_ok by auto
qed

text \<open>Creating over a key changes nothing; over nothing it stores a key that the slot opens to.\<close>

lemma create_run:
  assumes run: "vault_create cr (vault_with_slot slot kind params) fl passphrase w = (r, w')"
  shows "holds w' = holds w \<and> \<not> is_ok r \<or>
    holds w = None \<and> (kind = SlotFile \<longrightarrow> passphrase \<noteq> None)
    \<and> (\<exists>root content. vault_encode cr (vault_with_slot slot kind params) fl root passphrase = Inr content
        \<and> takes content \<and> holds w' = Some (kept content))
    \<and> (\<forall>root. r = Inr root \<longrightarrow>
        (\<exists>content. holds w' = Some content \<and> open_content cr passphrase content = Inr root))"
  (is "?unchanged \<or> ?stored")
proof -
  let ?v = "vault_with_slot slot kind params"
  have parts: "vt_slot ?v = slot" "vt_kind ?v = kind" by (simp_all add: vault_with_slot_def)
  from run show ?thesis
    unfolding vault_create_def parts
  proof (cases rule: st_bind_cases)
    case (first err)
    with state_run(1) show ?thesis by force
  next
    case (second state w1)
    note w1 = state_run(1) [OF second(1)]
    show ?thesis
    proof (cases "state = VaultEmpty \<and> (kind = SlotFile \<longrightarrow> passphrase \<noteq> None)")
      case False
      then show ?thesis using second w1 by (auto split: if_splits)
    next
      case True
      then have none: "holds w = None" using state_run(2) second(1) by blast
      from second(2) True have "st_bind (st_result (map_err vault_key_error (root_key_generate (fl_root fl)))) (\<lambda>root.
        st_bind (st_result (vault_encode cr ?v fl root passphrase)) (\<lambda>content.
        st_bind (ss_write slot content) (\<lambda>_. st_bind (vault_unlock cr ?v passphrase) (\<lambda>reopened.
          if root_bytes reopened \<noteq> root_bytes root then st_result (Inl VE_Malformed)
          else st_result (Inr root))))) w1 = (r, w')" by auto
      then show ?thesis
      proof (elim st_bind_cases, goal_cases)
        case (3 root w2 content w3 err)
        then show ?case using write_fails [OF 3(3)] w1 none True by auto
      next
        case (4 root w2 content w3 u w4 err)
        have "holds w' = holds w4" using unlock_run(1) 4(4) .
        then show ?case using 4 write_ok [OF 4(3)] none True by auto
      next
        case (5 root w2 content w3 u w4 reopened w5)
        have w5: "holds w' = holds w5" "holds w5 = holds w4"
          using 5(5) unlock_run(1) [OF 5(4)] by (auto split: if_splits)
        obtain stored where stored: "holds w' = Some stored" "open_content cr passphrase stored = Inr reopened"
          using unlock_run(1,2) [OF 5(4)] w5 by auto
        have "reopened = root" if "r = Inr k" for k
          using 5(5) that by (cases reopened; cases root) (auto split: if_splits)
        moreover have "r = Inr root" if "r = Inr k" for k using 5(5) that by (auto split: if_splits)
        ultimately have "\<forall>k. r = Inr k \<longrightarrow> (\<exists>c. holds w' = Some c \<and> open_content cr passphrase c = Inr k)"
          using stored by metis
        moreover have "vault_encode cr ?v fl root passphrase = Inr content" using 5(2) by simp
        moreover have "takes content" "holds w' = Some (kept content)"
          using write_ok [OF 5(3)] w5 by simp_all
        ultimately show ?case using none True by blast
      qed (use w1 in auto)
    qed
  qed
qed

lemma reprotect_run:
  assumes "vault_reprotect cr (vault_with_slot slot kind params) fl root passphrase w = (r, w')"
  shows "r = Inr () \<Longrightarrow> \<exists>content. vault_encode cr (vault_with_slot slot kind params) fl root passphrase = Inr content
      \<and> holds w' = Some (kept content)"
    and "r = Inl err \<Longrightarrow> holds w' = holds w \<or> (\<exists>content.
      vault_encode cr (vault_with_slot slot kind params) fl root passphrase = Inr content
      \<and> holds w' = Some (kept content))"
  using assms unfolding vault_reprotect_def
  by (auto simp: vault_with_slot_def split: if_splits elim!: st_bind_cases dest: write_ok write_fails)

end

section \<open>The slots\<close>

lemma keyring_call_leaves: "leaves vw_secret (keyring_call env)"
  by (simp add: leaves_def keyring_call_def next_call_def)

lemma keyring_call_secret: "keyring_call env w = (r, w') \<Longrightarrow> vw_secret w' = vw_secret w"
  using leavesD [OF keyring_call_leaves] .

lemma keyring_entry_secret: "keyring_entry env w = (r, w') \<Longrightarrow> vw_secret w' = vw_secret w"
  unfolding keyring_entry_def using leavesD [OF step_leaves_err [OF keyring_call_leaves]] .

lemma keyring_call_failure: "keyring_call env w = (Inl err, w') \<Longrightarrow> err \<noteq> NoEntry"
  by (auto simp: keyring_call_def split: option.splits)

lemma get_secret_run:
  "get_secret env w = (r, w') \<Longrightarrow> vw_secret w' = vw_secret w
    \<and> (\<forall>s. r = Inr s \<longrightarrow> vw_secret w = Some s) \<and> (r = Inl NoEntry \<longrightarrow> vw_secret w = None)"
  unfolding get_secret_def
  by (erule st_bind_cases; cases "vw_secret w'") (auto dest: keyring_call_failure keyring_call_secret)

lemma keyring_read_run:
  assumes "keyring_read env w = (r, w')"
  shows "vw_secret w' = vw_secret w \<and> (\<forall>found. r = Inr found \<longrightarrow> found = vw_secret w)"
  using assms unfolding keyring_read_def
proof (cases rule: st_bind_cases)
  case (first err)
  then show ?thesis by (auto dest: keyring_entry_secret)
next
  case (second u w1)
  obtain q w2 where "get_secret env w1 = (q, w2)" by fastforce
  with second get_secret_run [OF this] keyring_entry_secret [OF second(1)] show ?thesis
    by (auto split: sum.splits keyring_error.splits keyring_failure.splits)
qed

lemma keyring_write_run:
  "keyring_write env content w = (r, w') \<Longrightarrow>
    vw_secret w' = (case r of Inr _ \<Rightarrow> Some content | Inl _ \<Rightarrow> vw_secret w)"
  unfolding keyring_write_def set_secret_def
  by (auto elim!: st_bind_cases simp: st_err_iff dest!: keyring_entry_secret keyring_call_secret)

lemma keyring_erase_run:
  assumes "keyring_erase env w = (Inr u, w')"
  shows "vw_secret w' = None"
  using assms unfolding keyring_erase_def delete_credential_def
  by (auto elim!: st_bind_cases dest!: keyring_call_failure
      split: prod.splits sum.splits keyring_error.splits if_splits)

interpretation keyring: root_slot "keyring_slot env" vw_secret "\<lambda>_. True" id for env
proof
  fix w w' :: vault_world and found content u err
  show "leaves vw_secret (ss_read (keyring_slot env))"
    unfolding leaves_def keyring_slot_def secret_slot.select_convs
    using keyring_read_run by (metis prod.collapse)
  show "ss_read (keyring_slot env) w = (Inr found, w') \<Longrightarrow> found = vw_secret w"
    using keyring_read_run by (simp add: keyring_slot_def)
  show "ss_write (keyring_slot env) content w = (Inr u, w') \<Longrightarrow> True \<and> vw_secret w' = Some (id content)"
    using keyring_write_run by (fastforce simp: keyring_slot_def)
  show "ss_write (keyring_slot env) content w = (Inl err, w') \<Longrightarrow>
      vw_secret w' = vw_secret w \<or> True \<and> vw_secret w' = Some (id content)"
    using keyring_write_run by (fastforce simp: keyring_slot_def)
  show "ss_erase (keyring_slot env) w = (Inr u, w') \<Longrightarrow> vw_secret w' = None"
    using keyring_erase_run by (simp add: keyring_slot_def)
qed

lemma io_call_frame:
  "io_call env w = (r, w') \<Longrightarrow> vw_file w' = vw_file w \<and> vw_temporary w' = vw_temporary w"
  by (auto simp: io_call_def next_call_def)

lemma set_temporary_iff [simp]:
  "set_temporary f w = (r, w') \<longleftrightarrow> r = Inr () \<and> w' = w\<lparr>vw_temporary := f\<rparr>"
  by (auto simp: set_temporary_def)

lemma rename_temporary_iff [simp]:
  "rename_temporary w = (r, w') \<longleftrightarrow> r = Inr () \<and> w' = w\<lparr>vw_file := vw_temporary w, vw_temporary := None\<rparr>"
  by (auto simp: rename_temporary_def)

lemma write_all_run:
  "write_all env f content w = (r, w') \<Longrightarrow> vw_file w' = vw_file w
    \<and> (is_ok r \<longrightarrow> vw_temporary w' = Some (f\<lparr>kf_content := content\<rparr>))"
  by (auto simp: write_all_def dest!: io_call_frame split: prod.splits sum.splits)

text \<open>
  The key file is replaced as a whole: by an owner-only regular file with the complete content,
  or not at all.
\<close>

definition complete_file :: "vault_env \<Rightarrow> string \<Rightarrow> key_file \<Rightarrow> bool" where
  "complete_file env content f \<longleftrightarrow> kf_content f = content \<and> kf_regular f \<and> \<not> kf_symlink f
     \<and> kf_owner f = ve_euid env \<and> kf_mode f mod 512 = 384"

lemma file_write_run:
  assumes "file_write env content w = (r, w')"
  shows "vw_file w' = vw_file w \<and> \<not> is_ok r
    \<or> (\<exists>f. vw_file w' = Some f \<and> complete_file env content f) \<and> vw_temporary w' = None
      \<and> take 1 content = [TAG_WRAPPED]"
  using assms unfolding file_write_def Let_def
  by (auto elim!: st_bind_cases split: if_splits dest!: io_call_frame write_all_run
      simp: complete_file_def require_owner_only_def)

lemma open_key_file_run:
  "open_key_file env w = (r, w') \<Longrightarrow> vw_file w' = vw_file w
    \<and> (\<forall>found. r = Inr found \<longrightarrow> found = vw_file w)"
  unfolding open_key_file_def
  by (auto elim!: st_bind_cases dest!: io_call_frame split: option.splits if_splits)

lemma file_read_run:
  "file_read env w = (r, w') \<Longrightarrow> vw_file w' = vw_file w
    \<and> (\<forall>found. r = Inr found \<longrightarrow> found = map_option (\<lambda>f. take SLOT_LIMIT (kf_content f)) (vw_file w))"
  unfolding file_read_def
  by (auto elim!: st_bind_cases dest!: io_call_frame open_key_file_run split: option.splits)

definition file_content :: "vault_world \<Rightarrow> string option" where
  "file_content w = map_option (\<lambda>f. take SLOT_LIMIT (kf_content f)) (vw_file w)"

interpretation key_file: root_slot "file_slot env" file_content "\<lambda>c. take 1 c = [TAG_WRAPPED]" "take SLOT_LIMIT" for env
proof
  fix w w' :: vault_world and found content u err
  show "leaves file_content (ss_read (file_slot env))"
    unfolding leaves_def file_slot_def secret_slot.select_convs file_content_def
    using file_read_run by (metis prod.collapse)
  show "ss_read (file_slot env) w = (Inr found, w') \<Longrightarrow> found = file_content w"
    using file_read_run by (simp add: file_slot_def file_content_def)
  show "ss_write (file_slot env) content w = (Inr u, w') \<Longrightarrow>
      take 1 content = [TAG_WRAPPED] \<and> file_content w' = Some (take SLOT_LIMIT content)"
    using file_write_run by (fastforce simp: file_slot_def file_content_def complete_file_def)
  show "ss_write (file_slot env) content w = (Inl err, w') \<Longrightarrow>
      file_content w' = file_content w \<or>
      take 1 content = [TAG_WRAPPED] \<and> file_content w' = Some (take SLOT_LIMIT content)"
    using file_write_run by (fastforce simp: file_slot_def file_content_def complete_file_def)
  show "ss_erase (file_slot env) w = (Inr u, w') \<Longrightarrow> file_content w' = None"
    by (auto simp: file_slot_def file_erase_def file_content_def elim!: st_bind_cases)
qed

section \<open>The vault of the system\<close>

definition slot_content :: "slot_kind \<Rightarrow> vault_world \<Rightarrow> string option" where
  "slot_content kind w = (case kind of SlotKeyring \<Rightarrow> vw_secret w | SlotFile \<Rightarrow> file_content w)"

definition system_vault :: "vault_env \<Rightarrow> slot_kind \<Rightarrow> kdf_params \<Rightarrow> vault_world vault" where
  "system_vault env kind params = vault_with_slot (system_slot env kind) kind params"

lemma vault_open_system:
  "vault_open env reachable choice = Inr v \<Longrightarrow> \<exists>kind. v = system_vault env kind default_params"
  by (auto simp: vault_open_def system_vault_def rbind_Inr)

text \<open>Both slots at once.\<close>

definition slot_takes :: "slot_kind \<Rightarrow> string \<Rightarrow> bool" where
  "slot_takes kind c \<longleftrightarrow> kind = SlotKeyring \<or> take 1 c = [TAG_WRAPPED]"

definition slot_keeps :: "slot_kind \<Rightarrow> string \<Rightarrow> string" where
  "slot_keeps kind = (case kind of SlotKeyring \<Rightarrow> id | SlotFile \<Rightarrow> take SLOT_LIMIT)"

interpretation sys: root_slot "system_slot env kind" "slot_content kind" "slot_takes kind" "slot_keeps kind"
  for env kind
proof (cases kind)
  case SlotKeyring
  then have "slot_content kind = vw_secret" "slot_takes kind = (\<lambda>_. True)" "slot_keeps kind = id"
    "system_slot env kind = keyring_slot env"
    by (auto simp: slot_content_def slot_takes_def slot_keeps_def system_slot_def)
  then show "root_slot (system_slot env kind) (slot_content kind) (slot_takes kind) (slot_keeps kind)"
    using keyring.root_slot_axioms by simp
next
  case SlotFile
  then have "slot_content kind = file_content" "slot_takes kind = (\<lambda>c. take 1 c = [TAG_WRAPPED])"
    "slot_keeps kind = take SLOT_LIMIT" "system_slot env kind = file_slot env"
    by (auto simp: slot_content_def slot_takes_def slot_keeps_def system_slot_def)
  then show "root_slot (system_slot env kind) (slot_content kind) (slot_takes kind) (slot_keeps kind)"
    using key_file.root_slot_axioms by simp
qed

text \<open>
  C12. Creating a root key never costs one. Over a slot that holds anything, a sound key or not,
  it is refused and leaves the slot as it was, whatever call of the keyring or the file system
  fails; what it stores in the key file is wrapped, never plain. When it succeeds, the slot was
  empty, and from then on unlocking with the same passphrase gives exactly the created key as
  long as the slot can be read.
\<close>

theorem creating_never_replaces_a_key:
  "case vault_create cr (system_vault env kind params) fl passphrase w of (r, w') \<Rightarrow>
     (slot_content kind w \<noteq> None \<longrightarrow> slot_content kind w' = slot_content kind w \<and> \<not> is_ok r)
     \<and> (kind = SlotFile \<longrightarrow> slot_content kind w' = slot_content kind w
          \<or> (\<exists>wrapped. slot_content kind w' = Some (TAG_WRAPPED # wrapped)))
     \<and> (\<forall>root. r = Inr root \<longrightarrow>
          (case vault_unlock cr (system_vault env kind params) passphrase w' of (q, w1) \<Rightarrow>
             slot_content kind w1 = slot_content kind w'
             \<and> (q = Inr root \<or> (\<exists>err. ss_read (system_slot env kind) w' = (Inl err, w1) \<and> q = Inl err))))"
proof -
  obtain r w' where run: "vault_create cr (system_vault env kind params) fl passphrase w = (r, w')" by fastforce
  have wrapped: "\<exists>rest. slot_keeps SlotFile c = TAG_WRAPPED # rest" if "slot_takes SlotFile c" for c
    using that by (cases c) (auto simp: slot_keeps_def slot_takes_def SLOT_LIMIT_def take_Cons')
  have unlocks: "case vault_unlock cr (system_vault env kind params) passphrase w' of (q, w1) \<Rightarrow>
      slot_content kind w1 = slot_content kind w'
      \<and> (q = Inr root \<or> (\<exists>err. ss_read (system_slot env kind) w' = (Inl err, w1) \<and> q = Inl err))"
    if "slot_content kind w' = Some content" "open_content cr passphrase content = Inr root" for content root
  proof -
    obtain q w1 where "vault_unlock cr (system_vault env kind params) passphrase w' = (q, w1)" by fastforce
    with sys.unlock_run(1,3) [OF this [unfolded system_vault_def]] that show ?thesis by auto
  qed
  from sys.create_run [OF run [unfolded system_vault_def]] show ?thesis
  proof (elim disjE)
    assume "slot_content kind w' = slot_content kind w \<and> \<not> is_ok r"
    then show ?thesis by (auto simp: run)
  next
    assume stored: "slot_content kind w = None \<and> (kind = SlotFile \<longrightarrow> passphrase \<noteq> None)
      \<and> (\<exists>root content. vault_encode cr (vault_with_slot (system_slot env kind) kind params) fl root passphrase
            = Inr content
          \<and> slot_takes kind content \<and> slot_content kind w' = Some (slot_keeps kind content))
      \<and> (\<forall>root. r = Inr root \<longrightarrow>
          (\<exists>content. slot_content kind w' = Some content \<and> open_content cr passphrase content = Inr root))"
    then have "kind = SlotFile \<longrightarrow> (\<exists>rest. slot_content kind w' = Some (TAG_WRAPPED # rest))"
      using wrapped by auto
    moreover have "\<not> slot_content kind w \<noteq> None" using stored by simp
    moreover have "case vault_unlock cr (system_vault env kind params) passphrase w' of (q, w1) \<Rightarrow>
        slot_content kind w1 = slot_content kind w'
        \<and> (q = Inr root \<or> (\<exists>err. ss_read (system_slot env kind) w' = (Inl err, w1) \<and> q = Inl err))"
      if "r = Inr root" for root
    proof -
      from stored that obtain content where "slot_content kind w' = Some content"
        "open_content cr passphrase content = Inr root" by blast
      then show ?thesis by (rule unlocks)
    qed
    ultimately show ?thesis unfolding run prod.case by (intro conjI allI impI) simp_all
  qed
qed

definition quiet_vault :: vault_env where
  "quiet_vault = \<lparr>ve_keyring_fault = (\<lambda>_. None), ve_io_fault = (\<lambda>_. None), ve_euid = 501,
     ve_file_owner = 501, ve_file_mode = 384, ve_written = (\<lambda>_. 0)\<rparr>"

definition empty_vault :: vault_world where
  "empty_vault = \<lparr>vw_secret = None, vw_file = None, vw_temporary = None, vw_calls = 0\<rparr>"

definition sample_fills :: fills where
  "sample_fills = \<lparr>fl_root = Some (replicate 32 CHR ''r''), fl_salt = Some (replicate 16 CHR ''s''),
     fl_nonce = Some (replicate 24 CHR ''n'')\<rparr>"

text \<open>A created key in the key file: unlocking it again, and a second creation that is refused.\<close>

theorem creating_never_replaces_a_key_witness:
  "\<exists>w' w1. vault_create sample_crypto (system_vault quiet_vault SlotFile default_params) sample_fills
      (Some ''pass'') empty_vault = (Inr sample_root, w')
    \<and> vault_unlock sample_crypto (system_vault quiet_vault SlotFile default_params) (Some ''pass'') w'
      = (Inr sample_root, w1)
    \<and> slot_content SlotFile w1 = slot_content SlotFile w'"
proof -
  let ?v = "system_vault quiet_vault SlotFile default_params"
  let ?run = "vault_create sample_crypto ?v sample_fills (Some ''pass'') empty_vault"
  have "fst ?run = Inr sample_root" "is_ok (fst (ss_read (system_slot quiet_vault SlotFile) (snd ?run)))"
    by code_simp+
  then obtain w' where run: "?run = (Inr sample_root, w')"
    and "is_ok (fst (ss_read (system_slot quiet_vault SlotFile) w'))"
    by (cases ?run) simp
  then have read: "ss_read (system_slot quiet_vault SlotFile) w' \<noteq> (Inl err, w1)" for err w1 by auto
  obtain q w1 where unlock: "vault_unlock sample_crypto ?v (Some ''pass'') w' = (q, w1)" by fastforce
  have "slot_content SlotFile w1 = slot_content SlotFile w' \<and> q = Inr sample_root"
    using creating_never_replaces_a_key [where cr = sample_crypto and env = quiet_vault
        and kind = SlotFile and params = default_params and fl = sample_fills
        and passphrase = "Some ''pass''" and w = empty_vault]
    unfolding run prod.case by (simp add: unlock read)
  with run unlock show ?thesis by blast
qed

text \<open>
  C35. Changing the protection does not look at the stored key, although its documentation says
  that it confirms the key first: over a working keyring it succeeds for any root key and
  whatever the slot holds, another installation's key or none, and from then on that root key
  is the one that unlocks. A caller that passes a wrong key loses the stored one.
\<close>

theorem reprotect_replaces_any_key:
  assumes "\<And>n. ve_keyring_fault env n = None" and "length (root_bytes root) = KEY_LEN"
  shows "case vault_reprotect cr (system_vault env SlotKeyring params) fl root None w of (r, w') \<Rightarrow>
      r = Inr () \<and> fst (vault_unlock cr (system_vault env SlotKeyring params) passphrase w') = Inr root"
  using assms
  by (cases root)
    (simp add: vault_reprotect_def vault_unlock_def system_vault_def vault_with_slot_def system_slot_def
      keyring_slot_def keyring_write_def keyring_read_def keyring_entry_def set_secret_def get_secret_def
      keyring_call_def next_call_def st_bind_def st_result_def st_err_def vault_encode_def open_content_def)

theorem reprotect_replaces_any_key_witness:
  "case vault_create sample_crypto (system_vault quiet_vault SlotKeyring default_params) sample_fills None
      empty_vault of (created, w) \<Rightarrow>
    (case vault_reprotect sample_crypto (system_vault quiet_vault SlotKeyring default_params) sample_fills
        (RootKey (replicate 32 CHR ''x'')) None w of (r, w') \<Rightarrow>
      created = Inr sample_root \<and> r = Inr ()
      \<and> fst (vault_unlock sample_crypto (system_vault quiet_vault SlotKeyring default_params) None w')
        = Inr (RootKey (replicate 32 CHR ''x'')))"
proof -
  let ?v = "system_vault quiet_vault SlotKeyring default_params"
  have "fst (vault_create sample_crypto ?v sample_fills None empty_vault) = Inr sample_root" by code_simp
  then show ?thesis
    using reprotect_replaces_any_key [where env = quiet_vault and root = "RootKey (replicate 32 CHR ''x'')"
        and cr = sample_crypto and params = default_params and fl = sample_fills and passphrase = None
        and w = "snd (vault_create sample_crypto ?v sample_fills None empty_vault)"]
    by (auto simp: quiet_vault_def KEY_LEN_def split: prod.splits)
qed

end
