(* ===== verification/Mailbox_Search.thy ===== *)
theory Mailbox_Search
  imports App_Mailbox
begin

text \<open>
  The metadata-only projections of \<^verbatim>\<open>crates/application/src/mailbox_metadata.rs\<close> and the search
  over them (\<^verbatim>\<open>crates/application/src/mailbox_search.rs\<close>). The reader is a function on an
  explicit world.
\<close>

section \<open>Metadata documents\<close>

definition MAILBOX_METADATA_SCHEMA_VERSION :: nat where "MAILBOX_METADATA_SCHEMA_VERSION = 1"

datatype mailbox_metadata_command = InboxMetadata | ThreadMetadata

fun metadata_command_str :: "mailbox_metadata_command \<Rightarrow> string" where
  "metadata_command_str InboxMetadata = ''inbox''"
| "metadata_command_str ThreadMetadata = ''thread''"

record metadata_message =
  mm_message_id :: message_id
  mm_thread_id :: thread_id
  mm_from :: header_text
  mm_subject :: header_text
  mm_preview :: header_text
  mm_received_at :: unix_timestamp_millis
  mm_unread :: bool

definition metadata_from_envelope :: "message_envelope \<Rightarrow> metadata_message" where
  "metadata_from_envelope e =
     \<lparr>mm_message_id = env_message_id e, mm_thread_id = env_thread_id e, mm_from = env_from e,
      mm_subject = env_subject e, mm_preview = env_preview e, mm_received_at = env_received_at e,
      mm_unread = env_unread e\<rparr>"

record metadata_document =
  md_command :: mailbox_metadata_command
  md_account_id :: account_id
  md_limit :: store_limit
  md_messages :: "metadata_message list"

definition metadata_document_new ::
    "mailbox_metadata_command \<Rightarrow> account_id \<Rightarrow> store_limit \<Rightarrow> message_envelope list \<Rightarrow> metadata_document" where
  "metadata_document_new command account limit envelopes =
     \<lparr>md_command = command, md_account_id = account, md_limit = limit,
      md_messages = map metadata_from_envelope envelopes\<rparr>"

type_synonym 'w lister = "account_id \<Rightarrow> store_limit \<Rightarrow> 'w \<Rightarrow> (mailbox_store_error + message_envelope list) \<times> 'w"

definition inbox_metadata ::
    "'w lister \<Rightarrow> account_id \<Rightarrow> store_limit \<Rightarrow> 'w \<Rightarrow> (mailbox_store_error + metadata_document) \<times> 'w" where
  "inbox_metadata list_envelopes account limit w =
     apfst (map_ok (metadata_document_new InboxMetadata account limit)) (list_envelopes account limit w)"

definition thread_metadata ::
    "(account_id \<Rightarrow> thread_id \<Rightarrow> store_limit \<Rightarrow> 'w \<Rightarrow> (mailbox_store_error + message_envelope list) \<times> 'w)
      \<Rightarrow> account_id \<Rightarrow> thread_id \<Rightarrow> store_limit \<Rightarrow> 'w \<Rightarrow> (mailbox_store_error + metadata_document) \<times> 'w" where
  "thread_metadata thread_envelopes account thread limit w =
     apfst (map_ok (metadata_document_new ThreadMetadata account limit))
       (thread_envelopes account thread limit w)"

section \<open>Search\<close>

definition MAX_QUERY_LEN :: nat where "MAX_QUERY_LEN = 256"

datatype search_query_error = SQ_Empty | SQ_TooLong nat nat | SQ_InvalidCharacter

fun search_query_error_text :: "search_query_error \<Rightarrow> string" where
  "search_query_error_text SQ_Empty = ''the search query must not be empty''"
| "search_query_error_text (SQ_TooLong _ _) = ''the search query exceeds its maximum length''"
| "search_query_error_text SQ_InvalidCharacter = ''the search query contains an invalid character''"

datatype search_query = SearchQuery (query_str: string)

definition search_query_new :: "string \<Rightarrow> search_query_error + search_query" where
  "search_query_new value =
     (if value = [] then Inl SQ_Empty
      else if length value > MAX_QUERY_LEN then Inl (SQ_TooLong (length value) MAX_QUERY_LEN)
      else if any_control value then Inl SQ_InvalidCharacter
      else Inr (SearchQuery value))"

record search_document =
  sd_account_id :: account_id
  sd_query :: search_query
  sd_limit :: store_limit
  sd_messages :: "metadata_message list"

definition search_document_new ::
    "account_id \<Rightarrow> search_query \<Rightarrow> store_limit \<Rightarrow> message_envelope list \<Rightarrow> search_document" where
  "search_document_new account query limit envelopes =
     \<lparr>sd_account_id = account, sd_query = query, sd_limit = limit,
      sd_messages = map metadata_from_envelope envelopes\<rparr>"

text \<open>\<open>StoreLimit::new\<close> of its maximum, whose unwrapping cannot panic.\<close>

definition full_scan_limit :: store_limit where
  "full_scan_limit = StoreLimit STORE_LIMIT_MAX"

lemma full_scan_limit_valid: "store_limit_new STORE_LIMIT_MAX = Inr full_scan_limit"
  by code_simp

text \<open>\<open>slice::windows\<close> of a positive size; a size of zero panics in the code.\<close>

definition windows :: "nat \<Rightarrow> 'a list \<Rightarrow> 'a list list" where
  "windows n xs = map (\<lambda>i. take n (drop i xs)) [0..<length xs + 1 - n]"

definition contains_ascii_case_insensitive :: "string \<Rightarrow> string \<Rightarrow> bool" where
  "contains_ascii_case_insensitive txt query =
     list_ex (\<lambda>window. eq_ignore_ascii_case window query) (windows (length query) txt)"

definition matches_query :: "message_envelope \<Rightarrow> string \<Rightarrow> bool" where
  "matches_query envelope query \<longleftrightarrow>
     contains_ascii_case_insensitive (header_str (env_from envelope)) query
     \<or> contains_ascii_case_insensitive (header_str (env_subject envelope)) query"

definition search_metadata ::
    "'w lister \<Rightarrow> account_id \<Rightarrow> search_query \<Rightarrow> store_limit \<Rightarrow> 'w
      \<Rightarrow> (mailbox_store_error + search_document) \<times> 'w" where
  "search_metadata list_envelopes account query limit w =
     apfst (map_ok (\<lambda>envelopes.
         let matched = filter (\<lambda>e. matches_query e (query_str query)) envelopes
         in search_document_new account query limit (take (store_limit_get limit) matched)))
       (list_envelopes account full_scan_limit w)"

section \<open>What a search finds\<close>

definition folded :: "string \<Rightarrow> string" where
  "folded = map to_ascii_lower"

lemma list_ex_windows:
  "list_ex p (windows n xs) \<longleftrightarrow> (\<exists>us ys vs. xs = us @ ys @ vs \<and> length ys = n \<and> p ys)"
proof
  assume "list_ex p (windows n xs)"
  then obtain i where i: "i < length xs + 1 - n" "p (take n (drop i xs))"
    by (auto simp: windows_def list_ex_iff)
  have "xs = take i xs @ take n (drop i xs) @ drop n (drop i xs)" by (metis append_take_drop_id)
  moreover have "length (take n (drop i xs)) = n" using i(1) by simp
  ultimately show "\<exists>us ys vs. xs = us @ ys @ vs \<and> length ys = n \<and> p ys" using i(2) by blast
next
  assume "\<exists>us ys vs. xs = us @ ys @ vs \<and> length ys = n \<and> p ys"
  then obtain us ys vs where s: "xs = us @ ys @ vs" "length ys = n" "p ys" by blast
  then have "length us < length xs + 1 - n" "take n (drop (length us) xs) = ys" by simp_all
  with s(3) show "list_ex p (windows n xs)" by (force simp: windows_def list_ex_iff)
qed

lemma contains_folded: "contains_ascii_case_insensitive txt query \<longleftrightarrow> sublist (folded query) (folded txt)"
proof
  assume "contains_ascii_case_insensitive txt query"
  then obtain us ys vs where "txt = us @ ys @ vs" "folded ys = folded query"
    by (auto simp: contains_ascii_case_insensitive_def list_ex_windows eq_ignore_ascii_case_def folded_def)
  then have "folded txt = folded us @ folded query @ folded vs" by (simp add: folded_def)
  then show "sublist (folded query) (folded txt)" unfolding sublist_def by blast
next
  assume "sublist (folded query) (folded txt)"
  then obtain ps ss where parts: "folded txt = ps @ folded query @ ss" by (auto simp: sublist_def)
  define ys where "ys = take (length query) (drop (length ps) txt)"
  have len: "length txt = length ps + length query + length ss"
    using arg_cong [OF parts, of length] by (simp add: folded_def)
  have "folded ys = take (length query) (drop (length ps) (folded txt))"
    by (simp add: ys_def folded_def take_map drop_map)
  also have "\<dots> = folded query" unfolding parts by (simp add: folded_def)
  finally have "folded ys = folded query" .
  moreover have "txt = take (length ps) txt @ ys @ drop (length query) (drop (length ps) txt)"
    unfolding ys_def by (metis append_take_drop_id)
  moreover have "length ys = length query" using len by (simp add: ys_def)
  ultimately show "contains_ascii_case_insensitive txt query"
    unfolding contains_ascii_case_insensitive_def list_ex_windows eq_ignore_ascii_case_def folded_def
    by blast
qed

text \<open>
  C23. The windowed scan finds what a case-folded substring search finds. Whatever the reader
  does, a search asks it once, for the whole cache, and returns its error or, in its order, the
  first \<open>limit\<close> envelopes whose sender or subject contains the query up to ASCII case: the cut
  comes after the matching, so a match is left out only when \<open>limit\<close> earlier ones are
  returned; previews decide nothing.
\<close>

theorem search_is_a_filtered_listing:
  "search_metadata list_envelopes account query limit w =
    (case list_envelopes account full_scan_limit w of
       (Inl err, w') \<Rightarrow> (Inl err, w')
     | (Inr envelopes, w') \<Rightarrow>
         (Inr \<lparr>sd_account_id = account, sd_query = query, sd_limit = limit,
            sd_messages = take (store_limit_get limit)
              [metadata_from_envelope e. e \<leftarrow> envelopes,
                 sublist (folded (query_str query)) (folded (header_str (env_from e)))
                 \<or> sublist (folded (query_str query)) (folded (header_str (env_subject e)))]\<rparr>, w'))"
proof -
  have comprehension: "[f e. e \<leftarrow> es, p e] = map f (filter p es)" for f :: "message_envelope \<Rightarrow> metadata_message"
    and p es by (induction es) auto
  show ?thesis
    unfolding comprehension search_metadata_def Let_def search_document_new_def matches_query_def
      contains_folded take_map
    by (cases "list_envelopes account full_scan_limit w") (auto split: sum.splits)
qed

end
