(* ===== verification/Mailbox_View.thy ===== *)
theory Mailbox_View
  imports Mailbox_Search
begin

text \<open>
  The mailbox view models (\<^verbatim>\<open>crates/presentation/src/mailbox.rs\<close>): rows projected from metadata
  documents, and the bounded display text of a cached message. Indexing a \<open>str\<close> off a character
  boundary panics in Rust; a slice is therefore an option here, \<open>None\<close> the panic, and the
  extraction runs in the option monad. \<open>String::from_utf8_lossy\<close> is the standard library's:
  every maximal ill-formed piece becomes one replacement character. Redacted Debug impls are
  left out.
\<close>

section \<open>Strings of the standard library\<close>

definition is_continuation :: "nat \<Rightarrow> bool" where
  "is_continuation b \<longleftrightarrow> 128 \<le> b \<and> b \<le> 191"

text \<open>
  The lead byte decides how many bytes follow and which second byte is allowed; \<open>Inr n\<close> is a
  character with \<open>n\<close> further bytes, \<open>Inl n\<close> an ill-formed piece with \<open>n\<close> further bytes.
\<close>

definition second_of_three :: "nat \<Rightarrow> nat \<Rightarrow> bool" where
  "second_of_three lead b \<longleftrightarrow>
     (if lead = 0xE0 then 0xA0 \<le> b \<and> b \<le> 0xBF
      else if lead = 0xED then 0x80 \<le> b \<and> b \<le> 0x9F
      else is_continuation b)"

definition second_of_four :: "nat \<Rightarrow> nat \<Rightarrow> bool" where
  "second_of_four lead b \<longleftrightarrow>
     (if lead = 0xF0 then 0x90 \<le> b \<and> b \<le> 0xBF
      else if lead = 0xF4 then 0x80 \<le> b \<and> b \<le> 0x8F
      else is_continuation b)"

definition byte_at :: "string \<Rightarrow> nat \<Rightarrow> nat" where
  "byte_at s i = (if i < length s then byte (s ! i) else 0)"

definition utf8_char :: "char \<Rightarrow> string \<Rightarrow> nat + nat" where
  "utf8_char a s =
     (if byte a < 128 then Inr 0
      else if 0xC2 \<le> byte a \<and> byte a \<le> 0xDF then
        if is_continuation (byte_at s 0) then Inr 1 else Inl 0
      else if 0xE0 \<le> byte a \<and> byte a \<le> 0xEF then
        if \<not> second_of_three (byte a) (byte_at s 0) then Inl 0
        else if is_continuation (byte_at s 1) then Inr 2 else Inl 1
      else if 0xF0 \<le> byte a \<and> byte a \<le> 0xF4 then
        if \<not> second_of_four (byte a) (byte_at s 0) then Inl 0
        else if \<not> is_continuation (byte_at s 1) then Inl 1
        else if is_continuation (byte_at s 2) then Inr 3 else Inl 2
      else Inl 0)"

function from_utf8_lossy :: "string \<Rightarrow> string" where
  "from_utf8_lossy [] = []"
| "from_utf8_lossy (a # s) =
     (case utf8_char a s of
        Inr n \<Rightarrow> a # take n s @ from_utf8_lossy (drop n s)
      | Inl n \<Rightarrow> utf8_encode1 0xFFFD @ from_utf8_lossy (drop n s))"
  by pat_completeness auto
termination by (relation "measure length") auto

definition is_char_boundary :: "string \<Rightarrow> nat \<Rightarrow> bool" where
  "is_char_boundary s i \<longleftrightarrow> i = 0 \<or> i = length s \<or> i < length s \<and> \<not> is_continuation (byte (s ! i))"

definition slice_to :: "string \<Rightarrow> nat \<Rightarrow> string option" where
  "slice_to s i = (if is_char_boundary s i then Some (take i s) else None)"

definition slice_from :: "string \<Rightarrow> nat \<Rightarrow> string option" where
  "slice_from s i = (if is_char_boundary s i then Some (drop i s) else None)"

definition to_ascii_lowercase :: "string \<Rightarrow> string" where
  "to_ascii_lowercase = map to_ascii_lower"

text \<open>\<open>str::replace\<close> of CR LF by LF, and then of every CR that is left by LF.\<close>

fun replace_crlf :: "string \<Rightarrow> string" where
  "replace_crlf [] = []"
| "replace_crlf (c # s) =
     (if c = CHR 0x0D \<and> take 1 s = [CHR 0x0A] then replace_crlf s else c # replace_crlf s)"

definition replace_cr :: "string \<Rightarrow> string" where
  "replace_cr = map (\<lambda>c. if c = CHR 0x0D then CHR 0x0A else c)"

definition trim_start :: "string \<Rightarrow> string" where
  "trim_start s = utf8_encode (dropWhile is_whitespace (utf8_decode s))"

definition CRLF2 :: string where "CRLF2 = [CHR 0x0D, CHR 0x0A, CHR 0x0D, CHR 0x0A]"
definition LF2 :: string where "LF2 = [CHR 0x0A, CHR 0x0A]"

section \<open>MIME parts\<close>

definition MAX_DISPLAY_BODY_CHARS :: nat where "MAX_DISPLAY_BODY_CHARS = 32768"

definition strip_rfc5322_headers :: "string \<Rightarrow> (string \<times> string) option" where
  "strip_rfc5322_headers message =
     (case find_str CRLF2 message of
        Some i \<Rightarrow> Option.bind (slice_to message i) (\<lambda>headers.
          map_option (Pair headers) (slice_from message (i + 4)))
      | None \<Rightarrow>
          (case find_str LF2 message of
             Some i \<Rightarrow> Option.bind (slice_to message i) (\<lambda>headers.
               map_option (Pair headers) (slice_from message (i + 2)))
           | None \<Rightarrow> Some ([], message)))"

definition boundary_end :: "nat \<Rightarrow> bool" where
  "boundary_end c \<longleftrightarrow> c = 34 \<or> c = 39 \<or> c = 59 \<or> c = 13 \<or> c = 10 \<or> is_whitespace c"

definition strip_quote :: "string \<Rightarrow> string" where
  "strip_quote rest =
     (case rest of c # s \<Rightarrow> if c = CHR 0x22 \<or> c = CHR 0x27 then s else rest | [] \<Rightarrow> [])"

definition mime_boundary :: "string \<Rightarrow> string option option" where
  "mime_boundary headers_or_message =
     (case find_str ''boundary='' (to_ascii_lowercase headers_or_message) of
        None \<Rightarrow> Some None
      | Some idx \<Rightarrow>
          map_option (\<lambda>from_key.
            let rest = strip_quote (trim_start from_key);
                boundary = str_trim (utf8_encode (takeWhile (\<lambda>c. \<not> boundary_end c) (utf8_decode rest)))
            in if boundary = [] then None else Some boundary)
            (slice_from headers_or_message (idx + length ''boundary='')))"

definition sibling_part :: "string \<Rightarrow> nat option" where
  "sibling_part part_lower =
     (case List.map_filter (\<lambda>needle. case find_str needle part_lower of
             Some i \<Rightarrow> if i > 0 then Some i else None | None \<Rightarrow> None)
           [''content-type: text/html'', ''content-type: text/plain'', ''------=''] of
        [] \<Rightarrow> None | i # is \<Rightarrow> Some (Min (set (i # is))))"

text \<open>The end of a part: at its boundary, or before a sibling's header where none is declared.\<close>

definition cut_part :: "string option \<Rightarrow> string \<Rightarrow> string option" where
  "cut_part boundary part_body =
     (case boundary of
        Some name \<Rightarrow>
          (case find_str (''--'' @ name) part_body of
             Some end_at \<Rightarrow> slice_to part_body end_at | None \<Rightarrow> Some part_body)
      | None \<Rightarrow>
          (case sibling_part (to_ascii_lowercase part_body) of
             Some at \<Rightarrow> slice_to part_body at | None \<Rightarrow> Some part_body))"

definition extract_mime_part :: "string \<Rightarrow> string \<Rightarrow> bool \<Rightarrow> (string \<times> string) option option" where
  "extract_mime_part message content_type_marker fallback_top_level =
     Option.bind (strip_rfc5322_headers message) (\<lambda>(top_headers, top_body).
       let top_lower = to_ascii_lowercase top_headers
       in case find_str content_type_marker (to_ascii_lowercase message) of
            Some part_at \<Rightarrow>
              Option.bind (slice_from message part_at) (\<lambda>after_type.
              Option.bind (strip_rfc5322_headers after_type) (\<lambda>(part_headers, part_body).
              Option.bind (mime_boundary top_headers) (\<lambda>declared.
              Option.bind (if declared = None then mime_boundary message else Some declared) (\<lambda>boundary.
                map_option (\<lambda>body. Some (part_headers, body)) (cut_part boundary part_body)))))
          | None \<Rightarrow>
              Some (if fallback_top_level
                then if contains_str ''content-type: text/html'' top_lower then None
                     else Some (top_headers, top_body)
                else if contains_str ''content-type: text/html'' top_lower then Some (top_headers, top_body)
                else None))"

section \<open>Transfer encodings\<close>

definition part_is_base64 :: "string \<Rightarrow> bool" where
  "part_is_base64 headers =
     contains_str ''content-transfer-encoding: base64'' (to_ascii_lowercase headers)"

definition part_is_quoted_printable :: "string \<Rightarrow> bool" where
  "part_is_quoted_printable headers =
     contains_str ''content-transfer-encoding: quoted-printable'' (to_ascii_lowercase headers)"

definition looks_quoted_printable :: "string \<Rightarrow> bool" where
  "looks_quoted_printable body \<longleftrightarrow>
     contains_str (CHR ''='' # [CHR 0x0D, CHR 0x0A]) body \<or> contains_str [CHR ''='', CHR 0x0A] body
     \<or> contains_str ''=20'' body \<or> contains_str ''=3D'' body \<or> contains_str ''=C2='' body
     \<or> contains_str ''=F0='' body"

definition hex_nibble :: "char \<Rightarrow> nat" where
  "hex_nibble c =
     (if 48 \<le> byte c \<and> byte c \<le> 57 then byte c - 48
      else if 97 \<le> byte c \<and> byte c \<le> 102 then byte c - 97 + 10
      else if 65 \<le> byte c \<and> byte c \<le> 70 then byte c - 65 + 10 else 0)"

text \<open>The loop of the decoder: soft line breaks, hexadecimal bytes, and a lone \<open>=\<close> kept.\<close>

fun qp_bytes :: "string \<Rightarrow> string" where
  "qp_bytes [] = []"
| "qp_bytes [c] = [c]"
| "qp_bytes [c, d] = (if c = CHR ''='' \<and> d = CHR 0x0A then [] else c # qp_bytes [d])"
| "qp_bytes (c # d # e # s) =
     (if c = CHR ''='' then
        if d = CHR 0x0A then qp_bytes (e # s)
        else if d = CHR 0x0D \<and> e = CHR 0x0A then qp_bytes s
        else if is_ascii_hexdigit d \<and> is_ascii_hexdigit e then
          char_of (hex_nibble d * 16 + hex_nibble e) # qp_bytes s
        else c # qp_bytes (d # e # s)
      else c # qp_bytes (d # e # s))"

definition decode_quoted_printable :: "string \<Rightarrow> string" where
  "decode_quoted_printable input = from_utf8_lossy (qp_bytes input)"

section \<open>Display text\<close>

definition displayed :: "string \<Rightarrow> string" where
  "displayed decoded =
     (let trimmed = str_trim (replace_cr (replace_crlf decoded))
      in if trimmed = [] then [] else utf8_encode (take MAX_DISPLAY_BODY_CHARS (utf8_decode trimmed)))"

definition decode_part :: "string \<Rightarrow> string \<Rightarrow> string" where
  "decode_part part_headers part_body =
     (if part_is_quoted_printable part_headers \<or> looks_quoted_printable part_body
      then displayed (decode_quoted_printable part_body)
      else if part_is_base64 part_headers then []
      else displayed part_body)"

definition decode_mime_text_part :: "string \<Rightarrow> string \<Rightarrow> bool \<Rightarrow> string option" where
  "decode_mime_text_part message content_type_marker fallback_top_level =
     map_option (\<lambda>part. case part of
        None \<Rightarrow> [] | Some (part_headers, part_body) \<Rightarrow> decode_part part_headers part_body)
       (extract_mime_part message content_type_marker fallback_top_level)"

definition display_text_from_rfc5322 :: "string \<Rightarrow> string option" where
  "display_text_from_rfc5322 raw =
     decode_mime_text_part (from_utf8_lossy raw) ''content-type: text/plain'' True"

definition display_html_from_rfc5322 :: "string \<Rightarrow> string option" where
  "display_html_from_rfc5322 raw =
     decode_mime_text_part (from_utf8_lossy raw) ''content-type: text/html'' False"

section \<open>View models\<close>

datatype mailbox_view_model_error = UnexpectedCommand

fun view_model_error_text :: "mailbox_view_model_error \<Rightarrow> string" where
  "view_model_error_text UnexpectedCommand = ''the document command does not match the requested view model''"

record message_row =
  vr_message_id :: string
  vr_thread_id :: string
  vr_from :: string
  vr_subject :: string
  vr_preview :: string
  vr_body_text :: "string option"
  vr_body_html :: "string option"
  vr_received_at_millis :: int
  vr_unread :: bool

definition row_from_message :: "metadata_message \<Rightarrow> message_row" where
  "row_from_message m =
     \<lparr>vr_message_id = message_id_str (mm_message_id m), vr_thread_id = thread_id_str (mm_thread_id m),
      vr_from = header_str (mm_from m), vr_subject = header_str (mm_subject m),
      vr_preview = header_str (mm_preview m), vr_body_text = None, vr_body_html = None,
      vr_received_at_millis = as_millis (mm_received_at m), vr_unread = mm_unread m\<rparr>"

definition row_from_message_with_body :: "metadata_message \<Rightarrow> string option \<Rightarrow> message_row option" where
  "row_from_message_with_body m body_bytes =
     (case body_bytes of
        None \<Rightarrow> Some (row_from_message m)
      | Some bytes \<Rightarrow>
          Option.bind (display_text_from_rfc5322 bytes) (\<lambda>txt.
          map_option (\<lambda>html. (row_from_message m)
              \<lparr>vr_body_text := if txt = [] then None else Some txt,
               vr_body_html := if html = [] then None else Some html\<rparr>)
            (display_html_from_rfc5322 bytes)))"

record inbox_view =
  iv_account_id :: string
  iv_limit :: nat
  iv_rows :: "message_row list"

record thread_view =
  tv_account_id :: string
  tv_thread_id :: string
  tv_limit :: nat
  tv_rows :: "message_row list"

record search_view =
  sv_account_id :: string
  sv_query :: string
  sv_limit :: nat
  sv_rows :: "message_row list"

definition rows_from_document :: "metadata_document \<Rightarrow> message_row list" where
  "rows_from_document d = map row_from_message (md_messages d)"

definition inbox_view_from_document :: "metadata_document \<Rightarrow> mailbox_view_model_error + inbox_view" where
  "inbox_view_from_document d =
     (if md_command d \<noteq> InboxMetadata then Inl UnexpectedCommand
      else Inr \<lparr>iv_account_id = account_id_str (md_account_id d),
        iv_limit = store_limit_get (md_limit d), iv_rows = rows_from_document d\<rparr>)"

definition thread_view_from_document ::
    "metadata_document \<Rightarrow> thread_id \<Rightarrow> mailbox_view_model_error + thread_view" where
  "thread_view_from_document d thread =
     (if md_command d \<noteq> ThreadMetadata then Inl UnexpectedCommand
      else Inr \<lparr>tv_account_id = account_id_str (md_account_id d), tv_thread_id = thread_id_str thread,
        tv_limit = store_limit_get (md_limit d), tv_rows = rows_from_document d\<rparr>)"

definition thread_view_from_rows :: "string \<Rightarrow> string \<Rightarrow> nat \<Rightarrow> message_row list \<Rightarrow> thread_view" where
  "thread_view_from_rows account thread limit rows =
     \<lparr>tv_account_id = account, tv_thread_id = thread, tv_limit = limit, tv_rows = rows\<rparr>"

definition search_view_from_document :: "search_document \<Rightarrow> search_view" where
  "search_view_from_document d =
     \<lparr>sv_account_id = account_id_str (sd_account_id d), sv_query = query_str (sd_query d),
      sv_limit = store_limit_get (sd_limit d), sv_rows = map row_from_message (sd_messages d)\<rparr>"

end
