(* ===== verification/Terminal_Text.thy ===== *)
theory Terminal_Text
  imports Tersa_Prelude
begin

text \<open>
  Terminal-safe text (\<^verbatim>\<open>crates/presentation/src/terminal.rs\<close>): every string of the provider
  passes through one of the two sanitizers before it reaches a terminal. What a terminal obeys
  or what hides text is stated once more as \<open>hostile\<close>, by the classes of the documentation.
\<close>

section \<open>The code\<close>

datatype safe_text = SafeText (safe_str: string)

definition is_allowed :: "nat \<Rightarrow> bool" where
  "is_allowed c \<longleftrightarrow> \<not> (c \<le> 0x1f \<or> 0x7f \<le> c \<and> c \<le> 0x9f \<or> c = 0x61c \<or> 0x200b \<le> c \<and> c \<le> 0x200f
     \<or> 0x202a \<le> c \<and> c \<le> 0x202e \<or> c = 0x2060 \<or> 0x2066 \<le> c \<and> c \<le> 0x2069 \<or> c = 0xfeff
     \<or> 0xe0000 \<le> c \<and> c \<le> 0xe007f)"

definition safe_multi_line :: "string \<Rightarrow> safe_text" where
  "safe_multi_line input =
     SafeText (utf8_encode (filter (\<lambda>c. c = 10 \<or> c = 9 \<or> is_allowed c) (utf8_decode input)))"

definition on_one_line :: "nat \<Rightarrow> nat option" where
  "on_one_line c = (if c = 10 \<or> c = 13 \<or> c = 9 then Some 32 else if is_allowed c then Some c else None)"

definition safe_single_line :: "string \<Rightarrow> safe_text" where
  "safe_single_line input = SafeText (utf8_encode (List.map_filter on_one_line (utf8_decode input)))"

section \<open>What is hostile to a terminal\<close>

text \<open>
  Control characters introduce escape sequences; the bidirectional embeddings, overrides,
  isolates and marks reorder what is displayed; the zero-width characters and the Tag block
  hide it.
\<close>

definition bidi_control :: "nat \<Rightarrow> bool" where
  "bidi_control c \<longleftrightarrow> c \<in> {0x202a, 0x202b, 0x202c, 0x202d, 0x202e, 0x2066, 0x2067, 0x2068, 0x2069,
     0x200e, 0x200f, 0x061c}"

definition invisible :: "nat \<Rightarrow> bool" where
  "invisible c \<longleftrightarrow> c \<in> {0x200b, 0x200c, 0x200d, 0x2060, 0xfeff} \<or> c div 0x80 = 0xe0000 div 0x80"

definition hostile :: "nat \<Rightarrow> bool" where
  "hostile c \<longleftrightarrow> is_control c \<or> bidi_control c \<or> invisible c"

lemma is_allowed_iff: "is_allowed c \<longleftrightarrow> \<not> hostile c"
proof -
  have "c div 0x80 = 0xe0000 div 0x80 \<longleftrightarrow> 0xe0000 \<le> c \<and> c \<le> 0xe007f" by auto
  moreover have "0x200b \<le> c \<and> c \<le> 0x200f \<longleftrightarrow> c \<in> {0x200b, 0x200c, 0x200d, 0x200e, 0x200f}" by auto
  moreover have "0x202a \<le> c \<and> c \<le> 0x202e \<longleftrightarrow> c \<in> {0x202a, 0x202b, 0x202c, 0x202d, 0x202e}" by auto
  moreover have "0x2066 \<le> c \<and> c \<le> 0x2069 \<longleftrightarrow> c \<in> {0x2066, 0x2067, 0x2068, 0x2069}" by auto
  moreover have "is_control c \<longleftrightarrow> c \<le> 0x1f \<or> 0x7f \<le> c \<and> c \<le> 0x9f" by (auto simp: is_control_def)
  ultimately show ?thesis
    unfolding is_allowed_def hostile_def bidi_control_def invisible_def by blast
qed

text \<open>A line of output: code points that a terminal only prints.\<close>

definition printable :: "string \<Rightarrow> bool" where
  "printable s \<longleftrightarrow> utf8_valid s \<and> (\<forall>c\<in>set (utf8_decode s). \<not> hostile c)"

lemma space_allowed: "is_allowed 32" by (simp add: is_allowed_def)

lemma map_filter_set: "set (List.map_filter f xs) = {y. \<exists>x\<in>set xs. f x = Some y}"
  by (force simp: List.map_filter_def)

lemma on_one_line_Some: "on_one_line c = Some d \<Longrightarrow> is_allowed d \<and> (d = 32 \<or> d = c)"
  by (auto simp: on_one_line_def space_allowed split: if_splits)

lemma scalar_32: "is_scalar 32" by (simp add: is_scalar_def)

lemma decode_single_line:
  assumes "utf8_valid s"
  shows "utf8_decode (safe_str (safe_single_line s)) = List.map_filter on_one_line (utf8_decode s)"
    "printable (safe_str (safe_single_line s))"
proof -
  let ?t = "List.map_filter on_one_line (utf8_decode s)"
  have "list_all is_scalar ?t"
    using assms scalar_32
    by (auto simp: utf8_valid_def list_all_iff map_filter_set dest!: on_one_line_Some)
  then show d: "utf8_decode (safe_str (safe_single_line s)) = ?t" by (simp add: safe_single_line_def)
  from \<open>list_all is_scalar ?t\<close> show "printable (safe_str (safe_single_line s))"
    unfolding printable_def d
    by (auto simp: safe_single_line_def utf8_valid_encode map_filter_set is_allowed_iff dest: on_one_line_Some)
qed

lemma map_filter_stable: "(\<And>x. x \<in> set xs \<Longrightarrow> f x = Some x) \<Longrightarrow> List.map_filter f xs = xs"
  by (induction xs) (auto simp: map_filter_simps)

text \<open>Text that is printable already passes unchanged: sanitizing twice is sanitizing once.\<close>

lemma single_line_printable: "printable s \<Longrightarrow> safe_single_line s = SafeText s"
  unfolding safe_single_line_def printable_def
  by (subst map_filter_stable) (auto simp: on_one_line_def is_allowed_iff utf8_valid_def hostile_def is_control_def)

lemma printable_ascii:
  assumes "\<forall>c\<in>set s. 32 \<le> byte c \<and> byte c < 127"
  shows "printable s"
proof -
  have "list_all (\<lambda>c. byte c < 128) s" using assms by (auto simp: list_all_iff)
  then show ?thesis
    using assms unfolding printable_def utf8_decode_ascii [OF \<open>list_all _ s\<close>]
    by (auto simp: utf8_valid_ascii hostile_def is_control_def bidi_control_def invisible_def)
qed

lemma utf8_decode_append:
  assumes "utf8_valid s" shows "utf8_decode (s @ t) = utf8_decode s @ utf8_decode t"
proof -
  have "list_all is_scalar ns \<Longrightarrow> utf8_decode (utf8_encode ns @ t) = ns @ utf8_decode t" for ns
    by (induction ns) (auto simp: utf8_decode_encode1 is_scalar_def)
  then show ?thesis using assms by (metis utf8_valid_def)
qed

lemma utf8_encode_append: "utf8_encode (ms @ ns) = utf8_encode ms @ utf8_encode ns"
  by (simp add: utf8_encode_def)

lemma utf8_valid_append: "utf8_valid s \<Longrightarrow> utf8_valid t \<Longrightarrow> utf8_valid (s @ t)"
  by (simp add: utf8_valid_def utf8_decode_append utf8_encode_append)

lemma printable_append [simp]: "printable s \<Longrightarrow> printable t \<Longrightarrow> printable (s @ t)"
  by (auto simp: printable_def utf8_valid_append utf8_decode_append)

end
