(* ===== verification/Mailbox_View_Props.thy ===== *)
theory Mailbox_View_Props
  imports Mailbox_View Terminal_Text
begin

text \<open>
  What the display text of a message promises for any bytes of a provider: no slice of the
  extraction leaves a character boundary, so nothing panics, and the text is well-formed and
  bounded. And where the detection of quoted-printable goes wrong.
\<close>

section \<open>Lossy decoding is well-formed\<close>

lemma no_text_valid [simp]: "utf8_valid []"
  by (simp add: utf8_valid_def)

lemma utf8_valid_Cons_scalar: "is_scalar n \<Longrightarrow> utf8_valid s \<Longrightarrow> utf8_valid (utf8_encode1 n @ s)"
  using utf8_valid_append [of "utf8_encode [n]" s] utf8_valid_encode [of "[n]"] by simp

lemma char_of_bytes: "byte a = x \<Longrightarrow> char_of x = a"
  by (metis char_of_char)

lemma digit64: "(z::nat) < 64 \<Longrightarrow> (64 * m + z) div 64 = m \<and> (64 * m + z) mod 64 = z"
  by simp

lemma two_bytes:
  assumes "0xC2 \<le> byte a" "byte a \<le> 0xDF" "is_continuation (byte b)"
  obtains k where "is_scalar k" "utf8_encode1 k = [a, b]"
proof -
  define x y where "x = byte a - 192" and "y = byte b - 128"
  have b: "byte a = 192 + x" "byte b = 128 + y" "2 \<le> x" "x < 32" "y < 64"
    using assms by (auto simp: x_def y_def is_continuation_def)
  have "utf8_encode1 (64 * x + y) = [char_of (192 + x), char_of (128 + y)]"
    using b(3-5) by (simp add: utf8_encode1_def)
  moreover have "is_scalar (64 * x + y)" using b(4,5) by (simp add: is_scalar_def)
  ultimately show thesis using that b(1,2) char_of_bytes by metis
qed

lemma three_bytes:
  assumes "0xE0 \<le> byte a" "byte a \<le> 0xEF" "second_of_three (byte a) (byte b)" "is_continuation (byte c)"
  obtains k where "is_scalar k" "utf8_encode1 k = [a, b, c]"
proof -
  define x y z where "x = byte a - 224" and "y = byte b - 128" and "z = byte c - 128"
  have b: "byte a = 224 + x" "byte b = 128 + y" "byte c = 128 + z" "x < 16" "y < 64" "z < 64"
    "x = 0 \<longrightarrow> 32 \<le> y" "x = 13 \<longrightarrow> y < 32"
    using assms by (auto simp: x_def y_def z_def is_continuation_def second_of_three_def split: if_splits)
  define m where "m = 64 * x + y"
  define k where "k = 64 * m + z"
  have m: "m div 64 = x" "m mod 64 = y" using digit64 [OF b(5), of x] by (simp_all add: m_def)
  have k: "k div 64 = m" "k mod 64 = z" using digit64 [OF b(6), of m] by (simp_all add: k_def)
  have "k div 4096 = x" using div_mult2_eq [of k 64 64] by (simp add: k m)
  moreover have "32 \<le> m" using b(7) by (cases x) (auto simp: m_def)
  then have "2048 \<le> k" by (simp add: k_def)
  moreover have "k < 65536" using b(4-6) by (simp add: k_def m_def)
  ultimately have "utf8_encode1 k = [char_of (224 + x), char_of (128 + y), char_of (128 + z)]"
    by (simp add: utf8_encode1_def k m)
  moreover have "is_scalar k"
  proof (cases "x \<le> 13")
    case True
    then have "k < 55296" using b(5,6,8) by (cases "x = 13") (auto simp: k_def m_def)
    then show ?thesis by (simp add: is_scalar_def)
  next
    case False
    then show ?thesis using b(4-6) by (auto simp: is_scalar_def k_def m_def)
  qed
  ultimately show thesis using that b(1-3) char_of_bytes by metis
qed

lemma four_bytes:
  assumes "0xF0 \<le> byte a" "byte a \<le> 0xF4" "second_of_four (byte a) (byte b)" "is_continuation (byte c)"
    "is_continuation (byte d)"
  obtains k where "is_scalar k" "utf8_encode1 k = [a, b, c, d]"
proof -
  define x y z u where "x = byte a - 240" and "y = byte b - 128" and "z = byte c - 128" and "u = byte d - 128"
  have b: "byte a = 240 + x" "byte b = 128 + y" "byte c = 128 + z" "byte d = 128 + u"
    "x \<le> 4" "y < 64" "z < 64" "u < 64" "x = 0 \<longrightarrow> 16 \<le> y" "x = 4 \<longrightarrow> y < 16"
    using assms by (auto simp: x_def y_def z_def u_def is_continuation_def second_of_four_def split: if_splits)
  define l where "l = 64 * x + y"
  define m where "m = 64 * l + z"
  define k where "k = 64 * m + u"
  have l: "l div 64 = x" "l mod 64 = y" using digit64 [OF b(6), of x] by (simp_all add: l_def)
  have m: "m div 64 = l" "m mod 64 = z" using digit64 [OF b(7), of l] by (simp_all add: m_def)
  have k: "k div 64 = m" "k mod 64 = u" using digit64 [OF b(8), of m] by (simp_all add: k_def)
  have k2: "k div 4096 = l" using div_mult2_eq [of k 64 64] by (simp add: k m)
  have "k div 262144 = x" using div_mult2_eq [of k 4096 64] by (simp add: k2 l)
  moreover have "16 \<le> l" "l < 272" using b(5,6,9,10) by (cases "x = 0"; cases "x = 4"; simp add: l_def)+
  then have "65536 \<le> k" "k < 1114112" using b(7,8) by (simp_all add: k_def m_def)
  ultimately have "utf8_encode1 k = [char_of (240 + x), char_of (128 + y), char_of (128 + z), char_of (128 + u)]"
    by (simp add: utf8_encode1_def k k2 l m)
  moreover have "is_scalar k" using \<open>65536 \<le> k\<close> \<open>k < 1114112\<close> by (simp add: is_scalar_def)
  ultimately show thesis using that b(1-4) char_of_bytes by metis
qed

lemma byte_at_continuation: "is_continuation (byte_at s i) \<Longrightarrow> i < length s \<and> byte_at s i = byte (s ! i)"
  by (auto simp: byte_at_def is_continuation_def split: if_splits)

lemma second_of_three_continuation: "second_of_three lead b \<Longrightarrow> is_continuation b"
  by (auto simp: second_of_three_def is_continuation_def split: if_splits)

lemma second_of_four_continuation: "second_of_four lead b \<Longrightarrow> is_continuation b"
  by (auto simp: second_of_four_def is_continuation_def split: if_splits)

lemma take_nth:
  "0 < length s \<Longrightarrow> take 1 s = [s ! 0]"
  "1 < length s \<Longrightarrow> take 2 s = [s ! 0, s ! 1]"
  "2 < length s \<Longrightarrow> take 3 s = [s ! 0, s ! 1, s ! 2]"
  by (auto simp: take_Suc_conv_app_nth numeral_eq_Suc dest!: Suc_lessD)

lemma utf8_char_scalar:
  assumes "utf8_char a s = Inr n"
  obtains k where "is_scalar k" "utf8_encode1 k = a # take n s"
proof -
  consider "byte a < 128" "n = 0"
    | "0xC2 \<le> byte a" "byte a \<le> 0xDF" "is_continuation (byte_at s 0)" "n = 1"
    | "0xE0 \<le> byte a" "byte a \<le> 0xEF" "second_of_three (byte a) (byte_at s 0)"
      "is_continuation (byte_at s 1)" "n = 2"
    | "0xF0 \<le> byte a" "byte a \<le> 0xF4" "second_of_four (byte a) (byte_at s 0)"
      "is_continuation (byte_at s 1)" "is_continuation (byte_at s 2)" "n = 3"
    using assms by (auto simp: utf8_char_def split: if_splits)
  then show thesis
  proof cases
    case 1
    then have "is_scalar (byte a)" "utf8_encode1 (byte a) = [a]"
      by (simp_all add: is_scalar_def utf8_encode1_def)
    with 1 that show thesis by simp
  next
    case 2
    note c = byte_at_continuation [OF 2(3)]
    obtain k where "is_scalar k" "utf8_encode1 k = [a, s ! 0]" using two_bytes 2 c by metis
    with 2(4) take_nth(1) [of s] c show thesis by (intro that [of k]) simp_all
  next
    case 3
    note c = byte_at_continuation [OF second_of_three_continuation [OF 3(3)]] byte_at_continuation [OF 3(4)]
    obtain k where "is_scalar k" "utf8_encode1 k = [a, s ! 0, s ! 1]" using three_bytes 3 c by metis
    with 3(5) take_nth(2) [of s] c show thesis by (intro that [of k]) simp_all
  next
    case 4
    note c = byte_at_continuation [OF second_of_four_continuation [OF 4(3)]] byte_at_continuation [OF 4(4)]
      byte_at_continuation [OF 4(5)]
    obtain k where "is_scalar k" "utf8_encode1 k = [a, s ! 0, s ! 1, s ! 2]" using four_bytes 4 c by metis
    with 4(6) take_nth(3) [of s] c show thesis by (intro that [of k]) simp_all
  qed
qed

lemma from_utf8_lossy_valid: "utf8_valid (from_utf8_lossy s)"
proof (induction s rule: from_utf8_lossy.induct)
  case (2 a s)
  show ?case
  proof (cases "utf8_char a s")
    case (Inl n)
    have "is_scalar 0xFFFD" by (simp add: is_scalar_def)
    from utf8_valid_Cons_scalar [OF this 2(1) [OF Inl]] show ?thesis by (simp add: Inl)
  next
    case (Inr n)
    obtain k where k: "is_scalar k" "utf8_encode1 k = a # take n s" using utf8_char_scalar [OF Inr] .
    then have "from_utf8_lossy (a # s) = utf8_encode1 k @ from_utf8_lossy (drop n s)" by (simp add: Inr)
    then show ?thesis using 2(2) [OF Inr] k(1) by (simp add: utf8_valid_Cons_scalar)
  qed
qed simp

text \<open>A well-formed text is left as it is.\<close>

lemma utf8_char_encoded:
  assumes "is_scalar n"
  shows "\<exists>a s. utf8_encode1 n = a # s \<and> utf8_char a (s @ t) = Inr (length s)"
proof -
  have "n < 1114112" using assms by (auto simp: is_scalar_def)
  then consider "n < 128" | "128 \<le> n" "n < 2048" | "2048 \<le> n" "n < 65536" | "65536 \<le> n" "n < 1114112"
    using not_less by blast
  then show ?thesis
  proof cases
    case 1
    then show ?thesis by (simp add: utf8_encode1_def utf8_char_def)
  next
    case 2
    then have "2 \<le> n div 64" "n div 64 < 32" by auto
    with 2 show ?thesis by (simp add: utf8_encode1_def utf8_char_def byte_at_def is_continuation_def)
  next
    case 3
    define x y where "x = n div 64 div 64" and "y = n div 64 mod 64"
    have xy: "n div 64 = 64 * x + y" "y < 64" by (simp_all add: x_def y_def)
    have h: "n div 4096 = x" using div_mult2_eq [of n 64 64] by (simp add: x_def)
    have "x < 16" using 3 h by auto
    moreover have "32 \<le> y" if "x = 0" using 3 xy that by auto
    moreover have "y < 32" if "x = 13"
    proof -
      have "n < 55296 \<or> 57344 \<le> n" using assms by (auto simp: is_scalar_def)
      then have "n div 64 < 864 \<or> 896 \<le> n div 64" by auto
      then show ?thesis using xy that by auto
    qed
    moreover have "n mod 64 \<le> 63" by simp
    ultimately show ?thesis using 3 xy h
      by (auto simp: utf8_encode1_def utf8_char_def byte_at_def is_continuation_def second_of_three_def)
  next
    case 4
    define x y where "x = n div 4096 div 64" and "y = n div 4096 mod 64"
    have xy: "n div 4096 = 64 * x + y" "y < 64" by (simp_all add: x_def y_def)
    have h: "n div 262144 = x" using div_mult2_eq [of n 4096 64] by (simp add: x_def)
    have "x < 5" using 4 h by auto
    moreover have "16 \<le> y" if "x = 0" using 4 xy that by auto
    moreover have "y < 16" if "x = 4" using 4 xy that by auto
    moreover have "n mod 64 \<le> 63" "n div 64 mod 64 \<le> 63" by simp_all
    ultimately show ?thesis using 4 xy h
      by (auto simp: utf8_encode1_def utf8_char_def byte_at_def is_continuation_def second_of_four_def)
  qed
qed

lemma lossy_scalar:
  assumes "is_scalar n" shows "from_utf8_lossy (utf8_encode1 n @ t) = utf8_encode1 n @ from_utf8_lossy t"
proof -
  obtain a s where "utf8_encode1 n = a # s" "utf8_char a (s @ t) = Inr (length s)"
    using utf8_char_encoded [OF assms] by blast
  then show ?thesis by simp
qed

lemma lossy_valid:
  assumes "utf8_valid s" shows "from_utf8_lossy s = s"
proof -
  have "list_all is_scalar ns \<Longrightarrow> from_utf8_lossy (utf8_encode ns) = utf8_encode ns" for ns
    by (induction ns) (simp_all add: lossy_scalar)
  then show ?thesis using assms by (metis utf8_valid_def)
qed

section \<open>Character boundaries\<close>

text \<open>Only the first byte of an encoded character is no continuation byte.\<close>

lemma encoded_continuation:
  assumes "0 < i" "i < length (utf8_encode1 n)"
  shows "is_continuation (byte (utf8_encode1 n ! i))"
proof -
  have mods: "is_continuation (byte (char_of (128 + m mod 64)))" for m :: nat
    by (simp add: is_continuation_def)
  have "i = 1 \<or> i = 2 \<or> i = 3" using assms by (auto simp: utf8_encode1_def split: if_splits)
  then show ?thesis using assms mods by (auto simp: utf8_encode1_def split: if_splits)
qed

lemma valid_split:
  assumes "utf8_valid (u @ v)" "v = [] \<or> \<not> is_continuation (byte (hd v))"
  shows "utf8_valid u \<and> utf8_valid v"
proof -
  have "list_all is_scalar ns \<Longrightarrow> utf8_encode ns = u @ v \<Longrightarrow> utf8_valid u \<and> utf8_valid v" for ns
  proof (induction ns arbitrary: u)
    case (Cons n ns)
    show ?case
    proof (cases "u = [] \<or> length (utf8_encode1 n) \<le> length u")
      case True
      then show ?thesis
      proof
        assume "u = []"
        then show ?thesis using Cons.prems utf8_valid_encode [of "n # ns"] by simp
      next
        assume "length (utf8_encode1 n) \<le> length u"
        then obtain u' where u: "u = utf8_encode1 n @ u'" "utf8_encode ns = u' @ v"
          using Cons.prems(2) by (auto simp: append_eq_append_conv2)
        with Cons show ?thesis by (auto intro: utf8_valid_Cons_scalar)
      qed
    next
      case False
      then obtain w where w: "utf8_encode1 n = u @ w" "v = w @ utf8_encode ns" "w \<noteq> []"
        using Cons.prems(2) by (auto simp: append_eq_append_conv2)
      then have "utf8_encode1 n ! length u = hd v" by (simp add: hd_conv_nth nth_append)
      then have "is_continuation (byte (hd v))" using encoded_continuation [of "length u" n] False w by simp
      with assms(2) w show ?thesis by simp
    qed
  qed simp
  then show ?thesis using assms(1) by (metis utf8_valid_def)
qed

lemma boundary_slices:
  assumes "utf8_valid s" "is_char_boundary s i" "i \<le> length s"
  shows "utf8_valid (take i s)" "utf8_valid (drop i s)"
proof -
  have "i = 0 \<or> utf8_valid (take i s) \<and> utf8_valid (drop i s)"
    using assms valid_split [of "take i s" "drop i s"]
    by (auto simp: is_char_boundary_def hd_drop_conv_nth)
  then show "utf8_valid (take i s)" "utf8_valid (drop i s)" using assms(1) by auto
qed

text \<open>Text found for an ASCII needle starts and ends at boundaries.\<close>

lemma ascii_boundary: "i < length s \<Longrightarrow> byte (s ! i) < 128 \<Longrightarrow> is_char_boundary s i"
  by (simp add: is_char_boundary_def is_continuation_def)

lemma valid_drop_ascii: "utf8_valid (c # s) \<Longrightarrow> byte c < 128 \<Longrightarrow> utf8_valid s"
  by (simp add: utf8_valid_def utf8_encode1_def)

lemma byte_lower: "byte (to_ascii_lower c) < 128 \<longleftrightarrow> byte c < 128"
  by (auto simp: to_ascii_lower_def)

definition ascii :: "string \<Rightarrow> bool" where
  "ascii s \<longleftrightarrow> list_all (\<lambda>c. byte c < 128) s"

lemma hd_valid: "utf8_valid s \<Longrightarrow> s \<noteq> [] \<Longrightarrow> \<not> is_continuation (byte (hd s))"
proof -
  have lead: "\<not> is_continuation (byte (hd (utf8_encode1 n)))" "utf8_encode1 n \<noteq> []" if "is_scalar n" for n
    using that by (auto simp: utf8_encode1_def is_continuation_def is_scalar_def)
  assume "utf8_valid s" "s \<noteq> []"
  then obtain ns where "s = utf8_encode ns" "list_all is_scalar ns" "ns \<noteq> []"
    unfolding utf8_valid_def by (metis utf8_encode_Nil)
  then show ?thesis using lead by (cases ns) (simp_all add: hd_append)
qed

lemma boundary_valid_drop: "utf8_valid (drop i s) \<Longrightarrow> i \<le> length s \<Longrightarrow> is_char_boundary s i"
  using hd_valid [of "drop i s"] by (auto simp: is_char_boundary_def hd_drop_conv_nth)

lemma valid_drop_asciis: "utf8_valid (u @ s) \<Longrightarrow> ascii u \<Longrightarrow> utf8_valid s"
  by (induction u) (auto simp: ascii_def dest: valid_drop_ascii)

text \<open>
  Before and after an ASCII needle found in a valid text, or in its lowercase image, lie valid
  texts, and both ends are boundaries.
\<close>

lemma found_at:
  assumes "find_str pat (map f s) = Some i" "pat \<noteq> []" "ascii pat" "utf8_valid s"
    and f: "\<And>c. byte (f c) < 128 \<longleftrightarrow> byte c < 128"
  shows "is_char_boundary s i" "utf8_valid (take i s)" "utf8_valid (drop i s)"
    "is_char_boundary s (i + length pat)" "utf8_valid (drop (i + length pat) s)"
proof -
  have "prefix pat (drop i (map f s))" using find_str_Some [OF assms(1)] by simp
  then obtain t where t: "map f (drop i s) = pat @ t" by (auto simp: prefix_def drop_map)
  have len: "i + length pat \<le> length s"
    using arg_cong [OF t, of length] assms(2) by (cases pat) auto
  have img: "map f (take (length pat) (drop i s)) = pat" using arg_cong [OF t, of "take (length pat)"]
    by (simp add: take_map)
  have asc: "ascii (take (length pat) (drop i s))"
    using assms(3) unfolding ascii_def by (subst (asm) img [symmetric]) (simp add: list_all_iff f)
  have parts: "drop i s = take (length pat) (drop i s) @ drop (i + length pat) s"
    by (metis add.commute append_take_drop_id drop_drop)
  have "0 < length pat" using assms(2) by simp
  then have i: "i < length s" using len by linarith
  then have "take (length pat) (drop i s) \<noteq> []" using assms(2) by simp
  then have "byte (hd (drop i s)) < 128" using asc parts
    by (metis ascii_def hd_append2 list.pred_inject(2) list.collapse)
  then show "is_char_boundary s i" using i by (intro ascii_boundary) (simp_all add: hd_drop_conv_nth)
  from boundary_slices [OF assms(4) this] len
  show "utf8_valid (take i s)" "utf8_valid (drop i s)" by simp_all
  then show "utf8_valid (drop (i + length pat) s)" using parts asc valid_drop_asciis by metis
  then show "is_char_boundary s (i + length pat)" using len by (rule boundary_valid_drop)
qed

lemmas found_exact = found_at [where f = id, simplified]

lemma found_lower:
  assumes "find_str pat (to_ascii_lowercase s) = Some i" "pat \<noteq> []" "ascii pat" "utf8_valid s"
  shows "is_char_boundary s i" "utf8_valid (take i s)" "utf8_valid (drop i s)"
    "is_char_boundary s (i + length pat)" "utf8_valid (drop (i + length pat) s)"
  using found_at [of pat to_ascii_lower s i] assms byte_lower by (simp_all add: to_ascii_lowercase_def)

section \<open>The extraction never panics\<close>

lemma ascii_needles:
  "ascii CRLF2" "ascii LF2" "ascii ''boundary=''" "ascii ''content-type: text/html''"
  "ascii ''content-type: text/plain''" "ascii ''------=''"
  by code_simp+

lemma strip_headers_total:
  assumes "utf8_valid m"
  obtains h b where "strip_rfc5322_headers m = Some (h, b)" "utf8_valid h" "utf8_valid b"
proof (cases "find_str CRLF2 m")
  case (Some i)
  have "length CRLF2 = 4" "CRLF2 \<noteq> []" by (simp_all add: CRLF2_def)
  with found_exact [OF Some _ ascii_needles(1) assms] that Some show thesis
    by (auto simp: strip_rfc5322_headers_def slice_to_def slice_from_def)
next
  case None
  show thesis
  proof (cases "find_str LF2 m")
    case (Some i)
    have "length LF2 = 2" "LF2 \<noteq> []" by (simp_all add: LF2_def)
    with found_exact [OF Some _ ascii_needles(2) assms] that Some None show thesis
      by (auto simp: strip_rfc5322_headers_def slice_to_def slice_from_def)
  next
    case no: None
    with None that assms show thesis by (simp add: strip_rfc5322_headers_def)
  qed
qed

lemma mime_boundary_total: "utf8_valid m \<Longrightarrow> mime_boundary m \<noteq> None"
  using found_lower(4) [of "''boundary=''" m] ascii_needles(3)
  by (auto simp: mime_boundary_def slice_from_def split: option.splits)

lemma sibling_found:
  "sibling_part part_lower = Some i \<Longrightarrow> \<exists>needle. find_str needle part_lower = Some i \<and> needle \<noteq> [] \<and> ascii needle"
proof -
  assume s: "sibling_part part_lower = Some i"
  let ?f = "\<lambda>needle. case find_str needle part_lower of Some i \<Rightarrow> if i > 0 then Some i else None | None \<Rightarrow> None"
  let ?needles = "[''content-type: text/html'', ''content-type: text/plain'', ''------='']"
  from s obtain j js where l: "List.map_filter ?f ?needles = j # js" "i = Min (set (j # js))"
    by (auto simp: sibling_part_def split: list.splits)
  then have "i \<in> set (List.map_filter ?f ?needles)" using Min_in [of "set (j # js)"] by simp
  then obtain needle where "needle \<in> set ?needles" "?f needle = Some i" unfolding map_filter_set by blast
  then show ?thesis using ascii_needles(4-6) by (auto split: option.splits if_splits)
qed

lemma cut_part_total:
  assumes "utf8_valid part_body"
  obtains body where "cut_part boundary part_body = Some body" "utf8_valid body"
proof (cases boundary)
  case None
  show thesis
  proof (cases "sibling_part (to_ascii_lowercase part_body)")
    case (Some i)
    from sibling_found [OF this] obtain needle where
      "find_str needle (to_ascii_lowercase part_body) = Some i" "needle \<noteq> []" "ascii needle" by blast
    from found_lower [OF this assms] that Some None show thesis by (simp add: cut_part_def slice_to_def)
  qed (use None assms that in \<open>simp add: cut_part_def\<close>)
next
  case (Some name)
  show thesis
  proof (cases "find_str (''--'' @ name) part_body")
    case None
    then show thesis using Some assms that by (simp add: cut_part_def)
  next
    case found: (Some i)
    have "prefix ''--'' (drop i part_body)"
      using find_str_Some [OF found] by (auto simp: prefix_def)
    then have "drop i part_body \<noteq> []" "hd (drop i part_body) = CHR ''-''" by (auto simp: prefix_def)
    then have "i < length part_body \<and> part_body ! i = CHR ''-''" by (simp add: hd_drop_conv_nth)
    then have "is_char_boundary part_body i" "i \<le> length part_body"
      using ascii_boundary [of i part_body] by simp_all
    with boundary_slices [OF assms] found Some that show thesis by (simp add: cut_part_def slice_to_def)
  qed
qed

lemma extract_total:
  assumes "utf8_valid m" "marker \<noteq> []" "ascii marker"
  obtains part where "extract_mime_part m marker fallback = Some part"
    "\<And>h b. part = Some (h, b) \<Longrightarrow> utf8_valid h \<and> utf8_valid b"
proof -
  obtain h b where top: "strip_rfc5322_headers m = Some (h, b)" "utf8_valid h" "utf8_valid b"
    using strip_headers_total [OF assms(1)] .
  show thesis
  proof (cases "find_str marker (to_ascii_lowercase m)")
    case None
    have "extract_mime_part m marker fallback =
        Some (if fallback = contains_str ''content-type: text/html'' (to_ascii_lowercase h) then None
              else Some (h, b))"
      using None top(1) by (auto simp: extract_mime_part_def Let_def)
    then show thesis by (rule that) (use top(2,3) in \<open>simp split: if_splits\<close>)
  next
    case (Some i)
    note found = found_lower [OF Some assms(2,3,1)]
    obtain ph pb where part: "strip_rfc5322_headers (drop i m) = Some (ph, pb)" "utf8_valid ph" "utf8_valid pb"
      using strip_headers_total [OF found(3)] .
    obtain declared where d: "mime_boundary h = Some declared" using mime_boundary_total [OF top(2)] by blast
    obtain whole where w: "mime_boundary m = Some whole" using mime_boundary_total [OF assms(1)] by blast
    obtain body where c: "cut_part (if declared = None then whole else declared) pb = Some body" "utf8_valid body"
      using cut_part_total [OF part(3)] .
    show thesis
      by (rule that [of "Some (ph, body)"])
        (use Some found(1) top part d w c in \<open>auto simp: extract_mime_part_def slice_from_def Let_def split: if_splits\<close>)
  qed
qed

section \<open>The display text is bounded\<close>

text \<open>Replacing ASCII by ASCII keeps a text well-formed.\<close>

lemma replace_other: "CHR 0x0D \<notin> set u \<Longrightarrow> replace_crlf (u @ s) = u @ replace_crlf s \<and> replace_cr (u @ s) = u @ replace_cr s"
  by (induction u) (auto simp: replace_cr_def)

lemma encoded_high:
  assumes "\<not> n < 128" "is_scalar n" shows "CHR 0x0D \<notin> set (utf8_encode1 n)"
proof
  assume "CHR 0x0D \<in> set (utf8_encode1 n)"
  then obtain i where i: "i < length (utf8_encode1 n)" "utf8_encode1 n ! i = CHR 0x0D"
    by (auto simp: in_set_conv_nth)
  show False
  proof (cases "i = 0")
    case True
    then have "byte (utf8_encode1 n ! 0) = 13" using i(2) by simp
    then show False using assms by (auto simp: utf8_encode1_def is_scalar_def split: if_splits)
  next
    case False
    then show False using encoded_continuation [of i n] i by (simp add: is_continuation_def)
  qed
qed

lemma carriage_return:
  assumes "(n::nat) < 128"
  shows "(char_of n = CHR 0x0D) = (n = 13)" "char_of (10::nat) = CHR 0x0A"
proof -
  have "byte (char_of n) = n" using assms by simp
  moreover have "byte (CHR 0x0D) = 13" "char_of (13::nat) = CHR 0x0D" by code_simp+
  ultimately show "(char_of n = CHR 0x0D) = (n = 13)" by metis
  show "char_of (10::nat) = CHR 0x0A" by code_simp
qed

lemma replace_valid:
  assumes "utf8_valid s" shows "utf8_valid (replace_cr (replace_crlf s))"
proof -
  have "list_all is_scalar ns \<Longrightarrow> utf8_valid (replace_cr (replace_crlf (utf8_encode ns)))" for ns
  proof (induction ns)
    case (Cons n ns)
    show ?case
    proof (cases "n < 128")
      case True
      then have e: "utf8_encode1 n = [char_of n]" by (simp add: utf8_encode1_def)
      have "is_scalar (if n = 13 then 10 else n)" using Cons.prems by (simp add: is_scalar_def)
      from utf8_valid_Cons_scalar [OF this, of "replace_cr (replace_crlf (utf8_encode ns))"]
      have "utf8_valid (char_of (if n = 13 then 10 else n) # replace_cr (replace_crlf (utf8_encode ns)))"
        using Cons True by (simp add: utf8_encode1_def split: if_splits)
      then show ?thesis using Cons e carriage_return [OF True]
        by (auto simp: replace_cr_def split: if_splits)
    next
      case False
      then show ?thesis using Cons replace_other [OF encoded_high]
        by (auto intro: utf8_valid_Cons_scalar)
    qed
  qed (simp add: replace_cr_def)
  then show ?thesis using assms by (metis utf8_valid_def)
qed

lemma str_trim_valid:
  assumes "utf8_valid s" shows "utf8_valid (str_trim s)"
proof -
  have "set (rev (dropWhile is_whitespace (rev (dropWhile is_whitespace (utf8_decode s))))) \<subseteq> set (utf8_decode s)"
    by (auto dest!: set_dropWhileD)
  then show ?thesis
    using assms unfolding str_trim_def
    by (intro utf8_valid_encode) (auto simp: utf8_valid_def list_all_iff simp del: set_rev)
qed

lemma displayed_bounded:
  assumes "utf8_valid s"
  shows "utf8_valid (displayed s) \<and> length (utf8_decode (displayed s)) \<le> MAX_DISPLAY_BODY_CHARS"
proof -
  let ?t = "str_trim (replace_cr (replace_crlf s))"
  have "list_all is_scalar (take MAX_DISPLAY_BODY_CHARS (utf8_decode ?t))"
    using str_trim_valid [OF replace_valid [OF assms]] list_all_takeD unfolding utf8_valid_def by blast
  then show ?thesis by (auto simp: displayed_def Let_def utf8_valid_encode)
qed

lemma decode_part_bounded:
  "utf8_valid b \<Longrightarrow> utf8_valid (decode_part h b)
    \<and> length (utf8_decode (decode_part h b)) \<le> MAX_DISPLAY_BODY_CHARS"
  using displayed_bounded [of b] displayed_bounded [OF from_utf8_lossy_valid, of "qp_bytes b"]
  by (simp add: decode_part_def decode_quoted_printable_def)

lemma decode_mime_total:
  assumes "utf8_valid m" "marker \<noteq> []" "ascii marker"
  shows "\<exists>txt. decode_mime_text_part m marker fallback = Some txt \<and> utf8_valid txt
    \<and> length (utf8_decode txt) \<le> MAX_DISPLAY_BODY_CHARS"
proof -
  obtain part where part: "extract_mime_part m marker fallback = Some part"
    "\<And>h b. part = Some (h, b) \<Longrightarrow> utf8_valid h \<and> utf8_valid b"
    using extract_total [OF assms] by metis
  show ?thesis
  proof (cases part)
    case None
    then show ?thesis using part(1) by (simp add: decode_mime_text_part_def)
  next
    case (Some p)
    then show ?thesis using part decode_part_bounded
      by (cases p) (simp add: decode_mime_text_part_def)
  qed
qed

text \<open>
  C37. The display bodies of a cached message exist for any bytes that a provider delivered:
  ill-formed UTF-8, headers without an end, boundaries that occur inside characters or nowhere.
  No slice of the extraction falls off a character boundary, where Rust would panic, and the
  text and the HTML are well-formed and at most 32768 characters long.
\<close>

theorem display_bodies_never_panic:
  "\<exists>txt html. display_text_from_rfc5322 raw = Some txt \<and> display_html_from_rfc5322 raw = Some html
    \<and> utf8_valid txt \<and> length (utf8_decode txt) \<le> MAX_DISPLAY_BODY_CHARS
    \<and> utf8_valid html \<and> length (utf8_decode html) \<le> MAX_DISPLAY_BODY_CHARS
    \<and> row_from_message_with_body m (Some raw) = Some ((row_from_message m)
        \<lparr>vr_body_text := if txt = [] then None else Some txt,
         vr_body_html := if html = [] then None else Some html\<rparr>)"
proof -
  obtain t where "display_text_from_rfc5322 raw = Some t" "utf8_valid t"
    "length (utf8_decode t) \<le> MAX_DISPLAY_BODY_CHARS"
    using decode_mime_total [OF from_utf8_lossy_valid _ ascii_needles(5)]
    unfolding display_text_from_rfc5322_def by blast
  moreover obtain html where "display_html_from_rfc5322 raw = Some html" "utf8_valid html"
    "length (utf8_decode html) \<le> MAX_DISPLAY_BODY_CHARS"
    using decode_mime_total [OF from_utf8_lossy_valid _ ascii_needles(4)]
    unfolding display_html_from_rfc5322_def by blast
  ultimately show ?thesis by (simp add: row_from_message_with_body_def)
qed

section \<open>Quoted-printable\<close>

text \<open>
  What RFC 2045 allows an encoder to write for given bytes. The value of a hexadecimal digit is
  its place in the table of the RFC, lower case accepted; nothing here is the decoder's own.
\<close>

definition hex_table :: "(char \<times> nat) list" where
  "hex_table = zip ''0123456789ABCDEF'' [0..<16] @ zip ''abcdef'' [10..<16]"

inductive qp_encodes :: "string \<Rightarrow> string \<Rightarrow> bool" where
  "qp_encodes [] []"
| "c \<noteq> CHR ''='' \<Longrightarrow> qp_encodes enc s \<Longrightarrow> qp_encodes (c # enc) (c # s)"
| "(h, i) \<in> set hex_table \<Longrightarrow> (l, j) \<in> set hex_table \<Longrightarrow> qp_encodes enc s \<Longrightarrow>
     qp_encodes (CHR ''='' # h # l # enc) (char_of (16 * i + j) # s)"
| "qp_encodes enc s \<Longrightarrow> qp_encodes (CHR ''='' # CHR 0x0D # CHR 0x0A # enc) s"
| "qp_encodes enc s \<Longrightarrow> qp_encodes (CHR ''='' # CHR 0x0A # enc) s"

text \<open>The decoder's digits have the values of the table.\<close>

lemma hex_table_nibble: "(c, v) \<in> set hex_table \<Longrightarrow> is_ascii_hexdigit c \<and> hex_nibble c = v"
proof -
  have "list_all (\<lambda>(c, v). is_ascii_hexdigit c \<and> hex_nibble c = v) hex_table" by code_simp
  then show "(c, v) \<in> set hex_table \<Longrightarrow> is_ascii_hexdigit c \<and> hex_nibble c = v"
    by (auto simp: list_all_iff)
qed

lemma qp_other: "c \<noteq> CHR ''='' \<Longrightarrow> qp_bytes (c # s) = c # qp_bytes s"
  by (cases s rule: qp_bytes.cases) auto

lemma qp_soft: "qp_bytes (CHR ''='' # CHR 0x0A # s) = qp_bytes s"
  by (cases s) auto

lemma hexdigit_no_break: "is_ascii_hexdigit c \<Longrightarrow> c \<noteq> CHR 0x0A \<and> c \<noteq> CHR 0x0D"
  by (auto simp: is_ascii_hexdigit_def is_ascii_digit_def)

lemma qp_decodes_every_encoding: "qp_encodes enc s \<Longrightarrow> qp_bytes enc = s"
  by (induction rule: qp_encodes.induct)
    (auto simp: qp_other qp_soft mult.commute dest!: hex_table_nibble dest: hexdigit_no_break)

text \<open>
  C38. A part that is declared quoted-printable is displayed as the text that it encodes,
  whichever of the encodings that RFC 2045 allows the sender has chosen: bytes written as
  themselves or as two hexadecimal digits of either case, whose values are their places in the
  table of the RFC, and lines broken softly anywhere.
\<close>

theorem quoted_printable_round_trip:
  assumes "part_is_quoted_printable headers" "qp_encodes enc s" "utf8_valid s"
  shows "decode_part headers enc = displayed s"
  using assms by (simp add: decode_part_def decode_quoted_printable_def qp_decodes_every_encoding lossy_valid)

theorem quoted_printable_round_trip_witness:
  "decode_part ''Content-Transfer-Encoding: Quoted-Printable'' ''a=C3=a9=3db'' = displayed [CHR ''a'', CHR 0xC3, CHR 0xA9, CHR ''='', CHR ''b'']"
proof (rule quoted_printable_round_trip)
  show "part_is_quoted_printable ''Content-Transfer-Encoding: Quoted-Printable''" by code_simp
  have 0: "qp_encodes ''b'' ''b''" by (auto intro: qp_encodes.intros)
  have 1: "qp_encodes ''=3db'' (char_of (16 * 3 + 13 :: nat) # ''b'')"
    by (rule qp_encodes.intros(3) [OF _ _ 0]) code_simp+
  have 2: "qp_encodes ''=a9=3db'' (char_of (16 * 10 + 9 :: nat) # char_of (16 * 3 + 13 :: nat) # ''b'')"
    by (rule qp_encodes.intros(3) [OF _ _ 1]) code_simp+
  have 3: "qp_encodes ''=C3=a9=3db''
    (char_of (16 * 12 + 3 :: nat) # char_of (16 * 10 + 9 :: nat) # char_of (16 * 3 + 13 :: nat) # ''b'')"
    by (rule qp_encodes.intros(3) [OF _ _ 2]) code_simp+
  have "[char_of (16 * 12 + 3 :: nat), char_of (16 * 10 + 9 :: nat), char_of (16 * 3 + 13 :: nat)]
    = [CHR 0xC3, CHR 0xA9, CHR ''='']" by code_simp
  then have 4: "qp_encodes ''=C3=a9=3db'' [CHR 0xC3, CHR 0xA9, CHR ''='', CHR ''b'']"
    using 3 by simp
  show "qp_encodes ''a=C3=a9=3db'' [CHR ''a'', CHR 0xC3, CHR 0xA9, CHR ''='', CHR ''b'']"
    by (rule qp_encodes.intros(2) [OF _ 4]) simp
  show "utf8_valid [CHR ''a'', CHR 0xC3, CHR 0xA9, CHR ''='', CHR ''b'']" by code_simp
qed

text \<open>
  C39. The detection of quoted-printable hides the transfer encoding that the message declares.
  A base64 part is to be left out of the display; but the body of any such part that is padded
  to a line end looks quoted-printable, since its padding and the line end are a soft break,
  and what is displayed is its decoding as quoted-printable: the base64 text itself, as in the
  concrete message.
\<close>

theorem padded_base64_is_displayed:
  "decode_part headers (body @ ''='' @ [CHR 0x0D, CHR 0x0A])
      = displayed (decode_quoted_printable (body @ ''='' @ [CHR 0x0D, CHR 0x0A]))
    \<and> part_is_base64 ''Content-Type: text/plain; Content-Transfer-Encoding: base64''
    \<and> decode_part ''Content-Type: text/plain; Content-Transfer-Encoding: base64''
        (''aGVsbG8'' @ ''='' @ [CHR 0x0D, CHR 0x0A]) = ''aGVsbG8''
    \<and> decode_part ''Content-Type: text/plain; Content-Transfer-Encoding: base64'' ''aGVsbG8h'' = []"
proof (intro conjI)
  have "sublist (CHR ''='' # [CHR 0x0D, CHR 0x0A]) (body @ ''='' @ [CHR 0x0D, CHR 0x0A])"
    unfolding sublist_def by (intro exI [of _ body] exI [of _ "[]"]) simp
  then have "looks_quoted_printable (body @ ''='' @ [CHR 0x0D, CHR 0x0A])"
    by (simp add: looks_quoted_printable_def contains_str_iff)
  then show "decode_part headers (body @ ''='' @ [CHR 0x0D, CHR 0x0A])
      = displayed (decode_quoted_printable (body @ ''='' @ [CHR 0x0D, CHR 0x0A]))"
    by (simp add: decode_part_def)
qed (code_simp+)

end
