(* ===== verification/Passphrase_Prompt.thy ===== *)
theory Passphrase_Prompt
  imports Terminal_Text
begin

text \<open>
  Reading a passphrase from the terminal (\<^verbatim>\<open>apps/tersa/src/prompt.rs\<close>): the byte loop with its
  line editing, and the terminal that is silenced for it. The terminal is one reader's: the
  outcomes of its reads are a list, an exhausted list reads nothing (end of file), and every
  other call may fail, decided by its number. Wiping of memory is left out. The loop is
  compared with an editor on characters, which is what a user who types expects.
\<close>

section \<open>The byte loop\<close>

datatype io_failure = Interrupted string | OtherIo string

definition MAX_PASSPHRASE :: nat where "MAX_PASSPHRASE = 1024"
definition CTRL_C :: char where "CTRL_C = CHR 0x03"
definition CTRL_D :: char where "CTRL_D = CHR 0x04"
definition BACKSPACE :: char where "BACKSPACE = CHR 0x08"
definition DELETE :: char where "DELETE = CHR 0x7F"

definition cancelled :: io_failure where "cancelled = Interrupted ''cancelled''"

text \<open>Popping bytes up to and with the first that is no continuation byte; the last byte first.\<close>

fun pop_bytes :: "string \<Rightarrow> string" where
  "pop_bytes [] = []"
| "pop_bytes (removed # bytes) = (if byte removed div 64 \<noteq> 2 then bytes else pop_bytes bytes)"

definition pop_character :: "string \<Rightarrow> string" where
  "pop_character bytes = rev (pop_bytes (rev bytes))"

definition secret_of :: "string \<Rightarrow> io_failure + string" where
  "secret_of bytes =
     (if utf8_valid bytes then Inr bytes else Inl (OtherIo ''the passphrase is not valid UTF-8''))"

type_synonym reads = "(io_failure + char) list"

fun read_secret :: "reads \<Rightarrow> string \<Rightarrow> (io_failure + string) \<times> reads" where
  "read_secret [] bytes = (secret_of bytes, [])"
| "read_secret (Inl err # tty) bytes = (Inl err, tty)"
| "read_secret (Inr c # tty) bytes =
     (if c = CHR 0x0D \<or> c = CHR 0x0A then (secret_of bytes, tty)
      else if c = CTRL_C then (Inl cancelled, tty)
      else if c = CTRL_D \<and> bytes = [] then (Inl cancelled, tty)
      else if c = BACKSPACE \<or> c = DELETE then read_secret tty (pop_character bytes)
      else if MAX_PASSPHRASE \<le> length bytes then (Inl (OtherIo ''the passphrase is too long''), tty)
      else read_secret tty (bytes @ [c]))"

section \<open>The terminal\<close>

text \<open>
  \<open>tm_reads\<close> is what the reads of this process are going to answer. A change of the attributes
  discards the input that is pending then (\<open>OptionalActions::Flush\<close>): such bytes are never
  answered by a read, so they are not in the list, and the list is the same before and after.
\<close>

record tty_state =
  tm_silent :: bool
  tm_reads :: reads
  tm_calls :: nat

type_synonym tty_faults = "nat \<Rightarrow> io_failure option"

definition tty_call :: "tty_faults \<Rightarrow> tty_state \<Rightarrow> (io_failure + unit) \<times> tty_state" where
  "tty_call fault t =
     (case fault (tm_calls t) of Some err \<Rightarrow> Inl err | None \<Rightarrow> Inr (), t\<lparr>tm_calls := tm_calls t + 1\<rparr>)"

definition set_silent :: "tty_faults \<Rightarrow> bool \<Rightarrow> tty_state \<Rightarrow> (io_failure + unit) \<times> tty_state" where
  "set_silent fault silent t =
     (case tty_call fault t of
        (Inl err, t1) \<Rightarrow> (Inl err, t1)
      | (Inr _, t1) \<Rightarrow> (Inr (), t1\<lparr>tm_silent := silent\<rparr>))"

definition read_silently :: "tty_state \<Rightarrow> (io_failure + string) \<times> tty_state" where
  "read_silently t = (case read_secret (tm_reads t) [] of (r, rest) \<Rightarrow> (r, t\<lparr>tm_reads := rest\<rparr>))"

text \<open>Opening the terminal, writing and flushing the prompt, and reading its attributes.\<close>

fun tty_calls :: "nat \<Rightarrow> tty_faults \<Rightarrow> tty_state \<Rightarrow> (io_failure + unit) \<times> tty_state" where
  "tty_calls 0 fault t = (Inr (), t)"
| "tty_calls (Suc n) fault t =
     (case tty_call fault t of (Inl err, t1) \<Rightarrow> (Inl err, t1) | (Inr _, t1) \<Rightarrow> tty_calls n fault t1)"

text \<open>
  The attributes are put back whatever the read gave, and the line break that is written then
  is allowed to fail; a failed read is reported before a failed restoration.
\<close>

definition read_and_restore :: "tty_faults \<Rightarrow> bool \<Rightarrow> tty_state \<Rightarrow> (io_failure + string) \<times> tty_state" where
  "read_and_restore fault original t =
     (case read_silently t of (secret, t1) \<Rightarrow>
        case set_silent fault original t1 of (restored, t2) \<Rightarrow>
          (rbind secret (\<lambda>s. map_ok (\<lambda>_. s) restored), snd (tty_call fault t2)))"

definition ask_passphrase :: "tty_faults \<Rightarrow> tty_state \<Rightarrow> (io_failure + string) \<times> tty_state" where
  "ask_passphrase fault t =
     (case tty_calls 4 fault t of
        (Inl err, t1) \<Rightarrow> (Inl err, t1)
      | (Inr _, t1) \<Rightarrow>
          (case set_silent fault True t1 of
             (Inl err, t2) \<Rightarrow> (Inl err, t2)
           | (Inr _, t2) \<Rightarrow> read_and_restore fault (tm_silent t1) t2))"

text \<open>Asking again may go on forever: \<open>None\<close>.\<close>

partial_function (option) new_passphrase ::
    "tty_faults \<Rightarrow> tty_state \<Rightarrow> ((io_failure + string) \<times> tty_state) option" where
  "new_passphrase fault t =
     (case ask_passphrase fault t of
        (Inl err, t1) \<Rightarrow> Some (Inl err, t1)
      | (Inr first, t1) \<Rightarrow>
          if first = [] then new_passphrase fault t1
          else
            (case ask_passphrase fault t1 of
               (Inl err, t2) \<Rightarrow> Some (Inl err, t2)
             | (Inr second, t2) \<Rightarrow>
                 if first = second then Some (Inr first, t2) else new_passphrase fault t2))"

section \<open>Editing characters\<close>

datatype key = Typed nat | Erase char

definition key_ok :: "key \<Rightarrow> bool" where
  "key_ok k = (case k of
     Typed n \<Rightarrow> is_scalar n \<and> n \<notin> {0x03, 0x04, 0x08, 0x0A, 0x0D, 0x7F}
   | Erase c \<Rightarrow> c = BACKSPACE \<or> c = DELETE)"

fun key_bytes :: "key \<Rightarrow> string" where
  "key_bytes (Typed n) = utf8_encode1 n"
| "key_bytes (Erase c) = [c]"

text \<open>A stack of characters with a bound on their bytes; the last typed is the last.\<close>

fun edit :: "key list \<Rightarrow> nat list \<Rightarrow> nat list option" where
  "edit [] ns = Some ns"
| "edit (Typed n # ks) ns =
     (if length (utf8_encode (ns @ [n])) \<le> MAX_PASSPHRASE then edit ks (ns @ [n]) else None)"
| "edit (Erase c # ks) ns = edit ks (butlast ns)"

lemma pop_bytes_continuation:
  "(\<forall>b\<in>set bs. byte b div 64 = 2) \<Longrightarrow> byte a div 64 \<noteq> 2 \<Longrightarrow> pop_bytes (bs @ a # rest) = rest"
  by (induction bs) auto

text \<open>The first byte of a character is no continuation byte, all others are.\<close>

lemma encoded_shape:
  assumes "is_scalar n"
  shows "\<exists>a bs. utf8_encode1 n = a # bs \<and> byte a div 64 \<noteq> 2 \<and> (\<forall>b\<in>set bs. byte b div 64 = 2)"
proof -
  have cont: "byte (char_of (128 + m mod 64)) div 64 = 2" for m :: nat by simp
  have "n < 1114112" using assms by (auto simp: is_scalar_def)
  then consider "n < 128" | "128 \<le> n" "n < 2048" | "2048 \<le> n" "n < 65536" | "65536 \<le> n" "n < 1114112"
    using not_less by blast
  then show ?thesis
  proof cases
    case 2
    then have "n div 64 < 32" by auto
    then have "byte (char_of (192 + n div 64)) div 64 = 3" by simp
    with 2 cont show ?thesis by (simp add: utf8_encode1_def)
  next
    case 3
    then have "n div 4096 < 16" by auto
    then have "byte (char_of (224 + n div 4096)) div 64 = 3" by simp
    with 3 cont show ?thesis by (simp add: utf8_encode1_def)
  next
    case 4
    then have "n div 262144 < 5" by auto
    then have "byte (char_of (240 + n div 262144)) div 64 = 3" by simp
    with 4 cont show ?thesis by (simp add: utf8_encode1_def)
  qed (simp add: utf8_encode1_def)
qed

lemma pop_character_encoded: "is_scalar n \<Longrightarrow> pop_character (s @ utf8_encode1 n) = s"
proof -
  assume "is_scalar n"
  then obtain a bs where "utf8_encode1 n = a # bs" "byte a div 64 \<noteq> 2" "\<forall>b\<in>set (rev bs). byte b div 64 = 2"
    using encoded_shape by fastforce
  then show ?thesis by (simp add: pop_character_def pop_bytes_continuation)
qed

lemma pop_character_butlast: "list_all is_scalar ns \<Longrightarrow> pop_character (utf8_encode ns) = utf8_encode (butlast ns)"
  by (cases ns rule: rev_cases) (simp_all add: pop_character_def [of "[]"] utf8_encode_append pop_character_encoded)

text \<open>Ordinary bytes are pushed as long as they fit.\<close>

definition ordinary :: "char \<Rightarrow> bool" where
  "ordinary c \<longleftrightarrow> byte c \<notin> {0x03, 0x04, 0x08, 0x0A, 0x0D, 0x7F}"

lemma ordinary_chars:
  "ordinary c \<Longrightarrow> c \<notin> {CHR 0x0D, CHR 0x0A, CTRL_C, CTRL_D, BACKSPACE, DELETE}"
  by (auto simp: ordinary_def CTRL_C_def CTRL_D_def BACKSPACE_def DELETE_def)

lemma encoded_ordinary:
  assumes "key_ok (Typed n)" shows "\<forall>c\<in>set (utf8_encode1 n). ordinary c"
proof (cases "n < 128")
  case True
  then show ?thesis using assms by (simp add: utf8_encode1_def ordinary_def key_ok_def)
next
  case False
  obtain a bs where e: "utf8_encode1 n = a # bs" "\<forall>b\<in>set bs. byte b div 64 = 2"
    using assms encoded_shape [of n] by (auto simp: key_ok_def)
  have n: "n < 1114112" using assms by (auto simp: key_ok_def is_scalar_def)
  then have "n div 262144 < 5" by auto
  with n False have "128 \<le> byte (hd (utf8_encode1 n))" by (auto simp: utf8_encode1_def)
  then have "ordinary a" by (simp add: e(1) ordinary_def)
  moreover have "ordinary b" if "b \<in> set bs" for b
  proof -
    have "128 \<le> byte b" using e(2) that by auto
    then show ?thesis by (simp add: ordinary_def)
  qed
  ultimately show ?thesis by (auto simp: e(1))
qed

lemma read_ordinary:
  assumes "\<forall>c\<in>set bs. ordinary c" "length buf \<le> MAX_PASSPHRASE"
  shows "if length (buf @ bs) \<le> MAX_PASSPHRASE
    then read_secret (map Inr bs @ tty) buf = read_secret tty (buf @ bs)
    else fst (read_secret (map Inr bs @ tty) buf) = Inl (OtherIo ''the passphrase is too long'')"
  using assms
proof (induction bs arbitrary: buf)
  case (Cons c bs)
  show ?case
  proof (cases "length buf = MAX_PASSPHRASE")
    case True
    then show ?thesis using Cons.prems(1) ordinary_chars [of c] by simp
  next
    case False
    then have "length (buf @ [c]) \<le> MAX_PASSPHRASE" using Cons.prems(2) by simp
    from Cons.IH [OF _ this] show ?thesis
      using Cons.prems False ordinary_chars [of c] by simp
  qed
qed simp

lemma read_keys:
  assumes "list_all key_ok ks" "brk = CHR 0x0A \<or> brk = CHR 0x0D"
    "list_all is_scalar ns" "length (utf8_encode ns) \<le> MAX_PASSPHRASE"
  shows "case edit ks ns of
      Some ms \<Rightarrow> read_secret (map Inr (concat (map key_bytes ks) @ [brk]) @ later) (utf8_encode ns)
        = (Inr (utf8_encode ms), later)
    | None \<Rightarrow> fst (read_secret (map Inr (concat (map key_bytes ks) @ [brk]) @ later) (utf8_encode ns))
        = Inl (OtherIo ''the passphrase is too long'')"
  using assms
proof (induction ks ns rule: edit.induct)
  case (1 ns)
  then show ?case by (auto simp: secret_of_def utf8_valid_encode)
next
  case (2 n ks ns)
  let ?tty = "map Inr (concat (map key_bytes ks) @ [brk]) @ later"
  have "list_all is_scalar (ns @ [n])" using 2(2,4) by (simp add: key_ok_def)
  moreover have "utf8_encode (ns @ [n]) = utf8_encode ns @ utf8_encode1 n" by (simp add: utf8_encode_append)
  moreover have "\<forall>c\<in>set (utf8_encode1 n). ordinary c" using 2(2) encoded_ordinary [of n] by simp
  note read_ordinary [OF this 2(5), of ?tty]
  ultimately show ?case using 2 by (simp split: if_splits option.splits)
next
  case (3 c ks ns)
  have c: "c = BACKSPACE \<or> c = DELETE" using 3(2) by (simp add: key_ok_def)
  have "length (utf8_encode (butlast ns)) \<le> MAX_PASSPHRASE"
    using 3(5) by (cases ns rule: rev_cases) (auto simp: utf8_encode_append)
  moreover have "list_all is_scalar (butlast ns)" using 3(4) by (auto simp: list_all_iff dest: in_set_butlastD)
  moreover have "read_secret (Inr c # tty) (utf8_encode ns) = read_secret tty (utf8_encode (butlast ns))" for tty
    using c 3(4) by (auto simp: pop_character_butlast CTRL_C_def CTRL_D_def BACKSPACE_def DELETE_def)
  ultimately show ?case using 3 by (simp del: read_secret.simps split: option.splits)
qed

text \<open>
  C34. The byte loop edits characters. Whatever characters a user types and erases before the
  line break, what is read is what an editor on a stack of characters holds, with each erasure
  taking one whole character however many bytes it has; what follows the line break is left
  for the next read. If at some point the text exceeds 1024 bytes, the read fails for that.
\<close>

theorem passphrase_is_edited_by_characters:
  assumes "list_all key_ok ks" "brk = CHR 0x0A \<or> brk = CHR 0x0D"
  shows "case edit ks [] of
      Some ns \<Rightarrow> read_secret (map Inr (concat (map key_bytes ks) @ [brk]) @ later) []
        = (Inr (utf8_encode ns), later)
    | None \<Rightarrow> fst (read_secret (map Inr (concat (map key_bytes ks) @ [brk]) @ later) [])
        = Inl (OtherIo ''the passphrase is too long'')"
  using read_keys [OF assms, of "[]" later] unfolding utf8_encode_Nil by simp

text \<open>Two letters, a euro sign erased as a whole, an erasure too many, and a last letter.\<close>

theorem passphrase_is_edited_by_characters_witness:
  "read_secret (map Inr (concat (map key_bytes
      [Typed 97, Typed 0x20AC, Erase DELETE, Erase BACKSPACE, Erase DELETE, Typed 0xE9]) @ [CHR 0x0D]) @ [Inr CHR ''x'']) []
    = (Inr (utf8_encode [0xE9]), [Inr CHR ''x''])"
proof -
  let ?ks = "[Typed 97, Typed 0x20AC, Erase DELETE, Erase BACKSPACE, Erase DELETE, Typed 0xE9]"
  have "list_all key_ok ?ks" "edit ?ks [] = Some [0xE9]" by code_simp+
  with passphrase_is_edited_by_characters [where ks = ?ks and brk = "CHR 0x0D" and later = "[Inr CHR ''x'']"]
  show ?thesis by simp
qed

section \<open>The terminal is put back\<close>

lemma tty_call_run: "tty_call fault t = (r, t') \<Longrightarrow>
    tm_silent t' = tm_silent t \<and> tm_reads t' = tm_reads t \<and> tm_calls t' = tm_calls t + 1
    \<and> (is_ok r \<longleftrightarrow> fault (tm_calls t) = None)"
  by (auto simp: tty_call_def split: option.splits)

lemma tty_calls_run: "tty_calls n fault t = (r, t') \<Longrightarrow>
    tm_silent t' = tm_silent t \<and> tm_reads t' = tm_reads t \<and> (is_ok r \<longrightarrow> tm_calls t' = tm_calls t + n)"
  by (induction n arbitrary: t) (force split: prod.splits sum.splits dest: tty_call_run)+

lemma set_silent_run: "set_silent fault silent t = (r, t') \<Longrightarrow>
    tm_reads t' = tm_reads t \<and> tm_calls t' = tm_calls t + 1
    \<and> tm_silent t' = (if is_ok r then silent else tm_silent t) \<and> (is_ok r \<longleftrightarrow> fault (tm_calls t) = None)"
  unfolding set_silent_def by (auto split: prod.splits sum.splits dest!: tty_call_run)

lemma read_and_restore_run:
  assumes "read_and_restore fault original t = (r, t')"
  shows "(tm_silent t' = original \<or> fault (tm_calls t) \<noteq> None \<and> \<not> is_ok r)
    \<and> (\<forall>s. r = Inr s \<longrightarrow> read_secret (tm_reads t) [] = (Inr s, tm_reads t'))"
proof -
  obtain q rest where read: "read_secret (tm_reads t) [] = (q, rest)" by fastforce
  obtain u t2 where set: "set_silent fault original (t\<lparr>tm_reads := rest\<rparr>) = (u, t2)" by fastforce
  obtain v t3 where call: "tty_call fault t2 = (v, t3)" by fastforce
  have "r = rbind q (\<lambda>s. map_ok (\<lambda>_. s) u)" "t' = t3"
    using assms read set call by (simp_all add: read_and_restore_def read_silently_def)
  with set_silent_run [OF set] tty_call_run [OF call] read show ?thesis
    by (cases q; cases u) auto
qed

lemma ask_passphrase_run:
  assumes "ask_passphrase fault t = (r, t')"
  shows "(tm_silent t' = tm_silent t \<or> fault (tm_calls t + 5) \<noteq> None \<and> \<not> is_ok r)
    \<and> (\<forall>s. r = Inr s \<longrightarrow> read_secret (tm_reads t) [] = (Inr s, tm_reads t'))"
proof -
  obtain q1 t1 where 1: "tty_calls 4 fault t = (q1, t1)" by fastforce
  obtain q2 t2 where 2: "set_silent fault True t1 = (q2, t2)" by fastforce
  obtain q3 t3 where 3: "read_and_restore fault (tm_silent t1) t2 = (q3, t3)" by fastforce
  have run: "(r, t') = (case q1 of Inl err \<Rightarrow> (Inl err, t1) | Inr _ \<Rightarrow>
      case q2 of Inl err \<Rightarrow> (Inl err, t2) | Inr _ \<Rightarrow> (q3, t3))"
    using assms unfolding ask_passphrase_def 1 prod.case 2 3 by (cases q1; cases q2) simp_all
  show ?thesis
  proof (cases "is_ok q1 \<and> is_ok q2")
    case True
    then have "r = q3" "t' = t3" using run by (auto simp: is_ok_iff)
    moreover have "tm_calls t2 = tm_calls t + 5" using True tty_calls_run [OF 1] set_silent_run [OF 2] by simp
    ultimately show ?thesis
      using True tty_calls_run [OF 1] set_silent_run [OF 2] read_and_restore_run [OF 3]
      by (auto simp: add.commute [of _ 5])
  next
    case False
    then show ?thesis
      using run tty_calls_run [OF 1] set_silent_run [OF 2] by (cases q1; cases q2) auto
  qed
qed

lemma read_secret_bounded:
  "read_secret tty buf = (Inr s, rest) \<Longrightarrow> length buf \<le> MAX_PASSPHRASE \<Longrightarrow>
    utf8_valid s \<and> length s \<le> MAX_PASSPHRASE"
proof (induction tty buf rule: read_secret.induct)
  case (3 c tty bytes)
  have "length (pop_bytes s) \<le> length s" for s by (induction s) auto
  then have "length (pop_character bytes) \<le> length bytes"
    unfolding pop_character_def by (metis length_rev)
  then show ?case using 3 by (auto simp: secret_of_def split: if_splits)
qed (auto simp: secret_of_def split: if_splits)

definition read_twice :: "tty_faults \<Rightarrow> string \<Rightarrow> tty_state \<Rightarrow> bool" where
  "read_twice fault s t' \<longleftrightarrow>
     (\<exists>t1 t2. ask_passphrase fault t1 = (Inr s, t2) \<and> ask_passphrase fault t2 = (Inr s, t'))"

definition confirmed :: "tty_faults \<Rightarrow> tty_state \<Rightarrow> (io_failure + string) \<times> tty_state \<Rightarrow> bool" where
  "confirmed fault t y \<longleftrightarrow>
     (case y of
        (Inr s, t') \<Rightarrow> s \<noteq> [] \<and> tm_silent t' = tm_silent t
          \<and> read_twice fault s t'
      | (Inl _, _) \<Rightarrow> True)"

lemma new_passphrase_confirmed: "new_passphrase fault t = Some y \<Longrightarrow> confirmed fault t y"
proof (rule new_passphrase.raw_induct [where P = confirmed])
  fix rec fault t y
  assume IH: "\<And>fault t y. rec fault t = Some y \<Longrightarrow> confirmed fault t y"
  assume body: "(case ask_passphrase fault t of
      (Inl err, t1) \<Rightarrow> Some (Inl err, t1)
    | (Inr first, t1) \<Rightarrow>
        if first = [] then rec fault t1
        else case ask_passphrase fault t1 of
            (Inl err, t2) \<Rightarrow> Some (Inl err, t2)
          | (Inr second, t2) \<Rightarrow> if first = second then Some (Inr first, t2) else rec fault t2) = Some y"
  obtain q1 t1 where a: "ask_passphrase fault t = (q1, t1)" by fastforce
  obtain q2 t2 where b: "ask_passphrase fault t1 = (q2, t2)" by fastforce
  have again: "confirmed fault t y" if "rec fault t3 = Some y" "tm_silent t3 = tm_silent t" for t3
    using IH [OF that(1)] that(2) by (auto simp: confirmed_def split: sum.splits)
  note silent = ask_passphrase_run [OF a] ask_passphrase_run [OF b]
  show "confirmed fault t y"
  proof (cases q1)
    case (Inl err)
    then show ?thesis using body by (auto simp: a confirmed_def)
  next
    case (Inr first)
    show ?thesis
    proof (cases "first = [] \<or> (\<exists>second. q2 = Inr second \<and> first \<noteq> second)")
      case True
      then show ?thesis using body silent Inr by (cases "first = []"; cases q2) (auto simp: a b intro: again)
    next
      case False
      then have "read_twice fault first t2" if "q2 = Inr first"
        using a b Inr that unfolding read_twice_def by blast
      with False show ?thesis
        using body silent a b Inr by (cases q2) (auto simp: confirmed_def)
    qed
  qed
qed

text \<open>
  Typing a passphrase that fits twice, each time with a line break, is enough: whatever was
  typed and erased on the way, it is returned.
\<close>

lemma ask_passphrase_typed:
  assumes "\<forall>i. fault i = None" "read_secret (tm_reads t) [] = (Inr s, later)"
  shows "\<exists>n. ask_passphrase fault t = (Inr s, t\<lparr>tm_reads := later, tm_calls := n\<rparr>)"
  using assms
  by (simp add: ask_passphrase_def tty_call_def set_silent_def read_and_restore_def read_silently_def
      eval_nat_numeral) (rule exI, rule refl)

text \<open>
  A new passphrase is one that was read twice in a row: it is not empty, well-formed, and
  at most 1024 bytes long, and the terminal echoes again as before. The silence of the terminal
  never outlasts a read, whether it succeeds or fails, unless the call that ends it fails, and
  then no passphrase is returned. And the question is answered: on a terminal whose calls work,
  typing the same non-empty text twice returns it at once.
\<close>

theorem new_passphrase_is_confirmed:
  "(case new_passphrase fault t of
      Some (Inr s, t') \<Rightarrow> s \<noteq> [] \<and> utf8_valid s \<and> length s \<le> MAX_PASSPHRASE \<and> tm_silent t' = tm_silent t
        \<and> read_twice fault s t'
    | _ \<Rightarrow> True)
    \<and> (case ask_passphrase fault t of
        (r, t') \<Rightarrow> tm_silent t' = tm_silent t \<or> fault (tm_calls t + 5) \<noteq> None \<and> \<not> is_ok r)
    \<and> (case (read_secret (tm_reads t) [], read_secret (snd (read_secret (tm_reads t) [])) []) of
        ((Inr s, _), (Inr s', later)) \<Rightarrow>
          s = [] \<or> s \<noteq> s'
          \<or> (\<exists>n. new_passphrase (\<lambda>_. None) t = Some (Inr s, t\<lparr>tm_reads := later, tm_calls := n\<rparr>))
      | _ \<Rightarrow> True)"
  (is "?confirmed \<and> ?silence \<and> ?returns")
proof (intro conjI)
  have "utf8_valid s \<and> length s \<le> MAX_PASSPHRASE" if "ask_passphrase fault t1 = (Inr s, t2)" for s t1 t2
    using ask_passphrase_run [OF that] read_secret_bounded [of "tm_reads t1" "[]" s] by simp
  then have sound: "utf8_valid s \<and> length s \<le> MAX_PASSPHRASE" if "read_twice fault s t'" for s t'
    using that unfolding read_twice_def by blast
  show ?confirmed
  proof (cases "new_passphrase fault t")
    case (Some y)
    show ?thesis
      using new_passphrase_confirmed [OF Some] sound
      by (cases y; cases "fst y") (auto simp: Some confirmed_def)
  qed simp
  show ?silence using ask_passphrase_run by (auto split: prod.splits)
  show ?returns
  proof -
    obtain q rest q' later where reads: "read_secret (tm_reads t) [] = (q, rest)"
      "read_secret rest [] = (q', later)" by fastforce
    have "\<exists>n. new_passphrase (\<lambda>_. None) t = Some (Inr s, t\<lparr>tm_reads := later, tm_calls := n\<rparr>)"
      if s: "q = Inr s" "q' = Inr s" "s \<noteq> []" for s
    proof -
      obtain n where 1: "ask_passphrase (\<lambda>_. None) t = (Inr s, t\<lparr>tm_reads := rest, tm_calls := n\<rparr>)"
        using ask_passphrase_typed [of "\<lambda>_. None" t] reads s by auto
      obtain n' where "ask_passphrase (\<lambda>_. None) (t\<lparr>tm_reads := rest, tm_calls := n\<rparr>)
          = (Inr s, t\<lparr>tm_reads := later, tm_calls := n'\<rparr>)"
        using ask_passphrase_typed [of "\<lambda>_. None" "t\<lparr>tm_reads := rest, tm_calls := n\<rparr>"] reads s by auto
      then show ?thesis by (subst new_passphrase.simps) (simp add: 1 s(3), rule exI, rule refl)
    qed
    then show ?thesis by (auto simp: reads split: sum.splits)
  qed
qed

end
