(* ===== verification/Data_Dir.thy ===== *)
theory Data_Dir
  imports Vault_Props Passphrase_Prompt Installation
begin

text \<open>
  The data directory before an installation is open: its lock, whether it holds data, the
  registry file and its opening, and the opening of the installation
  (\<^verbatim>\<open>adapters/sync-runtime/src/installation.rs\<close>, \<^verbatim>\<open>adapters/store-sqlcipher/src/registry.rs\<close>).
  The host is what these share: the vault's slots, the terminal, the directory. Every call may
  fail, decided by its number; metadata and a lock held by another process are answers of the
  environment. SQLCipher encrypts a file under the key it is first written with, and a read
  under another key finds no database. A transaction that is not committed leaves no trace.
\<close>

section \<open>The host\<close>

record registry_file =
  rf_key :: "string option"
  rf_application_id :: int
  rf_user_version :: int
  rf_schema :: "string list"
  rf_rows :: registry_db

definition blank_registry :: registry_file where
  "blank_registry = \<lparr>rf_key = None, rf_application_id = 0, rf_user_version = 0, rf_schema = [], rf_rows = []\<rparr>"

record data_dir =
  dd_lock_file :: bool
  dd_accounts :: bool
  dd_registry :: "registry_file option"

record host =
  ho_vault :: vault_world
  ho_tty :: tty_state
  ho_dir :: "data_dir option"
  ho_calls :: nat

record host_env =
  he_vault :: vault_env
  he_reachable :: bool
  he_backend :: backend_choice
  he_passphrase :: bool
  he_data_dir :: string
  he_crypto :: crypto
  he_fills :: fills
  he_tty :: tty_faults
  he_fault :: "nat \<Rightarrow> rusqlite_error option"
  he_metadata :: "nat \<Rightarrow> dir_meta option"
  he_euid :: nat
  he_busy :: "nat \<Rightarrow> bool"

type_synonym ('e, 'a) host_op = "(host, 'e, 'a) step_op"

definition tick_host :: "host \<Rightarrow> host" where
  "tick_host h = h\<lparr>ho_calls := ho_calls h + 1\<rparr>"

definition host_call :: "host_env \<Rightarrow> (rusqlite_error \<Rightarrow> 'e) \<Rightarrow> ('e, unit) host_op" where
  "host_call env f h =
     (case he_fault env (ho_calls h) of Some err \<Rightarrow> Inl (f err) | None \<Rightarrow> Inr (), tick_host h)"

definition change_dir :: "(data_dir \<Rightarrow> data_dir) \<Rightarrow> ('e, unit) host_op" where
  "change_dir f h = (Inr (), h\<lparr>ho_dir := map_option f (ho_dir h)\<rparr>)"

definition registry_of :: "host \<Rightarrow> registry_file option" where
  "registry_of h = Option.bind (ho_dir h) dd_registry"

section \<open>Owner-only directories\<close>

definition create_data_dir :: "('e, unit) host_op" where
  "create_data_dir h =
     (Inr (), h\<lparr>ho_dir := Some (case ho_dir h of Some d \<Rightarrow> d
        | None \<Rightarrow> \<lparr>dd_lock_file = False, dd_accounts = False, dd_registry = None\<rparr>)\<rparr>)"

definition dir_metadata :: "host_env \<Rightarrow> 'e \<Rightarrow> ('e, dir_meta) host_op" where
  "dir_metadata env err h = (ok_or err (he_metadata env (ho_calls h)), tick_host h)"

text \<open>Creating a directory with its parents, and requiring or making it owner-only.\<close>

definition ensure_dir :: "host_env \<Rightarrow> 'e \<Rightarrow> ('e, unit) host_op \<Rightarrow> ('e, unit) host_op" where
  "ensure_dir env err mkdir =
     st_bind (host_call env (\<lambda>_. err)) (\<lambda>_.
     st_bind mkdir (\<lambda>_.
     st_bind (dir_metadata env err) (\<lambda>metadata.
       if \<not> dm_is_dir metadata \<or> dm_owner metadata \<noteq> he_euid env then st_result (Inl err)
       else if dm_mode metadata mod 64 \<noteq> 0 then host_call env (\<lambda>_. err)
       else st_result (Inr ()))))"

section \<open>The lock\<close>

datatype lock_error = LockBusy | LockDirectory

fun lock_error_text :: "lock_error \<Rightarrow> string" where
  "lock_error_text LockBusy = ''another tersa process is using this data directory''"
| "lock_error_text LockDirectory = ''the data directory is unusable''"

definition flock :: "host_env \<Rightarrow> (lock_error, unit) host_op" where
  "flock env h =
     (if he_busy env (ho_calls h) then (Inl LockBusy, tick_host h)
      else host_call env (\<lambda>_. LockDirectory) h)"

definition acquire_lock :: "host_env \<Rightarrow> (lock_error, unit) host_op" where
  "acquire_lock env =
     st_bind (ensure_dir env LockDirectory create_data_dir) (\<lambda>_.
     st_bind (host_call env (\<lambda>_. LockDirectory)) (\<lambda>_.
     st_bind (change_dir (\<lambda>d. d\<lparr>dd_lock_file := True\<rparr>)) (\<lambda>_.
       flock env)))"

text \<open>A failed look at the registry file counts as no data.\<close>

definition has_local_data :: "host_env \<Rightarrow> ('e, bool) host_op" where
  "has_local_data env h =
     (case host_call env (\<lambda>_. ()) h of (r, h1) \<Rightarrow> (Inr (is_ok r \<and> registry_of h \<noteq> None), h1))"

section \<open>Opening the registry\<close>

definition set_registry :: "registry_file \<Rightarrow> ('e, unit) host_op" where
  "set_registry rf = change_dir (\<lambda>d. d\<lparr>dd_registry := Some rf\<rparr>)"

definition touch_registry :: "('e, unit) host_op" where
  "touch_registry =
     change_dir (\<lambda>d. d\<lparr>dd_registry := Some (case dd_registry d of Some rf \<Rightarrow> rf | None \<Rightarrow> blank_registry)\<rparr>)"

definition registry_read :: "host_env \<Rightarrow> string \<Rightarrow> (registry_file \<Rightarrow> 'a) \<Rightarrow> (registry_error, 'a) host_op" where
  "registry_read env key look =
     st_bind (host_call env registry_classify) (\<lambda>_ h.
       (case registry_of h of
          None \<Rightarrow> Inl RE_Storage
        | Some rf \<Rightarrow>
            if rf_key rf = None \<or> rf_key rf = Some key then Inr (look rf)
            else Inl (registry_classify (SqliteFailure NotADatabase)), h))"

text \<open>Beginning, the schema, the two identifying pragmas, and the commit that makes them last.\<close>

definition registry_create :: "host_env \<Rightarrow> string \<Rightarrow> (registry_error, unit) host_op" where
  "registry_create env key =
     st_bind (host_call env (\<lambda>_. RE_Storage)) (\<lambda>_.
     st_bind (host_call env registry_classify) (\<lambda>_.
     st_bind (host_call env registry_classify) (\<lambda>_.
     st_bind (host_call env registry_classify) (\<lambda>_.
     st_bind (host_call env registry_classify) (\<lambda>_.
       set_registry \<lparr>rf_key = Some key, rf_application_id = REGISTRY_APPLICATION_ID,
         rf_user_version = REGISTRY_VERSION, rf_schema = [REGISTRY_SCHEMA], rf_rows = []\<rparr>)))))"

definition registry_open :: "host_env \<Rightarrow> string \<Rightarrow> (registry_error, unit) host_op" where
  "registry_open env key =
     st_bind (host_call env (\<lambda>_. RE_Storage)) (\<lambda>_.
     st_bind (dir_metadata env RE_Storage) (\<lambda>parent.
     if \<not> dm_is_dir parent \<or> dm_mode parent mod 64 \<noteq> 0 \<or> dm_owner parent \<noteq> he_euid env
     then st_result (Inl RE_UnsafeLocation)
     else
       st_bind (host_call env (\<lambda>_. RE_Storage)) (\<lambda>_.
       st_bind touch_registry (\<lambda>_.
       st_bind (host_call env (\<lambda>_. RE_Storage)) (\<lambda>_.
       st_bind (host_call env (\<lambda>_. RE_Storage)) (\<lambda>_.
       st_bind (host_call env registry_classify) (\<lambda>_.
       st_bind (registry_read env key rf_application_id) (\<lambda>application_id.
       st_bind (registry_read env key rf_user_version) (\<lambda>user_version.
       st_bind (host_call env registry_classify) (\<lambda>_.
       st_bind (registry_read env key (\<lambda>rf. map registry_normalize (rf_schema rf))) (\<lambda>schema.
       st_bind (st_result (registry_judge_file application_id user_version schema)) (\<lambda>fresh.
         if fresh then registry_create env key else st_result (Inr ())))))))))))))"

definition installation_open :: "host_env \<Rightarrow> root_key \<Rightarrow> (installation_error, root_key) host_op" where
  "installation_open env root =
     st_bind (ensure_dir env IE_Directory create_data_dir) (\<lambda>_.
     st_bind (ensure_dir env IE_Directory (change_dir (\<lambda>d. d\<lparr>dd_accounts := True\<rparr>))) (\<lambda>_.
     st_bind (st_result (map_err IE_Key (derive_installation_key (he_crypto env) root RegistryDatabaseV1))) (\<lambda>key.
     st_bind (st_err IE_Registry (registry_open env key)) (\<lambda>_.
       st_result (Inr root)))))"

end
