(* ===== verification/Unlocking.thy ===== *)
theory Unlocking
  imports Data_Dir
begin

text \<open>
  How a command gets at the installation (\<^verbatim>\<open>apps/tersa/src/commands.rs\<close>): it takes the lock,
  looks at the vault and at the data directory, decides whether a root key may be created,
  asks for passphrases, and opens the installation. \<open>None\<close> is a question for a new passphrase
  that is never answered. Messages to the user are left out unless they are the error.
\<close>

definition PASSPHRASE_ATTEMPTS :: nat where "PASSPHRASE_ATTEMPTS = 3"

definition NO_ACCOUNTS :: string where "NO_ACCOUNTS = ''no accounts yet; run `tersa account add`''"

datatype create_mode = CreateAllowed | CreateForbidden

datatype unlock_plan = RefuseMissingKey | NothingYet | CreateKey | UnlockPlain | UnlockWithPassphrase

definition plan_unlock :: "vault_state \<Rightarrow> bool \<Rightarrow> create_mode \<Rightarrow> unlock_plan" where
  "plan_unlock state local_data create =
     (case state of
        VaultEmpty \<Rightarrow>
          if local_data then RefuseMissingKey
          else if create = CreateForbidden then NothingYet
          else CreateKey
      | VaultUnprotected \<Rightarrow> UnlockPlain
      | VaultPassphraseProtected \<Rightarrow> UnlockWithPassphrase)"

section \<open>Parts of the host\<close>

definition on_vault :: "(vault_world, vault_error, 'a) step_op \<Rightarrow> (string, 'a) host_op" where
  "on_vault m h = (case m (ho_vault h) of (r, w) \<Rightarrow> (map_err vault_error_text r, h\<lparr>ho_vault := w\<rparr>))"

fun io_failure_text :: "io_failure \<Rightarrow> string" where
  "io_failure_text (Interrupted msg) = msg"
| "io_failure_text (OtherIo msg) = msg"

definition ask :: "host_env \<Rightarrow> (string, string) host_op" where
  "ask env h =
     (case ask_passphrase (he_tty env) (ho_tty h) of
        (r, t) \<Rightarrow> (map_err io_failure_text r, h\<lparr>ho_tty := t\<rparr>))"

definition open_vault :: "host_env \<Rightarrow> string + vault_world vault" where
  "open_vault env =
     map_err (\<lambda>err.
         if err = VE_KeyringUnavailable
         then ''no system keyring is reachable; set `[vault] backend = \"file\"` to use a passphrase-protected key file instead''
         else vault_error_text err)
       (vault_open (he_vault env) (he_reachable env) (he_backend env))"

definition newline :: string where "newline = [CHR 0x0A]"

definition missing_key_message :: "host_env \<Rightarrow> 'w vault \<Rightarrow> string" where
  "missing_key_message env v =
     ''encrypted data exists in '' @ he_data_dir env @ '', but its key is not in '' @
     (case vt_kind v of SlotKeyring \<Rightarrow> ''the system keyring'' | SlotFile \<Rightarrow> ''the passphrase-protected key file'') @
     ''.'' @ newline @
     ''- If the system keyring is temporarily unavailable (for example over SSH without a Secret Service session), make it available and retry; set `[vault] backend = \"keyring\"` to stop falling back to a key file.'' @ newline @
     ''- If the key was created in a passphrase-protected key file (for example on a host without a keyring), set `[vault] backend = \"file\"`.'' @ newline @
     ''- If the key was deleted, this data cannot be decrypted: move '' @ he_data_dir env @
     '' aside and run `tersa account add` again.''"

definition take_lock :: "host_env \<Rightarrow> (string, unit) host_op" where
  "take_lock env = st_err lock_error_text (acquire_lock env)"

text \<open>Only a data directory that is known to be absent is passed over.\<close>

definition lock_existing :: "host_env \<Rightarrow> (string, unit option) host_op" where
  "lock_existing env h =
     (case host_call env (\<lambda>_. ()) h of
        (r, h1) \<Rightarrow>
          if is_ok r \<and> ho_dir h = None then (Inr None, h1)
          else st_bind (take_lock env) (\<lambda>_. st_result (Inr (Some ()))) h1)"

section \<open>Unlocking\<close>

fun unlock_attempts :: "host_env \<Rightarrow> vault_world vault \<Rightarrow> nat \<Rightarrow> (string, root_key) host_op" where
  "unlock_attempts env v 0 = st_result (Inl ''too many wrong passphrases'')"
| "unlock_attempts env v (Suc n) =
     st_bind (ask env) (\<lambda>passphrase h.
       case vault_unlock (he_crypto env) v (Some passphrase) (ho_vault h) of
         (Inr root, w) \<Rightarrow> (Inr root, h\<lparr>ho_vault := w\<rparr>)
       | (Inl VE_WrongPassphrase, w) \<Rightarrow> unlock_attempts env v n (h\<lparr>ho_vault := w\<rparr>)
       | (Inl other, w) \<Rightarrow> (Inl (vault_error_text other), h\<lparr>ho_vault := w\<rparr>))"

definition create_key :: "host_env \<Rightarrow> vault_world vault \<Rightarrow> string option \<Rightarrow> (string, root_key) host_op" where
  "create_key env v passphrase = on_vault (vault_create (he_crypto env) v (he_fills env) passphrase)"

text \<open>Creating a key, with a new passphrase for a key file or where the configuration asks for one.\<close>

definition create_first_key ::
    "host_env \<Rightarrow> vault_world vault \<Rightarrow> host \<Rightarrow> ((string + root_key) \<times> host) option" where
  "create_first_key env v h =
     (if vt_kind v = SlotFile \<or> he_passphrase env then
        map_option (\<lambda>(answer, t).
            st_bind (st_result (map_err io_failure_text answer)) (\<lambda>p. create_key env v (Some p)) (h\<lparr>ho_tty := t\<rparr>))
          (new_passphrase (he_tty env) (ho_tty h))
      else Some (create_key env v None h))"

definition root_for ::
    "host_env \<Rightarrow> vault_world vault \<Rightarrow> unlock_plan \<Rightarrow> host \<Rightarrow> ((string + root_key) \<times> host) option" where
  "root_for env v plan h =
     (case plan of
        CreateKey \<Rightarrow> create_first_key env v h
      | UnlockPlain \<Rightarrow> Some (on_vault (vault_unlock (he_crypto env) v None) h)
      | UnlockWithPassphrase \<Rightarrow> Some (unlock_attempts env v PASSPHRASE_ATTEMPTS h)
      | _ \<Rightarrow> Some (Inl (missing_key_message env v), h))"

definition look_at_vault :: "host_env \<Rightarrow> create_mode \<Rightarrow> (string, vault_world vault \<times> unlock_plan) host_op" where
  "look_at_vault env create =
     st_bind (st_result (open_vault env)) (\<lambda>v.
     st_bind (on_vault (vault_state_of v)) (\<lambda>state.
     st_bind (has_local_data env) (\<lambda>local_data.
       st_result (Inr (v, plan_unlock state local_data create)))))"

definition open_with :: "host_env \<Rightarrow> root_key \<Rightarrow> (string, root_key option) host_op" where
  "open_with env root =
     st_bind (st_err installation_error_text (installation_open env root)) (\<lambda>opened. st_result (Inr (Some opened)))"

definition unlock ::
    "host_env \<Rightarrow> create_mode \<Rightarrow> host \<Rightarrow> ((string + root_key option) \<times> host) option" where
  "unlock env create h =
     (case look_at_vault env create h of
        (Inl err, h1) \<Rightarrow> Some (Inl err, h1)
      | (Inr (v, plan), h1) \<Rightarrow>
          if plan = NothingYet then Some (Inr None, h1)
          else map_option (\<lambda>(root, h2). st_bind (st_result root) (open_with env) h2) (root_for env v plan h1))"

section \<open>Commands\<close>

definition open_existing :: "host_env \<Rightarrow> host \<Rightarrow> ((string + root_key option) \<times> host) option" where
  "open_existing env h =
     (case lock_existing env h of
        (Inl err, h1) \<Rightarrow> Some (Inl err, h1)
      | (Inr None, h1) \<Rightarrow> Some (Inr None, h1)
      | (Inr (Some _), h1) \<Rightarrow> unlock env CreateForbidden h1)"

definition require_installation :: "host_env \<Rightarrow> host \<Rightarrow> ((string + root_key) \<times> host) option" where
  "require_installation env h =
     map_option (\<lambda>(r, h1). (rbind r (ok_or NO_ACCOUNTS), h1)) (open_existing env h)"

text \<open>The beginning of \<open>account_add\<close>, the only command that may create an installation.\<close>

definition initialize :: "host_env \<Rightarrow> host \<Rightarrow> ((string + root_key) \<times> host) option" where
  "initialize env h =
     (case take_lock env h of
        (Inl err, h1) \<Rightarrow> Some (Inl err, h1)
      | (Inr _, h1) \<Rightarrow>
          map_option (\<lambda>(r, h2). (rbind r (ok_or ''could not initialize local storage''), h2))
            (unlock env CreateAllowed h1))"

end
