(* ===== verification/Unlocking_Props.thy ===== *)
theory Unlocking_Props
  imports Unlocking
begin

text \<open>
  When a root key is created, and that nothing else that unlocking does costs a key or a
  registry: the guards of the command line, the vault, the lock and the registry composed.
\<close>

section \<open>Frames\<close>

named_theorems host_frames

declare step_leaves_bind [host_frames] step_leaves_result [host_frames] step_leaves_err [host_frames]

lemma leaves_if [host_frames]: "leaves look m \<Longrightarrow> leaves look n \<Longrightarrow> leaves look (if c then m else n)"
  by simp

lemma host_calls_leave [host_frames]:
  "leaves ho_vault (host_call env f)" "leaves ho_tty (host_call env f)" "leaves ho_dir (host_call env f)"
  "leaves ho_vault (dir_metadata env e)" "leaves ho_tty (dir_metadata env e)" "leaves ho_dir (dir_metadata env e)"
  by (simp_all add: leaves_def host_call_def dir_metadata_def tick_host_def)

lemma dir_changes_leave [host_frames]:
  "leaves ho_vault (change_dir f)" "leaves ho_tty (change_dir f)"
  "leaves ho_vault create_data_dir" "leaves ho_tty create_data_dir"
  by (simp_all add: leaves_def change_dir_def create_data_dir_def)

lemma ensure_dir_leaves [host_frames]:
  "leaves ho_vault mkdir \<Longrightarrow> leaves ho_vault (ensure_dir env e mkdir)"
  "leaves ho_tty mkdir \<Longrightarrow> leaves ho_tty (ensure_dir env e mkdir)"
  unfolding ensure_dir_def by (intro host_frames | assumption)+

lemma registry_read_leaves [host_frames]:
  "leaves ho_vault (registry_read env key look)" "leaves ho_dir (registry_read env key look)"
  unfolding registry_read_def by (intro host_frames; simp add: leaves_def)+

lemma registry_open_leaves [host_frames]: "leaves ho_vault (registry_open env key)"
  unfolding registry_open_def registry_create_def touch_registry_def set_registry_def
  by (intro host_frames)

lemma installation_open_leaves [host_frames]: "leaves ho_vault (installation_open env root)"
  unfolding installation_open_def by (intro host_frames)

lemma flock_leaves [host_frames]: "leaves ho_vault (flock env)" "leaves ho_tty (flock env)" "leaves ho_dir (flock env)"
  by (simp_all add: leaves_def flock_def host_call_def tick_host_def)

lemma acquire_lock_leaves [host_frames]:
  "leaves ho_vault (acquire_lock env)" "leaves ho_tty (acquire_lock env)"
  unfolding acquire_lock_def by (intro host_frames)+

lemma take_lock_leaves [host_frames]: "leaves ho_vault (take_lock env)" "leaves ho_tty (take_lock env)"
  unfolding take_lock_def by (intro host_frames)+

text \<open>What a data directory holds beside the lock file; an absent one holds nothing.\<close>

definition files_of :: "host \<Rightarrow> bool \<times> registry_file option" where
  "files_of h = (case ho_dir h of None \<Rightarrow> (False, None) | Some d \<Rightarrow> (dd_accounts d, dd_registry d))"

lemma files_cong: "ho_dir h' = ho_dir h \<Longrightarrow> files_of h' = files_of h"
  by (simp add: files_of_def)

lemma files_left: "leaves ho_dir m \<Longrightarrow> leaves files_of m"
  by (simp add: leaves_def files_of_def)

lemma registry_in_files: "registry_of h = snd (files_of h)"
  by (simp add: files_of_def registry_of_def split: option.split)

lemma take_lock_leaves_files: "leaves files_of (take_lock env)"
proof -
  have "leaves files_of create_data_dir" "leaves files_of (change_dir (\<lambda>d. d\<lparr>dd_lock_file := b\<rparr>))" for b
    by (auto simp: leaves_def files_of_def create_data_dir_def change_dir_def split: option.split)
  then show ?thesis
    unfolding take_lock_def acquire_lock_def ensure_dir_def
    by (intro host_frames files_left [OF host_calls_leave(3)] files_left [OF host_calls_leave(6)]
        files_left [OF flock_leaves(3)] | assumption)+
qed

section \<open>A registry is never lost\<close>

text \<open>A step that keeps whatever file was made a registry.\<close>

definition keeps_registry :: "('e, 'a) host_op \<Rightarrow> bool" where
  "keeps_registry m \<longleftrightarrow> (\<forall>h rf. registry_of h = Some rf \<longrightarrow> rf_application_id rf \<noteq> 0 \<longrightarrow>
     registry_of (snd (m h)) = Some rf)"

named_theorems registry_frames

lemma registry_bind [registry_frames]:
  assumes "keeps_registry m" "\<And>a. keeps_registry (f a)" shows "keeps_registry (st_bind m f)"
  unfolding keeps_registry_def
proof (intro allI impI)
  fix h rf
  assume rf: "registry_of h = Some rf" "rf_application_id rf \<noteq> 0"
  obtain q h1 where m: "m h = (q, h1)" by fastforce
  then have "registry_of h1 = Some rf" using assms(1) rf unfolding keeps_registry_def by (metis snd_conv)
  with m rf assms(2) show "registry_of (snd (st_bind m f h)) = Some rf"
    by (cases q) (simp_all add: st_bind_def keeps_registry_def)
qed

lemma keeps_leaves: "leaves ho_dir m \<Longrightarrow> keeps_registry m"
  by (simp add: keeps_registry_def leaves_def registry_of_def)

lemma keeps_result: "(\<And>a. r = Inr a \<Longrightarrow> keeps_registry (f a)) \<Longrightarrow> keeps_registry (st_bind (st_result r) f)"
  by (cases r) (auto simp: keeps_registry_def st_bind_def st_result_def)

lemma keeps_simple [registry_frames]:
  "keeps_registry (host_call env f)" "keeps_registry (dir_metadata env e)" "keeps_registry (st_result r)"
  "keeps_registry (registry_read env key look)" "keeps_registry (flock env)"
  by (intro keeps_leaves host_frames)+

lemma keeps_changes [registry_frames]:
  "keeps_registry create_data_dir" "keeps_registry touch_registry"
  "keeps_registry (change_dir (\<lambda>d. d\<lparr>dd_lock_file := b\<rparr>))" "keeps_registry (change_dir (\<lambda>d. d\<lparr>dd_accounts := b\<rparr>))"
  by (auto simp: keeps_registry_def create_data_dir_def touch_registry_def change_dir_def registry_of_def
      split: option.splits bind_splits)

lemma registry_if [registry_frames]: "keeps_registry m \<Longrightarrow> keeps_registry n \<Longrightarrow> keeps_registry (if c then m else n)"
  by simp

lemma keeps_err [registry_frames]: "keeps_registry m \<Longrightarrow> keeps_registry (st_err g m)"
  by (simp add: keeps_registry_def st_err_def)

lemma ensure_dir_keeps [registry_frames]: "keeps_registry mkdir \<Longrightarrow> keeps_registry (ensure_dir env e mkdir)"
  unfolding ensure_dir_def by (intro registry_frames | assumption)+

text \<open>What is read as a registry's identifier is its own, so a registry is not created anew.\<close>

lemma keeps_identified:
  assumes "\<And>a. a \<noteq> 0 \<Longrightarrow> keeps_registry (f a)"
  shows "keeps_registry (st_bind (registry_read env key rf_application_id) f)"
  unfolding keeps_registry_def
proof (intro allI impI)
  fix h rf
  assume rf: "registry_of h = Some rf" "rf_application_id rf \<noteq> 0"
  obtain q h1 where m: "registry_read env key rf_application_id h = (q, h1)" by fastforce
  have h1: "registry_of h1 = Some rf"
    using keeps_simple(4) rf m unfolding keeps_registry_def by (metis snd_conv)
  have "a = rf_application_id rf" if "q = Inr a" for a
    using m that rf h1 unfolding registry_read_def by (auto elim!: st_bind_cases split: option.splits if_splits)
  with m rf h1 assms show "registry_of (snd (st_bind (registry_read env key rf_application_id) f h)) = Some rf"
    by (cases q) (auto simp: st_bind_def keeps_registry_def)
qed

lemma registry_open_keeps [registry_frames]: "keeps_registry (registry_open env key)"
proof -
  have judged: "keeps_registry (st_bind (st_result (registry_judge_file a u s))
      (\<lambda>fresh. if fresh then registry_create env key else st_result (Inr ())))" if "a \<noteq> 0" for a u s
  proof (rule keeps_result)
    fix fresh
    assume "registry_judge_file a u s = Inr fresh"
    then have "\<not> fresh" using that by (auto simp: registry_judge_file_def split: if_splits)
    then show "keeps_registry (if fresh then registry_create env key else st_result (Inr ()))"
      by (simp add: keeps_simple)
  qed
  note steps = registry_bind [OF keeps_simple(1)] registry_bind [OF keeps_simple(2)] registry_bind [OF keeps_changes(2)]
    registry_if keeps_simple(3)
  show ?thesis
    unfolding registry_open_def
    by (intro steps keeps_identified, intro steps registry_bind [OF keeps_simple(4)], rule judged)
qed

lemma installation_open_keeps [registry_frames]: "keeps_registry (installation_open env root)"
  unfolding installation_open_def by (intro registry_frames)

section \<open>The key in the slot\<close>

text \<open>What the slot that the configuration chooses holds, and what a key in it opens to.\<close>

definition stored_key :: "host_env \<Rightarrow> host \<Rightarrow> string option" where
  "stored_key env h =
     (case open_vault env of Inl _ \<Rightarrow> None | Inr v \<Rightarrow> slot_content (vt_kind v) (ho_vault h))"

definition opens_to :: "host_env \<Rightarrow> host \<Rightarrow> root_key \<Rightarrow> bool" where
  "opens_to env h root \<longleftrightarrow>
     (\<exists>passphrase content. stored_key env h = Some content
        \<and> open_content (he_crypto env) passphrase content = Inr root)"

lemma stored_key_cong: "ho_vault h' = ho_vault h \<Longrightarrow> stored_key env h' = stored_key env h"
  by (cases "open_vault env") (simp_all add: stored_key_def)

lemma stored_key_leaves: "leaves ho_vault m \<Longrightarrow> m h = (r, h') \<Longrightarrow> stored_key env h' = stored_key env h"
  by (rule stored_key_cong) (rule leavesD)

lemma opens_to_leaves: "leaves ho_vault m \<Longrightarrow> m h = (r, h') \<Longrightarrow> opens_to env h root \<Longrightarrow> opens_to env h' root"
  by (simp add: opens_to_def stored_key_leaves)

lemma opened_vault:
  assumes "open_vault env = Inr v"
  obtains kind where "v = vault_with_slot (system_slot (he_vault env) kind) kind default_params"
    "\<And>h. stored_key env h = slot_content kind (ho_vault h)"
proof -
  have "vault_open (he_vault env) (he_reachable env) (he_backend env) = Inr v"
    using assms by (simp add: open_vault_def)
  then obtain kind where "v = system_vault (he_vault env) kind default_params" using vault_open_system by blast
  then have v: "v = vault_with_slot (system_slot (he_vault env) kind) kind default_params"
    by (simp add: system_vault_def)
  then have "stored_key env h = slot_content kind (ho_vault h)" for h
    using assms by (simp add: stored_key_def vault_with_slot_def)
  with v show thesis by (rule that)
qed

text \<open>What every operation on the vault promises here.\<close>

definition vault_safe :: "host_env \<Rightarrow> bool \<Rightarrow> host \<Rightarrow> (string + root_key) \<times> host \<Rightarrow> bool" where
  "vault_safe env create h y \<longleftrightarrow>
     (case y of (r, h') \<Rightarrow>
        (stored_key env h' = stored_key env h \<or> create \<and> stored_key env h = None)
        \<and> ho_dir h' = ho_dir h
        \<and> (case r of Inr root \<Rightarrow> opens_to env h' root | Inl _ \<Rightarrow> True))"

lemma unlock_once:
  assumes "open_vault env = Inr v" "vault_unlock (he_crypto env) v passphrase (ho_vault h) = (r, w)"
  shows "stored_key env (h\<lparr>ho_vault := w\<rparr>) = stored_key env h"
    "r = Inr root \<Longrightarrow> opens_to env (h\<lparr>ho_vault := w\<rparr>) root"
proof -
  obtain kind where v: "v = vault_with_slot (system_slot (he_vault env) kind) kind default_params"
    "\<And>h. stored_key env h = slot_content kind (ho_vault h)" using opened_vault [OF assms(1)] by blast
  note run = sys.unlock_run [OF assms(2) [unfolded v(1)]]
  show "stored_key env (h\<lparr>ho_vault := w\<rparr>) = stored_key env h" using run(1) by (simp add: v(2))
  show "opens_to env (h\<lparr>ho_vault := w\<rparr>) root" if "r = Inr root"
    using run(1) run(2) [OF that] by (auto simp: opens_to_def v(2))
qed

lemma unlock_safe:
  assumes "open_vault env = Inr v"
  shows "vault_safe env b h (on_vault (vault_unlock (he_crypto env) v passphrase) h)"
proof -
  obtain r w where run: "vault_unlock (he_crypto env) v passphrase (ho_vault h) = (r, w)" by fastforce
  then show ?thesis
    using unlock_once [OF assms run]
    by (cases r) (simp_all add: on_vault_def vault_safe_def registry_of_def)
qed

lemma create_safe:
  assumes "open_vault env = Inr v" shows "vault_safe env True h (create_key env v passphrase h)"
proof -
  obtain kind where v: "v = vault_with_slot (system_slot (he_vault env) kind) kind default_params"
    "\<And>h. stored_key env h = slot_content kind (ho_vault h)" using opened_vault [OF assms(1)] by blast
  obtain r w where run: "vault_create (he_crypto env) v (he_fills env) passphrase (ho_vault h) = (r, w)"
    by fastforce
  from sys.create_run [OF run [unfolded v(1)]] show ?thesis
    by (cases r) (auto simp: create_key_def on_vault_def run vault_safe_def opens_to_def v(2) registry_of_def)
qed

lemma ask_run: "ask env h = (r, h') \<Longrightarrow> ho_vault h' = ho_vault h \<and> ho_dir h' = ho_dir h"
  by (auto simp: ask_def split: prod.splits)

lemma vault_safe_cong:
  assumes "vault_safe env b h1 y" "ho_vault h1 = ho_vault h" "ho_dir h1 = ho_dir h"
  shows "vault_safe env b h y"
  using assms stored_key_cong [OF assms(2)] by (simp add: vault_safe_def registry_of_def split: prod.splits)

lemma attempts_safe:
  assumes "open_vault env = Inr v" shows "vault_safe env b h (unlock_attempts env v n h)"
proof (induction n arbitrary: h)
  case 0
  then show ?case by (simp add: st_result_def vault_safe_def)
next
  case (Suc n)
  obtain p h1 where asked: "ask env h = (p, h1)" by fastforce
  note h1 = ask_run [OF asked]
  have "vault_safe env b h1 (unlock_attempts env v (Suc n) h)"
  proof (cases p)
    case (Inl err)
    then show ?thesis using asked by (simp add: st_bind_def vault_safe_def)
  next
    case (Inr passphrase)
    obtain r w where run: "vault_unlock (he_crypto env) v (Some passphrase) (ho_vault h1) = (r, w)" by fastforce
    note once = unlock_once [OF assms run]
    have again: "vault_safe env b h1 (unlock_attempts env v n (h1\<lparr>ho_vault := w\<rparr>))"
      using Suc [of "h1\<lparr>ho_vault := w\<rparr>"] once(1) by (simp add: vault_safe_def registry_of_def split: prod.splits)
    show ?thesis
    proof (cases r)
      case (Inr root)
      then show ?thesis
        using asked \<open>p = _\<close> run once by (simp add: st_bind_def vault_safe_def registry_of_def)
    next
      case (Inl err)
      then show ?thesis
        using asked \<open>p = _\<close> run once(1) again
        by (cases err) (simp_all add: st_bind_def vault_safe_def registry_of_def)
    qed
  qed
  then show ?case by (rule vault_safe_cong) (use h1 in simp_all)
qed

lemma root_for_safe:
  assumes "open_vault env = Inr v" "root_for env v plan h = Some y"
  shows "vault_safe env (plan = CreateKey) h y"
proof (cases "plan = CreateKey")
  case True
  have first: "create_first_key env v h = Some y" using assms(2) True by (simp add: root_for_def)
  have typed: "vault_safe env True h (st_bind (st_result (map_err io_failure_text answer))
      (\<lambda>p. create_key env v (Some p)) (h\<lparr>ho_tty := t\<rparr>))" for answer t
  proof (cases answer)
    case (Inl err)
    then show ?thesis
      using stored_key_cong [of "h\<lparr>ho_tty := t\<rparr>" h]
      by (simp add: st_bind_def st_result_def vault_safe_def registry_of_def)
  next
    case (Inr p)
    have "vault_safe env True (h\<lparr>ho_tty := t\<rparr>) (create_key env v (Some p) (h\<lparr>ho_tty := t\<rparr>))"
      by (rule create_safe [OF assms(1)])
    then show ?thesis using vault_safe_cong by (simp add: Inr st_bind_def st_result_def)
  qed
  show ?thesis
    using first typed create_safe [OF assms(1)] True
    by (auto simp: create_first_key_def split: if_splits)
next
  case False
  have "vault_safe env b h (Inl err, h)" for b err by (simp add: vault_safe_def)
  then show ?thesis
    using False assms(2) unlock_safe [OF assms(1)] attempts_safe [OF assms(1)]
    by (cases plan) (auto simp: root_for_def)
qed

section \<open>Unlocking\<close>

text \<open>The look for local data finds none: there is no registry file, or the look fails.\<close>

definition no_data_seen :: "host_env \<Rightarrow> host \<Rightarrow> bool" where
  "no_data_seen env h \<longleftrightarrow> registry_of h = None \<or> he_fault env (ho_calls h) \<noteq> None"

lemma no_data_seen_iff: "no_data_seen env h \<longleftrightarrow> fst (has_local_data env h) = (Inr False :: string + bool)"
  by (auto simp: no_data_seen_def has_local_data_def host_call_def split: option.splits)

lemma has_local_data_run: "has_local_data env h = (r, h') \<Longrightarrow>
    h' = tick_host h \<and> r = Inr (he_fault env (ho_calls h) = None \<and> registry_of h \<noteq> None)"
  by (auto simp: has_local_data_def host_call_def split: option.splits prod.splits)

lemma vault_looked_at:
  assumes "open_vault env = Inr v" "on_vault (vault_state_of v) h = (r, h')"
  shows "stored_key env h' = stored_key env h" "ho_dir h' = ho_dir h" "ho_calls h' = ho_calls h"
    "r = Inr VaultEmpty \<Longrightarrow> stored_key env h = None"
proof -
  obtain kind where v: "v = vault_with_slot (system_slot (he_vault env) kind) kind default_params"
    "\<And>h. stored_key env h = slot_content kind (ho_vault h)" using opened_vault [OF assms(1)] by blast
  obtain q w where run: "vault_state_of v (ho_vault h) = (q, w)" by fastforce
  note slot = sys.state_run [OF run [unfolded v(1)]]
  have h': "h' = h\<lparr>ho_vault := w\<rparr>" "r = map_err vault_error_text q"
    using assms(2) run by (simp_all add: on_vault_def)
  show "stored_key env h' = stored_key env h" "ho_dir h' = ho_dir h" "ho_calls h' = ho_calls h"
    using slot(1) by (simp_all add: h'(1) v(2))
  show "stored_key env h = None" if "r = Inr VaultEmpty"
    using slot(2) that by (simp add: h'(2) v(2))
qed

lemma look_at_vault_run:
  assumes "look_at_vault env create h = (r, h')"
  shows "stored_key env h' = stored_key env h" "ho_dir h' = ho_dir h"
    "r = Inr (v, plan) \<Longrightarrow> open_vault env = Inr v
      \<and> (plan = CreateKey \<longrightarrow> create = CreateAllowed \<and> stored_key env h = None
          \<and> (registry_of h = None \<or> he_fault env (ho_calls h) \<noteq> None))
      \<and> (plan = NothingYet \<longrightarrow> create = CreateForbidden \<and> stored_key env h = None)"
proof -
  have "stored_key env h' = stored_key env h \<and> ho_dir h' = ho_dir h \<and>
    (r = Inr (v, plan) \<longrightarrow> open_vault env = Inr v
      \<and> (plan = CreateKey \<longrightarrow> create = CreateAllowed \<and> stored_key env h = None
          \<and> (registry_of h = None \<or> he_fault env (ho_calls h) \<noteq> None))
      \<and> (plan = NothingYet \<longrightarrow> create = CreateForbidden \<and> stored_key env h = None))"
  proof (cases "open_vault env")
    case (Inl err)
    then show ?thesis using assms by (auto simp: look_at_vault_def st_bind_def st_result_def)
  next
    case (Inr u)
    obtain q h1 where state: "on_vault (vault_state_of u) h = (q, h1)" by fastforce
    note s = vault_looked_at [OF Inr state]
    show ?thesis
    proof (cases q)
      case (Inl err)
      then show ?thesis
        using assms s \<open>open_vault env = _\<close> by (auto simp: look_at_vault_def st_bind_def st_result_def state)
    next
      case (Inr state)
      obtain l :: "string + bool" and h2 where looked: "has_local_data env h1 = (l, h2)" by fastforce
      note l = has_local_data_run [OF this]
      have reg: "registry_of h1 = registry_of h" using s(2) by (simp add: registry_of_def)
      have run: "h' = tick_host h1" "r = Inr (u, plan_unlock state
          (he_fault env (ho_calls h) = None \<and> registry_of h \<noteq> None) create)"
        using assms l reg s(3) \<open>open_vault env = _\<close> Inr looked
        by (simp_all add: look_at_vault_def st_bind_def st_result_def \<open>on_vault _ h = _\<close>)
      have "stored_key env h' = stored_key env h" "ho_dir h' = ho_dir h"
        using s stored_key_cong [of "tick_host h1" h1] by (simp_all add: run(1) tick_host_def)
      then show ?thesis
        using s(4) Inr run(2) \<open>open_vault env = _\<close>
        by (cases state; cases create) (auto simp: plan_unlock_def split: if_splits)
    qed
  qed
  then show "stored_key env h' = stored_key env h" "ho_dir h' = ho_dir h"
    "r = Inr (v, plan) \<Longrightarrow> open_vault env = Inr v
      \<and> (plan = CreateKey \<longrightarrow> create = CreateAllowed \<and> stored_key env h = None
          \<and> (registry_of h = None \<or> he_fault env (ho_calls h) \<noteq> None))
      \<and> (plan = NothingYet \<longrightarrow> create = CreateForbidden \<and> stored_key env h = None)"
    by blast+
qed

text \<open>Opening the installation with a key that the slot opens to.\<close>

lemma open_with_run:
  assumes "open_with env root h = (r, h')"
  shows "stored_key env h' = stored_key env h"
    "r = Inr o1 \<Longrightarrow> o1 = Some root"
    "registry_of h = Some rf \<Longrightarrow> rf_application_id rf \<noteq> 0 \<Longrightarrow> registry_of h' = Some rf"
proof -
  have "leaves ho_vault (open_with env root)" unfolding open_with_def by (intro host_frames)
  then show "stored_key env h' = stored_key env h" using assms by (rule stored_key_leaves)
  have "keeps_registry (open_with env root)" unfolding open_with_def by (intro registry_frames)
  then show "registry_of h' = Some rf" if "registry_of h = Some rf" "rf_application_id rf \<noteq> 0"
    using that assms unfolding keeps_registry_def by (metis snd_conv)
  show "r = Inr o1 \<Longrightarrow> o1 = Some root"
    using assms unfolding open_with_def installation_open_def
    by (auto elim!: st_bind_cases simp: st_err_iff)
qed

definition unlocked_safely :: "host_env \<Rightarrow> bool \<Rightarrow> host \<Rightarrow> (string + root_key option) \<times> host \<Rightarrow> bool" where
  "unlocked_safely env create h y \<longleftrightarrow>
     (case y of (r, h') \<Rightarrow>
        (stored_key env h' = stored_key env h \<or> create \<and> stored_key env h = None)
        \<and> (\<forall>rf. registry_of h = Some rf \<longrightarrow> rf_application_id rf \<noteq> 0 \<longrightarrow> registry_of h' = Some rf)
        \<and> (case r of Inr (Some root) \<Rightarrow> opens_to env h' root
           | Inr None \<Rightarrow> stored_key env h = None \<and> stored_key env h' = None | Inl _ \<Rightarrow> True)
        \<and> (stored_key env h' = None \<longrightarrow> ho_dir h' = ho_dir h))"

lemma opened_safely:
  assumes "vault_safe env b h (q, h2)"
  shows "unlocked_safely env b h (st_bind (st_result q) (open_with env) h2)"
proof (cases q)
  case (Inl err)
  then show ?thesis
    using assms by (auto simp: vault_safe_def unlocked_safely_def st_bind_def st_result_def registry_of_def)
next
  case (Inr root)
  have reg: "registry_of h2 = registry_of h" using assms by (simp add: vault_safe_def registry_of_def)
  obtain r h3 where run: "open_with env root h2 = (r, h3)" by fastforce
  have "opens_to env h3 root" if "opens_to env h2 root"
    using that open_with_run(1) [OF run] by (simp add: opens_to_def)
  then have "case r of Inr (Some k) \<Rightarrow> opens_to env h3 k | Inr None \<Rightarrow> False | Inl _ \<Rightarrow> True"
    using assms open_with_run(2) [OF run] Inr by (auto simp: vault_safe_def split: sum.splits option.splits)
  moreover have "stored_key env h3 \<noteq> None"
    using assms open_with_run(1) [OF run] Inr by (auto simp: vault_safe_def opens_to_def)
  ultimately show ?thesis
    using assms open_with_run(1,3) [OF run] Inr run reg
    by (auto simp: vault_safe_def unlocked_safely_def st_bind_def st_result_def split: sum.splits option.splits)
qed

lemma unlocking_run:
  assumes "unlock env create h = Some y"
  shows "unlocked_safely env (create = CreateAllowed
    \<and> (registry_of h = None \<or> he_fault env (ho_calls h) \<noteq> None)) h y"
  (is "unlocked_safely env ?b h y")
proof -
  obtain q h1 where looked: "look_at_vault env create h = (q, h1)" by fastforce
  note look = look_at_vault_run [OF looked]
  have reg: "registry_of h1 = registry_of h" using look(2) by (simp add: registry_of_def)
  show ?thesis
  proof (cases q)
    case (Inl err)
    then show ?thesis using assms look reg by (auto simp: unlock_def looked unlocked_safely_def)
  next
    case (Inr p)
    obtain v plan where p: "p = (v, plan)" by fastforce
    note seen = look(3) [OF Inr [unfolded p]]
    show ?thesis
    proof (cases "plan = NothingYet")
      case True
      then have "y = (Inr None, h1)" using assms by (simp add: unlock_def looked Inr p)
      then show ?thesis using True look(1,2) reg seen by (auto simp: unlocked_safely_def)
    next
      case False
      then obtain root h2 where run: "root_for env v plan h1 = Some (root, h2)"
        "y = st_bind (st_result root) (open_with env) h2"
        using assms by (auto simp: unlock_def looked Inr p)
      have "vault_safe env (plan = CreateKey) h1 (root, h2)"
        using root_for_safe [OF _ run(1)] seen by blast
      then have "vault_safe env ?b h (root, h2)"
        using seen look(1,2) by (auto simp: vault_safe_def)
      then show ?thesis unfolding run(2) by (rule opened_safely)
    qed
  qed
qed

lemma unlock_None:
  assumes None: "unlock env create h = None" shows "create = CreateAllowed"
proof -
  obtain q h1 where looked: "look_at_vault env create h = (q, h1)" by fastforce
  show ?thesis
  proof (cases q)
    case (Inl err)
    then show ?thesis using None by (simp add: unlock_def looked)
  next
    case (Inr p)
    obtain v plan where p: "p = (v, plan)" by fastforce
    have "plan = CreateKey"
      using None by (cases plan) (auto simp: unlock_def looked Inr p root_for_def)
    then show ?thesis using look_at_vault_run(3) [OF looked Inr [unfolded p]] by blast
  qed
qed

text \<open>
  C10. Unlocking never costs a key. If the slot of the vault changes at all, a command that may
  create was run, the slot was empty, and the data directory held no registry, or looking
  for it failed: over encrypted data whose key is gone, no new key is ever created when the
  look succeeds. The root key that a command gets is the one that the slot opens to, and a file
  that was made a registry stays as it was whatever key it is opened with. Only a command that
  may not create gets nothing, and then there is no key.
\<close>

theorem unlocking_never_costs_a_key:
  "case unlock env create h of
     None \<Rightarrow> create = CreateAllowed
   | Some (r, h') \<Rightarrow>
      (stored_key env h' = stored_key env h
        \<or> create = CreateAllowed \<and> stored_key env h = None \<and> no_data_seen env h)
      \<and> (case r of Inr (Some root) \<Rightarrow> opens_to env h' root
         | Inr None \<Rightarrow> create = CreateForbidden \<and> stored_key env h' = None
         | Inl _ \<Rightarrow> True)
      \<and> (case registry_of h of Some rf \<Rightarrow> rf_application_id rf = 0 \<or> registry_of h' = Some rf | None \<Rightarrow> True)"
proof (cases "unlock env create h")
  case None
  then show ?thesis using unlock_None [OF None] unfolding None by simp
next
  case (Some y)
  obtain r h' where y: "y = (r, h')" by fastforce
  have "create = CreateForbidden" if "r = Inr None"
  proof -
    obtain q h1 where looked: "look_at_vault env create h = (q, h1)" by fastforce
    obtain v plan where q: "q = Inr (v, plan)"
      using Some \<open>r = _\<close> by (cases q) (auto simp: unlock_def looked y)
    have "plan = NothingYet"
    proof (rule ccontr)
      assume "plan \<noteq> NothingYet"
      then obtain root h2 where "st_bind (st_result root) (open_with env) h2 = (Inr None, h')"
        using Some \<open>r = _\<close> by (auto simp: unlock_def looked q y)
      then show False by (auto elim!: st_bind_cases dest: open_with_run(2))
    qed
    then show ?thesis using look_at_vault_run(3) [OF looked q] by blast
  qed
  with unlocking_run [OF Some] show ?thesis
    unfolding Some y by (auto simp: unlocked_safely_def no_data_seen_def split: option.splits sum.splits)
qed

text \<open>
  C11. Every command but the one that adds an account always answers, and never creates a key: what
  the slot holds stays as it was, and a root key that it gets is the one that the slot opens
  to. Without a key in the slot, or when it gets nothing, no registry and no accounts directory is
  created or changed: at most the data directory itself and its lock file are, by taking the
  lock; with a key, a file that was made a registry stays as it was. Where the data directory is
  known to be absent nothing else is looked at, neither the vault nor the terminal, and nothing is
  created at all. When the lock is not taken, the command ends there, with neither the vault nor
  the terminal used and the registry and the accounts directory as they were.
\<close>

theorem other_commands_never_create_a_key:
  "\<exists>r h'. open_existing env h = Some (r, h') \<and> stored_key env h' = stored_key env h
    \<and> (case r of Inr (Some root) \<Rightarrow> opens_to env h' root | Inr None \<Rightarrow> files_of h' = files_of h | Inl _ \<Rightarrow> True)
    \<and> (if stored_key env h = None then files_of h' = files_of h else True)
    \<and> (case registry_of h of Some rf \<Rightarrow> rf_application_id rf = 0 \<or> registry_of h' = Some rf | None \<Rightarrow> True)
    \<and> (if ho_dir h = None \<and> he_fault env (ho_calls h) = None then (r, h') = (Inr None, tick_host h) else True)
    \<and> (case lock_existing env h of
         (Inl err, h1) \<Rightarrow> (r, h') = (Inl err, h1) \<and> ho_vault h' = ho_vault h \<and> ho_tty h' = ho_tty h
           \<and> files_of h' = files_of h
       | _ \<Rightarrow> True)"
proof -
  obtain q h1 where locked: "lock_existing env h = (q, h1)" by fastforce
  have found: "q = Inr None \<and> h1 = tick_host h" if "ho_dir h = None" "he_fault env (ho_calls h) = None"
    using locked that by (simp add: lock_existing_def host_call_def)
  have frame: "ho_vault h1 = ho_vault h \<and> ho_tty h1 = ho_tty h \<and> files_of h1 = files_of h"
  proof -
    let ?lock = "st_bind (take_lock env) (\<lambda>_. st_result (Inr (Some ()))) :: (string, unit option) host_op"
    have "leaves ho_vault ?lock" "leaves ho_tty ?lock" "leaves files_of ?lock"
      by (intro host_frames take_lock_leaves_files)+
    moreover have "(q, h1) = (Inr None, tick_host h) \<or> (q, h1) = ?lock (tick_host h)"
      using locked by (auto simp: lock_existing_def host_call_def split: if_splits option.splits)
    moreover have "ho_vault (tick_host h) = ho_vault h" "ho_tty (tick_host h) = ho_tty h"
      "files_of (tick_host h) = files_of h" by (simp_all add: files_of_def tick_host_def)
    ultimately show ?thesis
      unfolding leaves_def by (elim disjE) (simp, metis snd_conv)
  qed
  have key: "stored_key env h1 = stored_key env h" using frame stored_key_cong by blast
  have reg: "registry_of h1 = registry_of h" using frame registry_in_files by metis
  show ?thesis
  proof (cases "\<exists>u. q = Inr (Some u)")
    case True
    then obtain r h' where run: "unlock env CreateForbidden h1 = Some (r, h')"
      using unlock_None [of env CreateForbidden h1] by (cases "unlock env CreateForbidden h1") auto
    have opened: "open_existing env h = Some (r, h')" using True run by (auto simp: open_existing_def locked)
    have safe: "stored_key env h' = stored_key env h" "registry_of h = Some rf \<Longrightarrow> rf_application_id rf \<noteq> 0 \<Longrightarrow>
        registry_of h' = Some rf" "stored_key env h = None \<Longrightarrow> files_of h' = files_of h"
        "case r of Inr (Some root) \<Rightarrow> opens_to env h' root | Inr None \<Rightarrow> stored_key env h = None | Inl _ \<Rightarrow> True" for rf
      using unlocking_run [OF run] key reg frame files_cong [of h' h1]
      by (auto simp: unlocked_safely_def split: sum.splits option.splits)
    moreover have "\<not> (ho_dir h = None \<and> he_fault env (ho_calls h) = None)" using found True by auto
    ultimately show ?thesis
      using opened True by (auto simp: locked split: sum.splits option.splits)
  next
    case False
    define r where "r = (case q of Inl err \<Rightarrow> Inl err | Inr _ \<Rightarrow> Inr (None :: root_key option))"
    then have "open_existing env h = Some (r, h1)"
      using False by (cases q) (auto simp: open_existing_def locked split: option.splits)
    moreover have "r \<noteq> Inr (Some root)" for root by (simp add: r_def split: sum.split)
    ultimately show ?thesis
      using key frame reg found False
      by (intro exI [of _ r] exI [of _ h1]) (auto simp: r_def locked split: sum.split option.split)
  qed
qed

section \<open>A first run\<close>

text \<open>
  A keyring and a data directory that is not there yet: adding an account creates the key and
  the registry, any other command finds nothing. Where a registry is there and the keyring has
  no entry, both kinds of command are refused.
\<close>

definition sample_host_env :: host_env where
  "sample_host_env = \<lparr>he_vault = quiet_vault, he_reachable = True, he_backend = BackendAuto, he_passphrase = False,
     he_data_dir = ''/data'', he_crypto = sample_crypto, he_fills = sample_fills, he_tty = (\<lambda>_. None),
     he_fault = (\<lambda>_. None), he_metadata = (\<lambda>_. Some \<lparr>dm_is_dir = True, dm_owner = 501, dm_mode = 448\<rparr>),
     he_euid = 501, he_busy = (\<lambda>_. False)\<rparr>"

definition sample_host :: host where
  "sample_host = \<lparr>ho_vault = empty_vault, ho_tty = \<lparr>tm_silent = False, tm_reads = [], tm_calls = 0\<rparr>,
     ho_dir = None, ho_calls = 0\<rparr>"

definition outcome :: "((string + 'a) \<times> host) option \<Rightarrow> (string + 'a) option" where
  "outcome y = map_option fst y"

definition orphaned_host :: host where
  "orphaned_host = sample_host\<lparr>ho_dir := Some \<lparr>dd_lock_file = True, dd_accounts = True,
     dd_registry = Some blank_registry\<rparr>\<rparr>"

lemma first_run: "outcome (initialize sample_host_env sample_host) = Some (Inr sample_root)"
  by code_simp

lemma nothing_to_open: "outcome (require_installation sample_host_env sample_host) = Some (Inl NO_ACCOUNTS)"
  by code_simp

lemma missing_key_is_refused:
  "map_option is_ok (outcome (initialize sample_host_env orphaned_host)) = Some False"
  "map_option is_ok (outcome (require_installation sample_host_env orphaned_host)) = Some False"
  by code_simp+

end
