(* ===== verification/Utc_Dates.thy ===== *)
theory Utc_Dates
  imports Tersa_Prelude
begin

text \<open>
  UTC date formatting of the command line (\<^verbatim>\<open>apps/tersa/src/dates.rs\<close>). The reference is the
  Gregorian calendar as a successor: \<open>next_day\<close> turns a date into the following one, and the
  arithmetic of \<open>civil_from_days\<close> is shown to follow it from 1970-01-01 on in both directions.
  \<open>div_euclid\<close> and \<open>rem_euclid\<close> by a positive number are \<open>div\<close> and \<open>mod\<close>; every other division
  of the code has operands that are not negative.
\<close>

section \<open>The code\<close>

definition civil_from_days :: "int \<Rightarrow> int \<times> int \<times> int" where
  "civil_from_days days =
     (let shifted = days + 719468;
          era = shifted div 146097;
          day_of_era = shifted mod 146097;
          year_of_era =
            (day_of_era - day_of_era div 1460 + day_of_era div 36524 - day_of_era div 146096) div 365;
          day_of_year = day_of_era - (365 * year_of_era + year_of_era div 4 - year_of_era div 100);
          month_index = (5 * day_of_year + 2) div 153;
          day = day_of_year - (153 * month_index + 2) div 5 + 1;
          month = (if month_index < 10 then month_index + 3 else month_index - 9);
          year = year_of_era + era * 400 + (if month \<le> 2 then 1 else 0)
      in (year, month, day))"

text \<open>\<open>{:0w}\<close>: zeros fill up to the width, after the sign of a negative number.\<close>

definition pad_zero :: "nat \<Rightarrow> int \<Rightarrow> string" where
  "pad_zero w i =
     (if i < 0 then ''-'' @ (let s = show_nat (nat (- i)) in replicate (w - 1 - length s) CHR ''0'' @ s)
      else (let s = show_nat (nat i) in replicate (w - length s) CHR ''0'' @ s))"

definition format_utc :: "int \<Rightarrow> string" where
  "format_utc millis =
     (let seconds = millis div 1000;
          days = seconds div 86400;
          second_of_day = seconds mod 86400
      in case civil_from_days days of (year, month, day) \<Rightarrow>
           pad_zero 4 year @ ''-'' @ pad_zero 2 month @ ''-'' @ pad_zero 2 day @ '' ''
             @ pad_zero 2 (second_of_day div 3600) @ '':'' @ pad_zero 2 (second_of_day mod 3600 div 60))"

section \<open>The Gregorian calendar\<close>

definition leap_year :: "int \<Rightarrow> bool" where
  "leap_year y \<longleftrightarrow> y mod 4 = 0 \<and> (y mod 100 \<noteq> 0 \<or> y mod 400 = 0)"

definition month_days :: "int \<Rightarrow> int \<Rightarrow> int" where
  "month_days y m = (if m = 2 then if leap_year y then 29 else 28
                     else if m \<in> {4, 6, 9, 11} then 30 else 31)"

fun next_day :: "int \<times> int \<times> int \<Rightarrow> int \<times> int \<times> int" where
  "next_day (y, m, d) =
     (if d < month_days y m then (y, m, d + 1)
      else if m < 12 then (y, m + 1, 1)
      else (y + 1, 1, 1))"

section \<open>Years of an era\<close>

text \<open>
  An era is 400 years from the first of March. Its year \<open>y\<close>, counted from zero, ends with a leap
  day when the calendar year \<open>y + 1\<close> is a leap year.
\<close>

definition year_start :: "int \<Rightarrow> int" where
  "year_start y = 365 * y + y div 4 - y div 100"

definition era_date :: "int \<Rightarrow> int \<times> int" where
  "era_date doe =
     (let y = (doe - doe div 1460 + doe div 36524 - doe div 146096) div 365 in (y, doe - year_start y))"

definition year_length :: "int \<Rightarrow> int" where
  "year_length y = (if leap_year (y + 1) then 366 else 365)"

lemma div_between: "a * k \<le> x \<Longrightarrow> x < (a + 1) * k \<Longrightarrow> 0 < k \<Longrightarrow> x div k = (a :: int)"
  by (rule int_div_pos_eq [where r = "x - a * k"]) (auto simp: algebra_simps)

lemma mod_full: "0 < x \<Longrightarrow> x \<le> k \<Longrightarrow> x mod k = 0 \<longleftrightarrow> x = (k :: int)"
  by (cases "x = k") (simp_all add: mod_pos_pos_trivial)

text \<open>A year of an era in centuries, four-year cycles and single years.\<close>

lemma year_digits:
  fixes y :: int
  assumes "0 \<le> y" "y < 400"
  obtains c q r where "y = 100 * c + 4 * q + r" "0 \<le> c" "c \<le> 3" "0 \<le> q" "q \<le> 24" "0 \<le> r" "r \<le> 3"
proof
  have "y mod 100 mod 4 = y mod 4" by (simp add: mod_mod_cancel)
  then show "y = 100 * (y div 100) + 4 * (y mod 100 div 4) + y mod 4"
    using mult_div_mod_eq [of 100 y] mult_div_mod_eq [of 4 "y mod 100"] by linarith
qed (use assms in linarith)+

lemma leap_digits:
  assumes "0 \<le> c" "c \<le> 3" "0 \<le> q" "q \<le> 24" "0 \<le> r" "r \<le> 3"
  shows "leap_year (100 * c + 4 * q + r + 1) \<longleftrightarrow> r = 3 \<and> (q = 24 \<longrightarrow> c = 3)"
proof -
  let ?y = "100 * c + 4 * q + r"
  have "(?y + 1) mod 4 = (r + 1) mod 4"
    using mod_mult_self2 [of "r + 1" 4 "25 * c + q"] by (simp add: algebra_simps)
  moreover have "(?y + 1) mod 100 = (4 * q + r + 1) mod 100"
    using mod_mult_self2 [of "4 * q + r + 1" 100 c] by (simp add: algebra_simps)
  moreover have "(?y + 1) mod 400 = 0 \<longleftrightarrow> ?y = 399" using assms by (subst mod_full) linarith+
  moreover have "(r + 1) mod 4 = 0 \<longleftrightarrow> r = 3" by (subst mod_full) (use assms in auto)
  moreover have "(4 * q + r + 1) mod 100 = 0 \<longleftrightarrow> q = 24 \<and> r = 3"
    using assms(3-6) by (subst mod_full) presburger+
  ultimately show ?thesis unfolding leap_year_def using assms by auto
qed

text \<open>
  The three corrections of the code: a day of the era falls into the year computed by rounding,
  but for the days from the 1460th of a four-year cycle on and the very last day.
\<close>

lemma era_quotients:
  fixes c q r doy :: int
  assumes b: "0 \<le> c" "c \<le> 3" "0 \<le> q" "q \<le> 24" "0 \<le> r" "r \<le> 3" "0 \<le> doy" "doy \<le> 365"
    and leap: "doy = 365 \<longrightarrow> r = 3 \<and> (q = 24 \<longrightarrow> c = 3)"
    and doe: "doe = 36524 * c + 1461 * q + 365 * r + doy"
  shows "(doe - doe div 1460 + doe div 36524 - doe div 146096) div 365 = 100 * c + 4 * q + r"
proof -
  define late full :: int where "late = (if 24 * c + q + 365 * r + doy \<ge> 1460 then 1 else 0)"
    and "full = (if doe = 146096 then 1 else 0)"
  have d1: "doe div 1460 = 25 * c + q + late"
    by (rule div_between) (use b leap in \<open>auto simp: doe late_def\<close>)
  have top: "1461 * q + 365 * r + doy \<le> 36524" using b by linarith
  have low: "0 \<le> 1461 * q + 365 * r + doy" using b by linarith
  have last: "q = 24" "r = 3" "doy = 365" if "1461 * q + 365 * r + doy = 36524"
    using that b by linarith+
  have full: "full = 0 \<and> 1461 * q + 365 * r + doy < 36524 \<and> doe < 146096
      \<or> full = 1 \<and> 1461 * q + 365 * r + doy = 36524 \<and> doe = 146096"
  proof (cases "1461 * q + 365 * r + doy = 36524")
    case True
    then have "c = 3" using last leap by blast
    with True show ?thesis using doe by (simp add: full_def)
  next
    case False
    then have "1461 * q + 365 * r + doy < 36524" using top by linarith
    moreover from this have "doe < 146096" using doe b(2) by linarith
    ultimately show ?thesis by (simp add: full_def)
  qed
  from full have "doe div 36524 = c + full \<and> doe div 146096 = full"
  proof (elim disjE conjE)
    assume "full = 0" "1461 * q + 365 * r + doy < 36524" "doe < 146096"
    moreover have "doe div 36524 = c" by (rule div_between) (use low calculation doe in auto)
    moreover have "doe div 146096 = 0" by (rule div_between) (use low calculation b doe in auto)
    ultimately show ?thesis by simp
  next
    assume "full = 1" "1461 * q + 365 * r + doy = 36524" "doe = 146096"
    moreover from this have "c = 3" using doe by linarith
    ultimately show ?thesis by simp
  qed
  then have d2: "doe div 36524 = c + full" and d3: "doe div 146096 = full" by blast+
  have "0 \<le> doy - late" "doy - late < 365" using b leap by (auto simp: late_def)
  then show ?thesis unfolding d1 d2 d3 by (intro div_between) (auto simp: doe)
qed

lemma era_date_eq:
  assumes "0 \<le> y" "y < 400" "0 \<le> doy" "doy < year_length y"
  shows "era_date (year_start y + doy) = (y, doy)"
proof -
  obtain c q r where y: "y = 100 * c + 4 * q + r"
    and b: "0 \<le> c" "c \<le> 3" "0 \<le> q" "q \<le> 24" "0 \<le> r" "r \<le> 3"
    using year_digits [OF assms(1,2)] .
  have "y div 4 = 25 * c + q" by (rule div_between) (use y b in auto)
  moreover have "y div 100 = c" by (rule div_between) (use y b in auto)
  ultimately have doe: "year_start y + doy = 36524 * c + 1461 * q + 365 * r + doy"
    by (simp add: year_start_def y)
  have "doy \<le> 365" "doy = 365 \<longrightarrow> r = 3 \<and> (q = 24 \<longrightarrow> c = 3)"
    using assms(4) leap_digits [OF b] by (auto simp: year_length_def y split: if_splits)
  from era_quotients [OF b assms(3) this doe] show ?thesis
    by (simp add: era_date_def Let_def y)
qed

text \<open>Every day of an era lies in one of its years, and the next day is the next in that order.\<close>

lemma div_Suc:
  fixes x k :: int
  assumes "0 < k"
  shows "(x + 1) div k = x div k + (if (x + 1) mod k = 0 then 1 else 0)"
proof -
  have x: "x = k * (x div k) + x mod k" by simp
  have r: "0 \<le> x mod k" "x mod k < k" using assms by simp_all
  show ?thesis
  proof (cases "x mod k + 1 = k")
    case True
    then have "x + 1 = k * (x div k + 1)" using x unfolding distrib_left by linarith
    then show ?thesis using assms by simp
  next
    case False
    have "(x + 1) div k = x div k" by (rule int_div_pos_eq [where r = "x mod k + 1"]) (use x r False in linarith)+
    moreover have "(x + 1) mod k = x mod k + 1" by (rule int_mod_pos_eq [where q = "x div k"]) (use x r False in linarith)+
    ultimately show ?thesis using r by simp
  qed
qed

lemma year_start_Suc:
  assumes "0 \<le> y" "y < 399"
  shows "year_start (y + 1) = year_start y + year_length y"
proof -
  have regroup: "365 * (y + 1) + (u + p) - (v + q) = 365 * y + u - v + (365 + p - q)"
    for u v p q :: int by simp
  have long: "(if l4 \<and> (\<not> l100 \<or> l400) then 366 else 365)
      = 365 + (if l4 then 1 else 0) - (if l100 then 1 else (0 :: int))"
    if "l100 \<Longrightarrow> l4" "\<not> l400" for l4 l100 l400 using that by auto
  have "(y + 1) mod 4 = 0" if "(y + 1) mod 100 = 0"
    using that mod_mod_cancel [of 4 100 "y + 1"] by simp
  moreover have "(y + 1) mod 400 \<noteq> 0" using assms by simp
  ultimately have "year_length y =
      365 + (if (y + 1) mod 4 = 0 then 1 else 0) - (if (y + 1) mod 100 = 0 then 1 else 0)"
    unfolding year_length_def leap_year_def by (rule long)
  then show ?thesis unfolding year_start_def by (simp only: div_Suc regroup zero_less_numeral)
qed

definition in_era :: "int \<Rightarrow> int \<Rightarrow> int \<Rightarrow> bool" where
  "in_era doe y doy \<longleftrightarrow> doe = year_start y + doy \<and> 0 \<le> y \<and> y < 400 \<and> 0 \<le> doy \<and> doy < year_length y"

lemma in_era_date: "in_era doe y doy \<Longrightarrow> era_date doe = (y, doy)"
  by (auto simp: in_era_def intro: era_date_eq)

lemma in_era_Suc:
  assumes "in_era doe y doy" and "doe < 146096"
  shows "if doy + 1 < year_length y then in_era (doe + 1) y (doy + 1) else in_era (doe + 1) (y + 1) 0"
proof (cases "doy + 1 < year_length y")
  case True
  then show ?thesis using assms by (simp add: in_era_def)
next
  case False
  have "year_start 399 = 145731" "year_length 399 = 366"
    by (simp_all add: year_start_def year_length_def leap_year_def)
  then have "y < 399" using False assms by (cases "y = 399") (auto simp: in_era_def)
  then show ?thesis using False assms year_start_Suc [of y]
    by (auto simp: in_era_def year_length_def split: if_splits)
qed

lemma in_era_exists:
  assumes "0 \<le> doe" "doe < 146097"
  obtains y doy where "in_era doe y doy"
proof -
  have "\<exists>y doy. in_era doe y doy"
    using assms
  proof (induction doe rule: int_ge_induct)
    case base
    have "in_era 0 0 0" by (simp add: in_era_def year_start_def year_length_def)
    then show ?case by blast
  next
    case (step doe)
    then obtain y doy where "in_era doe y doy" by auto
    from in_era_Suc [OF this] step.prems show ?case by (auto split: if_splits)
  qed
  then show thesis using that by blast
qed

section \<open>The code follows the calendar\<close>

text \<open>Within a year of an era only 366 days are left to compare.\<close>

definition day_of_march_year :: "int \<Rightarrow> int \<times> int" where
  "day_of_march_year doy =
     (let month_index = (5 * doy + 2) div 153
      in (if month_index < 10 then month_index + 3 else month_index - 9,
          doy - (153 * month_index + 2) div 5 + 1))"

lemma civil_from_days_era:
  assumes "in_era ((days + 719468) mod 146097) y doy" and "day_of_march_year doy = (m, d)"
  shows "civil_from_days days =
    (y + (days + 719468) div 146097 * 400 + (if m \<le> 2 then 1 else 0), m, d)"
proof -
  let ?d = "(days + 719468) mod 146097"
  have "(?d - ?d div 1460 + ?d div 36524 - ?d div 146096) div 365 = y"
    "?d - year_start y = doy"
    using in_era_date [OF assms(1)] unfolding era_date_def Let_def prod.inject by metis+
  moreover have "(if (5 * doy + 2) div 153 < 10 then (5 * doy + 2) div 153 + 3
      else (5 * doy + 2) div 153 - 9) = m" "doy - (153 * ((5 * doy + 2) div 153) + 2) div 5 + 1 = d"
    using assms(2) unfolding day_of_march_year_def Let_def prod.inject by blast+
  ultimately show ?thesis
    unfolding civil_from_days_def Let_def year_start_def [symmetric] by (simp only:)
qed

definition month_start :: "int \<Rightarrow> int" where
  "month_start i = (153 * i + 2) div 5"

definition march_month :: "int \<Rightarrow> int" where
  "march_month i = (if i < 10 then i + 3 else i - 9)"

lemma month_start_bounds: "5 * month_start i \<le> 153 * i + 2" "153 * i + 2 < 5 * month_start i + 5"
  using mult_div_mod_eq [of 5 "153 * i + 2"] pos_mod_sign [of 5 "153 * i + 2"]
    pos_mod_bound [of 5 "153 * i + 2"]
  unfolding month_start_def [symmetric] by linarith+

lemma in_month:
  assumes "month_start i \<le> doy" "doy < month_start (i + 1)"
  shows "day_of_march_year doy = (march_month i, doy - month_start i + 1)"
proof -
  have "(5 * doy + 2) div 153 = i"
    by (rule div_between) (use assms month_start_bounds [of i] month_start_bounds [of "i + 1"] in linarith)+
  then show ?thesis by (simp add: day_of_march_year_def march_month_def month_start_def)
qed

lemma month_exists:
  assumes "0 \<le> doy" "doy \<le> 365"
  obtains i where "i \<in> {0..11}" "month_start i \<le> doy" "doy < month_start (i + 1)"
proof
  define i where "i = (5 * doy + 2) div 153"
  have "153 * i \<le> 5 * doy + 2" "5 * doy + 2 < 153 * i + 153"
    using mult_div_mod_eq [of 153 "5 * doy + 2"] pos_mod_sign [of 153 "5 * doy + 2"]
      pos_mod_bound [of 153 "5 * doy + 2"]
    unfolding i_def [symmetric] by linarith+
  then show "i \<in> {0..11}" "month_start i \<le> doy" "doy < month_start (i + 1)"
    using assms month_start_bounds [of i] month_start_bounds [of "i + 1"] by simp_all
qed

text \<open>The months from March to January have the lengths of the calendar; February closes the year.\<close>

lemma month_lengths:
  assumes "i \<in> {0..10}"
  shows "month_start (i + 1) - month_start i = month_days y (march_month i)"
    "march_month (i + 1) = (if march_month i = 12 then 1 else march_month i + 1)"
    "march_month i \<noteq> 2" "march_month i \<le> 12"
proof -
  have "i = 0 \<or> i = 1 \<or> i = 2 \<or> i = 3 \<or> i = 4 \<or> i = 5 \<or> i = 6 \<or> i = 7 \<or> i = 8 \<or> i = 9 \<or> i = 10"
    using assms unfolding atLeastAtMost_iff by presburger
  then show "month_start (i + 1) - month_start i = month_days y (march_month i)"
    "march_month (i + 1) = (if march_month i = 12 then 1 else march_month i + 1)"
    "march_month i \<noteq> 2" "march_month i \<le> 12"
    by (auto simp: month_start_def march_month_def month_days_def)
qed

lemma leap_year_era: "leap_year (y + e * 400) \<longleftrightarrow> leap_year y"
proof -
  have "(y + e * 400) mod 4 = y mod 4"
    using mod_mult_self2 [of y 4 "100 * e"] by (simp add: algebra_simps)
  moreover have "(y + e * 400) mod 100 = y mod 100"
    using mod_mult_self2 [of y 100 "4 * e"] by (simp add: algebra_simps)
  ultimately show ?thesis by (simp only: leap_year_def mod_mult_self1)
qed

definition civil :: "int \<Rightarrow> int \<Rightarrow> int \<Rightarrow> int \<times> int \<times> int" where
  "civil e y doy =
     (case day_of_march_year doy of (m, d) \<Rightarrow> (y + e * 400 + (if m \<le> 2 then 1 else 0), m, d))"

lemma next_in_year:
  assumes "0 \<le> doy" "doy + 1 < year_length y"
  shows "next_day (civil e y doy) = civil e y (doy + 1)"
proof -
  have "doy \<le> 365" using assms by (auto simp: year_length_def split: if_splits)
  with assms obtain i where i: "i \<in> {0..11}" "month_start i \<le> doy" "doy < month_start (i + 1)"
    using month_exists by blast
  note here = in_month [OF i(2,3)]
  show ?thesis
  proof (cases "i = 11")
    case True
    have feb: "month_start 11 = 337" "month_start 12 = 367" "march_month 11 = 2"
      by (simp_all add: month_start_def march_month_def)
    have "doy + 1 < (if leap_year (y + e * 400 + 1) then 366 else 365)"
      using assms(2) leap_year_era [of "y + 1" e] by (simp add: year_length_def algebra_simps)
    moreover have "day_of_march_year (doy + 1) = (2, doy + 1 - 337 + 1)"
      using in_month [of 11 "doy + 1"] i(2) True feb calculation by (simp split: if_splits)
    ultimately show ?thesis
      using here by (simp add: True civil_def feb month_days_def split: if_splits)
  next
    case False
    then have i10: "i \<in> {0..10}" using i(1) by auto
    note len = month_lengths [OF i10]
    show ?thesis
    proof (cases "doy + 1 < month_start (i + 1)")
      case True
      then have "day_of_march_year (doy + 1) = (march_month i, doy + 1 - month_start i + 1)"
        using i(2) by (intro in_month) simp_all
      moreover have "doy - month_start i + 1 < month_days z (march_month i)" for z
        using True len(1) [of z] by linarith
      ultimately show ?thesis using here by (simp add: civil_def)
    next
      case last: False
      then have start: "doy + 1 = month_start (i + 1)" using i(3) by linarith
      have "month_start (i + 1) < month_start (i + 1 + 1)" 
        using month_start_bounds [of "i + 1"] month_start_bounds [of "i + 1 + 1"] by simp
      then have "day_of_march_year (doy + 1) = (march_month (i + 1), 1)"
        using in_month [of "i + 1" "doy + 1"] start by simp
      moreover have "\<not> doy - month_start i + 1 < month_days z (march_month i)" for z
        using start len(1) [of z] by linarith
      ultimately show ?thesis using here len(2-4) by (auto simp: civil_def)
    qed
  qed
qed

lemma next_year:
  assumes "doy + 1 = year_length y"
  shows "next_day (civil e y doy) = civil e (y + 1) 0"
proof -
  have leap: "leap_year (y + e * 400 + 1) \<longleftrightarrow> leap_year (y + 1)"
    using leap_year_era [of "y + 1" e] by (simp add: algebra_simps)
  have "day_of_march_year 0 = (3, 1)" "day_of_march_year 364 = (2, 28)" "day_of_march_year 365 = (2, 29)"
    by (simp_all add: day_of_march_year_def)
  moreover have "doy = (if leap_year (y + 1) then 365 else 364)"
    using assms by (simp add: year_length_def split: if_splits)
  ultimately show ?thesis by (simp add: civil_def month_days_def leap)
qed

text \<open>
  C40. The date printed for a message is its date: day zero is the first of January 1970, and the
  arithmetic of the code takes every day, before or after it, to the day that follows in the
  Gregorian calendar with its leap years. So \<open>civil_from_days\<close> is the count of days in that
  calendar, without a table and for every day number.
\<close>

theorem civil_from_days_is_the_calendar:
  "civil_from_days 0 = (1970, 1, 1) \<and> civil_from_days (n + 1) = next_day (civil_from_days n)"
proof
  show "civil_from_days 0 = (1970, 1, 1)" by code_simp
  let ?x = "n + 719468"
  have era: "civil_from_days k = civil ((k + 719468) div 146097) y doy"
    if "in_era ((k + 719468) mod 146097) y doy" for k y doy
    using civil_from_days_era [OF that] by (auto simp: civil_def split: prod.splits)
  obtain y doy where here: "in_era (?x mod 146097) y doy" using in_era_exists [of "?x mod 146097"] by auto
  show "civil_from_days (n + 1) = next_day (civil_from_days n)"
  proof (cases "?x mod 146097 = 146096")
    case True
    have "in_era 146096 399 365"
      by (simp add: in_era_def year_start_def year_length_def leap_year_def)
    then have "civil_from_days n = civil (?x div 146097) 399 365" using era True by metis
    moreover have "(n + 1 + 719468) mod 146097 = 0" "(n + 1 + 719468) div 146097 = ?x div 146097 + 1"
      using True div_Suc [of 146097 ?x] mod_add_left_eq [of ?x 146097 1] by (simp_all add: algebra_simps)
    moreover have "in_era 0 0 0" by (simp add: in_era_def year_start_def year_length_def leap_year_def)
    ultimately show ?thesis
      using era [of "n + 1" 0 0] next_year [of 365 399 "?x div 146097"]
      by (simp add: year_length_def leap_year_def civil_def day_of_march_year_def algebra_simps)
  next
    case False
    then have small: "?x mod 146097 < 146096" using pos_mod_bound [of 146097 ?x] by linarith
    have same: "(n + 1 + 719468) mod 146097 = ?x mod 146097 + 1"
      using small mod_add_left_eq [of ?x 146097 1] by (simp add: algebra_simps)
    then have "(n + 1 + 719468) div 146097 = ?x div 146097"
      using div_Suc [of 146097 ?x] pos_mod_sign [of 146097 ?x] by (simp add: algebra_simps)
    with same in_era_Suc [OF here small] era [OF here] era [of "n + 1"] here show ?thesis
      by (auto simp: next_in_year next_year in_era_def split: if_splits)
  qed
qed

end
