(* ===== verification/Command_Line.thy ===== *)
theory Command_Line
  imports Terminal_Text Utc_Dates Domain_Mailbox
begin

text \<open>
  The command line (\<^verbatim>\<open>apps/tersa/src/cli.rs\<close>): parsing of the arguments, against the words that
  say a command; and from \<^verbatim>\<open>commands.rs\<close> the pure parts, which account a prefix names and the
  line that a message is printed as. An \<open>OsString\<close> is its bytes; \<open>str::parse::<u16>\<close> is the
  standard library's, with its optional plus sign.
\<close>

section \<open>Parsing\<close>

definition DEFAULT_INBOX_LIMIT :: nat where "DEFAULT_INBOX_LIMIT = 25"

datatype command =
    CmdHelp
  | CmdVersion
  | CmdAccountAdd
  | CmdAccountList
  | CmdAccountRemove string
  | CmdSync "string option"
  | CmdInbox "string option" nat
  | CmdDoctor

definition decimal :: "string \<Rightarrow> nat" where
  "decimal ds = foldl (\<lambda>n d. n * 10 + (byte d - 48)) 0 ds"

definition parse_u16 :: "string \<Rightarrow> nat option" where
  "parse_u16 s =
     (let ds = (case s of c # r \<Rightarrow> if c = CHR ''+'' then r else s | [] \<Rightarrow> [])
      in if ds = [] \<or> \<not> list_all is_ascii_digit ds \<or> decimal ds \<ge> 65536 then None
         else Some (decimal ds))"

definition inbox_limit :: "string \<Rightarrow> string + nat" where
  "inbox_limit v =
     ok_or ''--limit must be between 1 and 500''
       (case parse_u16 v of Some n \<Rightarrow> if 1 \<le> n \<and> n \<le> 500 then Some n else None | None \<Rightarrow> None)"

fun parse_inbox :: "string list \<Rightarrow> string option \<Rightarrow> nat \<Rightarrow> string + command" where
  "parse_inbox [] account limit = Inr (CmdInbox account limit)"
| "parse_inbox [word] account limit =
     (if word = ''--limit'' then Inl ''--limit needs a number''
      else if account = None \<and> \<not> prefix ''-'' word then Inr (CmdInbox (Some word) limit)
      else Inl (''unexpected argument `'' @ word @ ''`''))"
| "parse_inbox (word # v # rest) account limit =
     (if word = ''--limit'' then rbind (inbox_limit v) (parse_inbox rest account)
      else if account = None \<and> \<not> prefix ''-'' word then parse_inbox (v # rest) (Some word) limit
      else Inl (''unexpected argument `'' @ word @ ''`''))"

definition parse_words :: "string list \<Rightarrow> string + command" where
  "parse_words words =
     (if words \<in> {[], [''help''], [''-h''], [''--help'']} then Inr CmdHelp
      else if words \<in> {[''--version''], [''-V''], [''version'']} then Inr CmdVersion
      else if words = [''account'', ''add''] then Inr CmdAccountAdd
      else if words = [''account'', ''list''] then Inr CmdAccountList
      else if length words = 3 \<and> take 2 words = [''account'', ''remove''] then Inr (CmdAccountRemove (words ! 2))
      else if words = [''sync''] then Inr (CmdSync None)
      else if length words = 2 \<and> hd words = ''sync'' then Inr (CmdSync (Some (words ! 1)))
      else if hd words = ''inbox'' then parse_inbox (tl words) None DEFAULT_INBOX_LIMIT
      else if words = [''doctor''] then Inr CmdDoctor
      else Inl ''unrecognized command; run `tersa help`'')"

definition parse_arguments :: "string list \<Rightarrow> string + command" where
  "parse_arguments arguments =
     (if list_all utf8_valid arguments then parse_words arguments
      else Inl ''arguments must be valid UTF-8'')"

section \<open>The words of a command\<close>

text \<open>The commands that can be said, and how.\<close>

definition option_ok :: "('a \<Rightarrow> bool) \<Rightarrow> 'a option \<Rightarrow> bool" where
  "option_ok p opt = (case opt of None \<Rightarrow> True | Some a \<Rightarrow> p a)"

fun command_ok :: "command \<Rightarrow> bool" where
  "command_ok (CmdAccountRemove account) = utf8_valid account"
| "command_ok (CmdSync account) = option_ok utf8_valid account"
| "command_ok (CmdInbox account limit) =
     (option_ok (\<lambda>a. utf8_valid a \<and> \<not> prefix ''-'' a) account \<and> 1 \<le> limit \<and> limit \<le> 500)"
| "command_ok _ = True"

fun words_of :: "command \<Rightarrow> string list" where
  "words_of CmdHelp = [''help'']"
| "words_of CmdVersion = [''version'']"
| "words_of CmdAccountAdd = [''account'', ''add'']"
| "words_of CmdAccountList = [''account'', ''list'']"
| "words_of (CmdAccountRemove account) = [''account'', ''remove'', account]"
| "words_of (CmdSync None) = [''sync'']"
| "words_of (CmdSync (Some account)) = [''sync'', account]"
| "words_of (CmdInbox account limit) =
     [''inbox'', ''--limit'', show_nat limit] @ (case account of None \<Rightarrow> [] | Some a \<Rightarrow> [a])"
| "words_of CmdDoctor = [''doctor'']"

lemma decimal_append: "decimal (ds @ [d]) = decimal ds * 10 + (byte d - 48)"
  by (simp add: decimal_def)

lemma show_nat_digits: "show_nat n \<noteq> [] \<and> list_all is_ascii_digit (show_nat n) \<and> decimal (show_nat n) = n"
proof (induction n rule: show_nat.induct)
  case (1 n)
  have "n mod 10 < 10" by simp
  then have d: "is_ascii_digit (char_of (48 + n mod 10))" "byte (char_of (48 + n mod 10)) = 48 + n mod 10"
    by (simp_all add: is_ascii_digit_def)
  show ?case
  proof (cases "n < 10")
    case True
    then show ?thesis using d by (subst (1 2 3) show_nat.simps) (simp add: decimal_def)
  next
    case False
    then show ?thesis
      using 1 d by (subst (1 2 3) show_nat.simps) (simp add: decimal_append)
  qed
qed

lemma parse_show_nat:
  assumes "1 \<le> n" "n \<le> 500" shows "inbox_limit (show_nat n) = Inr n"
proof -
  obtain d ds where s: "show_nat n = d # ds" using show_nat_digits by (cases "show_nat n") blast+
  then have "d \<noteq> CHR ''+''" using show_nat_digits [of n] by (auto simp: is_ascii_digit_def)
  with s show ?thesis
    using assms show_nat_digits [of n] by (simp add: inbox_limit_def parse_u16_def Let_def)
qed

lemma show_nat_valid: "utf8_valid (show_nat n)"
proof (rule utf8_valid_ascii)
  show "list_all (\<lambda>c. byte c < 128) (show_nat n)"
    using show_nat_digits [of n] by (auto simp: list_all_iff is_ascii_digit_def)
qed

lemma inbox_limit_bounds: "inbox_limit v = Inr n \<Longrightarrow> 1 \<le> n \<and> n \<le> 500"
  by (auto simp: inbox_limit_def split: option.splits if_splits)

lemma parse_inbox_ok:
  assumes "parse_inbox ws account limit = Inr c" "list_all utf8_valid ws"
    "command_ok (CmdInbox account limit)"
  shows "command_ok c"
  using assms
proof (induction ws account limit rule: parse_inbox.induct)
  case (2 word account limit)
  then show ?case by (auto simp: option_ok_def split: if_splits)
next
  case (3 word v rest account limit)
  then show ?case
    by (auto simp: result_simps option_ok_def split: if_splits dest: inbox_limit_bounds)
qed auto

lemma parse_arguments_ok:
  assumes "parse_arguments args = Inr c" shows "command_ok c"
proof -
  have v: "list_all utf8_valid args" and p: "parse_words args = Inr c"
    using assms by (auto simp: parse_arguments_def split: if_splits)
  have "list_all utf8_valid (tl args)" using v by (cases args) auto
  moreover have "utf8_valid (args ! i)" if "i < length args" for i
    using v that by (simp add: list_all_length)
  moreover have "command_ok (CmdInbox None DEFAULT_INBOX_LIMIT)"
    by (simp add: option_ok_def DEFAULT_INBOX_LIMIT_def)
  ultimately show ?thesis
    using p parse_inbox_ok [of "tl args" None DEFAULT_INBOX_LIMIT c]
    by (auto simp: parse_words_def option_ok_def split: if_splits)
qed

text \<open>
  The commands that the parser accepts are exactly the ones that can be said: an account
  is well-formed text, and where options are possible it does not look like one, and a limit is
  between 1 and 500, so the store never refuses it. Saying such a command gives it back.
\<close>

theorem parsing_inverts_saying:
  "(command_ok c \<longleftrightarrow> (\<exists>args. parse_arguments args = Inr c))
    \<and> (command_ok c \<longleftrightarrow> parse_arguments (words_of c) = Inr c)"
proof -
  have said: "parse_arguments (words_of c) = Inr c" if "command_ok c"
    using that
  proof (cases c)
    case (CmdInbox account limit)
    have "\<not> prefix ''-'' ''--limit'' \<Longrightarrow> False" by simp
    then have "a \<noteq> ''--limit''" if "\<not> prefix ''-'' a" for a using that by blast
    with CmdInbox show ?thesis
      using that parse_show_nat [of limit] show_nat_valid [of limit]
      by (cases account) (simp_all add: parse_arguments_def parse_words_def option_ok_def utf8_valid_ascii)
  next
    case (CmdSync account)
    then show ?thesis
      using that
      by (cases account) (simp_all add: parse_arguments_def parse_words_def option_ok_def utf8_valid_ascii)
  qed (simp_all add: parse_arguments_def parse_words_def utf8_valid_ascii)
  have ok: "command_ok c'" if "parse_arguments args = Inr c'" for args c'
    by (rule parse_arguments_ok [OF that])
  show ?thesis using said ok by blast
qed

section \<open>Accounts by prefix\<close>

definition resolve_among :: "account_id list \<Rightarrow> string \<Rightarrow> string + account_id" where
  "resolve_among accounts raw =
     (case filter (\<lambda>a. account_id_str a = raw \<or> prefix raw (account_id_str a)) accounts of
        [account] \<Rightarrow> Inr account
      | _ # _ # _ \<Rightarrow> Inl (''`'' @ raw @ ''` matches more than one account'')
      | [] \<Rightarrow> Inl (''no account matches `'' @ raw @ ''`; see `tersa account list`''))"

lemma filter_single:
  assumes "distinct xs" shows "filter p xs = [a] \<longleftrightarrow> a \<in> set xs \<and> p a \<and> (\<forall>b\<in>set xs. p b \<longrightarrow> b = a)"
proof
  assume "filter p xs = [a]"
  then have "set (filter p xs) = {a}" by simp
  then show "a \<in> set xs \<and> p a \<and> (\<forall>b\<in>set xs. p b \<longrightarrow> b = a)" by auto
next
  assume "a \<in> set xs \<and> p a \<and> (\<forall>b\<in>set xs. p b \<longrightarrow> b = a)"
  then have "set (filter p xs) = {a}" by auto
  moreover have "distinct (filter p xs)" using assms by simp
  ultimately show "filter p xs = [a]"
    by (metis distinct_card card_1_singleton_iff length_Suc_conv length_0_conv list.simps(15) One_nat_def
        insertI1 singletonD list.set_intros(1) card.empty card.insert empty_iff finite.emptyI)
qed

lemma resolve_among_Inr:
  assumes "distinct accounts"
  shows "resolve_among accounts raw = Inr a \<longleftrightarrow>
    a \<in> set accounts \<and> prefix raw (account_id_str a)
    \<and> (\<forall>b\<in>set accounts. prefix raw (account_id_str b) \<longrightarrow> b = a)"
proof -
  have "resolve_among accounts raw = Inr a \<longleftrightarrow> filter (\<lambda>b. prefix raw (account_id_str b)) accounts = [a]"
  proof -
    have "(\<lambda>b. account_id_str b = raw \<or> prefix raw (account_id_str b)) = (\<lambda>b. prefix raw (account_id_str b))"
      by auto
    then show ?thesis by (simp add: resolve_among_def split: list.splits)
  qed
  then show ?thesis by (simp add: filter_single [OF assms])
qed

section \<open>The line of a message\<close>

definition ELLIPSIS :: nat where "ELLIPSIS = 0x2026"

definition truncate_text :: "safe_text \<Rightarrow> nat \<Rightarrow> string" where
  "truncate_text t width =
     (let characters = utf8_decode (safe_str t);
          head = take width characters
      in if drop width characters \<noteq> [] then utf8_encode (take (width - 1) head @ [ELLIPSIS])
         else utf8_encode head)"

text \<open>\<open>{:<w}\<close>: spaces fill up to the width, counted in characters.\<close>

definition pad_right :: "nat \<Rightarrow> string \<Rightarrow> string" where
  "pad_right w s = s @ replicate (w - length (utf8_decode s)) CHR '' ''"

definition sender_column :: "message_envelope \<Rightarrow> string" where
  "sender_column e = pad_right 28 (truncate_text (safe_single_line (header_str (env_from e))) 28)"

definition inbox_line :: "message_envelope \<Rightarrow> string" where
  "inbox_line e =
     [if env_unread e then CHR ''*'' else CHR '' ''] @ '' '' @ format_utc (as_millis (env_received_at e)) @ ''  ''
       @ sender_column e @ ''  ''
       @ safe_str (safe_single_line (header_str (env_subject e)))"

lemma printable_spaces: "printable (replicate n CHR '' '')"
  by (rule printable_ascii) simp

lemma printable_digits: "printable (show_nat n)"
proof (rule printable_ascii)
  show "\<forall>c\<in>set (show_nat n). 32 \<le> byte c \<and> byte c < 127"
    using show_nat_digits [of n] by (auto simp: list_all_iff is_ascii_digit_def)
qed

lemma printable_pad_zero: "printable (pad_zero w i)"
proof -
  have "printable (replicate n CHR ''0'')" "printable ''-''" for n by (rule printable_ascii, simp)+
  note parts = this printable_digits
  show ?thesis
    unfolding pad_zero_def Let_def
    by (cases "i < 0") (simp_all only: if_True if_False printable_append parts)
qed

lemma printable_format_utc: "printable (format_utc millis)"
proof -
  have s: "printable ''-''" "printable '' ''" "printable '':''" by (rule printable_ascii, simp)+
  show ?thesis
    unfolding format_utc_def Let_def
    by (simp only: split_def) (intro printable_append printable_pad_zero s)
qed

lemma truncate_printable:
  assumes "printable (safe_str t)"
  shows "printable (truncate_text t w)" "length (utf8_decode (truncate_text t w)) \<le> max w 1"
proof -
  let ?cs = "utf8_decode (safe_str t)"
  have scalars: "list_all is_scalar ?cs" using assms by (simp add: printable_def utf8_valid_def)
  have good: "\<not> hostile c" if "c \<in> set ?cs" for c using assms that by (simp add: printable_def)
  have e: "is_scalar ELLIPSIS" "\<not> hostile ELLIPSIS"
    by (simp_all add: ELLIPSIS_def is_scalar_def hostile_def is_control_def bidi_control_def invisible_def)
  have "printable (utf8_encode ms) \<and> utf8_decode (utf8_encode ms) = ms"
    if "set ms \<subseteq> insert ELLIPSIS (set ?cs)" for ms
  proof -
    have "list_all is_scalar ms" using that scalars e(1) by (auto simp: list_all_iff)
    with that good e(2) show ?thesis by (auto simp: printable_def utf8_valid_encode)
  qed
  note encoded = this
  have "set (take (w - 1) (take w ?cs) @ [ELLIPSIS]) \<subseteq> insert ELLIPSIS (set ?cs)"
    "set (take w ?cs) \<subseteq> insert ELLIPSIS (set ?cs)"
    by (auto dest: in_set_takeD)
  note encoded [OF this(1)] encoded [OF this(2)]
  then show "printable (truncate_text t w)" "length (utf8_decode (truncate_text t w)) \<le> max w 1"
    by (auto simp: truncate_text_def Let_def min_def)
qed

lemma pad_right_length:
  assumes "utf8_valid s" "length (utf8_decode s) \<le> w"
  shows "length (utf8_decode (pad_right w s)) = w"
proof -
  have "list_all (\<lambda>c. byte c < 128) (replicate n CHR '' '')" for n by (simp add: list_all_iff)
  from utf8_decode_ascii [OF this] show ?thesis
    using assms(2) by (simp add: pad_right_def utf8_decode_append [OF assms(1)])
qed

text \<open>
  Whatever a sender wrote, the line that a message is listed as is only printed by a
  terminal, and its sender takes up exactly 28 characters, cut with an ellipsis or filled.
\<close>

lemma inbox_line_harmless:
  assumes "utf8_valid (header_str (env_from e))" "utf8_valid (header_str (env_subject e))"
  shows "printable (inbox_line e) \<and> length (utf8_decode (sender_column e)) = 28"
proof -
  note safe = assms [THEN decode_single_line(2)]
  note cut = truncate_printable [OF safe(1), of 28]
  have column: "printable (sender_column e)"
    unfolding sender_column_def pad_right_def by (intro printable_append cut(1) printable_spaces)
  have "printable ''*''" "printable '' ''" "printable ''  ''" by (rule printable_ascii, simp)+
  then have "printable (inbox_line e)"
    unfolding inbox_line_def
    by (intro printable_append printable_format_utc safe(2) column) simp_all
  moreover have "utf8_valid (truncate_text (safe_single_line (header_str (env_from e))) 28)"
    using cut(1) by (simp add: printable_def)
  ultimately show ?thesis using pad_right_length cut(2) by (simp add: sender_column_def)
qed

text \<open>A sender that tries to reverse the line and to hide text.\<close>

definition hostile_envelope :: message_envelope where
  "hostile_envelope = \<lparr>env_message_id = MessageId ''m1'', env_thread_id = ThreadId ''t1'',
     env_from = HeaderText (utf8_encode ([0x202e, 0x200b] @ replicate 30 97)),
     env_subject = HeaderText ''hi'', env_preview = HeaderText [],
     env_received_at = UnixTimestampMillis 0, env_unread = True\<rparr>"

lemma hostile_line:
  "inbox_line hostile_envelope
    = ''* 1970-01-01 00:00  '' @ replicate 27 CHR ''a'' @ utf8_encode [0x2026] @ ''  hi''"
  by code_simp

end
