(* ===== verification/Commands.thy ===== *)
theory Commands
  imports Flows Command_Line Unlocking
begin

text \<open>
  The commands over an open installation (\<^verbatim>\<open>apps/tersa/src/commands.rs\<close>): what each calls,
  prints and returns. A line goes to the standard output or to the error stream; an early error
  is the message of a command that has printed nothing. The OAuth client of the configuration,
  building the token transport and starting the async runtime are answers of the environment.
\<close>

datatype line = Out (line_text: string) | Err (line_text: string)

type_synonym 'a cmd = "(string, 'a) inst_flow"

record cmd_env =
  ce_client :: "string + (string \<times> string option)"
  ce_transport_builds :: bool
  ce_executor :: "string + unit"

definition NO_ACCOUNTS_YET :: string where "NO_ACCOUNTS_YET = ''No accounts yet. Run `tersa account add`.''"

definition all_accounts :: "inst_env \<Rightarrow> account_id list cmd" where
  "all_accounts env = flow_err installation_error_text (on_env (installation_accounts env))"

definition resolve_account :: "inst_env \<Rightarrow> string \<Rightarrow> account_id cmd" where
  "resolve_account env raw =
     flow_bind (all_accounts env) (\<lambda>accounts. flow_result (resolve_among accounts raw))"

definition runtime_of :: "cmd_env \<Rightarrow> string + broker_config" where
  "runtime_of ce =
     rbind (ce_client ce) (\<lambda>(client_id, client_secret).
       map_err flow_error_text (runtime_new (ce_transport_builds ce) client_id client_secret))"

definition describe_report :: "sync_report \<Rightarrow> string" where
  "describe_report report =
     (let progress = report_progress report
      in show_nat (pr_envelopes progress) @ '' messages, '' @ show_nat (pr_bodies_cached progress) @ '' bodies cached'')"

section \<open>Adding, listing, removing\<close>

definition added_lines :: "added_account \<Rightarrow> line list" where
  "added_lines added =
     [if ad_already_present added
      then Out (''Account '' @ account_id_str (ad_account added) @ '' was already added; its access was renewed.'')
      else Out (''Added account '' @ account_id_str (ad_account added) @ ''.''),
      case ad_first_sync added of
        Inr report \<Rightarrow> Out (''First sync: '' @ describe_report report @ ''.'')
      | Inl err \<Rightarrow> Err (''The first sync failed: '' @ flow_error_text err @ ''. Run `tersa sync` to retry.'')]"

definition account_add ::
    "cmd_env \<Rightarrow> inst_env \<Rightarrow> flow_ports \<Rightarrow> installation conn broker_ports \<Rightarrow> line list cmd" where
  "account_add ce env fp p =
     flow_bind (flow_result (runtime_of ce)) (\<lambda>cfg.
     flow_bind (flow_result (ce_executor ce)) (\<lambda>_.
     flow_bind (flow_err flow_error_text (add_account env fp (runtime_ports env fp p) cfg)) (\<lambda>added.
       flow_result (Inr (added_lines added)))))"

definition account_list :: "inst_env \<Rightarrow> line list cmd" where
  "account_list env =
     flow_bind (all_accounts env) (\<lambda>accounts.
       flow_result (Inr ((if accounts = [] then [Out NO_ACCOUNTS_YET] else [])
         @ map (\<lambda>account. Out (account_id_str account)) accounts)))"

definition account_remove ::
    "cmd_env \<Rightarrow> inst_env \<Rightarrow> flow_ports \<Rightarrow> installation conn broker_ports \<Rightarrow> string \<Rightarrow> line list cmd" where
  "account_remove ce env fp p raw =
     flow_bind (resolve_account env raw) (\<lambda>account.
     flow_bind (flow_result (runtime_of ce)) (\<lambda>cfg.
     flow_bind (flow_result (ce_executor ce)) (\<lambda>_.
     flow_bind (flow_err flow_error_text (remove_account env (runtime_ports env fp p) account)) (\<lambda>outcome.
       flow_result (Inr (Out (''Removed account '' @ account_id_str account @ '' and its local data.'')
         # (if outcome = Unconfirmed
            then [Err ''Google did not confirm revoking access. You can revoke it at https://myaccount.google.com/permissions'']
            else [])))))))"

section \<open>Synchronising\<close>

text \<open>Every account in turn, whatever became of the ones before it; the failures are counted.\<close>

fun sync_each ::
    "inst_env \<Rightarrow> flow_ports \<Rightarrow> installation conn broker_ports \<Rightarrow> broker_config \<Rightarrow> account_id list
      \<Rightarrow> inst_world \<Rightarrow> (nat \<times> line list) \<times> inst_world" where
  "sync_each env fp p cfg [] w = ((0, []), w)"
| "sync_each env fp p cfg (account # accounts) w =
     (case sync_account env fp p cfg account w of
        (r, w1) \<Rightarrow>
          (case sync_each env fp p cfg accounts w1 of
             ((failures, lines), w2) \<Rightarrow>
               (case r of
                  Inr report \<Rightarrow>
                    ((failures, Out (account_id_str account @ '': '' @ describe_report report) # lines), w2)
                | Inl err \<Rightarrow>
                    ((failures + 1, Err (account_id_str account @ '': '' @ flow_error_text err) # lines), w2))))"

definition sync_outcome :: "account_id list \<Rightarrow> nat \<times> line list \<Rightarrow> line list \<times> (string + unit)" where
  "sync_outcome accounts y =
     (snd y, if fst y = 0 then Inr ()
             else Inl (show_nat (fst y) @ '' of '' @ show_nat (length accounts) @ '' accounts failed to sync''))"

definition sync_command ::
    "cmd_env \<Rightarrow> inst_env \<Rightarrow> flow_ports \<Rightarrow> installation conn broker_ports \<Rightarrow> string option
      \<Rightarrow> (line list \<times> (string + unit)) cmd" where
  "sync_command ce env fp p raw =
     flow_bind (case raw of
        Some name \<Rightarrow> flow_bind (resolve_account env name) (\<lambda>account. flow_result (Inr [account]))
      | None \<Rightarrow> all_accounts env) (\<lambda>accounts.
     if accounts = [] then flow_result (Inr ([Out NO_ACCOUNTS_YET], Inr ()))
     else
       flow_bind (flow_result (runtime_of ce)) (\<lambda>cfg.
       flow_bind (flow_result (ce_executor ce)) (\<lambda>_ w.
         case sync_each env fp (runtime_ports env fp p) cfg accounts w of
           (y, w1) \<Rightarrow> (Inr (sync_outcome accounts y), w1))))"

section \<open>The inbox\<close>

definition inbox_account :: "inst_env \<Rightarrow> string option \<Rightarrow> account_id cmd" where
  "inbox_account env raw =
     (case raw of
        Some name \<Rightarrow> resolve_account env name
      | None \<Rightarrow>
          flow_bind (all_accounts env) (\<lambda>accounts.
            flow_result (case accounts of account # _ \<Rightarrow> Inr account | [] \<Rightarrow> Inl NO_ACCOUNTS)))"

definition inbox_lines :: "message_envelope list \<Rightarrow> line list" where
  "inbox_lines envelopes =
     (if envelopes = [] then [Out ''No cached mail. Run `tersa sync`.''] else []) @ map (Out \<circ> inbox_line) envelopes"

definition inbox_command :: "cmd_env \<Rightarrow> inst_env \<Rightarrow> string option \<Rightarrow> nat \<Rightarrow> line list cmd" where
  "inbox_command ce env raw limit =
     flow_bind (inbox_account env raw) (\<lambda>account.
     flow_bind (flow_err installation_error_text (on_env (open_store env account))) (\<lambda>_.
     flow_bind (flow_result (map_err (\<lambda>_. ''invalid limit'') (store_limit_new limit))) (\<lambda>limit.
     flow_bind (flow_result (ce_executor ce)) (\<lambda>_.
     flow_bind (flow_err (\<lambda>_. ''could not read the local mailbox'')
         (store_call env account (store_list_envelopes (ie_faults env) account account limit))) (\<lambda>envelopes.
       flow_result (Inr (inbox_lines envelopes)))))))"

section \<open>What is printed\<close>

lemma flow_result_iff: "flow_result r w = (q, w') \<longleftrightarrow> r = q \<and> w' = w"
  by (auto simp: flow_result_def)

lemma flow_bind_Inr:
  assumes "flow_bind m f w = (Inr b, w')"
  obtains a w1 where "m w = (Inr a, w1)" "f a w1 = (Inr b, w')"
  using assms by (auto simp: flow_bind_def split: prod.splits sum.splits)

lemma flow_err_Inr: "flow_err g m w = (Inr a, w') \<longleftrightarrow> m w = (Inr a, w')"
  by (cases "m w") (auto simp: flow_err_def)

lemma on_env_Inr: "on_env m w = (r, w') \<Longrightarrow> \<exists>e. m (bw_env w) = (r, e) \<and> w' = w\<lparr>bw_env := e\<rparr>"
  by (auto simp: on_env_def split: prod.splits)

text \<open>A readable row has sound header texts, whatever else is in it.\<close>

definition headers_ok :: "message_envelope \<Rightarrow> bool" where
  "headers_ok e \<longleftrightarrow> header_ok (env_from e) \<and> header_ok (env_subject e)"

lemma envelope_headers: "envelope_from_row r = Inr e \<Longrightarrow> headers_ok e"
  unfolding envelope_from_row_def
  by (elim rbind_Inr_elim) (auto dest!: column_text simp: headers_ok_def header_ok_def)

lemma read_rows_headers:
  assumes "read_rows fault rows c = (Inr es, c')"
  shows "list_all headers_ok es \<and> length es = length rows"
  using assms
proof (induction rows arbitrary: c es c')
  case Nil
  then show ?case by (auto simp: db_bind_Inr_iff)
next
  case (Cons r rows)
  from Cons.prems obtain c1 e rest c2 where "envelope_from_row r = Inr e"
    "read_rows fault rows c1 = (Inr rest, c2)" "es = e # rest"
    by (auto simp: db_bind_Inr_iff)
  then show ?case using Cons.IH envelope_headers by auto
qed

lemma list_envelopes_headers:
  assumes "store_list_envelopes fault own account limit c = (Inr es, c')"
  shows "list_all headers_ok es \<and> length es \<le> store_limit_get limit"
proof -
  have "list_envelopes fault None limit c = (Inr es, c')"
    using assms by (simp add: store_list_envelopes_def for_account_Inr)
  then obtain c1 c2 c3 rows where
    q: "query_row store_error fault (\<lambda>d :: db. Inr (selected_rows None limit (db_messages d))) c1 = (Inr rows, c2)"
    and rr: "read_rows fault rows c3 = (Inr es, c')"
    unfolding list_envelopes_def by (auto simp: db_bind_Inr_iff elim!: with_connection_Inr)
  have "length rows \<le> store_limit_get limit" using query_row_Inr [OF q] by (auto simp: selected_rows_def)
  then show ?thesis using read_rows_headers [OF rr] by simp
qed

text \<open>
  C24. Whatever a provider delivered or a store holds, tampered or not, the inbox prints only lines
  that a terminal prints as they are: no control character, nothing that reorders or hides
  text. There is one line for each listed message, at most the limit, which lies within the
  store's bounds, and each has its sender in a column of 28 characters.
\<close>

theorem inbox_prints_only_harmless_lines:
  "case inbox_command ce env raw limit w of
     (Inr lines, w') \<Rightarrow>
       list_all (\<lambda>l. printable (line_text l)) lines \<and> 1 \<le> limit \<and> limit \<le> STORE_LIMIT_MAX
       \<and> (\<exists>es. lines = inbox_lines es \<and> length es \<le> limit
            \<and> list_all (\<lambda>e. length (utf8_decode (sender_column e)) = 28) es)
   | (Inl _, _) \<Rightarrow> True"
proof -
  have "list_all (\<lambda>l. printable (line_text l)) lines \<and> 1 \<le> limit \<and> limit \<le> STORE_LIMIT_MAX
       \<and> (\<exists>es. lines = inbox_lines es \<and> length es \<le> limit
            \<and> list_all (\<lambda>e. length (utf8_decode (sender_column e)) = 28) es)"
    if run: "inbox_command ce env raw limit w = (Inr lines, w')" for lines w'
  proof -
    obtain account es w1 w2 l where
      l: "store_limit_new limit = Inr l" and
      list: "store_call env account (store_list_envelopes (ie_faults env) account account l) w1 = (Inr es, w2)"
      and lines: "lines = inbox_lines es"
      using run unfolding inbox_command_def
      by (elim flow_bind_Inr) (auto simp: flow_result_iff flow_err_Inr)
    obtain c c' where "store_list_envelopes (ie_faults env) account account l c = (Inr es, c')"
      using on_env_Inr [OF list [unfolded store_call_def]] by (auto simp: on_part_def split: prod.splits)
    note es = list_envelopes_headers [OF this]
    have each: "printable (inbox_line e) \<and> length (utf8_decode (sender_column e)) = 28" if "e \<in> set es" for e
      using es that inbox_line_harmless [of e] by (auto simp: list_all_iff headers_ok_def header_ok_def)
    have "printable ''No cached mail. Run `tersa sync`.''" by (rule printable_ascii) simp
    then have "list_all (\<lambda>l. printable (line_text l)) lines"
      using each by (auto simp: lines inbox_lines_def list_all_iff)
    with each es l lines show ?thesis by (auto simp: list_all_iff store_limit_ok_def)
  qed
  then show ?thesis by (auto split: prod.splits sum.splits)
qed

section \<open>Every account is synchronised\<close>

lemma sync_each_lines:
  "sync_each env fp p cfg accounts w = ((failures, lines), w') \<Longrightarrow>
    list_all2 (\<lambda>account l. prefix (account_id_str account @ '': '') (line_text l)) accounts lines
    \<and> failures = length (filter (\<lambda>l. case l of Err _ \<Rightarrow> True | Out _ \<Rightarrow> False) lines)"
  by (induction accounts arbitrary: w failures lines) (force split: prod.splits sum.splits)+

end
