(* ===== verification/Configuration.thy ===== *)
theory Configuration
  imports Vault Command_Line
begin

text \<open>
  The configuration of the command line (\<^verbatim>\<open>apps/tersa/src/config.rs\<close>): where its directories
  are, and what the file and the environment say. The TOML parser is a parameter that gives the
  two sections or a message; environment variables and the file are answers. An \<open>OsString\<close> is
  its bytes, and \<open>env::var\<close> gives only well-formed text. The escapes of Debug output are left out.
\<close>

definition CONFIG_FILE :: string where "CONFIG_FILE = ''config.toml''"
definition CONFIG_LIMIT :: nat where "CONFIG_LIMIT = 64 * 1024"

type_synonym os_env = "string \<Rightarrow> string option"

record paths =
  pa_config_dir :: string
  pa_data_dir :: string

text \<open>\<open>Path::join\<close> of a relative name.\<close>

definition join_path :: "string \<Rightarrow> string \<Rightarrow> string" where
  "join_path base name = (if base \<noteq> [] \<and> last base = CHR ''/'' then base @ name else base @ ''/'' @ name)"

definition is_absolute :: "string \<Rightarrow> bool" where
  "is_absolute path \<longleftrightarrow> prefix ''/'' path"

definition absolute_env :: "os_env \<Rightarrow> string \<Rightarrow> string option" where
  "absolute_env vars name =
     (case vars name of Some path \<Rightarrow> if is_absolute path then Some path else None | None \<Rightarrow> None)"

definition resolve_dir :: "os_env \<Rightarrow> string \<Rightarrow> string \<Rightarrow> string \<Rightarrow> string + string" where
  "resolve_dir vars override_var xdg_var home_relative =
     (case absolute_env vars override_var of
        Some path \<Rightarrow> Inr path
      | None \<Rightarrow>
          (case absolute_env vars xdg_var of
             Some base \<Rightarrow> Inr (join_path base ''tersa'')
           | None \<Rightarrow>
               map_ok (\<lambda>home. join_path (join_path home home_relative) ''tersa'')
                 (ok_or ''HOME is not set to an absolute path'' (absolute_env vars ''HOME''))))"

definition discover_paths :: "os_env \<Rightarrow> string + paths" where
  "discover_paths vars =
     rbind (resolve_dir vars ''TERSA_CONFIG_DIR'' ''XDG_CONFIG_HOME'' ''.config'') (\<lambda>config_dir.
     rbind (resolve_dir vars ''TERSA_DATA_DIR'' ''XDG_DATA_HOME'' ''.local/share'') (\<lambda>data_dir.
       Inr \<lparr>pa_config_dir = config_dir, pa_data_dir = data_dir\<rparr>))"

definition config_file :: "paths \<Rightarrow> string" where
  "config_file p = join_path (pa_config_dir p) CONFIG_FILE"

record file_config =
  fc_client_id :: "string option"
  fc_client_secret :: "string option"
  fc_backend :: "string option"
  fc_passphrase :: "bool option"

definition default_file_config :: file_config where
  "default_file_config = \<lparr>fc_client_id = None, fc_client_secret = None, fc_backend = None, fc_passphrase = None\<rparr>"

record config =
  cf_client_id :: "string option"
  cf_client_secret :: "string option"
  cf_backend :: backend_choice
  cf_passphrase :: bool
  cf_file_found :: bool

text \<open>The size is checked before the text is read; reading fails for text that is ill-formed.\<close>

definition read_bounded :: "io_kind + nat \<Rightarrow> io_kind + string \<Rightarrow> io_kind + string" where
  "read_bounded len contents =
     rbind len (\<lambda>n. if n > CONFIG_LIMIT then Inl (IoKind ''the configuration file is too large'') else contents)"

definition backend_of :: "string \<Rightarrow> string option \<Rightarrow> string + backend_choice" where
  "backend_of path choice =
     (case choice of
        None \<Rightarrow> Inr BackendAuto
      | Some name \<Rightarrow>
          if name = ''auto'' then Inr BackendAuto
          else if name = ''keyring'' then Inr BackendKeyring
          else if name = ''file'' then Inr BackendFile
          else Inl (path @ '': vault.backend must be \"auto\", \"keyring\", or \"file\", not \"'' @ name @ ''\"''))"

definition utf8_var :: "os_env \<Rightarrow> string \<Rightarrow> string option" where
  "utf8_var vars name =
     (case vars name of Some v \<Rightarrow> if utf8_valid v then Some v else None | None \<Rightarrow> None)"

text \<open>The variable before the file, and then nothing for a blank value.\<close>

definition setting :: "os_env \<Rightarrow> string \<Rightarrow> string option \<Rightarrow> string option" where
  "setting vars name from_file =
     (case (case utf8_var vars name of Some v \<Rightarrow> Some v | None \<Rightarrow> from_file) of
        Some v \<Rightarrow> if str_trim v \<noteq> [] then Some v else None
      | None \<Rightarrow> None)"

definition config_load ::
    "(string \<Rightarrow> string + file_config) \<Rightarrow> os_env \<Rightarrow> string \<Rightarrow> io_kind + string \<Rightarrow> string + config" where
  "config_load toml vars path contents =
     rbind (case contents of
        Inr txt \<Rightarrow> map_ok (\<lambda>f. (f, True)) (map_err (\<lambda>msg. path @ '': '' @ msg) (toml txt))
      | Inl IoNotFound \<Rightarrow> Inr (default_file_config, False)
      | Inl err \<Rightarrow> Inl (path @ '': '' @ io_kind_text err)) (\<lambda>(f, found).
     rbind (backend_of path (fc_backend f)) (\<lambda>backend.
       Inr \<lparr>cf_client_id = setting vars ''TERSA_GOOGLE_CLIENT_ID'' (fc_client_id f),
            cf_client_secret = setting vars ''TERSA_GOOGLE_CLIENT_SECRET'' (fc_client_secret f),
            cf_backend = backend,
            cf_passphrase = (case fc_passphrase f of Some b \<Rightarrow> b | None \<Rightarrow> False),
            cf_file_found = found\<rparr>))"

definition newline_char :: string where "newline_char = [CHR 0x0A]"

definition oauth_client :: "config \<Rightarrow> string \<Rightarrow> string + (string \<times> string option)" where
  "oauth_client c path =
     map_ok (\<lambda>client_id. (client_id, cf_client_secret c))
       (ok_or (''no Google OAuth client configured. Create a \"Desktop app\" OAuth client in Google Cloud Console (Gmail API enabled), then add to ''
          @ path @ '':'' @ newline_char @ newline_char @ ''[google]'' @ newline_char @ ''client_id = \"''
          @ utf8_encode [0x2026] @ ''.apps.googleusercontent.com\"'' @ newline_char
          @ ''client_secret = \"'' @ utf8_encode [0x2026] @ ''\"'')
         (cf_client_id c))"

section \<open>What is loaded\<close>

text \<open>Relative values are ignored: every directory found is absolute.\<close>

lemma ok_or_found: "ok_or e found = Inr a \<longleftrightarrow> found = Some a"
  by (cases found) auto

lemma join_path_absolute: "is_absolute base \<Longrightarrow> is_absolute (join_path base name)"
  by (auto simp: is_absolute_def join_path_def prefix_def)

lemma resolve_dir_absolute: "resolve_dir vars o_var x_var rel = Inr path \<Longrightarrow> is_absolute path"
  by (auto simp: resolve_dir_def absolute_env_def result_simps ok_or_found
      intro!: join_path_absolute split: option.splits if_splits)

lemma discovered_paths_absolute:
  "discover_paths vars = Inr p \<Longrightarrow>
    is_absolute (pa_config_dir p) \<and> is_absolute (pa_data_dir p) \<and> is_absolute (config_file p)"
  by (auto simp: discover_paths_def result_simps config_file_def
      intro!: join_path_absolute dest: resolve_dir_absolute)

text \<open>A missing file gives the defaults; a client that is configured is never blank.\<close>

lemma missing_file_loads: "is_ok (config_load toml vars path (Inl IoNotFound))"
  by (simp add: config_load_def default_file_config_def backend_of_def)

lemma oauth_client_not_blank:
  assumes "config_load toml vars path contents = Inr c" "oauth_client c file = Inr (i, s)"
  shows "str_trim i \<noteq> []" "s = Some secret \<Longrightarrow> str_trim secret \<noteq> []"
  using assms
  by (auto simp: config_load_def result_simps oauth_client_def setting_def ok_or_found
      split: option.splits if_splits)

section \<open>Running a command\<close>

text \<open>\<open>main\<close>: exit code 2 for arguments that are no command, 1 for a command that fails.\<close>

definition exit_code :: "(command \<Rightarrow> string + unit) \<Rightarrow> string list \<Rightarrow> nat" where
  "exit_code run arguments =
     (case parse_arguments arguments of
        Inl _ \<Rightarrow> 2
      | Inr command \<Rightarrow> (case run command of Inr _ \<Rightarrow> 0 | Inl _ \<Rightarrow> 1))"

end
