(* ===== verification/Spec2Isabelle.thy ===== *)
theory Spec2Isabelle
  imports Sync_Props Sync_Gate Broker_Props Broker_State Store_Registry Open_Props Open_Serving Root_Keys Broker_Store Flow_Removal
    Vault_Props Mailbox_View_Props Unlocking_Props Commands Configuration
begin

text \<open>
  A verification development for \<^verbatim>\<open>tersa\<close>, a privacy-first Gmail client for the terminal, written
  in Rust. File names are relative to \<^verbatim>\<open>src/\<close>.

  \<^bold>\<open>The program.\<close> A user signs in with Google in the browser; the program keeps a refresh
  token and a bounded copy of recent mail in one encrypted SQLite database per account, below a
  data directory that one installation root key protects. Its parts call each other as follows.
  An account flow (\<^verbatim>\<open>sync-runtime/flows.rs\<close>) asks the token broker for an access token, opens
  the account's store through the installation and hands both to the identity gate, which
  compares the signed-in identity with the one on record before it lets the synchronisation
  coordinator write. The coordinator lists and fetches through the Gmail adapter and writes
  through the store under a fence that repeats the identity check inside the transaction.
  The broker keeps its credentials in the stores of the installation, gets them through an
  OAuth session answered at a loopback listener, and revokes them at the provider.

  \<^bold>\<open>Conventions.\<close> A \<open>Result<T, E>\<close> is \<open>'e + 'a\<close> with \<open>Inl\<close> the error; a \<open>String\<close> and a
  byte vector are \<open>char list\<close>s, one \<open>char\<close> for each byte, so a length is a byte length; a
  newtype with a validating constructor is a one-constructor datatype, its constructor a
  function into a sum. Effects are functions on an explicit world. Every call to the database
  engine or the file system may fail: a fault function of the call's number decides. An await
  is a call whose answer and whose world afterwards are both arbitrary, so what other
  operations do meanwhile is part of it. Rust's closed error enums keep their constructors.

  \<^bold>\<open>Theories and code.\<close>

  \<^item> \<open>Tersa_Prelude\<close>: results as sums, UTF-8, the byte classes of the validators, a stable sort
    by a given order; the fact collections of the development.
  \<^item> \<open>Domain_Mailbox\<close> is \<^verbatim>\<open>crates/domain/src/mailbox.rs\<close>: identifiers, timestamps, header text,
    envelopes and messages with their constructors. \<open>App_Mailbox\<close> is the mailbox contract of
    \<^verbatim>\<open>crates/application/src/{mailbox,identity,lifecycle}.rs\<close>.
  \<^item> \<open>Sync_Core\<close>, \<open>Sync_Props\<close> are \<^verbatim>\<open>crates/application/src/sync.rs\<close>: the policy, the listing
    loop, the snapshot, the fetch loop, and the coordinator, whose set of active accounts is part
    of the world that its tasks share. Lemmas: counters and requests stay bounded, the snapshot
    is the list of first occurrences, and a cycle makes its calls in states that refuse another
    cycle of its account, whatever starts and ends while it awaits.
  \<^item> \<open>Sql_Backend\<close>, \<open>Store_Sql\<close>, \<open>Store_Mailbox\<close> are the open store of
    \<^verbatim>\<open>adapters/store-sqlcipher/src/lib.rs\<close>: storage classes, typed reads, transactions, and every
    statement over the tables of the migration. \<open>Store_Laws\<close> shows atomicity of every
    operation and the contract of the fenced writes; \<open>Store_Props\<close> the schema invariant over
    runs of commands, sticky local reads, cached bodies, reconciliation, purge; \<open>Store_Reads\<close>
    ordered listings and round trips; \<open>Store_Identity\<close> the compare-and-set of the identity and
    the refinement of the lifecycle row. \<open>Samples\<close> holds concrete inputs for the witnesses.
  \<^item> \<open>Open_Validate\<close>, \<open>Leaf_Files\<close>, \<open>Open_Files\<close> are the opening of an account database in the
    same file: keying and checks, the four directory entries with their identities, the preflight
    on a private copy, the writer open and the read-only open. \<open>Open_Props\<close> shows which
    files are accepted, \<open>Open_Safety\<close> that only files it created are removed, under arbitrary
    interference, \<open>Open_Serving\<close> what a success serves and that the read-only open never writes.
  \<^item> \<open>Store_Registry\<close> is \<^verbatim>\<open>adapters/store-sqlcipher/src/registry.rs\<close>.
  \<^item> \<open>Root_Keys\<close> is \<^verbatim>\<open>crates/keys/src/lib.rs\<close>: purpose-bound derivation from length-framed
    inputs and the passphrase-wrapped format.
  \<^item> \<open>OAuth_Session\<close> is \<^verbatim>\<open>crates/application/src/oauth.rs\<close>, \<open>Token_Flow\<close> is
    \<^verbatim>\<open>crates/application/src/token.rs\<close>.
  \<^item> \<open>Broker\<close> is \<^verbatim>\<open>adapters/token-broker-core/src\<close>. \<open>Broker_Props\<close> determines the calls of every
    operation by recording ports (for a refresh the exact trace), \<open>Broker_State\<close> the permits and the session registry,
    \<open>Broker_Store\<close> what the calls leave stored, \<open>Broker_Erase\<close> that recording changes nothing.
  \<^item> \<open>Sync_Gate\<close> is \<^verbatim>\<open>adapters/sync-runtime/src/gate.rs\<close>: the bounded compare-and-set loop and
    the gated synchronisation.
  \<^item> \<open>Gmail_Rest\<close>, \<open>Gmail_Props\<close> are \<^verbatim>\<open>adapters/gmail-rest/src/lib.rs\<close>: bounded reads, status
    mapping, hydration; results are well-formed whatever the provider answers.
  \<^item> \<open>Loopback\<close> is \<^verbatim>\<open>adapters/sync-runtime/src/loopback.rs\<close>, with a specification of the
    request that it answers that does not use its parser.
  \<^item> \<open>Installation\<close>, \<open>Installation_Props\<close> are \<^verbatim>\<open>adapters/sync-runtime/src/installation.rs\<close>: the
    registry and one store per account, and the token store the broker uses.
  \<^item> \<open>Flows\<close>, \<open>Flows_Props\<close>, \<open>Flow_Removal\<close> are \<^verbatim>\<open>adapters/sync-runtime/src/{flows,session}.rs\<close>,
    where all of the above is composed; \<open>Flow_Samples\<close> is a concrete installation on which a
    whole sign-in runs. The flows keep every other account's credential and store. A removal takes the one account; its
    broker deletes the credential under the subject that the account's store names, which is of
    another account only where the installation registers that subject for another one. A removal
    cut off half-way is never completed, however often it is tried.
  \<^item> \<open>Vault\<close>, \<open>Vault_Props\<close> are \<^verbatim>\<open>adapters/vault/src/lib.rs\<close>: the root key in the keyring or in
    an owner-only file, with every system call of a replacement. A stored key is never
    replaced by a created one, and a created key is what unlocking returns.
  \<^item> \<open>Data_Dir\<close> is what \<^verbatim>\<open>installation.rs\<close> and \<^verbatim>\<open>registry.rs\<close> do before an installation is open:
    the lock, the look for local data, the owner-only directories, opening or creating the
    registry. \<open>Unlocking\<close> is how a command of \<^verbatim>\<open>apps/tersa/src/commands.rs\<close> gets there, from the
    lock and the vault to the open installation; \<open>Unlocking_Props\<close> shows that it never costs a
    key or a registry and that only adding an account creates anything.
  \<^item> \<open>Mailbox_Search\<close> is \<^verbatim>\<open>crates/application/src/{mailbox_metadata,mailbox_search}.rs\<close>: a search
    is a filtered listing. \<open>Mailbox_View\<close>, \<open>Mailbox_View_Props\<close> are
    \<^verbatim>\<open>crates/presentation/src/mailbox.rs\<close>: the display bodies of a message exist for any bytes of
    a provider, and quoted-printable text is displayed as what it encodes.
  \<^item> \<open>Terminal_Text\<close> is \<^verbatim>\<open>crates/presentation/src/terminal.rs\<close>, \<open>Utc_Dates\<close> is
    \<^verbatim>\<open>apps/tersa/src/dates.rs\<close> with the calendar it computes, \<open>Passphrase_Prompt\<close> is
    \<^verbatim>\<open>apps/tersa/src/prompt.rs\<close> with the editor on characters that it refines, \<open>Command_Line\<close> is
    \<^verbatim>\<open>apps/tersa/src/cli.rs\<close> with the inbox line, \<open>Configuration\<close> is \<^verbatim>\<open>apps/tersa/src/config.rs\<close>,
    and \<open>Commands\<close> the commands over an open installation and what they print.

  \<^bold>\<open>Interfaces.\<close> Where one component relies on another, the contract is a locale and the
  provider's model an interpretation of it: \<open>fenced_store\<close> (what the coordinator relies on;
  \<open>sql\<close> is the SQL store), \<open>identity_store\<close> (what the gate relies on; \<open>sql_gate\<close> is the SQL store
  with a step of other processes between read and write), \<open>token_store\<close> (what the broker
  relies on; \<open>tokens\<close> is the installation), \<open>row_order\<close> (an ORDER BY clause is a total
  preorder; both orders of the store), \<open>movement\<close> (a preorder on states that sequences of
  calls preserve; one interpretation for each frame condition of opening and removal),
  \<open>root_slot\<close> (what the vault relies on; the keyring, the key file, and either of them).

  \<^bold>\<open>Bounds.\<close> The loops of the code are bounded, and the model recurses on the code's own bounds:
  1000 pages of a listing, the survivors of a reconciliation, 4 attempts of the gate, 3 handles
  of the broker, 32 connections and 8 KiB of the loopback listener. No fuel is invented: every
  definition is total and a loop that runs out returns the error that the code returns; only
  asking for a new passphrase may go on forever and is a partial function into an option. Counters
  of the code are shown to stay within their 16 bits; saturating additions are written out.

  \<^bold>\<open>Not modelled.\<close> SQLite and SQLCipher themselves, HKDF, HMAC, Argon2id, XChaCha20-Poly1305,
  SHA-256, base64, the HTTP client, URL building and the JSON decoders that serde derives are
  third-party code and parameters; what a property needs of one is a hypothesis with a
  witness. The zeroising of buffers, redacted Debug impls, serialisation impls, failpoints
  compiled for tests, and the tests themselves are left out. \<^verbatim>\<open>xtask\<close> is
  build tooling. Of the command line the report of \<^verbatim>\<open>doctor\<close> and messages that are no error
  are left out. Unlocking works on the host and the commands on the open installation; that
  the tables of the one are the rows of the other is not stated.
\<close>

end
